(* ===== verification/Prelude.thy ===== *)
theory Prelude
  imports Main "HOL-Library.Word" "HOL-Library.Multiset"
begin

text \<open>
  The types, result values and list facts that the component theories share.

  A Go byte slice is a list of 8-bit words. The \<open>primitives\<close> package declares its hashes,
  addresses and signatures as byte slices and its heights and timestamps as \<open>uint64\<close>; the
  synonyms below keep those names. A Go function that returns \<open>(value, error)\<close> and may also
  panic (a nil dereference, an index out of range, an explicit \<open>panic\<close>) returns a
  \<open>result\<close>, so that each of its three ways to end is a value.
\<close>

type_synonym byte = "8 word"
type_synonym bytes = "byte list"
type_synonym Sha256 = bytes
type_synonym NodeAddress = bytes
type_synonym BlockHeight = "64 word"
type_synonym TimestampNano = "64 word"
type_synonym hasher = "bytes \<Rightarrow> Sha256"

datatype ('e, 'a) result = Ok (the_ok: 'a) | Err 'e | Panic

subsection \<open>Results\<close>

fun bind_result :: "('e, 'a) result \<Rightarrow> ('a \<Rightarrow> ('e, 'b) result) \<Rightarrow> ('e, 'b) result" where
  "bind_result (Ok x) f = f x"
| "bind_result (Err e) f = Err e"
| "bind_result Panic f = Panic"

lemma bind_result_Ok_iff [simp]:
  "bind_result r f = Ok y \<longleftrightarrow> (\<exists>x. r = Ok x \<and> f x = Ok y)"
  by (cases r) auto

lemma bind_result_cong [fundef_cong]:
  "r = r' \<Longrightarrow> (\<And>x. r' = Ok x \<Longrightarrow> f x = g x) \<Longrightarrow> bind_result r f = bind_result r' g"
  by (cases r') auto

subsection \<open>Prefixes of byte slices\<close>

text \<open>\<open>bytes.HasPrefix(s, prefix)\<close> of the standard library, with the arguments in its order.\<close>

definition hasPrefix :: "'a list \<Rightarrow> 'a list \<Rightarrow> bool" where
  "hasPrefix s pre \<longleftrightarrow> take (length pre) s = pre"

lemma hasPrefix_iff: "hasPrefix s pre \<longleftrightarrow> (\<exists>t. s = pre @ t)"
  unfolding hasPrefix_def by (metis append_eq_conv_conj)

lemma hasPrefixE:
  assumes "hasPrefix s pre"
  obtains t where "s = pre @ t"
  using assms by (auto simp: hasPrefix_iff)

lemma hasPrefix_append [simp]: "hasPrefix (pre @ t) pre"
  by (simp add: hasPrefix_def)

lemma hasPrefix_refl [simp]: "hasPrefix s s"
  by (simp add: hasPrefix_def)

lemma hasPrefix_Nil [simp]: "hasPrefix s []"
  by (simp add: hasPrefix_def)

lemma hasPrefix_Cons [simp]:
  "hasPrefix (x # s) (y # t) \<longleftrightarrow> x = y \<and> hasPrefix s t"
  by (auto simp: hasPrefix_def)

lemma hasPrefix_length: "hasPrefix s pre \<Longrightarrow> length pre \<le> length s"
  by (auto simp: hasPrefix_iff)

text \<open>Two prefixes of one list are comparable.\<close>

lemma hasPrefix_comparable:
  assumes "hasPrefix s a" and "hasPrefix s b"
  shows "hasPrefix a b \<or> hasPrefix b a"
  using assms by (auto simp: hasPrefix_iff append_eq_append_conv2)

lemma not_prefix_split:
  assumes "\<not> hasPrefix s t" and "\<not> hasPrefix t s"
  obtains c a b s' t' where "s = c @ a # s'" and "t = c @ b # t'" and "a \<noteq> b"
  using assms
proof (induction s arbitrary: t thesis)
  case Nil
  then show ?case by simp
next
  case (Cons x s)
  obtain y t0 where t: "t = y # t0"
    using Cons.prems(2,3) by (cases t) auto
  show ?case
  proof (cases "x = y")
    case False
    then show ?thesis using Cons.prems(1)[of "[]" x s y t0] t by simp
  next
    case True
    with Cons.prems t have "\<not> hasPrefix s t0" "\<not> hasPrefix t0 s" by auto
    then obtain c a b s' t' where "s = c @ a # s'" "t0 = c @ b # t'" "a \<noteq> b"
      using Cons.IH by blast
    then show ?thesis using Cons.prems(1)[of "x # c" a s' b t'] True t by simp
  qed
qed

subsection \<open>Bits held one per byte\<close>

text \<open>
  The Merkle package inflates keys to slices that hold one bit per byte, so each element is
  0 or 1.
\<close>

definition bits :: "bytes \<Rightarrow> bool" where
  "bits p \<longleftrightarrow> set p \<subseteq> {0, 1}"

lemma bits_simps [simp]:
  "bits []"
  "bits (x # p) \<longleftrightarrow> (x = 0 \<or> x = 1) \<and> bits p"
  "bits (p @ q) \<longleftrightarrow> bits p \<and> bits q"
  by (auto simp: bits_def)

lemma bits_take [simp]: "bits p \<Longrightarrow> bits (take n p)"
  by (auto simp: bits_def dest: in_set_takeD)

lemma bits_drop [simp]: "bits p \<Longrightarrow> bits (drop n p)"
  by (auto simp: bits_def dest: in_set_dropD)

lemma bits_nth: "bits p \<Longrightarrow> i < length p \<Longrightarrow> p ! i = 0 \<or> p ! i = 1"
  by (auto simp: bits_def dest!: nth_mem)

lemma bit_neq: "a = 0 \<or> a = 1 \<Longrightarrow> b = 0 \<or> b = 1 \<Longrightarrow> a \<noteq> b \<Longrightarrow> (a = 0) = (b = (1::byte))"
  by auto

subsection \<open>Copying and slicing\<close>

text \<open>
  \<open>copy(dst, src)\<close> overwrites the front of \<open>dst\<close> with as much of \<open>src\<close> as fits, and
  \<open>s[a:b]\<close> is the slice from \<open>a\<close> up to, not including, \<open>b\<close>.
\<close>

definition copy_bytes :: "'a list \<Rightarrow> 'a list \<Rightarrow> 'a list" where
  "copy_bytes dst src = take (length dst) src @ drop (length src) dst"

definition slice :: "nat \<Rightarrow> nat \<Rightarrow> 'a list \<Rightarrow> 'a list" where
  "slice a b s = take (b - a) (drop a s)"

lemma length_copy_bytes [simp]: "length (copy_bytes dst src) = length dst"
  by (simp add: copy_bytes_def)

lemma copy_bytes_full [simp]: "length src = length dst \<Longrightarrow> copy_bytes dst src = src"
  by (simp add: copy_bytes_def)

lemma slice_append [simp]: "slice (length a) (length a + length b) (a @ b @ c) = b"
  by (simp add: slice_def)

subsection \<open>Comparing byte slices\<close>

text \<open>\<open>bytes.Compare\<close>: lexicographic, negative, zero or positive.\<close>

fun bytesCompare :: "bytes \<Rightarrow> bytes \<Rightarrow> int" where
  "bytesCompare [] [] = 0"
| "bytesCompare [] (y # ys) = - 1"
| "bytesCompare (x # xs) [] = 1"
| "bytesCompare (x # xs) (y # ys) = (if x < y then - 1 else if y < x then 1 else bytesCompare xs ys)"

lemma bytesCompare_swap: "bytesCompare b a = - bytesCompare a b"
  by (induction a b rule: bytesCompare.induct) auto

lemma bytesCompare_zero: "bytesCompare a b = 0 \<longleftrightarrow> a = b"
  by (induction a b rule: bytesCompare.induct) auto

subsection \<open>Strings\<close>

text \<open>The bytes of a string literal.\<close>

definition str :: "string \<Rightarrow> bytes" where
  "str s = map (\<lambda>c. of_nat (of_char c)) s"

subsection \<open>Searching a slice\<close>

lemma find_SomeD: "find P xs = Some x \<Longrightarrow> x \<in> set xs \<and> P x"
  by (induction xs) (auto split: if_splits)

lemma find_append: "find P (xs @ ys) = (case find P xs of None \<Rightarrow> find P ys | Some x \<Rightarrow> Some x)"
  by (induction xs) auto

lemma find_unique:
  assumes "d \<in> set ds" and "P d" and uniq: "\<And>e. e \<in> set ds \<Longrightarrow> P e \<Longrightarrow> e = d"
  shows "find P ds = Some d"
proof (cases "find P ds")
  case None
  then show ?thesis using assms(1,2) by (auto simp: find_None_iff)
next
  case (Some e)
  then have "e \<in> set ds" "P e" by (auto dest: find_SomeD)
  then show ?thesis using uniq Some by blast
qed

subsection \<open>Words\<close>

lemma unat_ucast_up [simp]:
  "LENGTH('a) \<le> LENGTH('b) \<Longrightarrow> unat (ucast (x :: 'a::len word) :: 'b::len word) = unat x"
  by (simp add: unsigned_ucast_eq take_bit_nat_eq_self
      order_less_le_trans[OF unsigned_less power_increasing[of "LENGTH('a)" "LENGTH('b)" 2]])

lemma unat_of_nat_small: "n < 2 ^ LENGTH('a) \<Longrightarrow> unat (of_nat n :: 'a::len word) = n"
  by (simp add: unat_of_nat take_bit_nat_eq_self)

lemma of_nat_less_iff_small:
  "m < 2 ^ LENGTH('a) \<Longrightarrow> n < 2 ^ LENGTH('a) \<Longrightarrow> (of_nat m :: 'a::len word) < of_nat n \<longleftrightarrow> m < n"
  by (simp add: word_less_nat_alt unat_of_nat_small)

lemma of_nat_eq_iff_small:
  "m < 2 ^ LENGTH('a) \<Longrightarrow> n < 2 ^ LENGTH('a) \<Longrightarrow> (of_nat m :: 'a::len word) = of_nat n \<longleftrightarrow> m = n"
  by (metis unat_of_nat_small)

subsection \<open>Hashing, \<open>crypto/hash\<close>\<close>

definition CalcSha256 :: "hasher \<Rightarrow> bytes list \<Rightarrow> Sha256" where
  "CalcSha256 sha data = sha (concat data)"

definition SHA256_HASH_SIZE_BYTES :: nat where
  "SHA256_HASH_SIZE_BYTES = 32"

subsection \<open>A concrete hash\<close>

text \<open>
  The digest is a parameter of the model. The concrete instances of the theorems use this 32-byte
  stand-in: a one, the front of the input, and zeros.
\<close>

definition demo_sha :: hasher where
  "demo_sha b = copy_bytes (replicate 32 0) (1 # b)"

end
