(* ===== verification/Merkle_Algo.thy ===== *)
theory Merkle_Algo
  imports Prelude
begin

text \<open>
  The shared trie algorithm of the Merkle package, \<open>crypto/merkle/merkle_algo.go\<close>.

  A \<open>*node\<close> is \<open>NilNode\<close> (the nil pointer) or a \<open>Node\<close> with the struct's five fields.
  \<open>insert\<close> works on nodes it has cloned or created during the current batch, and records
  them in the map \<open>sandbox : map[*node]*dirtyNode\<close>. Such a node is owned by one tree only,
  so its entry in the map is kept in the node itself: \<open>n_dirty\<close> is the value that
  \<open>sandbox[n]\<close> holds, \<open>None\<close> for a node that the map has no entry for. A function that
  calls \<open>sandbox.set(parent, arc)\<close> for its caller's node returns a flag saying so.
  A path is the sequence of its bytes. In the code it is a slice, and \<open>collapseOnlyChild\<close> may
  append to it in place; \<open>Merkle_Slices\<close> models that and shows which trees it leaves as they are here.
  The zero hash, \<open>zeroValueHash\<close>, is the argument \<open>z\<close> of the definitions that read it.
\<close>

subsection \<open>Nodes\<close>

datatype dirtyNode = DirtyNode (d_left: bool) (d_right: bool)

datatype node =
    NilNode
  | Node (n_path: bytes) (n_value: Sha256) (n_hash: Sha256) (n_dirty: "dirtyNode option")
      (n_left: node) (n_right: node)

definition GetZeroValueHash :: "hasher \<Rightarrow> Sha256" where
  "GetZeroValueHash sha = sha []"

definition createNode :: "bytes \<Rightarrow> Sha256 \<Rightarrow> node" where
  "createNode path valueHash = Node path valueHash [] None NilNode NilNode"

fun hasValue :: "Sha256 \<Rightarrow> node \<Rightarrow> bool" where
  "hasValue z (Node _ v _ _ _ _) = (z \<noteq> v)"
| "hasValue z NilNode = False"

fun isLeaf :: "node \<Rightarrow> bool" where
  "isLeaf (Node _ _ _ _ l r) = (l = NilNode \<and> r = NilNode)"
| "isLeaf NilNode = False"

fun getChild :: "node \<Rightarrow> byte \<Rightarrow> node" where
  "getChild (Node _ _ _ _ l r) b = (if b = 0 then l else r)"
| "getChild NilNode b = NilNode"

fun setChild :: "node \<Rightarrow> byte \<Rightarrow> node \<Rightarrow> node" where
  "setChild (Node p v h d l r) b c = (if b = 0 then Node p v h d c r else Node p v h d l c)"
| "setChild NilNode b c = NilNode"

fun clone :: "node \<Rightarrow> node" where
  "clone (Node p v h d l r) = Node p v [] None l r"
| "clone NilNode = NilNode"

subsection \<open>The sandbox of dirty nodes\<close>

fun sandbox_init :: "node \<Rightarrow> node" where
  "sandbox_init (Node p v h d l r) = Node p v h (Some (DirtyNode False False)) l r"
| "sandbox_init NilNode = NilNode"

fun mark :: "dirtyNode option \<Rightarrow> byte \<Rightarrow> dirtyNode" where
  "mark None arc = (if arc = 0 then DirtyNode True False else DirtyNode False True)"
| "mark (Some (DirtyNode a b)) arc = (if arc = 0 then DirtyNode True b else DirtyNode a True)"

fun sandbox_set :: "node \<Rightarrow> byte \<Rightarrow> node" where
  "sandbox_set (Node p v h d l r) arc = Node p v h (Some (mark d arc)) l r"
| "sandbox_set NilNode arc = NilNode"

fun setPath :: "node \<Rightarrow> bytes \<Rightarrow> node" where
  "setPath (Node p v h d l r) q = Node q v h d l r"
| "setPath NilNode q = NilNode"

fun setValue :: "node \<Rightarrow> Sha256 \<Rightarrow> node" where
  "setValue (Node p v h d l r) w = Node p w h d l r"
| "setValue NilNode w = NilNode"

fun setHash :: "node \<Rightarrow> Sha256 \<Rightarrow> node" where
  "setHash (Node p v h d l r) w = Node p v w d l r"
| "setHash NilNode w = NilNode"

subsection \<open>Insertion\<close>

text \<open>
  \<open>getOrClone\<close> returns the node to work on and whether it called
  \<open>sandbox.set(parent, arc)\<close>.
\<close>

definition getOrClone :: "node \<Rightarrow> node \<times> bool" where
  "getOrClone current =
     (case n_dirty current of
        Some _ \<Rightarrow> (current, False)
      | None \<Rightarrow> (sandbox_init (clone current), True))"

definition shouldUpdateCurrent :: "node \<Rightarrow> bytes \<Rightarrow> bool" where
  "shouldUpdateCurrent current path \<longleftrightarrow> n_path current = path"

definition shouldUpdateOrCreateChild :: "node \<Rightarrow> bytes \<Rightarrow> bool" where
  "shouldUpdateOrCreateChild current path \<longleftrightarrow> hasPrefix path (n_path current)"

definition shouldCreateParent :: "node \<Rightarrow> bytes \<Rightarrow> bool" where
  "shouldCreateParent current path \<longleftrightarrow> hasPrefix (n_path current) path"

definition createParent :: "node \<Rightarrow> bytes \<Rightarrow> Sha256 \<Rightarrow> node" where
  "createParent current path valueHash =
     (let childArc = n_path current ! length path;
          current' = setPath current (drop (length path + 1) (n_path current));
          newParent = setChild (createNode path valueHash) childArc current'
      in sandbox_set newParent childArc)"

fun lastCommonPathIndex :: "bytes \<Rightarrow> bytes \<Rightarrow> nat" where
  "lastCommonPathIndex (x # xs) (y # ys) = (if x = y then Suc (lastCommonPathIndex xs ys) else 0)"
| "lastCommonPathIndex _ _ = 0"

definition createParentAndSibling :: "Sha256 \<Rightarrow> node \<Rightarrow> bytes \<Rightarrow> Sha256 \<Rightarrow> node" where
  "createParentAndSibling z current path valueHash =
     (let prefixLastIndex = lastCommonPathIndex (n_path current) path;
          newCommonPath = take prefixLastIndex path;
          newCurrentArc = n_path current ! prefixLastIndex;
          current' = setPath current (drop (prefixLastIndex + 1) (n_path current));
          newParent = sandbox_set (setChild (createNode newCommonPath z) newCurrentArc current') newCurrentArc;
          newChild = createNode (drop (prefixLastIndex + 1) path) valueHash;
          newChildArc = path ! prefixLastIndex
      in sandbox_set (setChild newParent newChildArc newChild) newChildArc)"

text \<open>
  \<open>insert\<close> and \<open>updateOrCreateChild\<close> call each other. Both return the node that replaces
  \<open>current\<close>; \<open>insert\<close> also returns whether its \<open>getOrClone\<close> marked the parent. In
  \<open>updateOrCreateChild\<close> the path is longer than the node's own (its caller has ruled out
  equality), so \<open>path[len(current.path)]\<close> is in range; the empty case has no run that
  reaches it.
\<close>

function insert_node :: "Sha256 \<Rightarrow> Sha256 \<Rightarrow> node \<Rightarrow> bytes \<Rightarrow> node \<times> bool"
  and updateOrCreateChild :: "Sha256 \<Rightarrow> node \<Rightarrow> bytes \<Rightarrow> Sha256 \<Rightarrow> node" where
  "insert_node z valueHash current path =
     (let (current', marked) = getOrClone current in
      if shouldUpdateCurrent current' path then (setValue current' valueHash, marked)
      else if shouldUpdateOrCreateChild current' path
        then (updateOrCreateChild z current' path valueHash, marked)
      else if shouldCreateParent current' path
        then (createParent current' path valueHash, marked)
      else (createParentAndSibling z current' path valueHash, marked))"
| "updateOrCreateChild z current path valueHash =
     (if \<not> hasValue z current \<and> isLeaf current
      then setValue (setPath current path) valueHash
      else case drop (length (n_path current)) path of
        [] \<Rightarrow> current
      | childArc # childPath \<Rightarrow>
          (if getChild current childArc \<noteq> NilNode
           then (let (child', marked) = insert_node z valueHash (getChild current childArc) childPath;
                     current' = (if marked then sandbox_set current childArc else current)
                 in setChild current' childArc child')
           else if valueHash = z then current
           else sandbox_set (setChild current childArc (createNode childPath valueHash)) childArc))"
  by pat_completeness auto
termination
proof (relation "measure (case_sum (\<lambda>(z, v, c, p). 2 * length p + 1) (\<lambda>(z, c, p, v). 2 * length p))",
    goal_cases)
  case (3 z current path valueHash arc childPath)
  then have "length (arc # childPath) \<le> length path"
    by (metis length_drop diff_le_self)
  then show ?case by simp
qed auto

declare insert_node.simps [simp del] updateOrCreateChild.simps [simp del]

subsection \<open>Collapsing and hashing\<close>

definition collapseOnlyChild :: "node \<Rightarrow> byte \<Rightarrow> node" where
  "collapseOnlyChild current onlyChild =
     (let child = getChild current onlyChild;
          combinedPath = (n_path current @ [onlyChild]) @ n_path child
      in setPath (clone child) combinedPath)"

text \<open>
  \<open>finishNode\<close> is the second half of \<open>collapseAndHash\<close>, after the dirty children have been
  collapsed: prune, merge with an only child, hash. A child that the sandbox marks is never
  nil, so the nil case of \<open>collapseAndHash\<close> is not reached from \<open>collapseDirtyChildren\<close>.
\<close>

definition finishNode :: "Sha256 \<Rightarrow> (node \<Rightarrow> Sha256) \<Rightarrow> node \<Rightarrow> node" where
  "finishNode z f current =
     (if \<not> hasValue z current \<and> isLeaf current then NilNode
      else (let current' =
              (if \<not> hasValue z current \<and> n_left current \<noteq> NilNode \<and> n_right current = NilNode
               then collapseOnlyChild current 0
               else if \<not> hasValue z current \<and> n_left current = NilNode \<and> n_right current \<noteq> NilNode
               then collapseOnlyChild current 1
               else current)
            in setHash current' (f current')))"

function collapseAndHash :: "Sha256 \<Rightarrow> (node \<Rightarrow> Sha256) \<Rightarrow> node \<Rightarrow> node"
  and collapseDirtyChildren :: "Sha256 \<Rightarrow> (node \<Rightarrow> Sha256) \<Rightarrow> node \<Rightarrow> node" where
  "collapseAndHash z f current =
     (if current = NilNode then NilNode
      else finishNode z f (if \<not> isLeaf current then collapseDirtyChildren z f current else current))"
| "collapseDirtyChildren z f (Node p v h (Some d) l r) =
     Node p v h (Some d) (if d_left d then collapseAndHash z f l else l)
                         (if d_right d then collapseAndHash z f r else r)"
| "collapseDirtyChildren z f (Node p v h None l r) = Node p v h None l r"
| "collapseDirtyChildren z f NilNode = NilNode"
  by pat_completeness auto
termination
  by (relation "measure (case_sum (\<lambda>(z, f, n). 2 * size n + 1) (\<lambda>(z, f, n). 2 * size n))") auto

declare collapseAndHash.simps [simp del]

end
