(* ===== verification/Merkle_Trie.thy ===== *)
theory Merkle_Trie
  imports Merkle_Algo
begin

text \<open>
  What the trie of \<open>merkle_algo.go\<close> stores, and that its operations keep it.
  \<open>trie_lookup\<close> reads a trie as a map from inflated keys to value hashes, the zero hash
  standing for an absent key.
\<close>

subsection \<open>The trie as a map\<close>

fun trie_lookup :: "Sha256 \<Rightarrow> node \<Rightarrow> bytes \<Rightarrow> Sha256" where
  "trie_lookup z NilNode q = z"
| "trie_lookup z (Node p v h d l r) q =
     (if hasPrefix q p
      then (case drop (length p) q of
              [] \<Rightarrow> v
            | b # q' \<Rightarrow> (if b = 0 then trie_lookup z l q' else trie_lookup z r q'))
      else z)"

fun bit_paths :: "node \<Rightarrow> bool" where
  "bit_paths NilNode = True"
| "bit_paths (Node p v h d l r) = (bits p \<and> bit_paths l \<and> bit_paths r)"

lemma trie_lookup_append [simp]:
  "trie_lookup z (Node p v h d l r) (p @ q) =
     (case q of [] \<Rightarrow> v | b # q' \<Rightarrow> (if b = 0 then trie_lookup z l q' else trie_lookup z r q'))"
  by simp

lemma trie_lookup_not_prefix [simp]:
  "\<not> hasPrefix q p \<Longrightarrow> trie_lookup z (Node p v h d l r) q = z"
  by simp

declare trie_lookup.simps(2) [simp del]

lemma trie_lookup_frame [simp]:
  "trie_lookup z (setHash n w) q = trie_lookup z n q"
  "trie_lookup z (sandbox_set n a) q = trie_lookup z n q"
  "trie_lookup z (sandbox_init n) q = trie_lookup z n q"
  "trie_lookup z (clone n) q = trie_lookup z n q"
  by (cases n; simp add: trie_lookup.simps)+

lemma bit_paths_frame [simp]:
  "bit_paths (setHash n w) = bit_paths n"
  "bit_paths (sandbox_set n a) = bit_paths n"
  "bit_paths (sandbox_init n) = bit_paths n"
  "bit_paths (clone n) = bit_paths n"
  "bit_paths (setValue n v) = bit_paths n"
  by (cases n; simp)+

lemma trie_lookup_Nil_prefix: "n \<noteq> NilNode \<Longrightarrow> trie_lookup z n (n_path n) = n_value n"
  by (cases n) (auto simp: trie_lookup.simps)

subsection \<open>Insertion writes one key\<close>

lemma lastCommonPathIndex_append [simp]:
  "lastCommonPathIndex (c @ a # s) (c @ b # t) = (if a = b then length c + 1 + lastCommonPathIndex s t else length c)"
  by (induction c) auto

lemma getOrClone_eq:
  "getOrClone (Node p v h d l r) =
     (if d = None then (Node p v [] (Some (DirtyNode False False)) l r, True)
      else (Node p v h d l r, False))"
  by (auto simp: getOrClone_def split: option.splits)

lemma lookup_createParent:
  assumes "bits (path @ b # rest)" and "bits q"
  shows "trie_lookup z (createParent (Node (path @ b # rest) v h d l r) path w) q
    = (if q = path then w else trie_lookup z (Node (path @ b # rest) v h d l r) q)"
proof (cases "hasPrefix q path")
  case False
  moreover have "\<not> hasPrefix q (path @ b # rest)"
    using False by (auto simp: hasPrefix_iff)
  ultimately show ?thesis
    by (auto simp: createParent_def createNode_def Let_def)
next
  case True
  then obtain t where q: "q = path @ t" by (rule hasPrefixE)
  show ?thesis
  proof (cases t)
    case Nil
    then show ?thesis using q by (simp add: createParent_def createNode_def Let_def trie_lookup.simps)
  next
    case (Cons a t')
    have "a = 0 \<or> a = 1" "b = 0 \<or> b = 1" using assms q Cons by auto
    then show ?thesis using q Cons
      by (auto simp: createParent_def createNode_def Let_def trie_lookup.simps hasPrefix_iff
          split: list.splits)
  qed
qed

lemma lookup_createParentAndSibling:
  assumes "bits (c @ a # s)" and "bits (c @ b # t)" and "a \<noteq> b" and "bits q"
  shows "trie_lookup z (createParentAndSibling z (Node (c @ a # s) v h d l r) (c @ b # t) w) q
    = (if q = c @ b # t then w else trie_lookup z (Node (c @ a # s) v h d l r) q)"
proof (cases "hasPrefix q c")
  case False
  then have "\<not> hasPrefix q (c @ a # s)" "q \<noteq> c @ b # t"
    by (auto simp: hasPrefix_iff)
  with False assms show ?thesis
    by (auto simp: createParentAndSibling_def createNode_def Let_def)
next
  case True
  then obtain u where q: "q = c @ u" by (rule hasPrefixE)
  show ?thesis
  proof (cases u)
    case Nil
    then show ?thesis using q assms
      by (auto simp: createParentAndSibling_def createNode_def Let_def trie_lookup.simps
          hasPrefix_iff split: list.splits)
  next
    case (Cons x u')
    have "x = 0 \<or> x = 1" "b = 0 \<or> b = 1" "a = 0 \<or> a = 1" using assms q Cons by auto
    then show ?thesis using q Cons assms(3)
      by (auto simp: createParentAndSibling_def createNode_def Let_def trie_lookup.simps
          hasPrefix_iff split: list.splits)
  qed
qed


lemma lookup_leaf:
  "trie_lookup z (Node p v h d NilNode NilNode) q = (if q = p then v else z)"
proof (cases "hasPrefix q p")
  case True
  then obtain t where "q = p @ t" by (rule hasPrefixE)
  then show ?thesis by (cases t) (auto simp: trie_lookup.simps)
qed auto

lemma lookup_replaceLeaf:
  "\<not> hasValue z (Node p v h d l r) \<Longrightarrow> isLeaf (Node p v h d l r) \<Longrightarrow>
   trie_lookup z (Node p' w h' d' NilNode NilNode) q
     = (if q = p' then w else trie_lookup z (Node p v h d l r) q)"
  by (simp add: lookup_leaf)

lemma lookup_newValue:
  "trie_lookup z (Node p v' h' d' l r) q
     = (if q = p then v' else trie_lookup z (Node p v h d l r) q)"
proof (cases "hasPrefix q p")
  case True
  then obtain t where "q = p @ t" by (rule hasPrefixE)
  then show ?thesis by (cases t) (auto simp: trie_lookup.simps)
qed auto

lemma lookup_setChild:
  assumes "bits (p @ b # rest)" and "bits q"
    and child: "\<And>q. bits q \<Longrightarrow> trie_lookup z c q
      = (if q = rest then w else trie_lookup z (if b = 0 then l else r) q)"
  shows "trie_lookup z (setChild (Node p v h d l r) b c) q
    = (if q = p @ b # rest then w else trie_lookup z (Node p v h d l r) q)"
proof (cases "hasPrefix q p")
  case False
  then show ?thesis by auto
next
  case True
  then obtain t where q: "q = p @ t" by (rule hasPrefixE)
  show ?thesis
  proof (cases t)
    case Nil
    then show ?thesis using q by (simp add: trie_lookup.simps)
  next
    case (Cons x t')
    have "x = 0 \<or> x = 1" "b = 0 \<or> b = 1" "bits t'" using assms q Cons by auto
    then show ?thesis using q Cons child[of t']
      by (auto simp: trie_lookup.simps)
  qed
qed

lemma node_ops_Nil_iff [simp]:
  "setChild n b c = NilNode \<longleftrightarrow> n = NilNode"
  "sandbox_set n b = NilNode \<longleftrightarrow> n = NilNode"
  "sandbox_init n = NilNode \<longleftrightarrow> n = NilNode"
  "clone n = NilNode \<longleftrightarrow> n = NilNode"
  "setPath n p = NilNode \<longleftrightarrow> n = NilNode"
  "setValue n v = NilNode \<longleftrightarrow> n = NilNode"
  "setHash n v = NilNode \<longleftrightarrow> n = NilNode"
  "createNode p v \<noteq> NilNode"
  by (cases n; simp add: createNode_def)+

lemma updateOrCreateChild_not_Nil:
  "current \<noteq> NilNode \<Longrightarrow> updateOrCreateChild z current path v \<noteq> NilNode"
  by (subst updateOrCreateChild.simps) (simp split: list.split prod.split)

lemma insert_node_not_Nil:
  "current \<noteq> NilNode \<Longrightarrow> fst (insert_node z v current path) \<noteq> NilNode"
  by (cases "n_dirty current")
    (auto simp: insert_node.simps[of z v current path] getOrClone_def createParent_def
      createParentAndSibling_def Let_def updateOrCreateChild_not_Nil)

lemma strict_prefixE:
  assumes "hasPrefix q p" and "q \<noteq> p"
  obtains b rest where "q = p @ b # rest"
  using assms by (metis append_Nil2 hasPrefix_iff neq_Nil_conv)

lemma getOrCloneE:
  assumes "current \<noteq> NilNode"
  obtains p w h d l r h' d' where "current = Node p w h d l r"
    and "getOrClone current = (Node p w h' (Some d') l r, d = None)"
    and "d' = (case d of None \<Rightarrow> DirtyNode False False | Some e \<Rightarrow> e)"
  using assms by (cases current; cases "n_dirty current") (auto simp: getOrClone_eq)

lemma insert_node_eq:
  "getOrClone current = (c, m) \<Longrightarrow>
   insert_node z v current path =
     (if n_path c = path then setValue c v
      else if hasPrefix path (n_path c) then updateOrCreateChild z c path v
      else if hasPrefix (n_path c) path then createParent c path v
      else createParentAndSibling z c path v, m)"
  by (simp add: insert_node.simps shouldUpdateCurrent_def shouldUpdateOrCreateChild_def
      shouldCreateParent_def)

lemma createParent_eq:
  "createParent (Node (path @ b # rest) w h d l r) path v
     = (if b = 0 then Node path v [] (Some (DirtyNode True False)) (Node rest w h d l r) NilNode
        else Node path v [] (Some (DirtyNode False True)) NilNode (Node rest w h d l r))"
  by (simp add: createParent_def createNode_def Let_def)

lemma createParentAndSibling_eq:
  "a = 0 \<or> a = 1 \<Longrightarrow> b = 0 \<or> b = 1 \<Longrightarrow> a \<noteq> b \<Longrightarrow>
   createParentAndSibling z (Node (c @ a # s) w h d l r) (c @ b # t) v
     = (if a = 0
        then Node c z [] (Some (DirtyNode True True)) (Node s w h d l r) (createNode t v)
        else Node c z [] (Some (DirtyNode True True)) (createNode t v) (Node s w h d l r))"
  by (auto simp: createParentAndSibling_def createNode_def Let_def)

lemma updateOrCreateChild_leaf:
  "\<not> hasValue z (Node p w h d l r) \<Longrightarrow> isLeaf (Node p w h d l r) \<Longrightarrow>
   updateOrCreateChild z (Node p w h d l r) path v = Node path v h d NilNode NilNode"
  by (subst updateOrCreateChild.simps) simp

lemma updateOrCreateChild_inner:
  "hasValue z (Node p w h d l r) \<or> \<not> isLeaf (Node p w h d l r) \<Longrightarrow>
   updateOrCreateChild z (Node p w h d l r) (p @ b # rest) v =
     (let child = (if b = 0 then l else r) in
      if child \<noteq> NilNode
      then let (child', m) = insert_node z v child rest
           in setChild (if m then sandbox_set (Node p w h d l r) b else Node p w h d l r) b child'
      else if v = z then Node p w h d l r
      else sandbox_set (setChild (Node p w h d l r) b (createNode rest v)) b)"
  by (subst updateOrCreateChild.simps) (auto simp: Let_def)

lemma lookup_updateOrCreateChild_step:
  assumes IH: "\<And>child. child = (if b = 0 then l else r) \<Longrightarrow> child \<noteq> NilNode \<Longrightarrow>
      bit_paths (fst (insert_node z v child rest)) \<and>
      (\<forall>q. bits q \<longrightarrow> trie_lookup z (fst (insert_node z v child rest)) q
        = (if q = rest then v else trie_lookup z child q))"
    and bp: "bit_paths (Node p w h d l r)" and bt: "bits (p @ b # rest)"
    and nl: "hasValue z (Node p w h d l r) \<or> \<not> isLeaf (Node p w h d l r)"
  shows "bit_paths (updateOrCreateChild z (Node p w h d l r) (p @ b # rest) v) \<and>
      (\<forall>q. bits q \<longrightarrow> trie_lookup z (updateOrCreateChild z (Node p w h d l r) (p @ b # rest) v) q
        = (if q = p @ b # rest then v else trie_lookup z (Node p w h d l r) q))"
proof (cases "(if b = 0 then l else r) = NilNode")
  case True
  have new: "trie_lookup z (createNode rest v) q
      = (if q = rest then v else trie_lookup z (if b = 0 then l else r) q)" for q
    using True by (simp add: createNode_def lookup_leaf)
  have absent: "trie_lookup z (Node p w h d l r) (p @ b # rest) = z"
    using True by (auto simp: trie_lookup.simps)
  have "bit_paths (setChild (Node p w h d l r) b (createNode rest v))"
    using bp bt by (simp add: createNode_def)
  then show ?thesis
    using lookup_setChild[OF bt _ new, of _ w h d] absent bp True
    by (auto simp: updateOrCreateChild_inner[OF nl])
next
  case False
  obtain child' m where ins: "insert_node z v (if b = 0 then l else r) rest = (child', m)"
    by fastforce
  have c': "bit_paths child'" "\<And>q. bits q \<Longrightarrow> trie_lookup z child' q
      = (if q = rest then v else trie_lookup z (if b = 0 then l else r) q)"
    using IH[OF refl False] by (auto simp: ins)
  show ?thesis
    using c'(1) bp lookup_setChild[OF bt _ c'(2), of _ w h d]
      lookup_setChild[OF bt _ c'(2), of _ w h "Some (mark d b)"] False
    by (auto simp: updateOrCreateChild_inner[OF nl] ins trie_lookup.simps)
qed

lemma insert_node_lookup:
  "current \<noteq> NilNode \<Longrightarrow> bit_paths current \<Longrightarrow> bits path \<Longrightarrow>
     bit_paths (fst (insert_node z v current path)) \<and>
     (\<forall>q. bits q \<longrightarrow> trie_lookup z (fst (insert_node z v current path)) q
        = (if q = path then v else trie_lookup z current q))"
  and updateOrCreateChild_lookup:
  "current \<noteq> NilNode \<Longrightarrow> bit_paths current \<Longrightarrow> bits path \<Longrightarrow> hasPrefix path (n_path current) \<Longrightarrow>
     path \<noteq> n_path current \<Longrightarrow>
     bit_paths (updateOrCreateChild z current path v) \<and>
     (\<forall>q. bits q \<longrightarrow> trie_lookup z (updateOrCreateChild z current path v) q
        = (if q = path then v else trie_lookup z current q))"
proof (induction z v current path and z current path v rule: insert_node_updateOrCreateChild.induct)
  case (1 z v current path)
  from "1.prems"(1) obtain p w h d l r h' d' where cur: "current = Node p w h d l r"
    and goc: "getOrClone current = (Node p w h' (Some d') l r, d = None)" by (rule getOrCloneE)
  let ?c = "Node p w h' (Some d') l r"
  have same: "trie_lookup z ?c q = trie_lookup z current q" for q
    by (simp add: cur trie_lookup.simps)
  note ins = insert_node_eq[OF goc, of z v path]
  have bp: "bit_paths ?c" using "1.prems" cur by simp
  consider (eq) "p = path" | (child) "p \<noteq> path" "hasPrefix path p"
    | (parent) "p \<noteq> path" "\<not> hasPrefix path p" "hasPrefix p path"
    | (split) "\<not> hasPrefix path p" "\<not> hasPrefix p path" by auto
  then show ?case
  proof cases
    case eq
    then show ?thesis using bp lookup_newValue[of z path v h' "Some d'" l r _ w h d]
      unfolding ins by (auto simp: cur)
  next
    case child
    have "bit_paths (updateOrCreateChild z ?c path v) \<and>
      (\<forall>q. bits q \<longrightarrow> trie_lookup z (updateOrCreateChild z ?c path v) q
        = (if q = path then v else trie_lookup z ?c q))"
      using bp "1.prems"(3) child
      by (intro "1.IH"[OF goc[symmetric] refl])
        (auto simp: shouldUpdateCurrent_def shouldUpdateOrCreateChild_def)
    with child same show ?thesis unfolding ins by simp
  next
    case parent
    then obtain b rest where p: "p = path @ b # rest" by (metis strict_prefixE)
    have "bits (path @ b # rest)" using bp p by simp
    then show ?thesis using parent same bp unfolding ins
      by (simp add: p lookup_createParent) (simp add: createParent_eq)
  next
    case split
    then obtain c a b s t where p: "p = c @ a # s" "path = c @ b # t" "a \<noteq> b"
      by (meson not_prefix_split)
    have b: "bits (c @ a # s)" "bits (c @ b # t)" using bp "1.prems"(3) p by auto
    have "bit_paths (createParentAndSibling z ?c path v)"
      using bp b p by (simp add: createParentAndSibling_eq createNode_def)
    then show ?thesis using split same b p(3) unfolding ins
      by (auto simp: p(1,2) lookup_createParentAndSibling)
  qed
next
  case (2 z current path v)
  obtain p w h d l r where cur: "current = Node p w h d l r"
    using "2.prems" by (cases current) auto
  obtain b rest where path: "path = p @ b # rest"
    using "2.prems" cur by (auto elim: strict_prefixE)
  show ?case
  proof (cases "\<not> hasValue z current \<and> isLeaf current")
    case True
    then show ?thesis using "2.prems"(3)
      by (auto simp: cur updateOrCreateChild_leaf lookup_leaf)
  next
    case False
    have dr: "drop (length (n_path current)) path = b # rest" by (simp add: cur path)
    show ?thesis unfolding cur path
      by (rule lookup_updateOrCreateChild_step)
        (use "2.IH"[OF False dr] "2.prems" False cur path in \<open>auto split: if_splits\<close>)
  qed
qed

end
