(* ===== verification/Merkle_Canonical.thy ===== *)
theory Merkle_Canonical
  imports Merkle_Trie
begin

text \<open>
  Collapsing and hashing. A trie is \<open>good\<close> when it is fully collapsed (no node without a value
  has fewer than two children) and every node's stored hash is the hash of its content.
  \<open>sandbox_inv\<close> is what a batch of insertions keeps: everything the sandbox does not mark is
  still good. \<open>collapseAndHash\<close> turns the second into the first and keeps the map, and two
  good tries with the same map are the same trie.
\<close>

subsection \<open>The interface of the node hasher\<close>

text \<open>
  A \<open>nodeHasherFunc\<close> may read the path, the value and the hashes of the children of a node; it
  must not depend on the hash the node had before or on the sandbox.
\<close>

fun child_hash :: "node \<Rightarrow> Sha256 option" where
  "child_hash NilNode = None"
| "child_hash (Node p v h d l r) = Some h"

fun good :: "Sha256 \<Rightarrow> (node \<Rightarrow> Sha256) \<Rightarrow> node \<Rightarrow> bool" where
  "good z f NilNode = True"
| "good z f (Node p v h d l r) =
     (bits p \<and> good z f l \<and> good z f r \<and> h = f (Node p v h d l r) \<and>
      (v = z \<longrightarrow> l \<noteq> NilNode \<and> r \<noteq> NilNode))"

fun fresh :: "node \<Rightarrow> bool" where
  "fresh NilNode = True"
| "fresh (Node p v h d l r) = (d = None \<and> fresh l \<and> fresh r)"

fun sandbox_inv :: "Sha256 \<Rightarrow> (node \<Rightarrow> Sha256) \<Rightarrow> node \<Rightarrow> bool" where
  "sandbox_inv z f NilNode = False"
| "sandbox_inv z f (Node p v h None l r) =
     (bits p \<and> good z f l \<and> fresh l \<and> good z f r \<and> fresh r)"
| "sandbox_inv z f (Node p v h (Some (DirtyNode a b)) l r) =
     (bits p \<and> (if a then sandbox_inv z f l else good z f l \<and> fresh l)
             \<and> (if b then sandbox_inv z f r else good z f r \<and> fresh r))"

text \<open>What is left of a trie when its sandbox is dropped.\<close>

fun forgetSandbox :: "node \<Rightarrow> node" where
  "forgetSandbox NilNode = NilNode"
| "forgetSandbox (Node p v h d l r) = Node p v h None (forgetSandbox l) (forgetSandbox r)"

lemma forgetSandbox_Nil [simp]: "forgetSandbox n = NilNode \<longleftrightarrow> n = NilNode"
  by (cases n) auto

lemma fresh_forgetSandbox [simp]: "fresh (forgetSandbox n)"
  by (induction n) auto

lemma child_hash_forgetSandbox [simp]: "child_hash (forgetSandbox n) = child_hash n"
  by (cases n) auto

lemma bit_paths_forgetSandbox [simp]: "bit_paths (forgetSandbox n) = bit_paths n"
  by (induction n) auto

lemma lookup_forgetSandbox [simp]: "trie_lookup z (forgetSandbox n) q = trie_lookup z n q"
  by (induction n arbitrary: q) (auto simp: trie_lookup.simps split: list.splits)

lemma good_bit_paths: "good z f n \<Longrightarrow> bit_paths n"
  by (induction n) auto

lemma good_fresh_sandbox_inv:
  "good z f n \<Longrightarrow> fresh n \<Longrightarrow> n \<noteq> NilNode \<Longrightarrow> sandbox_inv z f n"
  by (cases n) auto

lemma sandbox_inv_leaf [simp]: "sandbox_inv z f (Node p v h d NilNode NilNode) \<longleftrightarrow>
    bits p \<and> (d = None \<or> d = Some (DirtyNode False False))"
proof (cases d)
  case (Some e)
  then show ?thesis by (cases e) auto
qed simp

lemma sandbox_inv_not_Nil: "sandbox_inv z f n \<Longrightarrow> n \<noteq> NilNode"
  by auto

lemma sandbox_inv_bit_paths: "sandbox_inv z f n \<Longrightarrow> bit_paths n"
proof (induction z f n rule: sandbox_inv.induct)
  case (2 z f p v h l r)
  then show ?case by (auto intro: good_bit_paths)
next
  case (3 z f p v h a b l r)
  then show ?case by (auto intro: good_bit_paths split: if_splits)
qed simp

subsection \<open>Insertion keeps the sandbox invariant\<close>

lemma getOrClone_sandbox_inv:
  assumes "getOrClone (Node p w h d l r) = (Node p w h' (Some d') l r, m)"
    and "sandbox_inv z f (Node p w h d l r)"
  shows "sandbox_inv z f (Node p w h' (Some d') l r)"
proof (cases d)
  case (Some e)
  with assms show ?thesis by (cases e) (auto simp: getOrClone_eq)
qed (use assms in \<open>auto simp: getOrClone_eq\<close>)

lemma sandbox_inv_update_step:
  assumes IH: "\<And>child. child = (if b = 0 then l else r) \<Longrightarrow> child \<noteq> NilNode \<Longrightarrow>
      sandbox_inv z f child \<Longrightarrow>
      sandbox_inv z f (fst (insert_node z v child rest)) \<and>
      (snd (insert_node z v child rest) \<longleftrightarrow> n_dirty child = None)"
    and inv: "sandbox_inv z f (Node p w h (Some d) l r)" and bt: "bits (p @ b # rest)"
    and nl: "hasValue z (Node p w h (Some d) l r) \<or> \<not> isLeaf (Node p w h (Some d) l r)"
  shows "sandbox_inv z f (updateOrCreateChild z (Node p w h (Some d) l r) (p @ b # rest) v) \<and>
    n_dirty (updateOrCreateChild z (Node p w h (Some d) l r) (p @ b # rest) v) \<noteq> None"
proof (cases "(if b = 0 then l else r) = NilNode")
  case True
  then show ?thesis unfolding updateOrCreateChild_inner[OF nl]
    using inv bt by (cases d) (auto simp: createNode_def)
next
  case False
  let ?ch = "if b = 0 then l else r"
  obtain child' m where ins: "insert_node z v ?ch rest = (child', m)" by fastforce
  have "sandbox_inv z f ?ch"
    using inv False by (cases d) (auto intro: good_fresh_sandbox_inv split: if_splits)
  with IH[OF refl False] have c': "sandbox_inv z f child'" "m \<longleftrightarrow> n_dirty ?ch = None"
    by (auto simp: ins)
  have unmarked: "(if b = 0 then d_left d else d_right d) \<or> m"
    using inv False c'(2) by (cases d; cases l; cases r) (auto split: if_splits)
  show ?thesis unfolding updateOrCreateChild_inner[OF nl] Let_def ins
    using c'(1) unmarked inv False bt
    by (cases d) (auto split: if_splits)
qed

lemma insert_node_sandbox_inv:
  "sandbox_inv z f current \<Longrightarrow> bits path \<Longrightarrow>
     sandbox_inv z f (fst (insert_node z v current path)) \<and>
     (snd (insert_node z v current path) \<longleftrightarrow> n_dirty current = None)"
  and updateOrCreateChild_sandbox_inv:
  "sandbox_inv z f current \<Longrightarrow> bits path \<Longrightarrow> n_dirty current \<noteq> None \<Longrightarrow>
     hasPrefix path (n_path current) \<Longrightarrow> path \<noteq> n_path current \<Longrightarrow>
     sandbox_inv z f (updateOrCreateChild z current path v) \<and>
     n_dirty (updateOrCreateChild z current path v) \<noteq> None"
proof (induction z v current path and z current path v rule: insert_node_updateOrCreateChild.induct)
  case (1 z v current path)
  have nn: "current \<noteq> NilNode" using "1.prems" by auto
  from nn obtain p w h d l r h' d' where cur: "current = Node p w h d l r"
    and goc: "getOrClone current = (Node p w h' (Some d') l r, d = None)" by (rule getOrCloneE)
  let ?c = "Node p w h' (Some d') l r"
  note ins = insert_node_eq[OF goc, of z v path]
  have inv: "sandbox_inv z f ?c"
    using getOrClone_sandbox_inv goc "1.prems"(1) unfolding cur by blast
  consider (eq) "p = path" | (child) "p \<noteq> path" "hasPrefix path p"
    | (parent) "p \<noteq> path" "\<not> hasPrefix path p" "hasPrefix p path"
    | (split) "\<not> hasPrefix path p" "\<not> hasPrefix p path" by auto
  then show ?case
  proof cases
    case eq
    then show ?thesis using inv unfolding ins by (cases d') (auto simp: cur)
  next
    case child
    have "sandbox_inv z f (updateOrCreateChild z ?c path v)"
      using "1.IH"[OF goc[symmetric] refl] inv "1.prems"(2) child
      by (auto simp: shouldUpdateCurrent_def shouldUpdateOrCreateChild_def)
    with child show ?thesis unfolding ins by (simp add: cur)
  next
    case parent
    then obtain b rest where p: "p = path @ b # rest" by (metis strict_prefixE)
    have "sandbox_inv z f (Node rest w h' (Some d') l r)"
      using inv p by (cases d') auto
    then show ?thesis using parent "1.prems"(2) unfolding ins
      by (simp add: p createParent_eq) (simp add: cur)
  next
    case split
    then obtain c a b s t where p: "p = c @ a # s" "path = c @ b # t" "a \<noteq> b"
      by (meson not_prefix_split)
    have "sandbox_inv z f (Node s w h' (Some d') l r)" "a = 0 \<or> a = 1"
      using inv p by (cases d'; auto)+
    moreover have "b = 0 \<or> b = 1" "bits t" "bits c" using "1.prems"(2) p by auto
    ultimately show ?thesis using split p(3) unfolding ins
      by (auto simp: p(1,2) createParentAndSibling_eq createNode_def cur)
  qed
next
  case (2 z current path v)
  have nn: "current \<noteq> NilNode" using "2.prems" by auto
  then obtain p w h d l r where cur: "current = Node p w h (Some d) l r"
    using "2.prems"(3) by (cases current) auto
  obtain b rest where path: "path = p @ b # rest"
    using "2.prems" cur by (auto elim: strict_prefixE)
  show ?case
  proof (cases "\<not> hasValue z current \<and> isLeaf current")
    case True
    then show ?thesis using "2.prems"(1,2)
      by (cases d) (auto simp: cur updateOrCreateChild_leaf)
  next
    case False
    have dr: "drop (length (n_path current)) path = b # rest" by (simp add: cur path)
    show ?thesis unfolding cur path
      by (rule sandbox_inv_update_step)
        (use "2.IH"[OF False dr] "2.prems" False cur path in \<open>auto split: if_splits\<close>)
  qed
qed

subsection \<open>Collapsing keeps the map\<close>

fun marks_left :: "dirtyNode option \<Rightarrow> bool" where
  "marks_left None = False"
| "marks_left (Some d) = d_left d"

fun marks_right :: "dirtyNode option \<Rightarrow> bool" where
  "marks_right None = False"
| "marks_right (Some d) = d_right d"

lemma collapseAndHash_Nil [simp]: "collapseAndHash z f NilNode = NilNode"
  by (simp add: collapseAndHash.simps)

lemma collapseAndHash_Node:
  "collapseAndHash z f (Node p v h d l r) =
     finishNode z f (Node p v h d (if marks_left d then collapseAndHash z f l else l)
                                  (if marks_right d then collapseAndHash z f r else r))"
  unfolding collapseAndHash.simps[of z f "Node p v h d l r"]
  by (cases d) auto

lemma collapseOnlyChild_eq:
  "collapseOnlyChild (Node p v h d (Node pl vl hl dl ll rl) r) 0 = Node (p @ 0 # pl) vl [] None ll rl"
  "collapseOnlyChild (Node p v h d l (Node pr vr hr dr lr rr)) 1 = Node (p @ 1 # pr) vr [] None lr rr"
  by (simp_all add: collapseOnlyChild_def Let_def)

lemma lookup_collapseOnlyChild:
  assumes "bits q"
  shows "trie_lookup z (Node (p @ 0 # pl) vl hl dl ll rl) q
      = trie_lookup z (Node p z h d (Node pl vl hl' dl' ll rl) NilNode) q"
    and "trie_lookup z (Node (p @ 1 # pl) vl hl dl ll rl) q
      = trie_lookup z (Node p z h d NilNode (Node pl vl hl' dl' ll rl)) q"
proof -
  have "(trie_lookup z (Node (p @ 0 # pl) vl hl dl ll rl) q
      = trie_lookup z (Node p z h d (Node pl vl hl' dl' ll rl) NilNode) q) \<and>
    (trie_lookup z (Node (p @ 1 # pl) vl hl dl ll rl) q
      = trie_lookup z (Node p z h d NilNode (Node pl vl hl' dl' ll rl)) q)"
  proof (cases "hasPrefix q p")
    case False
    then have "\<not> hasPrefix q (p @ 0 # pl)" "\<not> hasPrefix q (p @ 1 # pl)"
      by (auto simp: hasPrefix_iff)
    with False show ?thesis by simp
  next
    case True
    then obtain t where q: "q = p @ t" by (rule hasPrefixE)
    show ?thesis
    proof (cases t)
      case Nil
      then show ?thesis using q by (auto simp: trie_lookup.simps hasPrefix_iff)
    next
      case (Cons x t')
      then show ?thesis using q assms
        by (auto simp: trie_lookup.simps hasPrefix_iff)
    qed
  qed
  then show "trie_lookup z (Node (p @ 0 # pl) vl hl dl ll rl) q
      = trie_lookup z (Node p z h d (Node pl vl hl' dl' ll rl) NilNode) q"
    and "trie_lookup z (Node (p @ 1 # pl) vl hl dl ll rl) q
      = trie_lookup z (Node p z h d NilNode (Node pl vl hl' dl' ll rl)) q" by blast+
qed

lemma lookup_finishNode:
  assumes "bits q"
  shows "trie_lookup z (finishNode z f (Node p v h d l r)) q = trie_lookup z (Node p v h d l r) q"
proof (cases "v = z")
  case False
  then show ?thesis by (auto simp: finishNode_def Let_def trie_lookup.simps)
next
  case True
  show ?thesis
  proof (cases l; cases r)
    fix pl vl hl dl ll rl
    assume "l = Node pl vl hl dl ll rl" "r = NilNode"
    with True show ?thesis
      using lookup_collapseOnlyChild(1)[OF assms, of z p pl vl _ None ll rl h d hl dl]
      by (auto simp: finishNode_def Let_def collapseOnlyChild_eq)
  next
    fix pr vr hr dr lr rr
    assume "r = Node pr vr hr dr lr rr" "l = NilNode"
    with True show ?thesis
      using lookup_collapseOnlyChild(2)[OF assms, of z p pr vr _ None lr rr h d hr dr]
      by (auto simp: finishNode_def Let_def collapseOnlyChild_eq)
  qed (use True in \<open>auto simp: finishNode_def Let_def trie_lookup.simps split: list.splits\<close>)
qed

lemma lookup_collapseAndHash:
  "bits q \<Longrightarrow> trie_lookup z (collapseAndHash z f n) q = trie_lookup z n q"
proof (induction n arbitrary: q)
  case (Node p v h d l r)
  then show ?case
    by (auto simp: collapseAndHash_Node lookup_finishNode trie_lookup.simps hasPrefix_iff
        split: list.splits)
qed simp

subsection \<open>Collapsing gives a good trie\<close>

locale node_hasher =
  fixes z :: Sha256 and f :: "node \<Rightarrow> Sha256"
  assumes hasher_local: "child_hash l = child_hash l' \<Longrightarrow> child_hash r = child_hash r' \<Longrightarrow>
    f (Node p v h d l r) = f (Node p v h' d' l' r')"
begin

lemma good_setHash:
  "bits p \<Longrightarrow> good z f l \<Longrightarrow> good z f r \<Longrightarrow> (v = z \<longrightarrow> l \<noteq> NilNode \<and> r \<noteq> NilNode) \<Longrightarrow>
   good z f (Node p v (f (Node p v h d l r)) d' l r)"
  using hasher_local[OF refl refl] by auto

lemma good_finishNode:
  assumes "bits p" and "good z f l" and "good z f r"
  shows "good z f (finishNode z f (Node p v h d l r))"
proof (cases "v = z")
  case False
  then show ?thesis using assms by (auto simp: finishNode_def Let_def intro: hasher_local)
next
  case True
  show ?thesis
  proof (cases l; cases r)
    fix pl vl hl dl ll rl
    assume "l = Node pl vl hl dl ll rl" "r = NilNode"
    with True assms show ?thesis
      by (auto simp: finishNode_def Let_def collapseOnlyChild_eq intro: hasher_local)
  next
    fix pr vr hr dr lr rr
    assume "r = Node pr vr hr dr lr rr" "l = NilNode"
    with True assms show ?thesis
      by (auto simp: finishNode_def Let_def collapseOnlyChild_eq intro: hasher_local)
  qed (use True assms in \<open>auto simp: finishNode_def Let_def intro: hasher_local\<close>)
qed

lemma good_collapseAndHash: "sandbox_inv z f n \<Longrightarrow> good z f (collapseAndHash z f n)"
proof (induction n)
  case (Node p v h d l r)
  show ?case
  proof (cases d)
    case None
    with Node.prems show ?thesis by (auto simp: collapseAndHash_Node intro: good_finishNode)
  next
    case (Some e)
    with Node show ?thesis
      by (cases e) (auto simp: collapseAndHash_Node intro!: good_finishNode split: if_splits)
  qed
qed simp

lemma good_forgetSandbox [simp]: "good z f (forgetSandbox n) \<longleftrightarrow> good z f n"
proof (induction n)
  case (Node p v h d l r)
  have "f (Node p v h None (forgetSandbox l) (forgetSandbox r)) = f (Node p v h d l r)"
    by (rule hasher_local) simp_all
  then show ?case using Node by simp
qed simp

text \<open>A good trie that is not nil stores at least one key.\<close>

lemma good_has_key: "good z f n \<Longrightarrow> n \<noteq> NilNode \<Longrightarrow> \<exists>q. bits q \<and> trie_lookup z n q \<noteq> z"
proof (induction n)
  case (Node p v h d l r)
  show ?case
  proof (cases "v = z")
    case False
    then show ?thesis using Node.prems
      by (intro exI[of _ p]) (simp add: trie_lookup.simps)
  next
    case True
    then obtain q where "bits q" "trie_lookup z l q \<noteq> z" using Node by auto
    then show ?thesis using Node.prems
      by (intro exI[of _ "p @ 0 # q"]) (simp add: trie_lookup.simps)
  qed
qed simp

text \<open>Below each valueless node of a good trie both arcs hold a key.\<close>

lemma good_key_below:
  assumes "good z f (Node p v h d l r)" and "b = 0 \<or> b = 1"
  shows "\<exists>q. bits q \<and> trie_lookup z (Node p v h d l r) q \<noteq> z \<and> \<not> hasPrefix q (p @ [b])"
proof (cases "v = z")
  case False
  then show ?thesis using assms(1)
    by (intro exI[of _ p]) (auto simp: trie_lookup.simps hasPrefix_iff)
next
  case True
  define n where "n = (if b = 0 then r else l)"
  have "good z f n" "n \<noteq> NilNode" using True assms(1) by (auto simp: n_def)
  then obtain q where "bits q" "trie_lookup z n q \<noteq> z" using good_has_key by blast
  then show ?thesis using assms
    by (intro exI[of _ "p @ (if b = 0 then 1 else 0) # q"])
      (auto simp: trie_lookup.simps n_def hasPrefix_iff split: if_splits)
qed

lemma good_same_path:
  assumes "good z f (Node p v h d l r)" and "good z f (Node p' v' h' d' l' r')"
    and same: "\<And>q. bits q \<Longrightarrow> trie_lookup z (Node p v h d l r) q = trie_lookup z (Node p' v' h' d' l' r') q"
    and pre: "hasPrefix p' p"
  shows "p = p'"
proof (rule ccontr)
  assume "p \<noteq> p'"
  with pre obtain b rest where p': "p' = p @ b # rest" by (metis strict_prefixE)
  have "b = 0 \<or> b = 1" using assms(2) p' by simp
  then obtain q where q: "bits q" "trie_lookup z (Node p v h d l r) q \<noteq> z" "\<not> hasPrefix q (p @ [b])"
    using good_key_below[OF assms(1)] by blast
  have "\<not> hasPrefix q p'" using q(3) p' by (auto simp: hasPrefix_iff)
  then show False using q same[OF q(1)] by simp
qed

lemma good_paths_comparable:
  assumes "good z f (Node p v h d l r)"
    and same: "\<And>q. bits q \<Longrightarrow> trie_lookup z (Node p v h d l r) q = trie_lookup z (Node p' v' h' d' l' r') q"
  shows "hasPrefix p p' \<or> hasPrefix p' p"
proof -
  obtain q where q: "bits q" "trie_lookup z (Node p v h d l r) q \<noteq> z"
    using good_has_key[OF assms(1)] by blast
  then have "hasPrefix q p" "hasPrefix q p'" using same[OF q(1)] by (metis trie_lookup_not_prefix)+
  then show ?thesis by (rule hasPrefix_comparable)
qed

theorem good_unique:
  "good z f m \<Longrightarrow> good z f n \<Longrightarrow> (\<And>q. bits q \<Longrightarrow> trie_lookup z m q = trie_lookup z n q) \<Longrightarrow>
   forgetSandbox m = forgetSandbox n"
proof (induction m arbitrary: n)
  case NilNode
  then show ?case using good_has_key[of n] by (cases n) auto
next
  case (Node p v h d l r)
  obtain p' v' h' d' l' r' where n: "n = Node p' v' h' d' l' r'"
    using good_has_key[OF Node.prems(1)] Node.prems(3) by (cases n) auto
  have pp: "p = p'"
    using good_same_path[OF Node.prems(1) Node.prems(2)[unfolded n]]
      good_same_path[OF Node.prems(2)[unfolded n] Node.prems(1)]
      good_paths_comparable[OF Node.prems(1)] Node.prems(3) n by metis
  have bp: "bits p" using Node.prems(1) by simp
  have v: "v = v'"
    using Node.prems(3)[OF bp] pp n by (simp add: trie_lookup.simps)
  have "forgetSandbox l = forgetSandbox l'"
  proof (rule Node.IH(1))
    show "good z f l" "good z f l'" using Node.prems n by auto
    show "trie_lookup z l q = trie_lookup z l' q" if "bits q" for q
      using Node.prems(3)[of "p @ 0 # q"] that bp pp n by (simp add: trie_lookup.simps)
  qed
  moreover have "forgetSandbox r = forgetSandbox r'"
  proof (rule Node.IH(2))
    show "good z f r" "good z f r'" using Node.prems n by auto
    show "trie_lookup z r q = trie_lookup z r' q" if "bits q" for q
      using Node.prems(3)[of "p @ 1 # q"] that bp pp n by (simp add: trie_lookup.simps)
  qed
  moreover from calculation have "f (Node p v h d l r) = f (Node p' v' h' d' l' r')"
    unfolding pp v by (intro hasher_local) (metis child_hash_forgetSandbox)+
  then have "h = h'" using Node.prems(1,2) n by (metis good.simps(2))
  ultimately show ?case by (simp add: n pp v)
qed

end

end
