(* ===== verification/Merkle_Forest.thy ===== *)
theory Merkle_Forest
  imports Merkle_Canonical
begin

text \<open>
  The forest of state tries, \<open>crypto/merkle/merkle_trie_forest.go\<close>, over the hash function
  \<open>sha\<close> of \<open>crypto/hash/sha256.go\<close>. The mutex of the forest makes each of its methods one
  atomic step on the list of roots.
\<close>

subsection \<open>Hashing\<close>

definition hashBytes :: "hasher \<Rightarrow> bytes list \<Rightarrow> Sha256" where
  "hashBytes sha parts = CalcSha256 sha parts"

definition generateLeafParts :: "node \<Rightarrow> bytes list" where
  "generateLeafParts n = [n_value n, n_path n]"

definition childHashPart :: "node \<Rightarrow> bytes" where
  "childHashPart c =
     (let res = replicate SHA256_HASH_SIZE_BYTES 0
      in if c \<noteq> NilNode then copy_bytes res (n_hash c) else res)"

definition generateNodeParts :: "node \<Rightarrow> bytes list" where
  "generateNodeParts n = [childHashPart (n_left n), childHashPart (n_right n), n_path n]"

definition hashTrieNode :: "hasher \<Rightarrow> node \<Rightarrow> Sha256" where
  "hashTrieNode sha n =
     (if isLeaf n then hashBytes sha (generateLeafParts n) else hashBytes sha (generateNodeParts n))"

definition toBinSize :: "bytes \<Rightarrow> nat" where
  "toBinSize s = length s * 8"

definition toBin :: "bytes \<Rightarrow> nat \<Rightarrow> bytes" where
  "toBin s n = map (\<lambda>i. and 1 (drop_bit (7 - i mod 8) (s ! (i div 8)))) [0..<n]"

subsection \<open>The forest\<close>

record Forest =
  roots :: "node list"

definition createEmptyTrieNode :: "hasher \<Rightarrow> node" where
  "createEmptyTrieNode sha =
     (let tmp = createNode [] (GetZeroValueHash sha) in setHash tmp (hashTrieNode sha tmp))"

definition NewForest :: "hasher \<Rightarrow> Forest \<times> Sha256" where
  "NewForest sha =
     (let emptyNode = createEmptyTrieNode sha in (\<lparr>roots = [emptyNode]\<rparr>, n_hash emptyNode))"

definition findRoot :: "Forest \<Rightarrow> Sha256 \<Rightarrow> node option" where
  "findRoot f rootHash = find (\<lambda>r. n_hash r = rootHash) (rev (roots f))"

definition appendRoot :: "Forest \<Rightarrow> node \<Rightarrow> Forest" where
  "appendRoot f root = f\<lparr>roots := roots f @ [root]\<rparr>"

fun forgetLoop :: "bool \<Rightarrow> Sha256 \<Rightarrow> node list \<Rightarrow> node list" where
  "forgetLoop found rootHash [] = []"
| "forgetLoop found rootHash (root # rest) =
     (if found \<or> n_hash root \<noteq> rootHash then root # forgetLoop found rootHash rest
      else forgetLoop True rootHash rest)"

text \<open>\<open>Forget\<close> reads \<open>f.roots[0]\<close> first, which panics on an empty forest.\<close>

definition Forget :: "Forest \<Rightarrow> Sha256 \<Rightarrow> (unit, Forest) result" where
  "Forget f rootHash =
     (case roots f of
        [] \<Rightarrow> Panic
      | r # rs \<Rightarrow> if n_hash r = rootHash then Ok (f\<lparr>roots := rs\<rparr>)
                  else Ok (f\<lparr>roots := forgetLoop False rootHash (roots f)\<rparr>))"

datatype TrieDiff = TrieDiff (diff_key: bytes) (diff_value: Sha256)

datatype forestError = UnknownRoot | MustStartWithValidRoot | NotSelfConsistent | ProofLengthMismatch

definition insertDiffs :: "hasher \<Rightarrow> TrieDiff list \<Rightarrow> node \<Rightarrow> node" where
  "insertDiffs sha diffs root =
     fold (\<lambda>diff r. fst (insert_node (GetZeroValueHash sha) (diff_value diff) r
                           (toBin (diff_key diff) (toBinSize (diff_key diff))))) diffs root"

text \<open>
  \<open>Update\<close> starts a new sandbox, so the nodes it reaches through the old root have no entry in
  it: \<open>forgetSandbox\<close>.
\<close>

definition Update :: "hasher \<Rightarrow> Forest \<Rightarrow> Sha256 \<Rightarrow> TrieDiff list
    \<Rightarrow> Forest \<times> (forestError, Sha256) result" where
  "Update sha f rootMerkle diffs =
     (case findRoot f rootMerkle of
        None \<Rightarrow> (f, Err MustStartWithValidRoot)
      | Some root0 \<Rightarrow>
          let root1 = insertDiffs sha diffs (forgetSandbox root0);
              root2 = collapseAndHash (GetZeroValueHash sha) (hashTrieNode sha) root1;
              root = (if root2 = NilNode then createEmptyTrieNode sha else root2)
          in (appendRoot f root, Ok (n_hash root)))"

subsection \<open>Proofs\<close>

datatype TrieProofNode = TrieProofNode (otherChildHash: Sha256) (prefixSize: nat)

record TrieProof =
  tp_nodes :: "TrieProofNode list"
  tp_path :: bytes
  extraHashLeft :: bytes
  extraHashRight :: "bytes option"

definition newTrieProof :: TrieProof where
  "newTrieProof = \<lparr>tp_nodes = [], tp_path = [], extraHashLeft = [], extraHashRight = None\<rparr>"

text \<open>\<open>appendToProof\<close> reads the hash of the other child, which panics when it is nil.\<close>

definition appendToProof :: "TrieProofNode list \<Rightarrow> node \<Rightarrow> node \<Rightarrow> ('e, TrieProofNode list) result" where
  "appendToProof nodes n otherChild =
     (if otherChild = NilNode then Panic
      else Ok (nodes @ [TrieProofNode (n_hash otherChild) (length (n_path n))]))"

text \<open>
  The descent of \<open>GetProof\<close>: the node where it stops (nil when a child is missing), the length
  of the path above that node, and the proof nodes collected.
\<close>

fun proofLoop :: "node \<Rightarrow> bytes \<Rightarrow> nat \<Rightarrow> TrieProofNode list
    \<Rightarrow> (forestError, node \<times> nat \<times> TrieProofNode list) result" where
  "proofLoop NilNode p currentPathLen nodes = Ok (NilNode, currentPathLen, nodes)"
| "proofLoop (Node path v h d l r) p currentPathLen nodes =
     (if hasPrefix p path \<and> length p > length path
      then (case drop (length path) p of
              [] \<Rightarrow> Panic
            | b # p' \<Rightarrow>
                let sibling = (if b = 0 then r else l);
                    current = (if b = 0 then l else r)
                in if current \<noteq> NilNode
                   then bind_result (appendToProof nodes (Node path v h d l r) sibling)
                     (\<lambda>nodes'. if b = 0
                        then proofLoop l p' (currentPathLen + length path + 1) nodes'
                        else proofLoop r p' (currentPathLen + length path + 1) nodes')
                   else Ok (NilNode, currentPathLen + length path, nodes))
      else Ok (Node path v h d l r, currentPathLen, nodes))"

definition finishProof :: "bytes \<Rightarrow> node \<Rightarrow> nat \<Rightarrow> TrieProofNode list
    \<Rightarrow> (forestError, TrieProof) result" where
  "finishProof path current currentPathLen nodes =
     (if current = NilNode then Ok (newTrieProof\<lparr>tp_nodes := nodes, tp_path := path\<rparr>)
      else bind_result (appendToProof nodes current current) (\<lambda>nodes'.
        if \<not> isLeaf current \<and> (n_left current = NilNode \<or> n_right current = NilNode) then Panic
        else if currentPathLen + length (n_path current) > length path then Panic
        else Ok \<lparr>tp_nodes = nodes',
                 tp_path = take currentPathLen path @ n_path current
                             @ drop (currentPathLen + length (n_path current)) path,
                 extraHashLeft = (if isLeaf current then n_value current else n_hash (n_left current)),
                 extraHashRight = (if isLeaf current then None else Some (n_hash (n_right current)))\<rparr>))"

definition GetProof :: "Forest \<Rightarrow> Sha256 \<Rightarrow> bytes \<Rightarrow> (forestError, TrieProof) result" where
  "GetProof f rootHash key =
     (case findRoot f rootHash of
        None \<Rightarrow> Err UnknownRoot
      | Some root \<Rightarrow>
          let path = toBin key (toBinSize key)
          in bind_result (proofLoop root path 0 [])
               (\<lambda>(current, currentPathLen, nodes). finishProof path current currentPathLen nodes))"

definition calculateLastNodePathIndex :: "TrieProof \<Rightarrow> nat" where
  "calculateLastNodePathIndex proof =
     fold (\<lambda>n i. i + prefixSize n + 1) (butlast (tp_nodes proof)) 0"

text \<open>
  The loop of \<open>verifyProofIsSelfConsistent\<close> over the proof nodes above the last, from the
  bottom up.
\<close>

fun selfConsistentLoop :: "hasher \<Rightarrow> bytes \<Rightarrow> TrieProofNode list \<Rightarrow> nat \<Rightarrow> Sha256
    \<Rightarrow> (forestError, Sha256) result" where
  "selfConsistentLoop sha path [] keyStartInd currentHash = Ok currentHash"
| "selfConsistentLoop sha path (n # ns) keyStartInd currentHash =
     (let keyEndInd = keyStartInd - 1;
          keyStartInd' = keyEndInd - prefixSize n
      in if keyEndInd \<ge> length path then Panic
         else selfConsistentLoop sha path ns keyStartInd'
           (if path ! keyEndInd = 0
            then hashBytes sha [currentHash, otherChildHash n, slice keyStartInd' keyEndInd path]
            else hashBytes sha [otherChildHash n, currentHash, slice keyStartInd' keyEndInd path]))"

definition verifyProofIsSelfConsistent ::
    "hasher \<Rightarrow> Sha256 \<Rightarrow> TrieProof \<Rightarrow> bytes \<Rightarrow> nat \<Rightarrow> (forestError, bool) result" where
  "verifyProofIsSelfConsistent sha rootHash proof pathFromVerify lastNodePathIndex =
     bind_result
       (selfConsistentLoop sha pathFromVerify (rev (butlast (tp_nodes proof))) lastNodePathIndex
          (otherChildHash (last (tp_nodes proof))))
       (\<lambda>currentHash. Ok (currentHash = rootHash))"

definition verifyProofInclusion ::
    "hasher \<Rightarrow> TrieProof \<Rightarrow> bytes \<Rightarrow> Sha256 \<Rightarrow> nat \<Rightarrow> (forestError, bool) result" where
  "verifyProofInclusion sha proof verifyPath verifyValueHash lastNodePathIndex =
     (if lastNodePathIndex > length verifyPath then Panic
      else Ok (otherChildHash (last (tp_nodes proof))
               = hashBytes sha [verifyValueHash, drop lastNodePathIndex verifyPath]))"

definition verifyProofExclusion ::
    "hasher \<Rightarrow> TrieProof \<Rightarrow> bytes \<Rightarrow> nat \<Rightarrow> (forestError, bool) result" where
  "verifyProofExclusion sha proof pathFromVerify lastNodePathIndex =
     (let pathLen = length (tp_path proof);
          lastNode = last (tp_nodes proof)
      in if pathLen \<noteq> length pathFromVerify then Err ProofLengthMismatch
         else if lastNodePathIndex + prefixSize lastNode > pathLen then Panic
         else
           let lastNodePrefix = slice lastNodePathIndex (lastNodePathIndex + prefixSize lastNode) (tp_path proof);
               calculatedHash = (case extraHashRight proof of
                    Some right \<Rightarrow> hashBytes sha [extraHashLeft proof, right, lastNodePrefix]
                  | None \<Rightarrow> hashBytes sha [extraHashLeft proof, lastNodePrefix]);
               isHashEqual = (otherChildHash lastNode = calculatedHash);
               isBeginOfPathEqual = (take lastNodePathIndex (tp_path proof) = take lastNodePathIndex pathFromVerify);
               isEndOfPathEqual = (if lastNodePathIndex < pathLen
                                   then lastNodePrefix = drop lastNodePathIndex pathFromVerify else True)
           in Ok (isHashEqual \<and> isBeginOfPathEqual \<and> \<not> isEndOfPathEqual))"

definition Verify :: "hasher \<Rightarrow> Sha256 \<Rightarrow> TrieProof option \<Rightarrow> bytes \<Rightarrow> Sha256
    \<Rightarrow> (forestError, bool) result" where
  "Verify sha rootHash maybeProof key valueHash =
     (case maybeProof of
        None \<Rightarrow> Ok (valueHash = GetZeroValueHash sha)
      | Some proof \<Rightarrow>
          if tp_nodes proof = [] then Ok (valueHash = GetZeroValueHash sha)
          else
            let lastNodePathIndex = calculateLastNodePathIndex proof;
                pathFromVerify = toBin key (toBinSize key)
            in bind_result (verifyProofIsSelfConsistent sha rootHash proof pathFromVerify lastNodePathIndex)
                 (\<lambda>consistent.
                    if \<not> consistent then Err NotSelfConsistent
                    else if valueHash \<noteq> GetZeroValueHash sha
                    then verifyProofInclusion sha proof pathFromVerify valueHash lastNodePathIndex
                    else verifyProofExclusion sha proof pathFromVerify lastNodePathIndex))"

end
