(* ===== verification/Forest_Correct.thy ===== *)
theory Forest_Correct
  imports Merkle_Forest
begin

text \<open>
  Correctness of the forest on values: the root that \<open>Update\<close> builds stores the old map with the
  diffs written, it does not depend on the order of the diffs, and its hash is a function of the
  stored map. \<open>Slices_Update\<close> carries this over to paths that share backing arrays.
\<close>

subsection \<open>Inflated keys\<close>

lemma length_toBin [simp]: "length (toBin s n) = n"
  by (simp add: toBin_def)

lemma nth_toBin: "i < n \<Longrightarrow> toBin s n ! i = of_bool (bit (s ! (i div 8)) (7 - i mod 8))"
  by (simp add: toBin_def one_and_eq mod_2_eq_odd bit_iff_odd_drop_bit)

lemma bits_toBin [simp]: "bits (toBin s n)"
  by (auto simp: bits_def in_set_conv_nth nth_toBin)

definition inflate :: "bytes \<Rightarrow> bytes" where
  "inflate key = toBin key (toBinSize key)"

lemma length_inflate [simp]: "length (inflate key) = 8 * length key"
  by (simp add: inflate_def toBinSize_def)

lemma bits_inflate [simp]: "bits (inflate key)"
  by (simp add: inflate_def)

lemma inflate_inject [simp]: "inflate s = inflate t \<longleftrightarrow> s = t"
proof
  assume eq: "inflate s = inflate t"
  then have len: "length s = length t" by (metis length_inflate mult_cancel1 zero_neq_numeral)
  show "s = t"
  proof (rule nth_equalityI[OF len])
    fix i assume i: "i < length s"
    show "s ! i = t ! i"
    proof (rule bit_word_eqI)
      fix k assume k: "k < LENGTH(8)"
      define m where "m = 7 - k"
      have m: "m < 8" "7 - m = k" using k by (auto simp: m_def)
      obtain j where j: "j div 8 = i" "7 - j mod 8 = k" "j < 8 * length s"
        using that[of "8 * i + m"] m i by simp
      have "inflate s ! j = inflate t ! j" using eq by simp
      then show "bit (s ! i) k = bit (t ! i) k"
        using j len unfolding inflate_def toBinSize_def
          by (auto simp: nth_toBin mult.commute of_bool_def split: if_splits)
    qed
  qed
qed simp

subsection \<open>Well-formed forests\<close>

interpretation trie: node_hasher "GetZeroValueHash sha" "hashTrieNode sha" for sha :: hasher
proof
  fix l l' r r' :: node and p v h d h' d'
  assume hl: "child_hash l = child_hash l'" and hr: "child_hash r = child_hash r'"
  have part: "child_hash c = child_hash c' \<Longrightarrow> childHashPart c = childHashPart c'" for c c'
    by (cases c; cases c') (auto simp: childHashPart_def)
  have nil: "l = NilNode \<longleftrightarrow> l' = NilNode" "r = NilNode \<longleftrightarrow> r' = NilNode"
    using hl hr by (cases l; cases l'; cases r; cases r'; simp)+
  show "hashTrieNode sha (Node p v h d l r) = hashTrieNode sha (Node p v h' d' l' r')"
    using part[OF hl] part[OF hr] nil
    by (simp add: hashTrieNode_def generateLeafParts_def generateNodeParts_def)
qed

definition empty_root :: "hasher \<Rightarrow> node \<Rightarrow> bool" where
  "empty_root sha n \<longleftrightarrow> forgetSandbox n = createEmptyTrieNode sha"

definition root_ok :: "hasher \<Rightarrow> node \<Rightarrow> bool" where
  "root_ok sha n \<longleftrightarrow>
     n \<noteq> NilNode \<and> (good (GetZeroValueHash sha) (hashTrieNode sha) n \<or> empty_root sha n)"

text \<open>Values are stored only under inflated keys.\<close>

definition inflated :: "hasher \<Rightarrow> node \<Rightarrow> bool" where
  "inflated sha n \<longleftrightarrow>
     (\<forall>q. bits q \<longrightarrow> trie_lookup (GetZeroValueHash sha) n q \<noteq> GetZeroValueHash sha \<longrightarrow> q \<in> range inflate)"

definition forest_ok :: "hasher \<Rightarrow> Forest \<Rightarrow> bool" where
  "forest_ok sha f \<longleftrightarrow> (\<forall>r \<in> set (roots f). root_ok sha r \<and> inflated sha r)"

text \<open>The value hash that a root stores for a key; the zero hash when it stores none.\<close>

definition trie_get :: "hasher \<Rightarrow> node \<Rightarrow> bytes \<Rightarrow> Sha256" where
  "trie_get sha root key = trie_lookup (GetZeroValueHash sha) root (inflate key)"

lemma empty_node_eq:
  "createEmptyTrieNode sha = Node [] (GetZeroValueHash sha) (sha (GetZeroValueHash sha)) None NilNode NilNode"
  by (simp add: createEmptyTrieNode_def createNode_def hashTrieNode_def hashBytes_def CalcSha256_def
      generateLeafParts_def Let_def)

lemma empty_root_Node:
  "empty_root sha n \<Longrightarrow> \<exists>d. n = Node [] (GetZeroValueHash sha) (sha (GetZeroValueHash sha)) d NilNode NilNode"
  by (cases n) (auto simp: empty_root_def empty_node_eq)

lemma empty_root_lookup: "empty_root sha n \<Longrightarrow> trie_lookup (GetZeroValueHash sha) n q = GetZeroValueHash sha"
  by (auto dest!: empty_root_Node simp: lookup_leaf)

lemma root_ok_empty [simp]: "root_ok sha (createEmptyTrieNode sha)"
  by (simp add: root_ok_def empty_root_def empty_node_eq)

lemma root_ok_sandbox_inv:
  "root_ok sha n \<Longrightarrow> sandbox_inv (GetZeroValueHash sha) (hashTrieNode sha) (forgetSandbox n)"
  by (auto simp: root_ok_def empty_root_def empty_node_eq intro: good_fresh_sandbox_inv)

lemma insertDiffs_simps [simp]:
  "insertDiffs sha [] n = n"
  "insertDiffs sha (TrieDiff k v # ds) n =
     insertDiffs sha ds (fst (insert_node (GetZeroValueHash sha) v n (inflate k)))"
  by (simp_all add: insertDiffs_def inflate_def)

text \<open>The map after a list of writes.\<close>

fun apply_diffs :: "TrieDiff list \<Rightarrow> (bytes \<Rightarrow> Sha256) \<Rightarrow> (bytes \<Rightarrow> Sha256)" where
  "apply_diffs [] m = m"
| "apply_diffs (TrieDiff k v # ds) m = apply_diffs ds (m(k := v))"

lemma insertDiffs_sandbox_inv:
  "sandbox_inv (GetZeroValueHash sha) f n \<Longrightarrow> sandbox_inv (GetZeroValueHash sha) f (insertDiffs sha ds n)"
proof (induction ds arbitrary: n)
  case (Cons d ds)
  then show ?case by (cases d) (simp add: insert_node_sandbox_inv)
qed simp

text \<open>
  The trie after a batch, as a map on inflated keys. Paths that are no inflated key keep their
  value.
\<close>

fun apply_paths :: "TrieDiff list \<Rightarrow> (bytes \<Rightarrow> Sha256) \<Rightarrow> (bytes \<Rightarrow> Sha256)" where
  "apply_paths [] m = m"
| "apply_paths (TrieDiff k v # ds) m = apply_paths ds (m(inflate k := v))"

lemma apply_paths_cong:
  "(\<And>q. bits q \<Longrightarrow> m q = m' q) \<Longrightarrow> bits q \<Longrightarrow> apply_paths ds m q = apply_paths ds m' q"
proof (induction ds arbitrary: m m')
  case (Cons d ds)
  show ?case
  proof (cases d)
    case (TrieDiff k v)
    show ?thesis unfolding TrieDiff apply_paths.simps
      by (rule Cons.IH) (use Cons.prems in auto)
  qed
qed simp

lemma apply_paths_inflate: "apply_paths ds m (inflate key) = apply_diffs ds (\<lambda>k. m (inflate k)) key"
proof (induction ds arbitrary: m)
  case (Cons d ds)
  then show ?case
    by (cases d) (simp, metis (no_types, lifting) fun_upd_def inflate_inject)
qed simp

lemma insertDiffs_lookup:
  "sandbox_inv (GetZeroValueHash sha) f n \<Longrightarrow> bits q \<Longrightarrow>
   trie_lookup (GetZeroValueHash sha) (insertDiffs sha ds n) q
     = apply_paths ds (trie_lookup (GetZeroValueHash sha) n) q"
proof (induction ds arbitrary: n)
  case (Cons d ds)
  obtain k v where d: "d = TrieDiff k v" by (cases d)
  let ?z = "GetZeroValueHash sha"
  let ?n = "fst (insert_node ?z v n (inflate k))"
  have inv: "sandbox_inv ?z f ?n" using Cons.prems(1) by (simp add: insert_node_sandbox_inv)
  have step: "trie_lookup ?z ?n q = ((trie_lookup ?z n)(inflate k := v)) q" if "bits q" for q
    using insert_node_lookup[OF sandbox_inv_not_Nil[OF Cons.prems(1)]
      sandbox_inv_bit_paths[OF Cons.prems(1)] bits_inflate[of k], where z = ?z and v = v] that by simp
  show ?case
    using Cons.IH[OF inv Cons.prems(2)] apply_paths_cong[of "trie_lookup ?z ?n" "(trie_lookup ?z n)(inflate k := v)", OF step Cons.prems(2)]
    by (simp add: d)
qed simp


subsection \<open>Update\<close>

text \<open>The root that \<open>Update\<close> builds from an old root.\<close>

definition new_root :: "hasher \<Rightarrow> TrieDiff list \<Rightarrow> node \<Rightarrow> node" where
  "new_root sha diffs root0 =
     (let root2 = collapseAndHash (GetZeroValueHash sha) (hashTrieNode sha)
                    (insertDiffs sha diffs (forgetSandbox root0))
      in if root2 = NilNode then createEmptyTrieNode sha else root2)"

lemma Update_known_root:
  "findRoot f rootMerkle = Some root0 \<Longrightarrow>
   Update sha f rootMerkle diffs = (appendRoot f (new_root sha diffs root0), Ok (n_hash (new_root sha diffs root0)))"
  by (simp add: Update_def new_root_def Let_def)

lemma Update_unknown_root:
  "findRoot f rootMerkle = None \<Longrightarrow> Update sha f rootMerkle diffs = (f, Err MustStartWithValidRoot)"
  by (simp add: Update_def)

lemma findRoot_appendRoot [simp]:
  "findRoot (appendRoot f r) h = (if n_hash r = h then Some r else findRoot f h)"
  by (simp add: findRoot_def appendRoot_def)

lemma findRoot_mem: "findRoot f h = Some r \<Longrightarrow> r \<in> set (roots f) \<and> n_hash r = h"
  by (auto simp: findRoot_def dest: find_SomeD)

lemma root_ok_new_root: "root_ok sha root0 \<Longrightarrow> root_ok sha (new_root sha diffs root0)"
proof -
  assume "root_ok sha root0"
  then have "sandbox_inv (GetZeroValueHash sha) (hashTrieNode sha) (insertDiffs sha diffs (forgetSandbox root0))"
    by (intro insertDiffs_sandbox_inv root_ok_sandbox_inv)
  then have "good (GetZeroValueHash sha) (hashTrieNode sha)
      (collapseAndHash (GetZeroValueHash sha) (hashTrieNode sha) (insertDiffs sha diffs (forgetSandbox root0)))"
    by (rule trie.good_collapseAndHash)
  then show ?thesis by (simp add: new_root_def Let_def root_ok_def[of sha "collapseAndHash _ _ _"])
qed

lemma new_root_lookup:
  assumes "root_ok sha root0" and "bits q"
  shows "trie_lookup (GetZeroValueHash sha) (new_root sha diffs root0) q
    = apply_paths diffs (trie_lookup (GetZeroValueHash sha) root0) q"
proof -
  let ?z = "GetZeroValueHash sha"
  let ?n = "insertDiffs sha diffs (forgetSandbox root0)"
  have "trie_lookup ?z ?n q = apply_paths diffs (trie_lookup ?z root0) q"
    using insertDiffs_lookup[OF root_ok_sandbox_inv[OF assms(1)] assms(2), of diffs]
      apply_paths_cong[OF _ assms(2), of "trie_lookup ?z (forgetSandbox root0)" "trie_lookup ?z root0"]
    by simp
  moreover have "trie_lookup ?z (new_root sha diffs root0) q = trie_lookup ?z ?n q"
    using lookup_collapseAndHash[OF assms(2), of ?z "hashTrieNode sha" ?n]
    by (auto simp: new_root_def Let_def empty_node_eq lookup_leaf)
  ultimately show ?thesis by simp
qed

text \<open>A well-formed root is determined by its map, hash included.\<close>

lemma root_unique:
  assumes "root_ok sha m" and "root_ok sha n"
    and same: "\<And>q. bits q \<Longrightarrow> trie_lookup (GetZeroValueHash sha) m q = trie_lookup (GetZeroValueHash sha) n q"
  shows "forgetSandbox m = forgetSandbox n"
proof -
  let ?z = "GetZeroValueHash sha" and ?f = "hashTrieNode sha"
  have contra: False if "good ?z ?f a" "a \<noteq> NilNode" "empty_root sha b"
    "\<And>q. bits q \<Longrightarrow> trie_lookup ?z a q = trie_lookup ?z b q" for a b
    using trie.good_has_key[OF that(1,2)] that(4) empty_root_lookup[OF that(3)] by auto
  consider "good ?z ?f m" "good ?z ?f n" | "empty_root sha m" "empty_root sha n"
    | "good ?z ?f m" "empty_root sha n" | "empty_root sha m" "good ?z ?f n"
    using assms(1,2) by (auto simp: root_ok_def)
  then show ?thesis
  proof cases
    case 1
    then show ?thesis using same by (rule trie.good_unique)
  next
    case 2
    then show ?thesis by (simp add: empty_root_def)
  next
    case 3
    then show ?thesis using contra[of m n] same assms(1) by (simp add: root_ok_def)
  next
    case 4
    then show ?thesis using contra[of n m] same assms(2) by (simp add: root_ok_def)
  qed
qed

lemma forgetSandbox_hash: "forgetSandbox m = forgetSandbox n \<Longrightarrow> n_hash m = n_hash n"
  by (cases m; cases n) auto

text \<open>Writes to distinct keys commute.\<close>

lemma apply_paths_eq:
  "distinct (map diff_key ds) \<Longrightarrow>
   apply_paths ds m q = (case find (\<lambda>d. inflate (diff_key d) = q) ds of Some d \<Rightarrow> diff_value d | None \<Rightarrow> m q)"
proof (induction ds arbitrary: m)
  case (Cons d ds)
  obtain k v where d: "d = TrieDiff k v" by (cases d)
  have IH: "apply_paths ds m q = (case find (\<lambda>d. inflate (diff_key d) = q) ds of
      Some d \<Rightarrow> diff_value d | None \<Rightarrow> m q)" for m
    using Cons.IH Cons.prems by simp
  show ?case
  proof (cases "inflate k = q")
    case True
    then have "find (\<lambda>d. inflate (diff_key d) = q) ds = None"
      using Cons.prems d by (auto simp: find_None_iff)
    then show ?thesis using True by (simp add: d IH)
  next
    case False
    then have "(m(inflate k := v)) q = m q" by simp
    with False show ?thesis by (simp only: d IH apply_paths.simps find.simps TrieDiff.sel if_False)
  qed
qed simp

lemma find_perm:
  assumes "mset ds = mset ds'" and "distinct (map diff_key ds)"
  shows "find (\<lambda>d. inflate (diff_key d) = q) ds = find (\<lambda>d. inflate (diff_key d) = q) ds'"
proof -
  have set: "set ds' = set ds" using assms(1) by (metis mset_eq_setD)
  have uniq: "e = d" if "e \<in> set ds" "d \<in> set ds" "inflate (diff_key e) = q" "inflate (diff_key d) = q" for d e
  proof -
    have "diff_key e = diff_key d" using that(3,4) by (metis inflate_inject)
    then show ?thesis using that(1,2) assms(2) by (meson distinct_map inj_onD)
  qed
  show ?thesis
  proof (cases "\<exists>d \<in> set ds. inflate (diff_key d) = q")
    case True
    then obtain d where d: "d \<in> set ds" "inflate (diff_key d) = q" by blast
    have "find (\<lambda>d. inflate (diff_key d) = q) xs = Some d" if "set xs = set ds" for xs
    proof (rule find_unique)
      show "d \<in> set xs" using d(1) that by simp
      show "inflate (diff_key d) = q" by (rule d(2))
      show "e = d" if "e \<in> set xs" "inflate (diff_key e) = q" for e
        using that \<open>set xs = set ds\<close> d by (intro uniq) auto
    qed
    then show ?thesis using set by simp
  next
    case False
    then have "find (\<lambda>d. inflate (diff_key d) = q) ds = None"
      "find (\<lambda>d. inflate (diff_key d) = q) ds' = None"
      using set by (auto simp: find_None_iff)
    then show ?thesis by simp
  qed
qed

lemma apply_paths_perm:
  assumes "mset ds = mset ds'" and "distinct (map diff_key ds)"
  shows "apply_paths ds m q = apply_paths ds' m q"
proof -
  have "distinct (map diff_key ds')"
    using assms mset_eq_imp_distinct_iff[of "map diff_key ds" "map diff_key ds'"] by simp
  then show ?thesis by (simp only: apply_paths_eq assms(2) find_perm[OF assms])
qed


lemma apply_paths_out_of_range: "q \<notin> range inflate \<Longrightarrow> apply_paths ds m q = m q"
proof (induction ds arbitrary: m)
  case (Cons d ds)
  then show ?case by (cases d) auto
qed simp

lemma inflated_new_root:
  assumes "root_ok sha r" and "inflated sha r"
  shows "inflated sha (new_root sha diffs r)"
  unfolding inflated_def
proof (intro allI impI)
  fix q assume q: "bits q"
    "trie_lookup (GetZeroValueHash sha) (new_root sha diffs r) q \<noteq> GetZeroValueHash sha"
  show "q \<in> range inflate"
  proof (rule ccontr)
    assume out: "q \<notin> range inflate"
    then show False
      using q new_root_lookup[OF assms(1) q(1), of diffs] apply_paths_out_of_range[OF out, of diffs]
        assms(2) by (auto simp: inflated_def)
  qed
qed

lemma forest_ok_root: "forest_ok sha f \<Longrightarrow> findRoot f h = Some r \<Longrightarrow> root_ok sha r \<and> inflated sha r"
  by (auto simp: forest_ok_def dest: findRoot_mem)

lemma forest_ok_Update: "forest_ok sha f \<Longrightarrow> forest_ok sha (fst (Update sha f h diffs))"
proof (cases "findRoot f h")
  case (Some r)
  assume "forest_ok sha f"
  with Some show ?thesis
    by (auto simp: Update_known_root forest_ok_def appendRoot_def
        dest!: findRoot_mem intro: root_ok_new_root inflated_new_root)
qed (simp add: Update_unknown_root)

lemma forest_ok_NewForest: "forest_ok sha (fst (NewForest sha))"
  by (auto simp: NewForest_def forest_ok_def inflated_def Let_def)
    (auto simp: empty_node_eq lookup_leaf split: if_splits intro: range_eqI[of _ _ "[]"] simp: inflate_def toBinSize_def toBin_def)

lemma trie_get_new_root:
  assumes "root_ok sha r"
  shows "trie_get sha (new_root sha diffs r) = apply_diffs diffs (trie_get sha r)"
  by (rule ext) (simp add: trie_get_def[abs_def] new_root_lookup[OF assms] apply_paths_inflate)

lemma root_hash_unique:
  assumes "forest_ok sha f" and "forest_ok sha g"
    and "findRoot f h = Some m" and "findRoot g h' = Some n"
    and "trie_get sha m = trie_get sha n"
  shows "h = h'"
proof -
  have m: "root_ok sha m" "inflated sha m" "n_hash m = h"
    using forest_ok_root[OF assms(1,3)] findRoot_mem[OF assms(3)] by auto
  have n: "root_ok sha n" "inflated sha n" "n_hash n = h'"
    using forest_ok_root[OF assms(2,4)] findRoot_mem[OF assms(4)] by auto
  have "trie_lookup (GetZeroValueHash sha) m q = trie_lookup (GetZeroValueHash sha) n q" if "bits q" for q
  proof (cases "q \<in> range inflate")
    case True
    then show ?thesis using fun_cong[OF assms(5)] by (auto simp: trie_get_def)
  next
    case False
    then show ?thesis using m(2) n(2) that by (metis inflated_def)
  qed
  then have "forgetSandbox m = forgetSandbox n" using m(1) n(1) by (intro root_unique)
  then show ?thesis using m(3) n(3) forgetSandbox_hash by blast
qed

subsection \<open>A forest with two keys\<close>

lemma findRoot_NewForest: "findRoot (fst (NewForest sha)) (snd (NewForest sha)) = Some (createEmptyTrieNode sha)"
  by (simp add: NewForest_def findRoot_def Let_def)

definition demo_root :: node where
  "demo_root = new_root demo_sha [TrieDiff [5] [9], TrieDiff [6] [7]] (createEmptyTrieNode demo_sha)"

definition demo_forest :: Forest where
  "demo_forest = fst (Update demo_sha (fst (NewForest demo_sha)) (snd (NewForest demo_sha))
     [TrieDiff [5] [9], TrieDiff [6] [7]])"

lemma forest_ok_demo: "forest_ok demo_sha demo_forest"
  by (simp add: demo_forest_def forest_ok_Update forest_ok_NewForest)

lemma findRoot_demo: "findRoot demo_forest (n_hash demo_root) = Some demo_root"
  by (simp add: demo_forest_def demo_root_def Update_known_root[OF findRoot_NewForest])

lemma root_ok_demo: "root_ok demo_sha demo_root"
  using forest_ok_root[OF forest_ok_demo findRoot_demo] by simp

subsection \<open>Order of the diffs\<close>

text \<open>
  C2. The root hash that \<open>Update\<close> returns does not depend on the order of the diffs, when no
  key occurs twice. State storage builds the diffs by ranging over a Go map, whose order differs
  between nodes; the state root agrees nevertheless.
\<close>

theorem Update_order_independent:
  assumes "forest_ok sha f" and "findRoot f rootMerkle = Some root"
    and "mset diffs = mset diffs'" and "distinct (map diff_key diffs)"
  shows "snd (Update sha f rootMerkle diffs) = snd (Update sha f rootMerkle diffs')"
proof -
  have ok: "root_ok sha root" using forest_ok_root[OF assms(1,2)] by simp
  have "forgetSandbox (new_root sha diffs root) = forgetSandbox (new_root sha diffs' root)"
  proof (rule root_unique)
    show "root_ok sha (new_root sha diffs root)" "root_ok sha (new_root sha diffs' root)"
      using ok by (rule root_ok_new_root)+
    show "trie_lookup (GetZeroValueHash sha) (new_root sha diffs root) q
        = trie_lookup (GetZeroValueHash sha) (new_root sha diffs' root) q" if "bits q" for q
      by (simp only: new_root_lookup[OF ok that] apply_paths_perm[OF assms(3,4)])
  qed
  then have "n_hash (new_root sha diffs root) = n_hash (new_root sha diffs' root)"
    by (rule forgetSandbox_hash)
  then show ?thesis by (simp add: Update_known_root[OF assms(2)])
qed

theorem Update_order_independent_witness:
  "snd (Update demo_sha demo_forest (n_hash demo_root) [TrieDiff [7] [1], TrieDiff [5] [2]])
   = snd (Update demo_sha demo_forest (n_hash demo_root) [TrieDiff [5] [2], TrieDiff [7] [1]])"
  by (rule Update_order_independent[OF forest_ok_demo findRoot_demo]) (simp_all add: add_mset_commute)

end
