(* ===== verification/Merkle_Slices.thy ===== *)
theory Merkle_Slices
  imports Forest_Correct
begin

text \<open>
  The trie of \<open>merkle_algo.go\<close> and the forest's \<open>Update\<close> again, with the paths of the nodes as
  the Go slices that they are. A slice is a window on a backing array of the store; reslicing
  shares the array, and \<open>append\<close> writes into it when the capacity allows. The nodes of one
  revision, and of several revisions, share arrays in this way, which the definitions of
  \<open>Merkle_Algo\<close>, whose paths are values, do not show. Everything else is as there; the operations
  on slices carry the suffix \<open>sl\<close>.
\<close>

subsection \<open>Slices\<close>

text \<open>The backing arrays, by the order of their allocation.\<close>

type_synonym store = "bytes list"

record goslice =
  s_arr :: nat
  s_off :: nat
  s_len :: nat
  s_cap :: nat

definition bytesOf :: "store \<Rightarrow> goslice \<Rightarrow> bytes" where
  "bytesOf st s = take (s_len s) (drop (s_off s) (st ! s_arr s))"

definition sliceFrom :: "goslice \<Rightarrow> nat \<Rightarrow> goslice" where
  "sliceFrom s k = s\<lparr>s_off := s_off s + k, s_len := s_len s - k, s_cap := s_cap s - k\<rparr>"

definition sliceTo :: "goslice \<Rightarrow> nat \<Rightarrow> goslice" where
  "sliceTo s k = s\<lparr>s_len := k\<rparr>"

text \<open>A new array with the given contents, and the slice of the whole of it.\<close>

definition alloc :: "store \<Rightarrow> bytes \<Rightarrow> store \<times> goslice" where
  "alloc st xs = (st @ [xs], \<lparr>s_arr = length st, s_off = 0, s_len = length xs, s_cap = length xs\<rparr>)"

definition writeAt :: "bytes \<Rightarrow> nat \<Rightarrow> bytes \<Rightarrow> bytes" where
  "writeAt a i xs = take i a @ xs @ drop (i + length xs) a"

text \<open>
  The built-in \<open>append\<close>. Where the capacity does not suffice it moves the contents to a new array
  that is large enough; how much larger is up to the runtime, the parameter \<open>grow\<close>.
\<close>

definition append_sl :: "(nat \<Rightarrow> nat \<Rightarrow> nat) \<Rightarrow> store \<Rightarrow> goslice \<Rightarrow> bytes \<Rightarrow> store \<times> goslice" where
  "append_sl grow st s xs =
     (let newLen = s_len s + length xs in
      if newLen \<le> s_cap s
      then (st[s_arr s := writeAt (st ! s_arr s) (s_off s + s_len s) xs], s\<lparr>s_len := newLen\<rparr>)
      else (let newCap = max newLen (grow (s_cap s) newLen) in
            (st @ [bytesOf st s @ xs @ replicate (newCap - newLen) 0],
             \<lparr>s_arr = length st, s_off = 0, s_len = newLen, s_cap = newCap\<rparr>)))"

subsection \<open>Nodes\<close>

datatype snode =
    SNil
  | SNode (sn_path: goslice) (sn_value: Sha256) (sn_hash: Sha256) (sn_dirty: "dirtyNode option")
      (sn_left: snode) (sn_right: snode)

text \<open>The tree that is read from the store.\<close>

fun readNode :: "store \<Rightarrow> snode \<Rightarrow> node" where
  "readNode st SNil = NilNode"
| "readNode st (SNode p v h d l r) = Node (bytesOf st p) v h d (readNode st l) (readNode st r)"

definition createNode_sl :: "goslice \<Rightarrow> Sha256 \<Rightarrow> snode" where
  "createNode_sl path valueHash = SNode path valueHash [] None SNil SNil"

fun hasValue_sl :: "Sha256 \<Rightarrow> snode \<Rightarrow> bool" where
  "hasValue_sl z (SNode _ v _ _ _ _) = (z \<noteq> v)"
| "hasValue_sl z SNil = False"

fun isLeaf_sl :: "snode \<Rightarrow> bool" where
  "isLeaf_sl (SNode _ _ _ _ l r) = (l = SNil \<and> r = SNil)"
| "isLeaf_sl SNil = False"

fun getChild_sl :: "snode \<Rightarrow> byte \<Rightarrow> snode" where
  "getChild_sl (SNode _ _ _ _ l r) b = (if b = 0 then l else r)"
| "getChild_sl SNil b = SNil"

fun setChild_sl :: "snode \<Rightarrow> byte \<Rightarrow> snode \<Rightarrow> snode" where
  "setChild_sl (SNode p v h d l r) b c = (if b = 0 then SNode p v h d c r else SNode p v h d l c)"
| "setChild_sl SNil b c = SNil"

fun clone_sl :: "snode \<Rightarrow> snode" where
  "clone_sl (SNode p v h d l r) = SNode p v [] None l r"
| "clone_sl SNil = SNil"

fun init_sl :: "snode \<Rightarrow> snode" where
  "init_sl (SNode p v h d l r) = SNode p v h (Some (DirtyNode False False)) l r"
| "init_sl SNil = SNil"

fun set_sl :: "snode \<Rightarrow> byte \<Rightarrow> snode" where
  "set_sl (SNode p v h d l r) arc = SNode p v h (Some (mark d arc)) l r"
| "set_sl SNil arc = SNil"

fun setPath_sl :: "snode \<Rightarrow> goslice \<Rightarrow> snode" where
  "setPath_sl (SNode p v h d l r) q = SNode q v h d l r"
| "setPath_sl SNil q = SNil"

fun setValue_sl :: "snode \<Rightarrow> Sha256 \<Rightarrow> snode" where
  "setValue_sl (SNode p v h d l r) w = SNode p w h d l r"
| "setValue_sl SNil w = SNil"

fun setHash_sl :: "snode \<Rightarrow> Sha256 \<Rightarrow> snode" where
  "setHash_sl (SNode p v h d l r) w = SNode p v w d l r"
| "setHash_sl SNil w = SNil"

fun forget_sl :: "snode \<Rightarrow> snode" where
  "forget_sl SNil = SNil"
| "forget_sl (SNode p v h d l r) = SNode p v h None (forget_sl l) (forget_sl r)"

subsection \<open>Insertion\<close>

text \<open>Insertion compares and reslices paths; it writes to no array.\<close>

definition getOrClone_sl :: "snode \<Rightarrow> snode \<times> bool" where
  "getOrClone_sl current =
     (case sn_dirty current of
        Some _ \<Rightarrow> (current, False)
      | None \<Rightarrow> (init_sl (clone_sl current), True))"

definition createParent_sl :: "store \<Rightarrow> snode \<Rightarrow> goslice \<Rightarrow> Sha256 \<Rightarrow> snode" where
  "createParent_sl st current path valueHash =
     (let childArc = bytesOf st (sn_path current) ! s_len path;
          current' = setPath_sl current (sliceFrom (sn_path current) (s_len path + 1));
          newParent = setChild_sl (createNode_sl path valueHash) childArc current'
      in set_sl newParent childArc)"

definition createParentAndSibling_sl :: "store \<Rightarrow> Sha256 \<Rightarrow> snode \<Rightarrow> goslice \<Rightarrow> Sha256 \<Rightarrow> snode" where
  "createParentAndSibling_sl st z current path valueHash =
     (let prefixLastIndex = lastCommonPathIndex (bytesOf st (sn_path current)) (bytesOf st path);
          newCommonPath = sliceTo path prefixLastIndex;
          newCurrentArc = bytesOf st (sn_path current) ! prefixLastIndex;
          current' = setPath_sl current (sliceFrom (sn_path current) (prefixLastIndex + 1));
          newParent = set_sl (setChild_sl (createNode_sl newCommonPath z) newCurrentArc current') newCurrentArc;
          newChild = createNode_sl (sliceFrom path (prefixLastIndex + 1)) valueHash;
          newChildArc = bytesOf st path ! prefixLastIndex
      in set_sl (setChild_sl newParent newChildArc newChild) newChildArc)"

function insert_sl :: "store \<Rightarrow> Sha256 \<Rightarrow> Sha256 \<Rightarrow> snode \<Rightarrow> goslice \<Rightarrow> snode \<times> bool"
  and updateOrCreateChild_sl :: "store \<Rightarrow> Sha256 \<Rightarrow> snode \<Rightarrow> goslice \<Rightarrow> Sha256 \<Rightarrow> snode" where
  "insert_sl st z valueHash current path =
     (let (current', marked) = getOrClone_sl current in
      if bytesOf st (sn_path current') = bytesOf st path then (setValue_sl current' valueHash, marked)
      else if hasPrefix (bytesOf st path) (bytesOf st (sn_path current'))
        then (updateOrCreateChild_sl st z current' path valueHash, marked)
      else if hasPrefix (bytesOf st (sn_path current')) (bytesOf st path)
        then (createParent_sl st current' path valueHash, marked)
      else (createParentAndSibling_sl st z current' path valueHash, marked))"
| "updateOrCreateChild_sl st z current path valueHash =
     (if \<not> hasValue_sl z current \<and> isLeaf_sl current
      then setValue_sl (setPath_sl current path) valueHash
      else if s_len path \<le> s_len (sn_path current) then current
      else (let childArc = bytesOf st path ! s_len (sn_path current);
                childPath = sliceFrom path (s_len (sn_path current) + 1)
            in if getChild_sl current childArc \<noteq> SNil
               then (let (child', marked) = insert_sl st z valueHash (getChild_sl current childArc) childPath;
                         current' = (if marked then set_sl current childArc else current)
                     in setChild_sl current' childArc child')
               else if valueHash = z then current
               else set_sl (setChild_sl current childArc (createNode_sl childPath valueHash)) childArc))"
  by pat_completeness auto
termination
  by (relation "measure (case_sum (\<lambda>(st, z, v, c, p). 2 * s_len p + 1) (\<lambda>(st, z, c, p, v). 2 * s_len p))")
    (auto simp: sliceFrom_def)

declare insert_sl.simps [simp del] updateOrCreateChild_sl.simps [simp del]

subsection \<open>Collapsing and hashing\<close>

definition collapseOnlyChild_sl :: "(nat \<Rightarrow> nat \<Rightarrow> nat) \<Rightarrow> store \<Rightarrow> snode \<Rightarrow> byte \<Rightarrow> store \<times> snode" where
  "collapseOnlyChild_sl grow st current onlyChild =
     (let child = getChild_sl current onlyChild;
          (st, combinedPath) = append_sl grow st (sn_path current) [onlyChild];
          (st, combinedPath) = append_sl grow st combinedPath (bytesOf st (sn_path child))
      in (st, setPath_sl (clone_sl child) combinedPath))"

definition finishNode_sl :: "(nat \<Rightarrow> nat \<Rightarrow> nat) \<Rightarrow> Sha256 \<Rightarrow> (node \<Rightarrow> Sha256) \<Rightarrow> store \<Rightarrow> snode \<Rightarrow> store \<times> snode" where
  "finishNode_sl grow z f st current =
     (if \<not> hasValue_sl z current \<and> isLeaf_sl current then (st, SNil)
      else (let (st, current) =
              (if \<not> hasValue_sl z current \<and> sn_left current \<noteq> SNil \<and> sn_right current = SNil
               then collapseOnlyChild_sl grow st current 0
               else if \<not> hasValue_sl z current \<and> sn_left current = SNil \<and> sn_right current \<noteq> SNil
               then collapseOnlyChild_sl grow st current 1
               else (st, current))
            in (st, setHash_sl current (f (readNode st current)))))"

function collapseAndHash_sl :: "(nat \<Rightarrow> nat \<Rightarrow> nat) \<Rightarrow> Sha256 \<Rightarrow> (node \<Rightarrow> Sha256) \<Rightarrow> store \<Rightarrow> snode \<Rightarrow> store \<times> snode"
  and collapseDirtyChildren_sl :: "(nat \<Rightarrow> nat \<Rightarrow> nat) \<Rightarrow> Sha256 \<Rightarrow> (node \<Rightarrow> Sha256) \<Rightarrow> store \<Rightarrow> snode \<Rightarrow> store \<times> snode" where
  "collapseAndHash_sl grow z f st current =
     (if current = SNil then (st, SNil)
      else (let (st, current) =
              (if \<not> isLeaf_sl current then collapseDirtyChildren_sl grow z f st current else (st, current))
            in finishNode_sl grow z f st current))"
| "collapseDirtyChildren_sl grow z f st (SNode p v h (Some d) l r) =
     (let (st, l') = (if d_left d then collapseAndHash_sl grow z f st l else (st, l));
          (st, r') = (if d_right d then collapseAndHash_sl grow z f st r else (st, r))
      in (st, SNode p v h (Some d) l' r'))"
| "collapseDirtyChildren_sl grow z f st (SNode p v h None l r) = (st, SNode p v h None l r)"
| "collapseDirtyChildren_sl grow z f st SNil = (st, SNil)"
  by pat_completeness auto
termination
  by (relation "measure (case_sum (\<lambda>(g, z, f, st, n). 2 * size n + 1) (\<lambda>(g, z, f, st, n). 2 * size n))") auto

declare collapseAndHash_sl.simps [simp del]

subsection \<open>The forest\<close>

record Forest_sl =
  fs_store :: store
  fs_roots :: "snode list"

definition createEmptyTrieNode_sl :: "hasher \<Rightarrow> store \<Rightarrow> store \<times> snode" where
  "createEmptyTrieNode_sl sha st =
     (let (st, path) = alloc st [];
          tmp = createNode_sl path (GetZeroValueHash sha)
      in (st, setHash_sl tmp (hashTrieNode sha (readNode st tmp))))"

definition NewForest_sl :: "hasher \<Rightarrow> Forest_sl \<times> Sha256" where
  "NewForest_sl sha =
     (let (st, emptyNode) = createEmptyTrieNode_sl sha []
      in (\<lparr>fs_store = st, fs_roots = [emptyNode]\<rparr>, sn_hash emptyNode))"

definition findRoot_sl :: "Forest_sl \<Rightarrow> Sha256 \<Rightarrow> snode option" where
  "findRoot_sl f rootHash = find (\<lambda>r. sn_hash r = rootHash) (rev (fs_roots f))"

definition insertDiffs_sl :: "hasher \<Rightarrow> TrieDiff list \<Rightarrow> store \<Rightarrow> snode \<Rightarrow> store \<times> snode" where
  "insertDiffs_sl sha diffs st root =
     fold (\<lambda>diff (st, root).
       let (st, path) = alloc st (toBin (diff_key diff) (toBinSize (diff_key diff)))
       in (st, fst (insert_sl st (GetZeroValueHash sha) (diff_value diff) root path))) diffs (st, root)"

definition Update_sl :: "(nat \<Rightarrow> nat \<Rightarrow> nat) \<Rightarrow> hasher \<Rightarrow> Forest_sl \<Rightarrow> Sha256 \<Rightarrow> TrieDiff list
    \<Rightarrow> Forest_sl \<times> (forestError, Sha256) result" where
  "Update_sl grow sha f rootMerkle diffs =
     (case findRoot_sl f rootMerkle of
        None \<Rightarrow> (f, Err MustStartWithValidRoot)
      | Some root \<Rightarrow>
          let (st, root) = insertDiffs_sl sha diffs (fs_store f) (forget_sl root);
              (st, root) = collapseAndHash_sl grow (GetZeroValueHash sha) (hashTrieNode sha) st root;
              (st, root) = (if root = SNil then createEmptyTrieNode_sl sha st else (st, root))
          in (\<lparr>fs_store = st, fs_roots = fs_roots f @ [root]\<rparr>, Ok (sn_hash root)))"

end
