(* ===== verification/Slices_Correct.thy ===== *)
theory Slices_Correct
  imports Merkle_Slices
begin

text \<open>
  Reading the trie on slices as a trie on values, the ownership of backing arrays by the nodes of
  one tree, and insertion: it computes what insertion on values computes and keeps the ownership.
\<close>

subsection \<open>Reading slices\<close>

definition validSlice :: "store \<Rightarrow> goslice \<Rightarrow> bool" where
  "validSlice st s \<longleftrightarrow> s_arr s < length st \<and> s_len s \<le> s_cap s \<and> s_off s + s_cap s \<le> length (st ! s_arr s)"

lemma length_bytesOf [simp]: "validSlice st s \<Longrightarrow> length (bytesOf st s) = s_len s"
  by (auto simp: validSlice_def bytesOf_def)

lemma sliceFrom_simps [simp]:
  "s_arr (sliceFrom s k) = s_arr s" "s_off (sliceFrom s k) = s_off s + k"
  "s_len (sliceFrom s k) = s_len s - k"
  by (simp_all add: sliceFrom_def)

lemma sliceTo_simps [simp]:
  "s_arr (sliceTo s k) = s_arr s" "s_off (sliceTo s k) = s_off s" "s_len (sliceTo s k) = k"
  by (simp_all add: sliceTo_def)

lemma bytesOf_sliceFrom [simp]: "bytesOf st (sliceFrom s k) = drop k (bytesOf st s)"
  by (simp add: bytesOf_def drop_take add.commute)

lemma bytesOf_sliceTo [simp]: "k \<le> s_len s \<Longrightarrow> bytesOf st (sliceTo s k) = take k (bytesOf st s)"
  by (simp add: bytesOf_def min_def)

lemma validSlice_sliceFrom [simp]: "validSlice st s \<Longrightarrow> k \<le> s_len s \<Longrightarrow> validSlice st (sliceFrom s k)"
  by (auto simp: validSlice_def sliceFrom_def)

lemma validSlice_sliceTo [simp]: "validSlice st s \<Longrightarrow> k \<le> s_len s \<Longrightarrow> validSlice st (sliceTo s k)"
  by (auto simp: validSlice_def sliceTo_def)

subsection \<open>Reading nodes\<close>

lemma readNode_Nil [simp]: "readNode st n = NilNode \<longleftrightarrow> n = SNil" "NilNode = readNode st n \<longleftrightarrow> n = SNil"
  by (cases n; simp)+

lemma readNode_simps [simp]:
  "readNode st (createNode_sl p v) = createNode (bytesOf st p) v"
  "hasValue z (readNode st n) = hasValue_sl z n"
  "isLeaf (readNode st n) = isLeaf_sl n"
  "getChild (readNode st n) b = readNode st (getChild_sl n b)"
  "readNode st (setChild_sl n b c) = setChild (readNode st n) b (readNode st c)"
  "readNode st (clone_sl n) = clone (readNode st n)"
  "readNode st (init_sl n) = sandbox_init (readNode st n)"
  "readNode st (set_sl n b) = sandbox_set (readNode st n) b"
  "readNode st (setPath_sl n p) = setPath (readNode st n) (bytesOf st p)"
  "readNode st (setValue_sl n v) = setValue (readNode st n) v"
  "readNode st (setHash_sl n v) = setHash (readNode st n) v"
  by (simp add: createNode_sl_def createNode_def) (cases n; simp; fail)+

lemma readNode_forget [simp]: "readNode st (forget_sl n) = forgetSandbox (readNode st n)"
  by (induction n) simp_all

lemma readNode_sel [simp]:
  "n \<noteq> SNil \<Longrightarrow> n_path (readNode st n) = bytesOf st (sn_path n)"
  "n \<noteq> SNil \<Longrightarrow> n_hash (readNode st n) = sn_hash n"
  "n \<noteq> SNil \<Longrightarrow> n_dirty (readNode st n) = sn_dirty n"
  "n \<noteq> SNil \<Longrightarrow> n_left (readNode st n) = readNode st (sn_left n)"
  "n \<noteq> SNil \<Longrightarrow> n_right (readNode st n) = readNode st (sn_right n)"
  by (cases n; simp)+

lemma sl_not_Nil [simp]:
  "setChild_sl n b c = SNil \<longleftrightarrow> n = SNil" "clone_sl n = SNil \<longleftrightarrow> n = SNil" "init_sl n = SNil \<longleftrightarrow> n = SNil"
  "set_sl n b = SNil \<longleftrightarrow> n = SNil" "setPath_sl n p = SNil \<longleftrightarrow> n = SNil" "setValue_sl n v = SNil \<longleftrightarrow> n = SNil"
  "setHash_sl n v = SNil \<longleftrightarrow> n = SNil" "forget_sl n = SNil \<longleftrightarrow> n = SNil" "createNode_sl p v \<noteq> SNil"
  by (simp_all add: createNode_sl_def) (cases n; simp)+

lemma getOrClone_sl_not_Nil [simp]: "n \<noteq> SNil \<Longrightarrow> fst (getOrClone_sl n) \<noteq> SNil"
  by (auto simp: getOrClone_sl_def split: option.splits)

subsection \<open>Ownership of the arrays\<close>

fun arrays :: "snode \<Rightarrow> nat set" where
  "arrays SNil = {}"
| "arrays (SNode p v h d l r) = {s_arr p} \<union> arrays l \<union> arrays r"

text \<open>
  \<open>base\<close> gives each array the depth of its first byte in the trie. Every path lies in its array
  where its depth says, and nodes that share an array are on one way from the root.
\<close>

fun placed :: "store \<Rightarrow> (nat \<Rightarrow> int) \<Rightarrow> int \<Rightarrow> snode \<Rightarrow> bool" where
  "placed st base d SNil = True"
| "placed st base d (SNode p v h dd l r) =
     (validSlice st p \<and> base (s_arr p) + int (s_off p) = d \<and>
      placed st base (d + int (s_len p) + 1) l \<and> placed st base (d + int (s_len p) + 1) r \<and>
      arrays l \<inter> arrays r = {})"

lemma arrays_sl [simp]:
  "arrays (clone_sl n) = arrays n" "arrays (init_sl n) = arrays n" "arrays (set_sl n b) = arrays n"
  "arrays (setValue_sl n v) = arrays n" "arrays (setHash_sl n v) = arrays n" "arrays (forget_sl n) = arrays n"
  "arrays (createNode_sl p v) = {s_arr p}" "arrays (fst (getOrClone_sl n)) = arrays n"
proof -
  show c: "arrays (clone_sl n) = arrays n" and i: "arrays (init_sl n) = arrays n" for n by (cases n; simp)+
  show "arrays (fst (getOrClone_sl n)) = arrays n"
    by (auto simp: getOrClone_sl_def c i split: option.splits)
  show "arrays (forget_sl n) = arrays n" by (induction n) auto
qed (simp add: createNode_sl_def; fail | (cases n; simp; fail))+

lemma placed_sl [simp]:
  "placed st base d (clone_sl n) = placed st base d n" "placed st base d (init_sl n) = placed st base d n"
  "placed st base d (set_sl n b) = placed st base d n" "placed st base d (setValue_sl n v) = placed st base d n"
  "placed st base d (setHash_sl n v) = placed st base d n" "placed st base d (forget_sl n) = placed st base d n"
  "placed st base d (createNode_sl p v) \<longleftrightarrow> validSlice st p \<and> base (s_arr p) + int (s_off p) = d"
  "placed st base d (fst (getOrClone_sl n)) = placed st base d n"
proof -
  show c: "placed st base d (clone_sl n) = placed st base d n"
    and i: "placed st base d (init_sl n) = placed st base d n" for n by (cases n; simp)+
  show "placed st base d (fst (getOrClone_sl n)) = placed st base d n"
    by (auto simp: getOrClone_sl_def c i split: option.splits)
  show "placed st base d (forget_sl n) = placed st base d n" by (induction n arbitrary: d) auto
qed (simp add: createNode_sl_def; fail | (cases n; simp; fail))+

lemma placed_arrays: "placed st base d n \<Longrightarrow> a \<in> arrays n \<Longrightarrow> a < length st"
  by (induction n arbitrary: d) (auto simp: validSlice_def)

text \<open>A tree is read the same from a store that keeps its arrays from the depth of the tree on.\<close>

definition sameFrom :: "(nat \<Rightarrow> int) \<Rightarrow> int \<Rightarrow> nat set \<Rightarrow> store \<Rightarrow> store \<Rightarrow> bool" where
  "sameFrom base d A st st' \<longleftrightarrow> length st \<le> length st' \<and>
     (\<forall>a \<in> A. length (st' ! a) = length (st ! a) \<and>
        (\<forall>i < length (st ! a). d \<le> base a + int i \<longrightarrow> st' ! a ! i = st ! a ! i))"

lemma bytesOf_same:
  assumes "validSlice st s" and "length (st' ! s_arr s) = length (st ! s_arr s)"
    and "\<And>i. i < s_len s \<Longrightarrow> st' ! s_arr s ! (s_off s + i) = st ! s_arr s ! (s_off s + i)"
  shows "bytesOf st' s = bytesOf st s"
  using assms by (intro nth_equalityI) (auto simp: bytesOf_def validSlice_def)

lemma placed_same:
  assumes "placed st base d n" and "sameFrom base d (arrays n) st st'"
  shows "placed st' base d n \<and> readNode st' n = readNode st n"
  using assms
proof (induction n arbitrary: d)
  case (SNode p v h dd l r)
  let ?d = "d + int (s_len p) + 1"
  have sub: "sameFrom base ?d (arrays l) st st'" "sameFrom base ?d (arrays r) st st'"
    using SNode.prems(2) by (auto simp: sameFrom_def)
  have same: "length (st' ! s_arr p) = length (st ! s_arr p)"
    "\<And>i. i < length (st ! s_arr p) \<Longrightarrow> d \<le> base (s_arr p) + int i \<Longrightarrow> st' ! s_arr p ! i = st ! s_arr p ! i"
    "length st \<le> length st'"
    using SNode.prems(2) by (auto simp: sameFrom_def)
  have valid: "validSlice st p" and base: "base (s_arr p) + int (s_off p) = d" using SNode.prems(1) by auto
  have "bytesOf st' p = bytesOf st p"
    by (rule bytesOf_same[OF valid same(1)], rule same(2)) (use valid base in \<open>auto simp: validSlice_def\<close>)
  moreover have "validSlice st' p" using valid same by (auto simp: validSlice_def)
  ultimately show ?case using SNode.IH(1)[OF _ sub(1)] SNode.IH(2)[OF _ sub(2)] SNode.prems(1) by simp
qed simp

lemma placed_base_cong:
  "placed st base d n \<Longrightarrow> (\<And>a. a \<in> arrays n \<Longrightarrow> base' a = base a) \<Longrightarrow> placed st base' d n"
  by (induction n arbitrary: d) auto

subsection \<open>Insertion\<close>

lemma lastCommonPathIndex_le: "lastCommonPathIndex xs ys \<le> length xs \<and> lastCommonPathIndex xs ys \<le> length ys"
  by (induction xs ys rule: lastCommonPathIndex.induct) auto

lemma lastCommonPathIndex_less:
  "\<not> hasPrefix xs ys \<Longrightarrow> \<not> hasPrefix ys xs \<Longrightarrow>
   lastCommonPathIndex xs ys < length xs \<and> lastCommonPathIndex xs ys < length ys"
  by (induction xs ys rule: lastCommonPathIndex.induct) (auto simp: hasPrefix_iff split: if_splits)

lemma getOrClone_sl_read:
  "n \<noteq> SNil \<Longrightarrow> getOrClone (readNode st n) = (readNode st (fst (getOrClone_sl n)), snd (getOrClone_sl n))"
  by (auto simp: getOrClone_def getOrClone_sl_def split: option.splits)

lemma placed_valid: "placed st base d n \<Longrightarrow> n \<noteq> SNil \<Longrightarrow> validSlice st (sn_path n)"
  by (cases n) auto

lemma placed_getChild: "placed st base d n \<Longrightarrow> n \<noteq> SNil \<Longrightarrow> placed st base (d + int (s_len (sn_path n)) + 1) (getChild_sl n b)"
  by (cases n) auto

lemma createParent_sl_read:
  assumes "placed st base d n" and "n \<noteq> SNil" and "validSlice st path"
  shows "createParent (readNode st n) (bytesOf st path) v = readNode st (createParent_sl st n path v)"
  using assms placed_valid[OF assms(1,2)] by (simp add: createParent_def createParent_sl_def Let_def)

lemma createParentAndSibling_sl_read:
  assumes "placed st base d n" and "n \<noteq> SNil" and "validSlice st path"
  shows "createParentAndSibling z (readNode st n) (bytesOf st path) v
    = readNode st (createParentAndSibling_sl st z n path v)"
  using assms lastCommonPathIndex_le[of "bytesOf st (sn_path n)" "bytesOf st path"]
  by (simp add: createParentAndSibling_def createParentAndSibling_sl_def Let_def)

lemma insert_sl_read:
  shows "n \<noteq> SNil \<Longrightarrow> placed st base d n \<Longrightarrow> validSlice st path \<Longrightarrow>
      insert_node z v (readNode st n) (bytesOf st path)
        = (readNode st (fst (insert_sl st z v n path)), snd (insert_sl st z v n path))"
    and "n \<noteq> SNil \<Longrightarrow> placed st base d n \<Longrightarrow> validSlice st path \<Longrightarrow>
      updateOrCreateChild z (readNode st n) (bytesOf st path) v = readNode st (updateOrCreateChild_sl st z n path v)"
proof (induction st z v n path and st z n path v arbitrary: d and d rule: insert_sl_updateOrCreateChild_sl.induct)
  case (1 st z v n path)
  let ?c = "fst (getOrClone_sl n)"
  have c: "?c \<noteq> SNil" "placed st base d ?c" using 1(2,3) by simp_all
  have IH: "\<not> bytesOf st (sn_path ?c) = bytesOf st path \<Longrightarrow> hasPrefix (bytesOf st path) (bytesOf st (sn_path ?c)) \<Longrightarrow>
      updateOrCreateChild z (readNode st ?c) (bytesOf st path) v = readNode st (updateOrCreateChild_sl st z ?c path v)"
    using 1(1)[OF refl prod.collapse _ _ c(1) c(2) 1(4)] by simp
  show ?case
    using c 1(2,4) IH
    by (simp add: insert_node.simps[of z] insert_sl.simps[of st] getOrClone_sl_read Let_def case_prod_beta
        shouldUpdateCurrent_def shouldUpdateOrCreateChild_def shouldCreateParent_def
        createParent_sl_read createParentAndSibling_sl_read)
next
  case (2 st z n path v)
  let ?k = "s_len (sn_path n)"
  let ?arc = "bytesOf st path ! ?k" and ?cp = "sliceFrom path (?k + 1)"
  have valid: "validSlice st (sn_path n)" by (rule placed_valid[OF 2(3,2)])
  show ?case
  proof (cases "(\<not> hasValue_sl z n \<and> isLeaf_sl n) \<or> s_len path \<le> ?k")
    case True
    then show ?thesis using 2(2,4) valid
      by (auto simp: updateOrCreateChild.simps[of z] updateOrCreateChild_sl.simps[of st])
  next
    case False
    then have drop: "drop ?k (bytesOf st path) = ?arc # bytesOf st ?cp"
      using 2(4) by (simp add: Cons_nth_drop_Suc)
    have IH: "getChild_sl n ?arc \<noteq> SNil \<Longrightarrow>
      insert_node z v (readNode st (getChild_sl n ?arc)) (bytesOf st ?cp)
        = (readNode st (fst (insert_sl st z v (getChild_sl n ?arc) ?cp)), snd (insert_sl st z v (getChild_sl n ?arc) ?cp))"
      using 2(1)[OF _ _ refl refl _ _ placed_getChild[OF 2(3,2)]] False 2(4) by simp
    have no: "\<not> (\<not> hasValue_sl z n \<and> isLeaf_sl n)" "\<not> s_len path \<le> ?k" using False by blast+
    show ?thesis using 2(2) valid drop IH
      by (simp add: updateOrCreateChild.simps[of z] updateOrCreateChild_sl.simps[of st] Let_def case_prod_beta
          if_not_P[OF no(1)] no(2) del: bytesOf_sliceFrom)
  qed
qed

lemma sn_path_sl [simp]:
  "n \<noteq> SNil \<Longrightarrow> sn_path (setChild_sl n b c) = sn_path n" "n \<noteq> SNil \<Longrightarrow> sn_path (set_sl n b) = sn_path n"
  "sn_path (createNode_sl p v) = p"
  by (cases n; simp; fail)+ (simp add: createNode_sl_def)

lemma arrays_setChild: "arrays (setChild_sl n b c) \<subseteq> arrays n \<union> arrays c"
  by (cases n) auto

lemma arrays_getChild: "arrays (getChild_sl n b) \<subseteq> arrays n"
  by (cases n) auto

lemma arrays_setPath: "arrays (setPath_sl n p) \<subseteq> insert (s_arr p) (arrays n)"
  by (cases n) auto

lemma placed_setChild:
  assumes "placed st base d n" and "placed st base (d + int (s_len (sn_path n)) + 1) c"
    and "arrays c \<inter> arrays (getChild_sl n (if b = 0 then 1 else 0)) = {}"
  shows "placed st base d (setChild_sl n b c)"
  using assms by (cases n) auto

lemma placed_replaceChild:
  assumes "placed st base d n" and "n \<noteq> SNil" and "a \<notin> arrays n"
    and "placed st base (d + int (s_len (sn_path n)) + 1) c" and "arrays c \<subseteq> insert a (arrays (getChild_sl n b))"
    and "m = n \<or> m = set_sl n b"
  shows "placed st base d (setChild_sl m b c) \<and> arrays (setChild_sl m b c) \<subseteq> insert a (arrays n)"
proof
  have "arrays (getChild_sl n b) \<inter> arrays (getChild_sl n (if b = 0 then 1 else 0)) = {}"
    using assms(1) by (cases n) auto
  moreover have "getChild_sl m b' = getChild_sl n b'" for b' using assms(6) by (cases n) auto
  ultimately have "arrays c \<inter> arrays (getChild_sl m (if b = 0 then 1 else 0)) = {}"
    using assms(3,5) arrays_getChild[of n] by fastforce
  then show "placed st base d (setChild_sl m b c)"
    using assms by (intro placed_setChild) auto
  show "arrays (setChild_sl m b c) \<subseteq> insert a (arrays n)"
  proof -
    have "arrays m = arrays n" using assms(6) by auto
    then show ?thesis using assms(5) arrays_setChild[of m b c] arrays_getChild[of n b] by blast
  qed
qed

lemma placed_setPath:
  assumes "placed st base d n" and "n \<noteq> SNil" and "validSlice st p"
    and "base (s_arr p) + int (s_off p) = d'"
    and "sn_left n = SNil \<and> sn_right n = SNil \<or> d' + int (s_len p) = d + int (s_len (sn_path n))"
  shows "placed st base d' (setPath_sl n p)"
  using assms by (cases n) auto

lemma placed_sliceFrom:
  assumes "placed st base d n" and "n \<noteq> SNil" and "k < s_len (sn_path n)"
  shows "placed st base (d + int k + 1) (setPath_sl n (sliceFrom (sn_path n) (k + 1)))"
  by (rule placed_setPath[OF assms(1,2)]) (use assms placed_valid[OF assms(1,2)] in \<open>cases n; auto\<close>)+

lemma arrays_sliceFrom: "n \<noteq> SNil \<Longrightarrow> arrays (setPath_sl n (sliceFrom (sn_path n) k)) = arrays n"
  by (cases n) auto

lemma createParent_sl_placed:
  assumes "placed st base d n" and "n \<noteq> SNil" and "validSlice st path"
    and "base (s_arr path) + int (s_off path) = d" and "s_len path < s_len (sn_path n)"
  shows "placed st base d (createParent_sl st n path v)
    \<and> arrays (createParent_sl st n path v) \<subseteq> insert (s_arr path) (arrays n)"
proof -
  have "placed st base d (setChild_sl (createNode_sl path v) b (setPath_sl n (sliceFrom (sn_path n) (s_len path + 1))))" for b
    by (rule placed_setChild) (use assms placed_sliceFrom[OF assms(1,2,5)] in \<open>simp_all add: createNode_sl_def\<close>)
  then show ?thesis
    using arrays_setChild[of "createNode_sl path v"] arrays_sliceFrom[OF assms(2)]
    by (fastforce simp: createParent_sl_def Let_def)
qed

lemma createParentAndSibling_sl_placed:
  assumes "placed st base d n" and "n \<noteq> SNil" and "validSlice st path"
    and "base (s_arr path) + int (s_off path) = d" and "s_arr path \<notin> arrays n"
    and less: "lastCommonPathIndex (bytesOf st (sn_path n)) (bytesOf st path) < s_len (sn_path n)"
      "lastCommonPathIndex (bytesOf st (sn_path n)) (bytesOf st path) < s_len path"
  shows "placed st base d (createParentAndSibling_sl st z n path v)
    \<and> arrays (createParentAndSibling_sl st z n path v) \<subseteq> insert (s_arr path) (arrays n)"
proof -
  define k where "k = lastCommonPathIndex (bytesOf st (sn_path n)) (bytesOf st path)"
  let ?n = "setPath_sl n (sliceFrom (sn_path n) (k + 1))" and ?c = "createNode_sl (sliceFrom path (k + 1)) v"
  let ?p = "createNode_sl (sliceTo path k) z"
  have k: "k < s_len (sn_path n)" "k < s_len path" using less by (simp_all add: k_def)
  have n: "placed st base (d + int k + 1) ?n" "arrays ?n = arrays n"
    using placed_sliceFrom[OF assms(1,2) k(1)] arrays_sliceFrom[OF assms(2)] by simp_all
  have c: "placed st base (d + int k + 1) ?c" "arrays ?c = {s_arr path}" using assms k by simp_all
  have p: "placed st base d (set_sl (setChild_sl ?p a ?n) a)" for a
    unfolding placed_sl by (rule placed_setChild) (use assms k n in \<open>simp_all add: createNode_sl_def\<close>)
  have "placed st base d (setChild_sl (set_sl (setChild_sl ?p a ?n) a) b ?c)" for a b
    by (rule placed_setChild[OF p]) (use n c assms(5) in \<open>auto simp: createNode_sl_def\<close>)
  moreover have "arrays (setChild_sl (set_sl (setChild_sl ?p a ?n) a) b ?c) \<subseteq> insert (s_arr path) (arrays n)" for a b
    using n c by (auto simp: createNode_sl_def)
  ultimately show ?thesis by (simp add: createParentAndSibling_sl_def Let_def flip: k_def)
qed

text \<open>What insertion at \<open>n\<close> keeps, and the two steps of the induction.\<close>

definition inserted :: "store \<Rightarrow> (nat \<Rightarrow> int) \<Rightarrow> int \<Rightarrow> snode \<Rightarrow> goslice \<Rightarrow> snode \<Rightarrow> bool" where
  "inserted st base d n path n' \<longleftrightarrow>
     placed st base d n' \<and> arrays n' \<subseteq> insert (s_arr path) (arrays n) \<and> n' \<noteq> SNil"

definition insertable :: "store \<Rightarrow> (nat \<Rightarrow> int) \<Rightarrow> int \<Rightarrow> snode \<Rightarrow> goslice \<Rightarrow> bool" where
  "insertable st base d n path \<longleftrightarrow> n \<noteq> SNil \<and> placed st base d n \<and> validSlice st path \<and>
     base (s_arr path) + int (s_off path) = d \<and> s_arr path \<notin> arrays n"

lemma insert_sl_step:
  assumes n: "insertable st base d n path"
    and IH: "\<And>c. c = fst (getOrClone_sl n) \<Longrightarrow> insertable st base d c path \<Longrightarrow>
      bytesOf st (sn_path c) \<noteq> bytesOf st path \<Longrightarrow> hasPrefix (bytesOf st path) (bytesOf st (sn_path c)) \<Longrightarrow>
      inserted st base d c path (updateOrCreateChild_sl st z c path v)"
  shows "inserted st base d n path (fst (insert_sl st z v n path))"
proof -
  define c where "c = fst (getOrClone_sl n)"
  have c: "insertable st base d c path" "c \<noteq> SNil" "placed st base d c" "validSlice st path"
    "base (s_arr path) + int (s_off path) = d" "s_arr path \<notin> arrays c" "arrays c = arrays n"
    using n by (simp_all add: insertable_def c_def)
  note valid = placed_valid[OF c(3,2)]
  have run: "fst (insert_sl st z v n path) =
      (if bytesOf st (sn_path c) = bytesOf st path then setValue_sl c v
       else if hasPrefix (bytesOf st path) (bytesOf st (sn_path c)) then updateOrCreateChild_sl st z c path v
       else if hasPrefix (bytesOf st (sn_path c)) (bytesOf st path) then createParent_sl st c path v
       else createParentAndSibling_sl st z c path v)"
    by (simp add: insert_sl.simps[of st] case_prod_beta c_def)
  show ?thesis
  proof (cases "bytesOf st (sn_path c) = bytesOf st path \<or> hasPrefix (bytesOf st path) (bytesOf st (sn_path c))")
    case True
    then show ?thesis using c IH[OF c_def c(1)] by (auto simp: run inserted_def)
  next
    case False
    show ?thesis
    proof (cases "hasPrefix (bytesOf st (sn_path c)) (bytesOf st path)")
      case True
      then obtain t where t: "bytesOf st (sn_path c) = bytesOf st path @ t" by (auto simp: hasPrefix_iff)
      then have "length (bytesOf st (sn_path c)) = length (bytesOf st path) + length t" "t \<noteq> []" using False by auto
      then have "s_len path < s_len (sn_path c)" using valid c(4) by simp
      from createParent_sl_placed[OF c(3,2,4,5) this, of v] False True c(7) show ?thesis
        by (simp add: run inserted_def createParent_sl_def Let_def)
    next
      case no: False
      have "createParentAndSibling_sl st z c path v \<noteq> SNil" by (simp add: createParentAndSibling_sl_def Let_def)
      then show ?thesis
        using createParentAndSibling_sl_placed[OF c(3,2,4,5,6), of z v] lastCommonPathIndex_less[OF no] False no valid c(4,7)
        by (simp add: run inserted_def)
    qed
  qed
qed

lemma updateOrCreateChild_sl_step:
  assumes n: "insertable st base d n path"
    and IH: "\<And>b cp. \<not> (\<not> hasValue_sl z n \<and> isLeaf_sl n) \<Longrightarrow> \<not> s_len path \<le> s_len (sn_path n) \<Longrightarrow>
      b = bytesOf st path ! s_len (sn_path n) \<Longrightarrow> cp = sliceFrom path (s_len (sn_path n) + 1) \<Longrightarrow>
      getChild_sl n b \<noteq> SNil \<Longrightarrow> insertable st base (d + int (s_len (sn_path n)) + 1) (getChild_sl n b) cp \<Longrightarrow>
      inserted st base (d + int (s_len (sn_path n)) + 1) (getChild_sl n b) cp (fst (insert_sl st z v (getChild_sl n b) cp))"
  shows "inserted st base d n path (updateOrCreateChild_sl st z n path v)"
proof (cases "(\<not> hasValue_sl z n \<and> isLeaf_sl n) \<or> s_len path \<le> s_len (sn_path n)")
  case True
  then show ?thesis using n
    by (cases n) (auto simp: updateOrCreateChild_sl.simps[of st] inserted_def insertable_def)
next
  case False
  then have no: "\<not> (\<not> hasValue_sl z n \<and> isLeaf_sl n)" "\<not> s_len path \<le> s_len (sn_path n)" by blast+
  define b cp where "b = bytesOf st path ! s_len (sn_path n)" and "cp = sliceFrom path (s_len (sn_path n) + 1)"
  let ?d = "d + int (s_len (sn_path n)) + 1"
  have n': "placed st base d n" "n \<noteq> SNil" "s_arr path \<notin> arrays n" using n by (simp_all add: insertable_def)
  have cp: "validSlice st cp" "base (s_arr cp) + int (s_off cp) = ?d" "s_arr cp = s_arr path"
    using n no by (simp_all add: cp_def insertable_def)
  have run: "updateOrCreateChild_sl st z n path v =
     (if getChild_sl n b \<noteq> SNil
      then (let (child', marked) = insert_sl st z v (getChild_sl n b) cp
            in setChild_sl (if marked then set_sl n b else n) b child')
      else if v = z then n else set_sl (setChild_sl n b (createNode_sl cp v)) b)"
    by (simp only: updateOrCreateChild_sl.simps[of st] if_not_P[OF no(1)] if_not_P[OF no(2)] Let_def flip: b_def cp_def)
  show ?thesis
  proof (cases "getChild_sl n b \<noteq> SNil")
    case True
    have "insertable st base ?d (getChild_sl n b) cp"
      using True cp n' placed_getChild[OF n'(1,2)] arrays_getChild[of n b] by (auto simp: insertable_def)
    from IH[OF no b_def cp_def True this]
    have "placed st base d (setChild_sl m b (fst (insert_sl st z v (getChild_sl n b) cp))) \<and>
        arrays (setChild_sl m b (fst (insert_sl st z v (getChild_sl n b) cp))) \<subseteq> insert (s_arr path) (arrays n)"
      if "m = n \<or> m = set_sl n b" for m
      using that cp(3) by (intro placed_replaceChild[OF n']) (auto simp: inserted_def)
    then show ?thesis using True n' by (simp add: run inserted_def case_prod_beta)
  next
    case no_child: False
    have "placed st base d (setChild_sl n b (createNode_sl cp v)) \<and>
        arrays (setChild_sl n b (createNode_sl cp v)) \<subseteq> insert (s_arr path) (arrays n)"
      using cp by (intro placed_replaceChild[OF n']) auto
    then show ?thesis using no_child n' by (auto simp: run inserted_def)
  qed
qed

lemma insert_sl_placed:
  shows "insertable st base d n path \<Longrightarrow> inserted st base d n path (fst (insert_sl st z v n path))"
    and "insertable st base d n path \<Longrightarrow> inserted st base d n path (updateOrCreateChild_sl st z n path v)"
proof (induction st z v n path and st z n path v arbitrary: d and d rule: insert_sl_updateOrCreateChild_sl.induct)
  case (1 st z v n path)
  show ?case
  proof (rule insert_sl_step[OF 1(2)])
    fix c assume c: "c = fst (getOrClone_sl n)" "insertable st base d c path"
      "bytesOf st (sn_path c) \<noteq> bytesOf st path" "hasPrefix (bytesOf st path) (bytesOf st (sn_path c))"
    show "inserted st base d c path (updateOrCreateChild_sl st z c path v)"
      using 1(1)[OF refl prod.collapse, of d] c by simp
  qed
next
  case (2 st z n path v)
  show ?case by (rule updateOrCreateChild_sl_step[OF 2(2)]) (use 2(1) in blast)
qed

end
