(* ===== verification/Slices_Collapse.thy ===== *)
theory Slices_Collapse
  imports Slices_Correct
begin

text \<open>
  Collapsing and hashing on slices. Its appends write into arrays that other nodes share; the
  ownership of \<open>Slices_Correct\<close> is what keeps them from changing any path of the new tree, so that
  the tree read from the store is the one that collapsing on values gives.
\<close>

subsection \<open>Collapsing\<close>

text \<open>A step from \<open>st\<close> to \<open>st'\<close> that writes only to arrays of \<open>A\<close>, and there only from depth \<open>d\<close> on.\<close>

definition keeps :: "store \<Rightarrow> store \<Rightarrow> nat set \<Rightarrow> (nat \<Rightarrow> int) \<Rightarrow> int \<Rightarrow> bool" where
  "keeps st st' A base d \<longleftrightarrow> length st \<le> length st' \<and>
     (\<forall>a < length st. length (st' ! a) = length (st ! a) \<and> (a \<notin> A \<longrightarrow> st' ! a = st ! a) \<and>
        (\<forall>i < length (st ! a). base a + int i < d \<longrightarrow> st' ! a ! i = st ! a ! i))"

lemma keeps_refl [simp]: "keeps st st A base d"
  by (simp add: keeps_def)

lemma keeps_trans:
  assumes "keeps st st1 A base d" and "keeps st1 st2 A' base' d'" and "d \<le> d'"
    and "\<And>a. a < length st \<Longrightarrow> a \<in> A' \<Longrightarrow> a \<in> A" and "\<And>a. a < length st \<Longrightarrow> base' a = base a"
  shows "keeps st st2 A base d"
proof -
  have len: "length st \<le> length st1" "length st1 \<le> length st2" using assms(1,2) by (auto simp: keeps_def)
  have "length (st2 ! a) = length (st ! a)" "a \<notin> A \<Longrightarrow> st2 ! a = st ! a"
    "i < length (st ! a) \<Longrightarrow> base a + int i < d \<Longrightarrow> st2 ! a ! i = st ! a ! i" if "a < length st" for a i
  proof -
    note a1 = assms(1)[unfolded keeps_def, THEN conjunct2, rule_format, OF that]
    note a2 = assms(2)[unfolded keeps_def, THEN conjunct2, rule_format, OF less_le_trans[OF that len(1)]]
    show "length (st2 ! a) = length (st ! a)" using a1 a2 by simp
    show "a \<notin> A \<Longrightarrow> st2 ! a = st ! a" using a1 a2 assms(4)[OF that] by auto
    show "i < length (st ! a) \<Longrightarrow> base a + int i < d \<Longrightarrow> st2 ! a ! i = st ! a ! i"
      using a1 a2 assms(3) assms(5)[OF that] by auto
  qed
  then show ?thesis using len by (simp add: keeps_def)
qed

lemma keeps_weaken: "keeps st st' A base d \<Longrightarrow> A \<subseteq> A' \<Longrightarrow> d' \<le> d \<Longrightarrow> keeps st st' A' base d'"
  by (auto simp: keeps_def)

lemma keeps_slice:
  assumes "keeps st st' A base d" and "validSlice st s" and "base (s_arr s) + int (s_off s) + int (s_len s) \<le> d"
  shows "validSlice st' s \<and> bytesOf st' s = bytesOf st s"
proof
  have a: "length st \<le> length st'" "length (st' ! s_arr s) = length (st ! s_arr s)"
    "\<And>i. i < length (st ! s_arr s) \<Longrightarrow> base (s_arr s) + int i < d \<Longrightarrow> st' ! s_arr s ! i = st ! s_arr s ! i"
    using assms(1,2) by (auto simp: keeps_def validSlice_def)
  show "validSlice st' s" using assms(2) a by (simp add: validSlice_def)
  show "bytesOf st' s = bytesOf st s"
    by (rule bytesOf_same[OF assms(2) a(2)], rule a(3)) (use assms(2,3) in \<open>auto simp: validSlice_def\<close>)
qed

lemma keeps_node:
  assumes "keeps st st' A base d" and "placed st base d' n" and "arrays n \<inter> A = {}"
  shows "placed st' base d' n \<and> readNode st' n = readNode st n"
proof (rule placed_same[OF assms(2)])
  have "st' ! a = st ! a" if "a \<in> arrays n" for a
    using assms(1,3) that placed_arrays[OF assms(2) that] by (auto simp: keeps_def)
  then show "sameFrom base d' (arrays n) st st'" using assms(1) by (simp add: sameFrom_def keeps_def)
qed

lemma read_writeAt:
  assumes "off + n + length xs \<le> length a"
  shows "take (n + length xs) (drop off (writeAt a (off + n) xs)) = take n (drop off a) @ xs"
proof -
  have "drop off (writeAt a (off + n) xs) = take n (drop off a) @ xs @ drop (off + n + length xs) a"
    using assms by (simp add: writeAt_def drop_take)
  moreover have "length (take n (drop off a)) = n" using assms by simp
  ultimately show ?thesis by simp
qed

lemma append_sl_slice:
  assumes "validSlice st s" and "append_sl grow st s xs = (st', s')"
  shows "validSlice st' s'" "bytesOf st' s' = bytesOf st s @ xs" "s_len s' = s_len s + length xs"
proof -
  let ?a = "st ! s_arr s" and ?e = "s_off s + s_len s"
  have "validSlice st' s' \<and> bytesOf st' s' = bytesOf st s @ xs \<and> s_len s' = s_len s + length xs"
  proof (cases "s_len s + length xs \<le> s_cap s")
    case True
    then have st: "st' = st[s_arr s := writeAt ?a ?e xs]" "s' = s\<lparr>s_len := s_len s + length xs\<rparr>"
      using assms(2) by (auto simp: append_sl_def Let_def)
    have len: "length (writeAt ?a ?e xs) = length ?a" using assms(1) True by (auto simp: writeAt_def validSlice_def)
    have "bytesOf st' s' = bytesOf st s @ xs"
      using assms(1) True read_writeAt[of "s_off s" "s_len s" xs ?a] by (simp add: st bytesOf_def validSlice_def)
    then show ?thesis using assms(1) True len by (simp add: st validSlice_def)
  next
    case False
    have len: "length (bytesOf st s) = s_len s" using assms(1) by simp
    obtain k where st: "st' = st @ [bytesOf st s @ xs @ replicate k 0]"
      "s_arr s' = length st" "s_off s' = 0" "s_len s' = s_len s + length xs" "s_cap s' = s_len s + length xs + k"
    proof
      let ?k = "max (s_len s + length xs) (grow (s_cap s) (s_len s + length xs)) - (s_len s + length xs)"
      show "st' = st @ [bytesOf st s @ xs @ replicate ?k 0]" "s_arr s' = length st" "s_off s' = 0"
        "s_len s' = s_len s + length xs" "s_cap s' = s_len s + length xs + ?k"
        using assms(2) False by (auto simp: append_sl_def Let_def)
    qed
    have "bytesOf st' s' = bytesOf st s @ xs"
      unfolding bytesOf_def[of st'] using len by (simp add: st)
    then show ?thesis using len by (simp add: validSlice_def st)
  qed
  then show "validSlice st' s'" "bytesOf st' s' = bytesOf st s @ xs" "s_len s' = s_len s + length xs" by auto
qed

text \<open>What an append leaves alone, in terms of the depth of the bytes.\<close>

lemma append_sl_keeps:
  assumes "validSlice st s" and "append_sl grow st s xs = (st', s')"
    and d: "base (s_arr s) + int (s_off s) = d"
  shows "keeps st st' {s_arr s} base (d + int (s_len s))"
    and "A \<subseteq> {..<length st} \<Longrightarrow> sameFrom base (d + int (s_len s) + int (length xs)) A st st'"
    and "\<exists>base'. (\<forall>a < length st. base' a = base a) \<and> base' (s_arr s') + int (s_off s') = d"
    and "s_arr s' \<in> {s_arr s} \<union> {length st..}"
proof -
  let ?a = "st ! s_arr s" and ?e = "s_off s + s_len s"
  have *: "keeps st st' {s_arr s} base (d + int (s_len s))
    \<and> (A \<subseteq> {..<length st} \<longrightarrow> sameFrom base (d + int (s_len s) + int (length xs)) A st st')
    \<and> (\<exists>base'. (\<forall>a < length st. base' a = base a) \<and> base' (s_arr s') + int (s_off s') = d)
    \<and> s_arr s' \<in> {s_arr s} \<union> {length st..}"
  proof (cases "s_len s + length xs \<le> s_cap s")
    case True
    then have st: "st' = st[s_arr s := writeAt ?a ?e xs]" "s' = s\<lparr>s_len := s_len s + length xs\<rparr>"
      using assms(2) by (auto simp: append_sl_def Let_def)
    have len: "length (writeAt ?a ?e xs) = length ?a" "?e + length xs \<le> length ?a" "s_arr s < length st"
      using assms(1) True by (auto simp: writeAt_def validSlice_def)
    have nth: "writeAt ?a ?e xs ! i = ?a ! i" if "i < length ?a" "i < ?e \<or> ?e + length xs \<le> i" for i
      using that len(2) by (auto simp: writeAt_def nth_append)
    have low: "i < ?e" if "base (s_arr s) + int i < d + int (s_len s)" for i using that d by linarith
    have high: "?e + length xs \<le> i" if "d + int (s_len s) + int (length xs) \<le> base (s_arr s) + int i" for i
      using that d by linarith
    have "keeps st st' {s_arr s} base (d + int (s_len s))"
      using len nth low by (auto simp: st keeps_def nth_list_update)
    moreover have "sameFrom base (d + int (s_len s) + int (length xs)) A st st'"
      using len nth high by (auto simp: st sameFrom_def nth_list_update)
    ultimately show ?thesis using d by (auto simp: st)
  next
    case False
    then obtain ys where st: "st' = st @ [ys]" "s_arr s' = length st" "s_off s' = 0"
      using assms(2) by (auto simp: append_sl_def Let_def)
    have "keeps st st' {s_arr s} base (d + int (s_len s))" by (auto simp: st keeps_def nth_append)
    moreover have "sameFrom base (d + int (s_len s) + int (length xs)) A st st'" if "A \<subseteq> {..<length st}"
      using that by (auto simp: st sameFrom_def nth_append)
    moreover have "\<exists>base'. (\<forall>a < length st. base' a = base a) \<and> base' (s_arr s') + int (s_off s') = d"
      by (rule exI[of _ "base(length st := d)"]) (simp add: st)
    ultimately show ?thesis by (simp add: st)
  qed
  then show "keeps st st' {s_arr s} base (d + int (s_len s))"
    and "A \<subseteq> {..<length st} \<Longrightarrow> sameFrom base (d + int (s_len s) + int (length xs)) A st st'"
    and "\<exists>base'. (\<forall>a < length st. base' a = base a) \<and> base' (s_arr s') + int (s_off s') = d"
    and "s_arr s' \<in> {s_arr s} \<union> {length st..}"
    by blast+
qed

text \<open>
  A step that replaces the tree \<open>n\<close> at depth \<open>d\<close> by \<open>n'\<close>: it writes to the arrays of \<open>n\<close> only,
  behind everything above \<open>n\<close>, and the new tree owns its arrays again.
\<close>

definition evolves :: "store \<Rightarrow> (nat \<Rightarrow> int) \<Rightarrow> int \<Rightarrow> snode \<Rightarrow> store \<Rightarrow> (nat \<Rightarrow> int) \<Rightarrow> snode \<Rightarrow> bool" where
  "evolves st base d n st' base' n' \<longleftrightarrow>
     keeps st st' (arrays n) base d \<and> arrays n' \<subseteq> arrays n \<union> {length st..} \<and>
     (\<forall>a < length st. base' a = base a) \<and> placed st' base' d n'"

lemma evolves_refl: "placed st base d n \<Longrightarrow> evolves st base d n st base n"
  by (auto simp: evolves_def)

lemma evolves_trans:
  assumes "evolves st base d n st1 base1 n1" and "evolves st1 base1 d n1 st2 base2 n2"
  shows "evolves st base d n st2 base2 n2"
proof -
  have len: "length st \<le> length st1" using assms(1) by (auto simp: evolves_def keeps_def)
  have "keeps st st2 (arrays n) base d"
    by (rule keeps_trans[of st st1 "arrays n" base d st2 "arrays n1" base1 d])
      (use assms in \<open>auto simp: evolves_def\<close>)
  then show ?thesis using assms len by (auto simp: evolves_def)
qed

lemma evolves_placed: "evolves st base d n st' base' n' \<Longrightarrow> placed st' base' d n'"
  by (simp add: evolves_def)

lemma evolves_disjoint:
  assumes "evolves st base d' l st1 base1 l'" and "placed st base d'' r" and "arrays l \<inter> arrays r = {}"
  shows "placed st1 base1 d'' r" "readNode st1 r = readNode st r" "arrays l' \<inter> arrays r = {}"
proof -
  have k: "keeps st st1 (arrays l) base d'" and b: "\<forall>a < length st. base1 a = base a"
    and l: "arrays l' \<subseteq> arrays l \<union> {length st..}" using assms(1) by (auto simp: evolves_def)
  have r: "a < length st" if "a \<in> arrays r" for a using placed_arrays[OF assms(2) that] .
  have "placed st1 base d'' r \<and> readNode st1 r = readNode st r"
    by (rule keeps_node[OF k assms(2)]) (use assms(3) in blast)
  then show "placed st1 base1 d'' r" "readNode st1 r = readNode st r"
    using placed_base_cong[of st1 base d'' r base1] b r by auto
  show "arrays l' \<inter> arrays r = {}" using l r assms(3) by fastforce
qed

lemma evolves_path:
  assumes "evolves st base (d + int (s_len p) + 1) c st1 base1 c'" and "validSlice st p"
    and "base (s_arr p) + int (s_off p) = d"
  shows "validSlice st1 p" "bytesOf st1 p = bytesOf st p" "base1 (s_arr p) + int (s_off p) = d"
  using keeps_slice[OF _ assms(2), of st1 "arrays c" base] assms by (auto simp: evolves_def validSlice_def)

lemma evolves_left:
  assumes "placed st base d (SNode p v h dd l r)" and e: "evolves st base (d + int (s_len p) + 1) l st1 base1 l'"
  shows "evolves st base d (SNode p v h dd l r) st1 base1 (SNode p v h dd l' r)"
    and "readNode st1 r = readNode st r" and "bytesOf st1 p = bytesOf st p"
proof -
  note r = evolves_disjoint[OF e, of "d + int (s_len p) + 1" r] and p = evolves_path[OF e]
  have "keeps st st1 (arrays (SNode p v h dd l r)) base d"
    by (rule keeps_weaken[of st st1 "arrays l" base]) (use e in \<open>auto simp: evolves_def\<close>)
  then show "evolves st base d (SNode p v h dd l r) st1 base1 (SNode p v h dd l' r)"
    using assms r p by (auto simp: evolves_def)
  show "readNode st1 r = readNode st r" "bytesOf st1 p = bytesOf st p" using assms r p by auto
qed

lemma evolves_right:
  assumes "placed st base d (SNode p v h dd l r)" and e: "evolves st base (d + int (s_len p) + 1) r st1 base1 r'"
  shows "evolves st base d (SNode p v h dd l r) st1 base1 (SNode p v h dd l r')"
    and "readNode st1 l = readNode st l" and "bytesOf st1 p = bytesOf st p"
proof -
  note l = evolves_disjoint[OF e, of "d + int (s_len p) + 1" l] and p = evolves_path[OF e]
  have "keeps st st1 (arrays (SNode p v h dd l r)) base d"
    by (rule keeps_weaken[of st st1 "arrays r" base]) (use e in \<open>auto simp: evolves_def\<close>)
  then show "evolves st base d (SNode p v h dd l r) st1 base1 (SNode p v h dd l r')"
    using assms l p by (auto simp: evolves_def)
  show "readNode st1 l = readNode st l" "bytesOf st1 p = bytesOf st p" using assms l p by auto
qed

text \<open>
  Merging a node with its only child. The first append may overwrite bytes of the arrays that
  the child's path is in, but only the one before it; the second writes over the child's path, in
  its own place when it is the same array, and stops before the paths below.
\<close>

lemma append_sl_evolves:
  assumes "validSlice st s" and "base (s_arr s) + int (s_off s) = d" and "append_sl grow st s xs = (st', s')"
  obtains base' where "\<forall>a < length st. base' a = base a" "base' (s_arr s') + int (s_off s') = d"
    "\<And>n d'. placed st base d' n \<Longrightarrow> d + int (s_len s) + int (length xs) \<le> d' \<Longrightarrow>
       placed st' base' d' n \<and> readNode st' n = readNode st n"
proof -
  note keeps = append_sl_keeps[OF assms(1,3), where base = base and d = d, OF assms(2)]
  obtain base' where b: "\<forall>a < length st. base' a = base a" "base' (s_arr s') + int (s_off s') = d"
    using keeps(3) by blast
  have "placed st' base' d' n \<and> readNode st' n = readNode st n"
    if n: "placed st base d' n" and d': "d + int (s_len s) + int (length xs) \<le> d'" for n d'
  proof -
    have arr: "a < length st" if "a \<in> arrays n" for a using placed_arrays[OF n that] .
    then have "sameFrom base (d + int (s_len s) + int (length xs)) (arrays n) st st'" by (intro keeps(2)) auto
    then have "sameFrom base d' (arrays n) st st'" using d' by (fastforce simp: sameFrom_def)
    from placed_same[OF n this] have "placed st' base d' n" "readNode st' n = readNode st n" by auto
    then show ?thesis using placed_base_cong[of st' base d' n base'] b(1) arr by auto
  qed
  then show ?thesis using that[OF b] by blast
qed

lemma collapseOnlyChild_sl_evolves:
  assumes n: "placed st base d n" "n \<noteq> SNil" and "getChild_sl n b \<noteq> SNil"
    and run: "collapseOnlyChild_sl grow st n b = (st2, n')"
  obtains base' where "evolves st base d n st2 base' n'" "readNode st2 n' = collapseOnlyChild (readNode st n) b"
    "n' \<noteq> SNil"
proof -
  obtain p v h dd l r where nn: "n = SNode p v h dd l r" using n(2) by (cases n) auto
  obtain q w ch cd cl cr where c: "getChild_sl n b = SNode q w ch cd cl cr"
    using assms(3) by (cases "getChild_sl n b") auto
  let ?d1 = "d + int (s_len p) + 1" and ?d2 = "d + int (s_len p) + 1 + int (s_len q) + 1"
  have p: "validSlice st p" "base (s_arr p) + int (s_off p) = d" using n(1) by (simp_all add: nn)
  have pc: "placed st base ?d1 (SNode q w ch cd cl cr)" using placed_getChild[OF n, of b] unfolding c by (simp only: nn snode.sel)
  have ac: "arrays (SNode q w ch cd cl cr) \<subseteq> arrays n" using arrays_getChild[of n b] by (simp only: c)
  obtain st1 p1 where a1: "append_sl grow st p [b] = (st1, p1)" by fastforce
  obtain p2 where a2: "append_sl grow st1 p1 (bytesOf st1 q) = (st2, p2)" and n': "n' = SNode p2 w [] None cl cr"
    using run a1 c by (auto simp: collapseOnlyChild_sl_def Let_def nn split: prod.splits)
  obtain base1 where b1: "\<forall>a < length st. base1 a = base a" "base1 (s_arr p1) + int (s_off p1) = d"
    and k1: "\<And>m d'. placed st base d' m \<Longrightarrow> d + int (s_len p) + int (length [b]) \<le> d' \<Longrightarrow>
       placed st1 base1 d' m \<and> readNode st1 m = readNode st m"
    using append_sl_evolves[where base = base and d = d, OF p a1] by blast
  note s1 = append_sl_slice[OF p(1) a1]
  note c1 = k1[OF pc]
  obtain base2 where b2: "\<forall>a < length st1. base2 a = base1 a" "base2 (s_arr p2) + int (s_off p2) = d"
    and k2: "\<And>m d'. placed st1 base1 d' m \<Longrightarrow> d + int (s_len p1) + int (length (bytesOf st1 q)) \<le> d' \<Longrightarrow>
       placed st2 base2 d' m \<and> readNode st2 m = readNode st1 m"
    using append_sl_evolves[where base = base1 and d = d, OF s1(1) b1(2) a2] by blast
  note s2 = append_sl_slice[OF s1(1) a2]
  have len: "length (bytesOf st1 q) = s_len q" using pc c1 by simp
  have kids: "placed st2 base2 ?d2 cl" "placed st2 base2 ?d2 cr" "readNode st2 cl = readNode st cl" "readNode st2 cr = readNode st cr"
    using k2[of ?d2 cl] k2[of ?d2 cr] c1 len s1(3) by (auto simp: algebra_simps)
  note e1 = append_sl_keeps[OF p(1) a1, where base = base and d = d, OF p(2)]
  note e2 = append_sl_keeps[OF s1(1) a2, where base = base1 and d = d, OF b1(2)]
  have leq: "length st \<le> length st1" using e1(1) by (simp add: keeps_def)
  have "keeps st st2 (arrays n) base d"
    by (rule keeps_trans[of st st1 _ base d st2 "{s_arr p1}" base1 d])
      (use e1(1,4) e2(1) b1(1) in \<open>auto simp: nn elim!: keeps_weaken\<close>)
  moreover have "arrays n' \<subseteq> arrays n \<union> {length st..}"
    using ac e1(4) e2(4) leq by (auto simp: n' nn)
  moreover have "placed st2 base2 d n'"
    using kids s2 b2 s1(3) len pc by (auto simp: n' algebra_simps)
  ultimately have "evolves st base d n st2 base2 n'" using b1(1) b2(1) leq by (auto simp: evolves_def)
  moreover have "readNode st2 n' = collapseOnlyChild (readNode st n) b"
  proof -
    have "n_path (readNode st n) = bytesOf st p" by (simp add: nn)
    then show ?thesis using kids s1(2) s2(2) c1 by (simp add: n' c collapseOnlyChild_def Let_def)
  qed
  ultimately show ?thesis using that by (simp add: n')
qed

lemma finishNode_sl_evolves:
  assumes n: "placed st base d n" "n \<noteq> SNil" and run: "finishNode_sl grow z f st n = (st', n')"
  shows "\<exists>base'. evolves st base d n st' base' n' \<and> readNode st' n' = finishNode z f (readNode st n)"
proof -
  obtain p v h dd l r where nn: "n = SNode p v h dd l r" using n(2) by (cases n) auto
  have merge: ?thesis if "getChild_sl n b \<noteq> SNil"
    "finishNode z f (readNode st n) = (let c = collapseOnlyChild (readNode st n) b in setHash c (f c))"
    "(st', n') = (let (st1, c) = collapseOnlyChild_sl grow st n b in (st1, setHash_sl c (f (readNode st1 c))))" for b
  proof -
    note only = that(1)
    obtain st1 c where c: "collapseOnlyChild_sl grow st n b = (st1, c)" by fastforce
    obtain base1 where "evolves st base d n st1 base1 c" "readNode st1 c = collapseOnlyChild (readNode st n) b"
      using collapseOnlyChild_sl_evolves[OF n only c] by blast
    then show ?thesis using that(2,3) c by (auto simp: Let_def evolves_def)
  qed
  consider (prune) "z = v" "l = SNil" "r = SNil" | (left) "z = v" "l \<noteq> SNil" "r = SNil"
    | (right) "z = v" "l = SNil" "r \<noteq> SNil" | (keep) "z \<noteq> v \<or> (l \<noteq> SNil \<and> r \<noteq> SNil)" by blast
  then show ?thesis
  proof cases
    case prune
    then have "st' = st" "n' = SNil" "finishNode z f (readNode st n) = NilNode"
      using run by (simp_all add: nn finishNode_sl_def finishNode_def)
    then show ?thesis by (auto simp: evolves_def)
  next
    case left
    then show ?thesis
      by (intro merge[of 0]) (use run in \<open>auto simp: nn finishNode_sl_def finishNode_def Let_def split: prod.splits\<close>)
  next
    case right
    then show ?thesis
      by (intro merge[of 1]) (use run in \<open>auto simp: nn finishNode_sl_def finishNode_def Let_def split: prod.splits\<close>)
  next
    case keep
    then have "st' = st" "n' = setHash_sl n (f (readNode st n))"
      "finishNode z f (readNode st n) = setHash (readNode st n) (f (readNode st n))"
      using run by (auto simp: nn finishNode_sl_def finishNode_def)
    then show ?thesis using evolves_refl[OF n(1)] by (auto simp: evolves_def)
  qed
qed

text \<open>An optional step on a child.\<close>

lemma collapse_child:
  assumes "placed st base d n" and "(if b then collapseAndHash_sl grow z f st n else (st, n)) = (st', n')"
    and "b \<Longrightarrow> collapseAndHash_sl grow z f st n = (st', n') \<Longrightarrow>
      \<exists>base'. evolves st base d n st' base' n' \<and> readNode st' n' = collapseAndHash z f (readNode st n)"
  shows "\<exists>base'. evolves st base d n st' base' n' \<and>
    readNode st' n' = (if b then collapseAndHash z f (readNode st n) else readNode st n)"
  using assms evolves_refl[OF assms(1)] by (auto split: if_splits)

lemma collapseAndHash_sl_evolves:
  shows "placed st base d n \<Longrightarrow> collapseAndHash_sl grow z f st n = (st', n') \<Longrightarrow>
      \<exists>base'. evolves st base d n st' base' n' \<and> readNode st' n' = collapseAndHash z f (readNode st n)"
    and "placed st base d n \<Longrightarrow> collapseDirtyChildren_sl grow z f st n = (st', n') \<Longrightarrow>
      \<exists>base'. evolves st base d n st' base' n' \<and> readNode st' n' = collapseDirtyChildren z f (readNode st n)
        \<and> (n' = SNil \<longleftrightarrow> n = SNil)"
proof (induction grow z f st n and grow z f st n arbitrary: base d st' n' and base d st' n'
    rule: collapseAndHash_sl_collapseDirtyChildren_sl.induct)
  case (1 grow z f st n)
  show ?case
  proof (cases "n = SNil")
    case True
    then show ?thesis using 1(2,3) evolves_refl[OF 1(2)] by (auto simp: collapseAndHash_sl.simps collapseAndHash.simps)
  next
    case False
    obtain st1 n1 where m: "(if \<not> isLeaf_sl n then collapseDirtyChildren_sl grow z f st n else (st, n)) = (st1, n1)"
      by fastforce
    have "\<exists>base1. evolves st base d n st1 base1 n1 \<and> n1 \<noteq> SNil \<and>
        readNode st1 n1 = (if \<not> isLeaf_sl n then collapseDirtyChildren z f (readNode st n) else readNode st n)"
      using m 1(1)[OF False _ 1(2)] False evolves_refl[OF 1(2)] by (auto split: if_splits)
    then obtain base1 where e: "evolves st base d n st1 base1 n1" "n1 \<noteq> SNil"
      "readNode st1 n1 = (if \<not> isLeaf_sl n then collapseDirtyChildren z f (readNode st n) else readNode st n)" by blast
    have run: "finishNode_sl grow z f st1 n1 = (st', n')"
      using 1(3) m False by (simp add: collapseAndHash_sl.simps[of grow] split: if_splits)
    obtain base2 where "evolves st1 base1 d n1 st' base2 n'" "readNode st' n' = finishNode z f (readNode st1 n1)"
      using finishNode_sl_evolves[OF evolves_placed[OF e(1)] e(2) run] by blast
    then show ?thesis using evolves_trans[OF e(1)] e(3) False by (auto simp: collapseAndHash.simps[of z f "readNode st n"])
  qed
next
  case (2 grow z f st p v h dd l r)
  obtain st1 l' where l: "(if d_left dd then collapseAndHash_sl grow z f st l else (st, l)) = (st1, l')" by fastforce
  have r: "(if d_right dd then collapseAndHash_sl grow z f st1 r else (st1, r)) = (st', sn_right n')"
    and n': "n' = SNode p v h (Some dd) l' (sn_right n')"
    using 2(4) l by (auto split: prod.splits)
  let ?d = "d + int (s_len p) + 1"
  have pl: "placed st base ?d l" using 2(3) by simp
  obtain base1 where e1: "evolves st base ?d l st1 base1 l'"
    "readNode st1 l' = (if d_left dd then collapseAndHash z f (readNode st l) else readNode st l)"
    using collapse_child[OF pl l 2(1)[OF _ pl]] by blast
  note E1 = evolves_left[OF 2(3) e1(1)]
  have pr: "placed st1 base1 ?d r" using evolves_placed[OF E1(1)] by simp
  obtain base2 where e2: "evolves st1 base1 ?d r st' base2 (sn_right n')"
    "readNode st' (sn_right n') = (if d_right dd then collapseAndHash z f (readNode st1 r) else readNode st1 r)"
    using collapse_child[OF pr r 2(2)[OF l[symmetric] refl _ pr]] by blast
  note E2 = evolves_right[OF evolves_placed[OF E1(1)] e2(1)]
  have "readNode st' n' = collapseDirtyChildren z f (readNode st (SNode p v h (Some dd) l r))"
    using E1 E2 e1(2) e2(2) by (subst n') simp
  moreover have "evolves st base d (SNode p v h (Some dd) l r) st' base2 n'"
    using evolves_trans[OF E1(1) E2(1)] n' by simp
  moreover have "n' \<noteq> SNil" using n' by (metis snode.distinct(1))
  ultimately show ?case by blast
qed (auto intro!: exI evolves_refl)

end
