(* ===== verification/Slices_Update.thy ===== *)
theory Slices_Update
  imports Slices_Collapse
begin

text \<open>
  \<open>Update\<close> on slices refines \<open>Update\<close> on values for the root that it starts from: what a history of
  updates writes, and the hash it ends with. Older revisions have no such guarantee; the example
  at the end shows one whose paths are overwritten.
\<close>

subsection \<open>Updates\<close>

lemma placed_alloc:
  assumes "placed st base d n" and "alloc st xs = (st', s)"
  shows "placed st' (base(length st := 0)) d n" "readNode st' n = readNode st n"
    "validSlice st' s" "bytesOf st' s = xs" "(base(length st := 0)) (s_arr s) + int (s_off s) = 0" "s_arr s \<notin> arrays n"
proof -
  have st': "st' = st @ [xs]" and s: "s = \<lparr>s_arr = length st, s_off = 0, s_len = length xs, s_cap = length xs\<rparr>"
    using assms(2) by (auto simp: alloc_def)
  have new: "length st \<notin> arrays n" using placed_arrays[OF assms(1)] by blast
  have "sameFrom base d (arrays n) st st'"
    using placed_arrays[OF assms(1)] by (auto simp: sameFrom_def st' nth_append)
  then have "placed st' base d n" and read: "readNode st' n = readNode st n" using placed_same[OF assms(1)] by auto
  then show "placed st' (base(length st := 0)) d n" using placed_base_cong[of st' base] new by fastforce
  show "readNode st' n = readNode st n" by (rule read)
  show "validSlice st' s" "bytesOf st' s = xs" "(base(length st := 0)) (s_arr s) + int (s_off s) = 0" "s_arr s \<notin> arrays n"
    using new by (simp_all add: s st' validSlice_def bytesOf_def)
qed

lemma insertDiffs_sl_read:
  "placed st base 0 n \<Longrightarrow> n \<noteq> SNil \<Longrightarrow> insertDiffs_sl sha diffs st n = (st', n') \<Longrightarrow>
   \<exists>base'. placed st' base' 0 n' \<and> n' \<noteq> SNil \<and> readNode st' n' = insertDiffs sha diffs (readNode st n)"
proof (induction diffs arbitrary: st n base)
  case Nil
  then show ?case by (auto simp: insertDiffs_sl_def)
next
  case (Cons d ds)
  obtain k v where d: "d = TrieDiff k v" by (cases d)
  obtain st1 s where a: "alloc st (toBin k (toBinSize k)) = (st1, s)" by fastforce
  note a1 = placed_alloc[OF Cons.prems(1) a]
  let ?n = "fst (insert_sl st1 (GetZeroValueHash sha) v n s)"
  have run: "insertDiffs_sl sha ds st1 ?n = (st', n')"
    using Cons.prems(3) by (simp add: insertDiffs_sl_def d a)
  have "placed st1 (base(length st := 0)) 0 ?n" "?n \<noteq> SNil"
    using insert_sl_placed(1)[of st1 "base(length st := 0)" 0 n s "GetZeroValueHash sha" v] Cons.prems(2) a1(1,3,5,6)
    unfolding insertable_def inserted_def by blast+
  note IH = Cons.IH[OF this run]
  have "readNode st1 ?n = fst (insert_node (GetZeroValueHash sha) v (readNode st n) (inflate k))"
    using insert_sl_read(1)[OF Cons.prems(2) a1(1,3), of "GetZeroValueHash sha" v] a1(2,4)
    by (simp add: inflate_def)
  then show ?case using IH by (simp add: d)
qed

text \<open>The root of a revision that can be updated: it owns its paths, and the tree read from them is well formed.\<close>

definition ownsPaths :: "store \<Rightarrow> snode \<Rightarrow> bool" where
  "ownsPaths st n \<longleftrightarrow> (\<exists>base. placed st base 0 n)"

definition soundRoot :: "hasher \<Rightarrow> Forest_sl \<Rightarrow> snode \<Rightarrow> bool" where
  "soundRoot sha f root \<longleftrightarrow> ownsPaths (fs_store f) root \<and>
     root_ok sha (readNode (fs_store f) root) \<and> inflated sha (readNode (fs_store f) root)"

lemma soundRoot_not_Nil: "soundRoot sha f root \<Longrightarrow> root \<noteq> SNil"
  by (auto simp: soundRoot_def root_ok_def)

lemma createEmptyTrieNode_sl_eq:
  assumes "createEmptyTrieNode_sl sha st = (st', n)"
  shows "ownsPaths st' n" "readNode st' n = createEmptyTrieNode sha" "n \<noteq> SNil"
proof -
  obtain s where a: "alloc st [] = (st', s)" using assms by (auto simp: createEmptyTrieNode_sl_def split: prod.splits)
  note new = placed_alloc[of st "\<lambda>_. 0" 0 SNil, OF _ a]
  have n: "n = setHash_sl (createNode_sl s (GetZeroValueHash sha))
      (hashTrieNode sha (readNode st' (createNode_sl s (GetZeroValueHash sha))))"
    using assms a by (simp add: createEmptyTrieNode_sl_def Let_def)
  show "n \<noteq> SNil" by (simp add: n)
  show "readNode st' n = createEmptyTrieNode sha" using new by (simp add: n createEmptyTrieNode_def Let_def)
  show "ownsPaths st' n" unfolding ownsPaths_def n using new by (intro exI[of _ "\<lambda>_. 0"]) simp
qed

text \<open>The update computes what the update on values computes, as far as the updated root goes.\<close>

lemma Update_sl_refines:
  assumes "findRoot_sl f rootMerkle = Some root" and "soundRoot sha f root"
  obtains st' root' where
    "Update_sl grow sha f rootMerkle diffs = (\<lparr>fs_store = st', fs_roots = fs_roots f @ [root']\<rparr>, Ok (sn_hash root'))"
    "ownsPaths st' root'" "root' \<noteq> SNil" "readNode st' root' = new_root sha diffs (readNode (fs_store f) root)"
proof -
  let ?z = "GetZeroValueHash sha" and ?f = "hashTrieNode sha" and ?st = "fs_store f"
  obtain base where "placed ?st base 0 (forget_sl root)" using assms(2) by (auto simp: soundRoot_def ownsPaths_def)
  moreover have "forget_sl root \<noteq> SNil" using soundRoot_not_Nil[OF assms(2)] by simp
  moreover obtain st1 n1 where i: "insertDiffs_sl sha diffs ?st (forget_sl root) = (st1, n1)" by fastforce
  ultimately obtain base1 where b1: "placed st1 base1 0 n1" "n1 \<noteq> SNil"
    "readNode st1 n1 = insertDiffs sha diffs (forgetSandbox (readNode ?st root))"
    using insertDiffs_sl_read[of ?st base "forget_sl root" sha diffs st1 n1] by auto
  obtain st2 n2 where c: "collapseAndHash_sl grow ?z ?f st1 n1 = (st2, n2)" by fastforce
  obtain base2 where b2: "evolves st1 base1 0 n1 st2 base2 n2" "readNode st2 n2 = collapseAndHash ?z ?f (readNode st1 n1)"
    using collapseAndHash_sl_evolves(1)[OF b1(1) c] by blast
  have own2: "ownsPaths st2 n2" using evolves_placed[OF b2(1)] by (auto simp: ownsPaths_def)
  show thesis
  proof (cases "n2 = SNil")
    case True
    obtain st3 n3 where e: "createEmptyTrieNode_sl sha st2 = (st3, n3)" by fastforce
    have "readNode st3 n3 = new_root sha diffs (readNode ?st root)"
      using createEmptyTrieNode_sl_eq(2)[OF e] b2(2) b1(3) True by (simp add: new_root_def)
    then show thesis using that[of st3 n3] createEmptyTrieNode_sl_eq[OF e] assms(1) i c e True
      by (simp add: Update_sl_def)
  next
    case False
    then have "readNode st2 n2 = new_root sha diffs (readNode ?st root)"
      using b2(2) b1(3) readNode_Nil(1)[of st2 n2] by (simp add: new_root_def)
    then show thesis using that[of st2 n2] own2 assms(1) i c False by (simp add: Update_sl_def)
  qed
qed

lemma findRoot_sl_append [simp]:
  "findRoot_sl \<lparr>fs_store = st, fs_roots = rs @ [r]\<rparr> (sn_hash r) = Some r"
  by (simp add: findRoot_sl_def)

lemma Update_sl_sound:
  assumes "findRoot_sl f rootMerkle = Some root" and "soundRoot sha f root"
  obtains f' h root' where "Update_sl grow sha f rootMerkle diffs = (f', Ok h)" "findRoot_sl f' h = Some root'"
    "soundRoot sha f' root'"
    "readNode (fs_store f') root' = new_root sha diffs (readNode (fs_store f) root)"
proof -
  obtain st' root' where u: "Update_sl grow sha f rootMerkle diffs = (\<lparr>fs_store = st', fs_roots = fs_roots f @ [root']\<rparr>, Ok (sn_hash root'))"
    "ownsPaths st' root'" "root' \<noteq> SNil" "readNode st' root' = new_root sha diffs (readNode (fs_store f) root)"
    using Update_sl_refines[OF assms] by blast
  have "root_ok sha (readNode st' root')" "inflated sha (readNode st' root')"
    using assms(2) u(4) by (simp_all add: soundRoot_def root_ok_new_root inflated_new_root)
  then show thesis using that[OF u(1)] u by (simp add: soundRoot_def)
qed

subsection \<open>Histories of updates\<close>

text \<open>A sequence of updates, each of the root that the one before it returned, as state storage makes them.\<close>

fun runUpdates :: "(nat \<Rightarrow> nat \<Rightarrow> nat) \<Rightarrow> hasher \<Rightarrow> Forest_sl \<times> Sha256 \<Rightarrow> TrieDiff list list \<Rightarrow> (Forest_sl \<times> Sha256) option" where
  "runUpdates grow sha (f, h) [] = Some (f, h)"
| "runUpdates grow sha (f, h) (diffs # rest) =
     (case Update_sl grow sha f h diffs of
        (f', Ok h') \<Rightarrow> runUpdates grow sha (f', h') rest
      | _ \<Rightarrow> None)"

lemma apply_diffs_append: "apply_diffs (xs @ ys) m = apply_diffs ys (apply_diffs xs m)"
proof (induction xs arbitrary: m)
  case (Cons d xs)
  then show ?case by (cases d) (simp add: fun_upd_def)
qed simp

lemma runUpdates_sound:
  assumes "findRoot_sl f h = Some root" and "soundRoot sha f root"
  obtains f' h' root' where "runUpdates grow sha (f, h) batches = Some (f', h')" "findRoot_sl f' h' = Some root'"
    "soundRoot sha f' root'"
    "trie_get sha (readNode (fs_store f') root') = apply_diffs (concat batches) (trie_get sha (readNode (fs_store f) root))"
  using assms
proof (induction batches arbitrary: f h root thesis)
  case Nil
  then show ?case by simp
next
  case (Cons diffs rest)
  obtain f1 h1 root1 where u: "Update_sl grow sha f h diffs = (f1, Ok h1)" "findRoot_sl f1 h1 = Some root1"
    "soundRoot sha f1 root1" "readNode (fs_store f1) root1 = new_root sha diffs (readNode (fs_store f) root)"
    using Update_sl_sound[OF Cons.prems(2,3)] by blast
  obtain f' h' root' where r: "runUpdates grow sha (f1, h1) rest = Some (f', h')" "findRoot_sl f' h' = Some root'"
    "soundRoot sha f' root'"
    "trie_get sha (readNode (fs_store f') root') = apply_diffs (concat rest) (trie_get sha (readNode (fs_store f1) root1))"
    using Cons.IH[OF _ u(2,3)] by blast
  have "trie_get sha (readNode (fs_store f1) root1) = apply_diffs diffs (trie_get sha (readNode (fs_store f) root))"
    using trie_get_new_root Cons.prems(3) u(4) by (simp add: soundRoot_def)
  then show ?case using Cons.prems(1)[of f' h' root'] r u(1) by (simp add: apply_diffs_append)
qed

lemma findRoot_sl_hash: "findRoot_sl f h = Some root \<Longrightarrow> sn_hash root = h"
  by (auto simp: findRoot_sl_def dest: find_SomeD)

lemma soundRoot_unique:
  assumes "findRoot_sl f h = Some m" "soundRoot sha f m" and "findRoot_sl g h' = Some n" "soundRoot sha g n"
    and "trie_get sha (readNode (fs_store f) m) = trie_get sha (readNode (fs_store g) n)"
  shows "h = h'"
proof -
  let ?F = "\<lambda>f m. \<lparr>roots = [readNode (fs_store f) m]\<rparr>"
  have F: "forest_ok sha (?F f m)" "findRoot (?F f m) h = Some (readNode (fs_store f) m)"
    if "findRoot_sl f h = Some m" "soundRoot sha f m" for f m h
    using that soundRoot_not_Nil[OF that(2)] findRoot_sl_hash[OF that(1)]
    by (auto simp: forest_ok_def soundRoot_def findRoot_def)
  show ?thesis
    by (rule root_hash_unique[OF F(1)[OF assms(1,2)] F(1)[OF assms(3,4)] F(2)[OF assms(1,2)] F(2)[OF assms(3,4)] assms(5)])
qed

lemma NewForest_sl_sound:
  obtains f h root where "NewForest_sl sha = (f, h)" "findRoot_sl f h = Some root" "soundRoot sha f root"
    "trie_get sha (readNode (fs_store f) root) = (\<lambda>_. GetZeroValueHash sha)"
proof -
  obtain st n where e: "createEmptyTrieNode_sl sha [] = (st, n)" by fastforce
  let ?f = "\<lparr>fs_store = st, fs_roots = [n]\<rparr>"
  have n: "ownsPaths st n" "readNode st n = createEmptyTrieNode sha" using createEmptyTrieNode_sl_eq[OF e] by simp_all
  have i: "inflated sha (createEmptyTrieNode sha)"
    using forest_ok_NewForest[of sha] by (simp add: forest_ok_def NewForest_def Let_def)
  have "trie_get sha (createEmptyTrieNode sha) = (\<lambda>_. GetZeroValueHash sha)"
    by (simp add: trie_get_def empty_root_lookup empty_root_def empty_node_eq fun_eq_iff)
  then show thesis using that[of ?f "sn_hash n" n] n i
    by (simp add: NewForest_sl_def e findRoot_sl_def soundRoot_def)
qed

text \<open>
  C1. Updating a root whose nodes own their paths and store a well-formed trie succeeds. The
  returned hash finds a root that again owns its paths and stores a well-formed trie, and its map
  is the old one with the diffs written in order, an empty value hash deleting its key. Nothing is
  said of the other roots of the forest: the update writes into arrays that they share.
\<close>

theorem Update_writes_map:
  assumes "findRoot_sl f rootMerkle = Some root" and "soundRoot sha f root"
  shows "\<exists>f' h root'. Update_sl grow sha f rootMerkle diffs = (f', Ok h) \<and>
    findRoot_sl f' h = Some root' \<and> soundRoot sha f' root' \<and>
    trie_get sha (readNode (fs_store f') root') = apply_diffs diffs (trie_get sha (readNode (fs_store f) root))"
proof -
  obtain f' h root' where "Update_sl grow sha f rootMerkle diffs = (f', Ok h)" "findRoot_sl f' h = Some root'"
    "soundRoot sha f' root'" "readNode (fs_store f') root' = new_root sha diffs (readNode (fs_store f) root)"
    using Update_sl_sound[OF assms] by blast
  then show ?thesis using trie_get_new_root assms(2) by (auto simp: soundRoot_def)
qed

text \<open>The growth of an array that is too small: to at least twice its capacity.\<close>

definition doubling :: "nat \<Rightarrow> nat \<Rightarrow> nat" where
  "doubling oldCap newLen = 2 * oldCap"

theorem Update_writes_map_witness:
  "\<exists>f h root f' h' root'. NewForest_sl demo_sha = (f, h) \<and> findRoot_sl f h = Some root \<and>
     Update_sl doubling demo_sha f h [TrieDiff [5] [9], TrieDiff [6] [7]] = (f', Ok h') \<and>
     findRoot_sl f' h' = Some root' \<and> soundRoot demo_sha f' root' \<and>
     trie_get demo_sha (readNode (fs_store f') root')
       = apply_diffs [TrieDiff [5] [9], TrieDiff [6] [7]] (trie_get demo_sha (readNode (fs_store f) root))"
proof -
  obtain f h root where "NewForest_sl demo_sha = (f, h)" "findRoot_sl f h = Some root" "soundRoot demo_sha f root"
    using NewForest_sl_sound[of demo_sha] by blast
  then show ?thesis using Update_writes_map[of f h root demo_sha doubling "[TrieDiff [5] [9], TrieDiff [6] [7]]"] by blast
qed

text \<open>
  C3. Every history of updates succeeds, each of them starting from the root that the one before
  returned, and the root hash it ends with is determined by the map that it writes: two histories
  that write the same map from an empty forest end with the same hash, however they order and
  batch their writes, overwrite and delete, and however the runtime grows its arrays.
\<close>

theorem root_hash_determined_by_map:
  "\<exists>f h g h'. runUpdates grow sha (NewForest_sl sha) batches = Some (f, h) \<and>
     runUpdates grow' sha (NewForest_sl sha) batches' = Some (g, h') \<and>
     (apply_diffs (concat batches) (\<lambda>_. GetZeroValueHash sha) = apply_diffs (concat batches') (\<lambda>_. GetZeroValueHash sha)
       \<longrightarrow> h = h')"
proof -
  obtain e k root where new: "NewForest_sl sha = (e, k)" "findRoot_sl e k = Some root" "soundRoot sha e root"
    "trie_get sha (readNode (fs_store e) root) = (\<lambda>_. GetZeroValueHash sha)"
    using NewForest_sl_sound by blast
  obtain f h m where f: "runUpdates grow sha (e, k) batches = Some (f, h)" "findRoot_sl f h = Some m" "soundRoot sha f m"
    "trie_get sha (readNode (fs_store f) m) = apply_diffs (concat batches) (\<lambda>_. GetZeroValueHash sha)"
    using runUpdates_sound[OF new(2,3)] new(4) by metis
  obtain g h' n where g: "runUpdates grow' sha (e, k) batches' = Some (g, h')" "findRoot_sl g h' = Some n" "soundRoot sha g n"
    "trie_get sha (readNode (fs_store g) n) = apply_diffs (concat batches') (\<lambda>_. GetZeroValueHash sha)"
    using runUpdates_sound[OF new(2,3)] new(4) by metis
  show ?thesis using soundRoot_unique[OF f(2,3) g(2,3)] f(1,4) g(1,4) new(1) by auto
qed

theorem root_hash_determined_by_map_witness:
  "\<exists>f h g. runUpdates doubling demo_sha (NewForest_sl demo_sha)
      [[TrieDiff [5] [9], TrieDiff [6] [7]], [TrieDiff [6] (demo_sha [])]] = Some (f, h) \<and>
    runUpdates (\<lambda>_ n. n) demo_sha (NewForest_sl demo_sha) [[TrieDiff [5] [9]]] = Some (g, h)"
proof -
  have "apply_diffs (concat [[TrieDiff [5] [9], TrieDiff [6] [7]], [TrieDiff [6] (demo_sha [])]]) (\<lambda>_. GetZeroValueHash demo_sha)
    = apply_diffs (concat [[TrieDiff [5] [9]]]) (\<lambda>_. GetZeroValueHash demo_sha)"
    by (auto simp: GetZeroValueHash_def)
  then show ?thesis
    using root_hash_determined_by_map[of doubling demo_sha
      "[[TrieDiff [5] [9], TrieDiff [6] [7]], [TrieDiff [6] (demo_sha [])]]" "\<lambda>_ n. n" "[[TrieDiff [5] [9]]]"] by blast
qed

subsection \<open>Older revisions\<close>

text \<open>
  A revision stores the keys 5 and 6; deleting 6 merges the node above them with the leaf of 5, and
  the append writes over the path of the leaf of 6 in the older revision. Its root, still in the
  forest and with the same hash, then stores key 7 in place of key 6.
\<close>

definition older_forest :: "Forest_sl \<times> Sha256" where
  "older_forest = the (runUpdates doubling demo_sha (NewForest_sl demo_sha) [[TrieDiff [5] [9], TrieDiff [6] [7]]])"

definition newer_forest :: Forest_sl where
  "newer_forest = fst (Update_sl doubling demo_sha (fst older_forest) (snd older_forest) [TrieDiff [6] (demo_sha [])])"

definition stored :: "Forest_sl \<Rightarrow> Sha256 \<Rightarrow> bytes \<Rightarrow> Sha256 option" where
  "stored f h key = map_option (\<lambda>root. trie_get demo_sha (readNode (fs_store f) root) key) (findRoot_sl f h)"

lemma older_revision_overwritten:
  "stored (fst older_forest) (snd older_forest) [6] = Some [7]"
  "stored newer_forest (snd older_forest) [6] = Some (demo_sha [])"
  "stored newer_forest (snd older_forest) [7] = Some [7]"
  by code_simp+

end
