(* ===== verification/Forest_Proofs.thy ===== *)
theory Forest_Proofs
  imports Forest_Correct
begin

text \<open>
  Inclusion and exclusion proofs of the forest, for tries whose keys all have one length.
\<close>

subsection \<open>Tries with keys of one length\<close>

fun uniform :: "Sha256 \<Rightarrow> nat \<Rightarrow> node \<Rightarrow> bool" where
  "uniform z n NilNode = False"
| "uniform z n (Node p v h d l r) =
     (if l = NilNode \<and> r = NilNode then v \<noteq> z \<and> length p = n
      else v = z \<and> length p < n \<and> uniform z (n - length p - 1) l \<and> uniform z (n - length p - 1) r)"

lemma uniform_not_Nil: "uniform z n t \<Longrightarrow> t \<noteq> NilNode"
  by auto

lemma uniform_path_length: "uniform z n t \<Longrightarrow> length (n_path t) \<le> n"
  by (cases t) (auto split: if_splits)

context node_hasher
begin

lemma good_uniform:
  "good z f n \<Longrightarrow> n \<noteq> NilNode \<Longrightarrow> (\<And>q. bits q \<Longrightarrow> trie_lookup z n q \<noteq> z \<Longrightarrow> length q = k) \<Longrightarrow>
   uniform z k n"
proof (induction n arbitrary: k)
  case (Node p v h d l r)
  have bp: "bits p" using Node.prems(1) by simp
  have child: "length p + 1 + length q = k"
    if "bits q" "b = 0 \<or> b = 1" "trie_lookup z (if b = 0 then l else r) q \<noteq> z" for b :: byte and q
    using Node.prems(3)[of "p @ b # q"] that bp by (auto simp: trie_lookup.simps)
  show ?case
  proof (cases "v = z")
    case False
    then have k: "length p = k" using Node.prems(3)[OF bp] by (simp add: trie_lookup.simps)
    have "l = NilNode"
      using good_has_key[of l] child[of _ 0] k Node.prems(1) by fastforce
    moreover have "r = NilNode"
      using good_has_key[of r] child[of _ 1] k Node.prems(1) by fastforce
    ultimately show ?thesis using False k by simp
  next
    case True
    then have nn: "l \<noteq> NilNode" "r \<noteq> NilNode" and g: "good z f l" "good z f r"
      using Node.prems(1) by auto
    obtain q where "bits q" "trie_lookup z l q \<noteq> z" using good_has_key[OF g(1) nn(1)] by blast
    then have lt: "length p < k" using child[of q 0] by simp
    have "uniform z (k - length p - 1) l"
      by (rule Node.IH(1)[OF g(1) nn(1)]) (use child[of _ 0] in fastforce)
    moreover have "uniform z (k - length p - 1) r"
      by (rule Node.IH(2)[OF g(2) nn(2)]) (use child[of _ 1] in fastforce)
    ultimately show ?thesis using True nn lt by simp
  qed
qed simp

end

subsection \<open>The descent of GetProof\<close>

definition sha_length_32 :: "hasher \<Rightarrow> bool" where
  "sha_length_32 sha \<longleftrightarrow> (\<forall>x. length (sha x) = SHA256_HASH_SIZE_BYTES)"

lemma hashTrieNode_length: "sha_length_32 sha \<Longrightarrow> length (hashTrieNode sha n) = SHA256_HASH_SIZE_BYTES"
  by (simp add: sha_length_32_def hashTrieNode_def hashBytes_def CalcSha256_def)

lemma good_hash_length:
  assumes "sha_length_32 sha" and "good z (hashTrieNode sha) n" and "n \<noteq> NilNode"
  shows "length (n_hash n) = SHA256_HASH_SIZE_BYTES"
proof (cases n)
  case (Node p v h d l r)
  then have "h = hashTrieNode sha n" using assms(2) by (metis good.simps(2))
  then show ?thesis using hashTrieNode_length[OF assms(1), of n] Node by simp
qed (use assms in simp)

lemma good_inner_hash:
  assumes "sha_length_32 sha" and "good z (hashTrieNode sha) (Node p v h d l r)"
    and "l \<noteq> NilNode" and "r \<noteq> NilNode"
  shows "h = hashBytes sha [n_hash l, n_hash r, p]"
proof -
  have "length (n_hash l) = SHA256_HASH_SIZE_BYTES" "length (n_hash r) = SHA256_HASH_SIZE_BYTES"
    using assms by (auto intro: good_hash_length)
  moreover have "h = hashTrieNode sha (Node p v h d l r)" using assms(2) by (metis good.simps(2))
  ultimately show ?thesis using assms(3,4)
    by (simp add: hashTrieNode_def generateNodeParts_def childHashPart_def Let_def)
qed

lemma good_leaf_hash:
  "good z (hashTrieNode sha) (Node p v h d NilNode NilNode) \<Longrightarrow> h = hashBytes sha [v, p]"
  by (metis good.simps(2) hashTrieNode_def isLeaf.simps(1) generateLeafParts_def node.sel(1,2))

text \<open>
  What the descent has established when it stops at the node \<open>cur\<close>: the path splits into the
  part \<open>pre\<close> above the node and the \<open>rest\<close>, the collected proof nodes \<open>ns\<close> span \<open>pre\<close>, and
  the verifier's loop over them climbs from the hash of \<open>cur\<close> to the hash of the start node.
\<close>

definition descent_ok :: "hasher \<Rightarrow> Sha256 \<Rightarrow> node \<Rightarrow> bytes \<Rightarrow> node \<Rightarrow> bytes \<Rightarrow> bytes \<Rightarrow> TrieProofNode list \<Rightarrow> bool" where
  "descent_ok sha z n p cur pre rest ns \<longleftrightarrow>
     p = pre @ rest \<and> uniform z (length rest) cur \<and> good z (hashTrieNode sha) cur \<and>
     trie_lookup z n p = trie_lookup z cur rest \<and>
     (hasPrefix rest (n_path cur) \<longrightarrow> rest = n_path cur) \<and>
     sum_list (map (\<lambda>n. prefixSize n + 1) ns) = length pre \<and>
     (\<forall>pfx us. selfConsistentLoop sha (pfx @ p) (rev ns @ us) (length pfx + length pre) (n_hash cur)
        = selfConsistentLoop sha (pfx @ p) us (length pfx) (n_hash n))"

lemma descent_okD:
  assumes "descent_ok sha z n p cur pre rest ns"
  shows "p = pre @ rest" "uniform z (length rest) cur" "good z (hashTrieNode sha) cur"
    "trie_lookup z n p = trie_lookup z cur rest"
    "hasPrefix rest (n_path cur) \<Longrightarrow> rest = n_path cur"
    "sum_list (map (\<lambda>n. prefixSize n + 1) ns) = length pre"
    "selfConsistentLoop sha (pfx @ p) (rev ns @ us) (length pfx + length pre) (n_hash cur)
       = selfConsistentLoop sha (pfx @ p) us (length pfx) (n_hash n)"
  using assms unfolding descent_ok_def by blast+

lemma descent_stop:
  "uniform z (length p) n \<Longrightarrow> good z (hashTrieNode sha) n \<Longrightarrow>
   \<not> (hasPrefix p (n_path n) \<and> length p > length (n_path n)) \<Longrightarrow>
   descent_ok sha z n p n [] p []"
  by (auto simp: descent_ok_def hasPrefix_iff)

lemma descent_step:
  assumes sha: "sha_length_32 sha" and g: "good z (hashTrieNode sha) (Node q v h d l r)"
    and nn: "l \<noteq> NilNode" "r \<noteq> NilNode" and b: "b = 0 \<or> b = 1"
    and IH: "descent_ok sha z (if b = 0 then l else r) p' cur pre rest ns"
  shows "descent_ok sha z (Node q v h d l r) (q @ b # p') cur (q @ b # pre) rest
    (TrieProofNode (n_hash (if b = 0 then r else l)) (length q) # ns)"
proof -
  let ?c = "if b = 0 then l else r" and ?s = "if b = 0 then r else l"
  have up: "selfConsistentLoop sha (pfx @ q @ b # p')
        (rev ns @ TrieProofNode (n_hash ?s) (length q) # us) (length pfx + length (q @ b # pre)) (n_hash cur)
      = selfConsistentLoop sha (pfx @ q @ b # p') us (length pfx) h" for pfx us
  proof -
    have "selfConsistentLoop sha (pfx @ q @ b # p')
          (rev ns @ TrieProofNode (n_hash ?s) (length q) # us) (length pfx + length (q @ b # pre)) (n_hash cur)
        = selfConsistentLoop sha (pfx @ q @ b # p') (TrieProofNode (n_hash ?s) (length q) # us)
            (length (pfx @ q @ [b])) (n_hash ?c)"
      using descent_okD(7)[OF IH, of "pfx @ q @ [b]"] by (simp add: ac_simps)
    also have "\<dots> = selfConsistentLoop sha (pfx @ q @ b # p') us (length pfx) h"
      using good_inner_hash[OF sha g nn] b
      by (auto simp: nth_append slice_def Let_def)
    finally show ?thesis .
  qed
  have "trie_lookup z (Node q v h d l r) (q @ b # p') = trie_lookup z ?c p'"
    by (simp add: trie_lookup.simps)
  then show ?thesis using IH up unfolding descent_ok_def by auto
qed

lemma proofLoop_descends:
  assumes sha: "sha_length_32 sha"
  shows "uniform z (length p) n \<Longrightarrow> good z (hashTrieNode sha) n \<Longrightarrow> bits p \<Longrightarrow>
    \<exists>cur pre rest ns. proofLoop n p k nodes = Ok (cur, k + length pre, nodes @ ns) \<and>
      descent_ok sha z n p cur pre rest ns"
proof (induction n arbitrary: p k nodes)
  case (Node q v h d l r)
  show ?case
  proof (cases "hasPrefix p q \<and> length p > length q")
    case False
    then show ?thesis
      using descent_stop[OF Node.prems(1,2)] by (intro exI[of _ "Node q v h d l r"] exI[of _ "[]"] exI[of _ p] exI[of _ "[]"]) auto
  next
    case True
    then obtain b p' where p: "p = q @ b # p'" by (metis nat_less_le strict_prefixE)
    have nn: "l \<noteq> NilNode" "r \<noteq> NilNode" and u: "uniform z (length p') l" "uniform z (length p') r"
      using Node.prems(1) p by (auto split: if_splits)
    have b: "b = 0 \<or> b = 1" and p'b: "bits p'" using Node.prems(3) p by auto
    have g: "good z (hashTrieNode sha) l" "good z (hashTrieNode sha) r" using Node.prems(2) by auto
    let ?c = "if b = 0 then l else r" and ?s = "if b = 0 then r else l"
    let ?n0 = "TrieProofNode (n_hash ?s) (length q)"
    have "\<exists>cur pre rest ns. proofLoop ?c p' (k + length q + 1) (nodes @ [?n0])
        = Ok (cur, k + length q + 1 + length pre, (nodes @ [?n0]) @ ns) \<and> descent_ok sha z ?c p' cur pre rest ns"
      using Node.IH(1)[OF u(1) g(1) p'b, of "k + length q + 1" "nodes @ [?n0]"]
        Node.IH(2)[OF u(2) g(2) p'b, of "k + length q + 1" "nodes @ [?n0]"]
      by (cases "b = 0") simp_all
    then obtain cur pre rest ns where
      loop: "proofLoop ?c p' (k + length q + 1) (nodes @ [?n0])
        = Ok (cur, k + length q + 1 + length pre, (nodes @ [?n0]) @ ns)"
      and desc: "descent_ok sha z ?c p' cur pre rest ns" by blast
    have "proofLoop (Node q v h d l r) p k nodes = Ok (cur, k + length (q @ b # pre), nodes @ ?n0 # ns)"
      using loop nn by (auto simp: p appendToProof_def Let_def ac_simps)
    then show ?thesis
      using descent_step[OF sha Node.prems(2) nn b desc] unfolding p by blast
  qed
qed simp


lemma proofLoop_root:
  assumes "sha_length_32 sha" and "uniform z (length p) n" and "good z (hashTrieNode sha) n" and "bits p"
  obtains cur pre rest ns where "proofLoop n p 0 [] = Ok (cur, length pre, ns)"
    and "descent_ok sha z n p cur pre rest ns"
  using proofLoop_descends[OF assms, of 0 "[]"] by auto

subsection \<open>Proofs verify\<close>

text \<open>All keys of the forest have length \<open>k\<close>.\<close>

definition fixed_keys :: "hasher \<Rightarrow> nat \<Rightarrow> Forest \<Rightarrow> bool" where
  "fixed_keys sha k f \<longleftrightarrow>
     (\<forall>r \<in> set (roots f). \<forall>key. trie_get sha r key \<noteq> GetZeroValueHash sha \<longrightarrow> length key = k)"

lemma finishProof_ok:
  assumes "descent_ok sha z n p cur pre rest ns"
  shows "finishProof p cur (length pre) ns =
    Ok \<lparr>tp_nodes = ns @ [TrieProofNode (n_hash cur) (length (n_path cur))],
        tp_path = pre @ n_path cur @ drop (length (n_path cur)) rest,
        extraHashLeft = (if isLeaf cur then n_value cur else n_hash (n_left cur)),
        extraHashRight = (if isLeaf cur then None else Some (n_hash (n_right cur)))\<rparr>"
proof -
  note u = descent_okD(2,1)[OF assms]
  have "cur \<noteq> NilNode" "length (n_path cur) \<le> length rest"
    using u uniform_not_Nil uniform_path_length by blast+
  moreover have "isLeaf cur \<or> (n_left cur \<noteq> NilNode \<and> n_right cur \<noteq> NilNode)"
    using u(1) by (cases cur) (auto split: if_splits)
  ultimately show ?thesis using u(2) by (auto simp: finishProof_def appendToProof_def)
qed

lemma fold_prefix_sizes: "fold (\<lambda>n i. i + prefixSize n + 1) ns k = k + sum_list (map (\<lambda>n. prefixSize n + 1) ns)"
  by (induction ns arbitrary: k) auto

lemma descent_consistent:
  assumes "descent_ok sha z n p cur pre rest ns"
  shows "selfConsistentLoop sha p (rev ns) (length pre) (n_hash cur) = Ok (n_hash n)"
  using descent_okD(7)[OF assms, of "[]" "[]"] by simp

text \<open>At the node where the descent stops, the key is present exactly when the rest matches.\<close>

lemma descent_lookup:
  assumes "descent_ok sha z n p cur pre rest ns"
  shows "trie_lookup z n p \<noteq> z \<longleftrightarrow> rest = n_path cur"
    and "rest = n_path cur \<Longrightarrow> isLeaf cur \<and> n_value cur = trie_lookup z n p"
proof -
  note u = descent_okD(2)[OF assms] and l = descent_okD(4)[OF assms] and pre = descent_okD(5)[OF assms]
  obtain q v h d a b where cur: "cur = Node q v h d a b" using u by (cases cur) auto
  have leaf: "rest = q \<Longrightarrow> a = NilNode \<and> b = NilNode \<and> v \<noteq> z"
    using u cur by (auto split: if_splits)
  show "trie_lookup z n p \<noteq> z \<longleftrightarrow> rest = n_path cur"
    using leaf l pre cur by (auto simp: trie_lookup.simps)
  show "rest = n_path cur \<Longrightarrow> isLeaf cur \<and> n_value cur = trie_lookup z n p"
    using leaf l cur by (auto simp: trie_lookup.simps)
qed

lemma descent_last_hash:
  assumes "sha_length_32 sha" and "descent_ok sha z n p cur pre rest ns"
  shows "n_hash cur = (if isLeaf cur then hashBytes sha [n_value cur, n_path cur]
      else hashBytes sha [n_hash (n_left cur), n_hash (n_right cur), n_path cur])"
proof -
  note u = descent_okD(2)[OF assms(2)] and g = descent_okD(3)[OF assms(2)]
  obtain q v h d a b where cur: "cur = Node q v h d a b" using u by (cases cur) auto
  show ?thesis
  proof (cases "isLeaf cur")
    case True
    then have "h = hashBytes sha [v, q]" using g by (intro good_leaf_hash[of z sha q v h d]) (simp add: cur)
    with True show ?thesis by (simp add: cur)
  next
    case False
    then have nn: "a \<noteq> NilNode" "b \<noteq> NilNode" using u by (auto simp: cur split: if_splits)
    have "h = hashBytes sha [n_hash a, n_hash b, q]"
      using g nn by (intro good_inner_hash[OF assms(1), of z q v h d a b]) (simp_all add: cur)
    with nn show ?thesis by (simp add: cur)
  qed
qed

lemma descent_verifies:
  assumes sha: "sha_length_32 sha" and desc: "descent_ok sha (GetZeroValueHash sha) n (inflate key) cur pre rest ns"
    and fin: "finishProof (inflate key) cur (length pre) ns = Ok proof"
  shows "Verify sha (n_hash n) (Some proof) key (trie_lookup (GetZeroValueHash sha) n (inflate key)) = Ok True"
    and "trie_lookup (GetZeroValueHash sha) n (inflate key) \<noteq> GetZeroValueHash sha \<Longrightarrow>
      Verify sha (n_hash n) (Some proof) key (GetZeroValueHash sha) = Ok False"
proof -
  let ?z = "GetZeroValueHash sha"
  have proof_eq: "proof = \<lparr>tp_nodes = ns @ [TrieProofNode (n_hash cur) (length (n_path cur))],
        tp_path = pre @ n_path cur @ drop (length (n_path cur)) rest,
        extraHashLeft = (if isLeaf cur then n_value cur else n_hash (n_left cur)),
        extraHashRight = (if isLeaf cur then None else Some (n_hash (n_right cur)))\<rparr>"
    using fin finishProof_ok[OF desc] by simp
  have path: "toBin key (toBinSize key) = pre @ rest"
    using descent_okD(1)[OF desc] by (simp add: inflate_def)
  have pl: "length (n_path cur) \<le> length rest"
    using descent_okD(2)[OF desc] by (rule uniform_path_length)
  have idx: "calculateLastNodePathIndex proof = length pre"
    unfolding calculateLastNodePathIndex_def fold_prefix_sizes
    using descent_okD(6)[OF desc] by (simp add: proof_eq)
  have cons: "selfConsistentLoop sha (pre @ rest) (rev ns) (length pre) (n_hash cur) = Ok (n_hash n)"
    using descent_consistent[OF desc] path by (simp add: inflate_def)
  have excl: "verifyProofExclusion sha proof (pre @ rest) (length pre)
      = Ok (rest \<noteq> [] \<and> n_path cur \<noteq> rest)"
    using descent_last_hash[OF sha desc] pl
    by (auto simp: verifyProofExclusion_def proof_eq Let_def slice_def)
  have incl: "verifyProofInclusion sha proof (pre @ rest) v (length pre)
      = Ok (n_hash cur = hashBytes sha [v, rest])" for v
    by (simp add: verifyProofInclusion_def proof_eq)
  have verify: "Verify sha (n_hash n) (Some proof) key v
      = (if v \<noteq> ?z then Ok (n_hash cur = hashBytes sha [v, rest]) else Ok (rest \<noteq> [] \<and> n_path cur \<noteq> rest))" for v
    using cons idx incl excl
    by (simp add: Verify_def path verifyProofIsSelfConsistent_def) (simp add: proof_eq)
  have nonempty: "rest \<noteq> n_path cur \<Longrightarrow> rest \<noteq> []" using pl by auto
  show "Verify sha (n_hash n) (Some proof) key (trie_lookup ?z n (inflate key)) = Ok True"
    using descent_lookup[OF desc] descent_last_hash[OF sha desc] nonempty by (auto simp: verify)
  show "trie_lookup ?z n (inflate key) \<noteq> ?z \<Longrightarrow> Verify sha (n_hash n) (Some proof) key ?z = Ok False"
    using descent_lookup[OF desc] by (auto simp: verify)
qed

lemma fixed_keys_uniform:
  assumes "forest_ok sha f" and "fixed_keys sha k f" and "findRoot f h = Some root"
  shows "empty_root sha root \<or>
    (good (GetZeroValueHash sha) (hashTrieNode sha) root \<and> uniform (GetZeroValueHash sha) (8 * k) root)"
proof (cases "empty_root sha root")
  case False
  have r: "root_ok sha root" "inflated sha root" "root \<in> set (roots f)"
    using forest_ok_root[OF assms(1,3)] findRoot_mem[OF assms(3)] by auto
  with False have g: "good (GetZeroValueHash sha) (hashTrieNode sha) root" "root \<noteq> NilNode"
    by (auto simp: root_ok_def)
  have "uniform (GetZeroValueHash sha) (8 * k) root"
  proof (rule trie.good_uniform[OF g])
    fix q assume "bits q" "trie_lookup (GetZeroValueHash sha) root q \<noteq> GetZeroValueHash sha"
    moreover from this obtain key where "q = inflate key" using r(2) by (auto simp: inflated_def)
    ultimately show "length q = 8 * k"
      using assms(2) r(3) by (auto simp: fixed_keys_def trie_get_def)
  qed
  with g show ?thesis by simp
qed simp

lemma GetProof_empty_root:
  assumes "empty_root sha root" and "findRoot f h = Some root" and "key \<noteq> []"
  shows "GetProof f h key = Ok (newTrieProof\<lparr>tp_path := inflate key\<rparr>)"
proof -
  obtain b p where p: "inflate key = b # p"
    using assms(3) length_inflate[of key] by (cases "inflate key") auto
  obtain d where "root = Node [] (GetZeroValueHash sha) (sha (GetZeroValueHash sha)) d NilNode NilNode"
    using empty_root_Node[OF assms(1)] by blast
  then show ?thesis using p assms(2)
    by (simp add: GetProof_def inflate_def Let_def finishProof_def newTrieProof_def)
qed

subsection \<open>Fixed-length keys are kept\<close>

lemma apply_diffs_keys:
  "apply_diffs ds m k \<noteq> z \<Longrightarrow> m k \<noteq> z \<or> k \<in> diff_key ` set ds"
proof (induction ds arbitrary: m)
  case (Cons d ds)
  obtain k' v where d: "d = TrieDiff k' v" by (cases d)
  show ?case using Cons.IH[of "m(k' := v)"] Cons.prems by (auto simp: d fun_upd_def split: if_splits)
qed simp

lemma fixed_keys_NewForest: "fixed_keys sha k (fst (NewForest sha))"
  by (auto simp: fixed_keys_def NewForest_def trie_get_def Let_def empty_node_eq lookup_leaf split: if_splits)

lemma fixed_keys_Update:
  assumes "forest_ok sha f" and "fixed_keys sha k f" and "\<forall>d \<in> set diffs. length (diff_key d) = k"
  shows "fixed_keys sha k (fst (Update sha f h diffs))"
proof (cases "findRoot f h")
  case (Some r)
  have "root_ok sha r" "r \<in> set (roots f)"
    using forest_ok_root[OF assms(1) Some] findRoot_mem[OF Some] by auto
  then have "trie_get sha (new_root sha diffs r) key \<noteq> GetZeroValueHash sha \<Longrightarrow> length key = k" for key
    using apply_diffs_keys[of diffs "trie_get sha r" key "GetZeroValueHash sha"] assms(2,3)
    by (auto simp: trie_get_new_root fixed_keys_def)
  then show ?thesis using assms(2) by (auto simp: Update_known_root[OF Some] fixed_keys_def appendRoot_def)
qed (simp add: Update_unknown_root assms)

subsection \<open>The two-key forest\<close>

lemma sha_length_32_demo: "sha_length_32 demo_sha"
  by (simp add: sha_length_32_def demo_sha_def SHA256_HASH_SIZE_BYTES_def)

lemma fixed_keys_demo: "fixed_keys demo_sha 1 demo_forest"
  unfolding demo_forest_def
  by (rule fixed_keys_Update) (simp_all add: forest_ok_NewForest fixed_keys_NewForest)

subsection \<open>Every proof verifies\<close>

text \<open>
  C4. In a well-formed forest whose keys all have the same positive length, \<open>GetProof\<close> for any
  key of that length returns a proof, without panicking, and the proof verifies against the root
  hash for the value hash the trie stores: an inclusion proof for a stored key, an exclusion
  proof for an absent one. The proof of a stored key does not verify as an exclusion proof.
\<close>

theorem GetProof_verifies:
  assumes "sha_length_32 sha" and "forest_ok sha f" and "fixed_keys sha (length key) f" and "key \<noteq> []"
    and "findRoot f h = Some root"
  shows "\<exists>proof. GetProof f h key = Ok proof \<and>
    Verify sha h (Some proof) key (trie_get sha root key) = Ok True \<and>
    (trie_get sha root key \<noteq> GetZeroValueHash sha \<longrightarrow>
       Verify sha h (Some proof) key (GetZeroValueHash sha) = Ok False)"
proof -
  have h: "n_hash root = h" using findRoot_mem[OF assms(5)] by simp
  have "empty_root sha root \<or> (good (GetZeroValueHash sha) (hashTrieNode sha) root \<and>
      uniform (GetZeroValueHash sha) (length (inflate key)) root)"
    using fixed_keys_uniform[OF assms(2,3,5)] by simp
  then consider (empty) "empty_root sha root"
    | (uni) "good (GetZeroValueHash sha) (hashTrieNode sha) root"
        "uniform (GetZeroValueHash sha) (length (inflate key)) root" by blast
  then show ?thesis
  proof cases
    case empty
    then show ?thesis
      using GetProof_empty_root[OF empty assms(5,4)] empty_root_lookup[OF empty]
      by (simp add: Verify_def newTrieProof_def trie_get_def)
  next
    case uni
    from assms(1) uni(2,1) bits_inflate obtain cur pre rest ns
      where loop: "proofLoop root (inflate key) 0 [] = Ok (cur, length pre, ns)"
      and desc: "descent_ok sha (GetZeroValueHash sha) root (inflate key) cur pre rest ns"
      by (rule proofLoop_root)
    obtain pf where fin: "finishProof (inflate key) cur (length pre) ns = Ok pf"
      using finishProof_ok[OF desc] by blast
    have "GetProof f h key = Ok pf"
      using loop fin assms(5) by (simp add: GetProof_def inflate_def)
    then show ?thesis
      using descent_verifies[OF assms(1) desc fin] unfolding trie_get_def h by blast
  qed
qed

theorem GetProof_verifies_witness:
  "\<exists>proof. GetProof demo_forest (n_hash demo_root) [5] = Ok proof \<and>
    Verify demo_sha (n_hash demo_root) (Some proof) [5] (trie_get demo_sha demo_root [5]) = Ok True \<and>
    (trie_get demo_sha demo_root [5] \<noteq> GetZeroValueHash demo_sha \<longrightarrow>
       Verify demo_sha (n_hash demo_root) (Some proof) [5] (GetZeroValueHash demo_sha) = Ok False)"
  by (rule GetProof_verifies[OF sha_length_32_demo forest_ok_demo _ _ findRoot_demo]) (simp_all add: fixed_keys_demo[simplified])

subsection \<open>A proof that excludes a stored key\<close>

text \<open>
  C5. \<open>verifyProofExclusion\<close> only asks that the last prefix of the proof differ from the rest of
  the key, not that it diverge from it. A proof cut off at an inner node passes: whenever a trie
  stores the key and its root is not a leaf, some proof convinces \<open>Verify\<close>, against the true
  root hash, that the key is absent.
\<close>

theorem Verify_accepts_false_exclusion:
  assumes "sha_length_32 sha" and "forest_ok sha f" and "fixed_keys sha (length key) f"
    and "findRoot f h = Some root" and "trie_get sha root key \<noteq> GetZeroValueHash sha" and "\<not> isLeaf root"
  shows "\<exists>proof. Verify sha h (Some proof) key (GetZeroValueHash sha) = Ok True"
proof -
  have h: "n_hash root = h" using findRoot_mem[OF assms(4)] by simp
  have "\<not> empty_root sha root"
    using assms(5) empty_root_lookup[of sha root] by (auto simp: trie_get_def)
  then have g: "good (GetZeroValueHash sha) (hashTrieNode sha) root"
    and u: "uniform (GetZeroValueHash sha) (length (inflate key)) root"
    using fixed_keys_uniform[OF assms(2-4)] by auto
  obtain q v d l r where root: "root = Node q v h d l r" using u h by (cases root) auto
  have nn: "l \<noteq> NilNode" "r \<noteq> NilNode" and short: "length q < length (inflate key)"
    using u assms(6) by (auto simp: root split: if_splits)
  have pre: "take (length q) (inflate key) = q"
    using assms(5) by (auto simp: trie_get_def root hasPrefix_def trie_lookup.simps split: if_splits)
  have "h = hashBytes sha [n_hash l, n_hash r, q]"
    using good_inner_hash[OF assms(1)] g nn unfolding root by blast
  then have "Verify sha h (Some \<lparr>tp_nodes = [TrieProofNode h (length q)], tp_path = inflate key,
      extraHashLeft = n_hash l, extraHashRight = Some (n_hash r)\<rparr>) key (GetZeroValueHash sha) = Ok True"
    using pre short
    by (auto simp: Verify_def Let_def inflate_def[symmetric] verifyProofIsSelfConsistent_def
        verifyProofExclusion_def calculateLastNodePathIndex_def slice_def)
  then show ?thesis by blast
qed

theorem Verify_accepts_false_exclusion_witness:
  "\<exists>proof. Verify demo_sha (n_hash demo_root) (Some proof) [5] (GetZeroValueHash demo_sha) = Ok True"
proof (rule Verify_accepts_false_exclusion[OF sha_length_32_demo forest_ok_demo _ findRoot_demo])
  show "fixed_keys demo_sha (length [5]) demo_forest" by (simp add: fixed_keys_demo[simplified])
  show "trie_get demo_sha demo_root [5] \<noteq> GetZeroValueHash demo_sha" by code_simp
  show "\<not> isLeaf demo_root" by code_simp
qed

end
