(* ===== verification/Ordered_Tree.thy ===== *)
theory Ordered_Tree
  imports Forest_Correct
begin

text \<open>
  The ordered Merkle tree of \<open>crypto/merkle/merkle_ordered_tree.go\<close>, used for the transaction and
  receipt roots of a block. The tree inserts value number \<open>i\<close> under the key \<open>i\<close> written with
  \<open>keySize\<close> bits. The code computes the root in two ways, by building the tree and by collapsing
  an array level by level; both are modelled and proved equal, and every proof of the tree verifies.

  \<open>math.Ceil(math.Log2(n))\<close> is exact for the lengths a slice can have and is modelled by
  \<open>ceilLog2\<close>. For the empty list the code converts minus infinity to an int; no operation reads
  the resulting key size, which is 0 here. \<open>treeHash\<close> dereferences both children of an inner
  node; the model reads the hash of a nil child as empty, and \<open>full\<close> below says that no such child
  occurs.
\<close>

subsection \<open>Hashing\<close>

type_synonym OrderedTreeProof = "Sha256 list"

definition FlattenOrderedTreeProof :: "OrderedTreeProof \<Rightarrow> bytes" where
  "FlattenOrderedTreeProof proof = concat proof"

definition getEmptyHash :: Sha256 where
  "getEmptyHash = replicate 32 0"

definition hashTwo :: "hasher \<Rightarrow> Sha256 \<Rightarrow> Sha256 \<Rightarrow> Sha256" where
  "hashTwo sha left right =
     (if bytesCompare left right > 0 then CalcSha256 sha [right, left] else CalcSha256 sha [left, right])"

fun ceilLog2 :: "nat \<Rightarrow> nat" where
  "ceilLog2 n = (if n \<le> 1 then 0 else Suc (ceilLog2 ((n + 1) div 2)))"

declare ceilLog2.simps [simp del]

subsection \<open>The root by levels\<close>

text \<open>
  \<open>calculateOrderedTreeRootCollapseOneLevel(src, dst, size)\<close> is called with \<open>src\<close> and \<open>dst\<close>
  the same array from the second level on; \<open>src = None\<close> stands for that, and the loop then reads
  the array it is writing. Every index is in range: \<open>dst\<close> has \<open>len(values)/2+1\<close> entries.
\<close>

function collapseLevelLoop :: "hasher \<Rightarrow> Sha256 list option \<Rightarrow> Sha256 list \<Rightarrow> nat \<Rightarrow> nat \<Rightarrow> Sha256 list" where
  "collapseLevelLoop sha src dst n j =
     (if j < n
      then (let s = (case src of None \<Rightarrow> dst | Some s \<Rightarrow> s)
            in collapseLevelLoop sha src (dst[j div 2 := hashTwo sha (s ! (j - 1)) (s ! j)]) n (j + 2))
      else dst)"
  by pat_completeness auto
termination by (relation "measure (\<lambda>(sha, src, dst, n, j). n - j)") auto

declare collapseLevelLoop.simps [simp del]

definition calculateOrderedTreeRootCollapseOneLevel ::
  "hasher \<Rightarrow> Sha256 list option \<Rightarrow> Sha256 list \<Rightarrow> nat \<Rightarrow> Sha256 list \<times> nat" where
  "calculateOrderedTreeRootCollapseOneLevel sha src dst n =
     (let dst1 = collapseLevelLoop sha src dst n 1;
          s = (case src of None \<Rightarrow> dst1 | Some s \<Rightarrow> s)
      in if n mod 2 \<noteq> 0 then (dst1[n div 2 := s ! (n - 1)], n div 2 + 1) else (dst1, n div 2))"

fun collapseLevels :: "hasher \<Rightarrow> nat \<Rightarrow> Sha256 list \<times> nat \<Rightarrow> Sha256 list \<times> nat" where
  "collapseLevels sha 0 st = st"
| "collapseLevels sha (Suc i) (nodes, n) =
     collapseLevels sha i (calculateOrderedTreeRootCollapseOneLevel sha None nodes n)"

definition CalculateOrderedTreeRoot :: "hasher \<Rightarrow> Sha256 list \<Rightarrow> Sha256" where
  "CalculateOrderedTreeRoot sha values =
     (if values = [] then getEmptyHash
      else let nodes = replicate (length values div 2 + 1) [];
               st = calculateOrderedTreeRootCollapseOneLevel sha (Some values) nodes (length values);
               iteration = ceilLog2 (length values)
           in fst (collapseLevels sha (iteration - 1) st) ! 0)"

subsection \<open>The tree\<close>

record OrderedTree =
  ot_root :: node
  ot_keySize :: nat
  ot_maxKey :: int

fun toKey :: "nat \<Rightarrow> nat \<Rightarrow> bytes" where
  "toKey index 0 = []"
| "toKey index (Suc i) = toKey (index div 2) i @ [of_nat (index mod 2)]"

fun hash_of :: "node \<Rightarrow> Sha256" where
  "hash_of NilNode = []"
| "hash_of (Node p v h d l r) = h"

definition treeHash :: "hasher \<Rightarrow> node \<Rightarrow> Sha256" where
  "treeHash sha n =
     (if isLeaf n then n_value n else hashTwo sha (hash_of (n_left n)) (hash_of (n_right n)))"

fun insertValues :: "hasher \<Rightarrow> nat \<Rightarrow> nat \<Rightarrow> Sha256 list \<Rightarrow> node \<Rightarrow> node" where
  "insertValues sha keySize i [] root = root"
| "insertValues sha keySize i (value # values) root =
     insertValues sha keySize (Suc i) values
       (fst (insert_node (GetZeroValueHash sha) value root (toKey i keySize)))"

definition create :: "hasher \<Rightarrow> Sha256 list \<Rightarrow> nat \<Rightarrow> node" where
  "create sha values keySize =
     (let root = Node [] [] [] None NilNode NilNode in
      if values = [] then setHash root getEmptyHash
      else collapseAndHash (GetZeroValueHash sha) (treeHash sha) (insertValues sha keySize 0 values root))"

definition NewOrderedTree :: "hasher \<Rightarrow> Sha256 list \<Rightarrow> OrderedTree" where
  "NewOrderedTree sha values =
     (let keySize = ceilLog2 (length values)
      in \<lparr>ot_root = create sha values keySize, ot_keySize = keySize, ot_maxKey = int (length values) - 1\<rparr>)"

definition GetRoot :: "OrderedTree \<Rightarrow> Sha256" where
  "GetRoot t = hash_of (ot_root t)"

datatype orderedTreeError = IndexOutOfBounds | ProofHashMismatch

text \<open>
  One iteration first skips the path of the current node and then takes the branch of the key.
  Reading past the key and dereferencing a nil child panic.
\<close>

function orderedProofLoop :: "bytes \<Rightarrow> nat \<Rightarrow> nat \<Rightarrow> node \<Rightarrow> OrderedTreeProof \<Rightarrow>
    (orderedTreeError, OrderedTreeProof) result" where
  "orderedProofLoop keyInBytes keySize i current proof =
     (if i < keySize
      then (let i1 = i + length (n_path current) in
            if i1 \<ge> length keyInBytes then Panic
            else let b = keyInBytes ! i1;
                     other = (if b = 0 then n_right current else n_left current);
                     current1 = (if b = 0 then n_left current else n_right current)
                 in if other = NilNode \<or> current1 = NilNode then Panic
                    else if isLeaf current1 then Ok (proof @ [hash_of other])
                    else orderedProofLoop keyInBytes keySize (i1 + 1) current1 (proof @ [hash_of other]))
      else Ok proof)"
  by pat_completeness auto
termination by (relation "measure (\<lambda>(key, keySize, i, current, proof). keySize - i)") auto

declare orderedProofLoop.simps [simp del]

definition OrderedTree_GetProof :: "OrderedTree \<Rightarrow> int \<Rightarrow> (orderedTreeError, OrderedTreeProof) result" where
  "OrderedTree_GetProof t index =
     (if index < 0 \<or> index > ot_maxKey t then Err IndexOutOfBounds
      else orderedProofLoop (toKey (nat index) (ot_keySize t)) (ot_keySize t) 0 (ot_root t) [])"

definition OrderedTree_Verify :: "hasher \<Rightarrow> Sha256 \<Rightarrow> OrderedTreeProof \<Rightarrow> Sha256 \<Rightarrow> (orderedTreeError, unit) result" where
  "OrderedTree_Verify sha value proof root =
     (let current = foldr (\<lambda>p c. hashTwo sha c p) proof value
      in if root \<noteq> current then Err ProofHashMismatch else Ok ())"

subsection \<open>The root as a recursion on the key size\<close>

fun ordered_root :: "hasher \<Rightarrow> nat \<Rightarrow> Sha256 list \<Rightarrow> Sha256" where
  "ordered_root sha 0 vs = hd vs"
| "ordered_root sha (Suc k) vs =
     (if length vs \<le> 2 ^ k then ordered_root sha k vs
      else hashTwo sha (ordered_root sha k (take (2 ^ k) vs)) (ordered_root sha k (drop (2 ^ k) vs)))"

fun pairUp :: "hasher \<Rightarrow> Sha256 list \<Rightarrow> Sha256 list" where
  "pairUp sha (a # b # vs) = hashTwo sha a b # pairUp sha vs"
| "pairUp sha vs = vs"

lemma hashTwo_commute: "hashTwo sha a b = hashTwo sha b a"
  using bytesCompare_swap[of b a] bytesCompare_zero[of a b] by (auto simp: hashTwo_def)

lemma length_pairUp [simp]: "length (pairUp sha vs) = (length vs + 1) div 2"
  by (induction sha vs rule: pairUp.induct) auto

lemma pairUp_Nil [simp]: "pairUp sha vs = [] \<longleftrightarrow> vs = []"
  by (cases "(sha, vs)" rule: pairUp.cases) auto

lemma nth_pairUp: "m < length vs div 2 \<Longrightarrow> pairUp sha vs ! m = hashTwo sha (vs ! (2 * m)) (vs ! (2 * m + 1))"
proof (induction sha vs arbitrary: m rule: pairUp.induct)
  case (1 sha a b vs)
  then show ?case by (cases m) auto
qed auto

lemma nth_pairUp_last: "odd (length vs) \<Longrightarrow> pairUp sha vs ! (length vs div 2) = last vs"
  by (induction sha vs rule: pairUp.induct) auto

lemma pairUp_take: "pairUp sha (take (2 * m) vs) = take m (pairUp sha vs)"
proof (induction m arbitrary: vs)
  case (Suc m)
  then show ?case by (cases "(sha, vs)" rule: pairUp.cases) auto
qed simp

lemma pairUp_drop: "pairUp sha (drop (2 * m) vs) = drop m (pairUp sha vs)"
proof (induction m arbitrary: vs)
  case (Suc m)
  then show ?case by (cases "(sha, vs)" rule: pairUp.cases) auto
qed simp

lemma ordered_root_pairUp:
  "vs \<noteq> [] \<Longrightarrow> length vs \<le> 2 ^ Suc k \<Longrightarrow> ordered_root sha (Suc k) vs = ordered_root sha k (pairUp sha vs)"
proof (induction k arbitrary: vs)
  case 0
  then show ?case by (cases "(sha, vs)" rule: pairUp.cases) auto
next
  case (Suc k)
  show ?case
  proof (cases "length vs \<le> 2 ^ Suc k")
    case True
    then have "length (pairUp sha vs) \<le> 2 ^ k" by simp
    then show ?thesis using True Suc.IH[OF Suc.prems(1) True] by simp
  next
    case False
    let ?a = "take (2 ^ Suc k) vs" and ?b = "drop (2 ^ Suc k) vs"
    have "ordered_root sha (Suc k) ?a = ordered_root sha k (take (2 ^ k) (pairUp sha vs))"
      "ordered_root sha (Suc k) ?b = ordered_root sha k (drop (2 ^ k) (pairUp sha vs))"
      using Suc.prems False Suc.IH[of ?a] Suc.IH[of ?b] pairUp_take[of sha "2 ^ k" vs] pairUp_drop[of sha "2 ^ k" vs]
      by (auto simp: min_def)
    moreover have "\<not> length (pairUp sha vs) \<le> 2 ^ k" using False by simp
    moreover have "ordered_root sha (Suc (Suc k)) vs
        = hashTwo sha (ordered_root sha (Suc k) ?a) (ordered_root sha (Suc k) ?b)"
      using False by (subst ordered_root.simps(2)) simp
    ultimately show ?thesis by simp
  qed
qed

lemma ceilLog2_bound: "n \<le> 2 ^ ceilLog2 n"
proof (induction n rule: ceilLog2.induct)
  case (1 n)
  then show ?case by (subst ceilLog2.simps) (auto split: if_splits)
qed

lemma ceilLog2_tight: "1 < n \<Longrightarrow> 2 ^ (ceilLog2 n - 1) < n"
proof (induction n rule: ceilLog2.induct)
  case (1 n)
  show ?case
  proof (cases "(n + 1) div 2 \<le> 1")
    case True
    then have "ceilLog2 ((n + 1) div 2) = 0" by (subst ceilLog2.simps) simp
    then have "ceilLog2 n = 1" using "1.prems" by (subst ceilLog2.simps) simp
    then show ?thesis using "1.prems" by simp
  next
    case False
    then have "2 ^ (ceilLog2 ((n + 1) div 2) - 1) < (n + 1) div 2" using 1 by simp
    moreover have "ceilLog2 ((n + 1) div 2) > 0" using False by (subst ceilLog2.simps) simp
    ultimately show ?thesis using "1.prems"
      by (subst ceilLog2.simps) (cases "ceilLog2 ((n + 1) div 2)", auto)
  qed
qed


subsection \<open>Collapsing the levels computes it\<close>

lemma collapseLevelLoop_spec:
  assumes "odd j" and "n div 2 \<le> length dst"
    and "\<And>m. j - 1 \<le> m \<Longrightarrow> m < n \<Longrightarrow> (case src of None \<Rightarrow> dst | Some s \<Rightarrow> s) ! m = orig ! m"
  shows "length (collapseLevelLoop sha src dst n j) = length dst \<and>
    (\<forall>m. collapseLevelLoop sha src dst n j ! m =
      (if j div 2 \<le> m \<and> m < n div 2 then hashTwo sha (orig ! (2 * m)) (orig ! (2 * m + 1)) else dst ! m))"
  using assms
proof (induction sha src dst n j rule: collapseLevelLoop.induct)
  case (1 sha src dst n j)
  show ?case
  proof (cases "j < n")
    case False
    then show ?thesis using "1.prems"(1) by (subst (1 2) collapseLevelLoop.simps) (auto elim!: oddE)
  next
    case True
    let ?s = "case src of None \<Rightarrow> dst | Some s \<Rightarrow> s"
    let ?d = "dst[j div 2 := hashTwo sha (?s ! (j - 1)) (?s ! j)]"
    obtain i where j: "j = 2 * i + 1" using "1.prems"(1) by (rule oddE)
    have i: "i < n div 2" using True j by simp
    have read: "?s ! (2 * i) = orig ! (2 * i)" "?s ! (2 * i + 1) = orig ! (2 * i + 1)"
      using "1.prems"(3)[of "2 * i"] "1.prems"(3)[of "2 * i + 1"] True j by auto
    have keep: "(case src of None \<Rightarrow> ?d | Some s \<Rightarrow> s) ! m = orig ! m" if "j + 2 - 1 \<le> m" "m < n" for m
      using "1.prems"(3)[of m] that j by (cases src) auto
    have eq: "collapseLevelLoop sha src dst n j = collapseLevelLoop sha src ?d n (j + 2)"
      using True by (subst collapseLevelLoop.simps) (simp add: Let_def)
    have "?d ! m = (if m = i then hashTwo sha (orig ! (2 * i)) (orig ! (2 * i + 1)) else dst ! m)" for m
      using read i "1.prems"(2) by (auto simp: j nth_list_update)
    then show ?thesis
      unfolding eq using "1.IH"[OF True refl _ _ keep] "1.prems"(1,2) i by (auto simp: j)
  qed
qed

lemma collapseOneLevel:
  assumes "0 < n" and "n div 2 < length dst"
    and orig: "\<And>m. m < n \<Longrightarrow> (case src of None \<Rightarrow> dst | Some s \<Rightarrow> s) ! m = orig ! m" and "n = length orig"
  obtains dst' where "calculateOrderedTreeRootCollapseOneLevel sha src dst n = (dst', (n + 1) div 2)"
    and "length dst' = length dst" and "take ((n + 1) div 2) dst' = pairUp sha orig"
proof -
  let ?d1 = "collapseLevelLoop sha src dst n 1"
  let ?s = "case src of None \<Rightarrow> ?d1 | Some s \<Rightarrow> s"
  have d1: "length ?d1 = length dst" "\<And>m. ?d1 ! m =
      (if m < n div 2 then hashTwo sha (orig ! (2 * m)) (orig ! (2 * m + 1)) else dst ! m)"
    using collapseLevelLoop_spec[of 1 n dst src orig sha] assms by auto
  have last: "?s ! (n - 1) = last orig" if "odd n"
    using that d1(2)[of "n - 1"] orig[of "n - 1"] assms(1,4) by (cases src) (auto simp: last_conv_nth elim!: oddE)
  define dst' where "dst' = fst (calculateOrderedTreeRootCollapseOneLevel sha src dst n)"
  have eq: "calculateOrderedTreeRootCollapseOneLevel sha src dst n = (dst', (n + 1) div 2)"
    by (cases "even n") (auto simp: dst'_def calculateOrderedTreeRootCollapseOneLevel_def Let_def
        elim!: oddE evenE)
  have dst': "dst' = (if odd n then ?d1[n div 2 := last orig] else ?d1)"
    using last by (auto simp: dst'_def calculateOrderedTreeRootCollapseOneLevel_def Let_def even_iff_mod_2_eq_zero
        simp del: One_nat_def)
  have "take ((n + 1) div 2) dst' = pairUp sha orig"
  proof (rule nth_equalityI)
    show "length (take ((n + 1) div 2) dst') = length (pairUp sha orig)"
      using assms(1,2,4) d1(1) by (auto simp: dst' elim!: oddE)
    fix m assume "m < length (take ((n + 1) div 2) dst')"
    then have "m < (n + 1) div 2" by simp
    then have "m < n div 2 \<or> odd n \<and> m = n div 2" by (cases "even n") (auto elim!: evenE oddE)
    then consider "m < n div 2" | "odd n" "m = n div 2" by blast
    then show "take ((n + 1) div 2) dst' ! m = pairUp sha orig ! m"
      using d1 assms(1,2,4) nth_pairUp_last[of orig sha] nth_pairUp[of m orig sha] by cases (auto simp: dst')
  qed
  then show thesis using that eq d1(1) dst' by simp
qed

lemma collapseLevels_ordered_root:
  "length vs \<le> 2 ^ i \<Longrightarrow> vs \<noteq> [] \<Longrightarrow> length vs div 2 < length nodes \<Longrightarrow> take (length vs) nodes = vs \<Longrightarrow>
   fst (collapseLevels sha i (nodes, length vs)) ! 0 = ordered_root sha i vs"
proof (induction i arbitrary: vs nodes)
  case 0
  then show ?case by (cases vs; cases nodes) auto
next
  case (Suc i)
  have "nodes ! m = vs ! m" if "m < length vs" for m
    using that Suc.prems(4) by (metis nth_take)
  then obtain dst' where "calculateOrderedTreeRootCollapseOneLevel sha None nodes (length vs) = (dst', (length vs + 1) div 2)"
    and "length dst' = length nodes" and "take ((length vs + 1) div 2) dst' = pairUp sha vs"
    using collapseOneLevel[of "length vs" nodes None vs sha] Suc.prems by auto
  then show ?case
    using Suc.IH[of "pairUp sha vs" dst'] Suc.prems ordered_root_pairUp[of vs i sha] by simp
qed

lemma CalculateOrderedTreeRoot_eq:
  assumes "vs \<noteq> []"
  shows "CalculateOrderedTreeRoot sha vs = ordered_root sha (ceilLog2 (length vs)) vs"
proof -
  let ?n = "length vs" and ?nodes = "replicate (length vs div 2 + 1) []"
  obtain dst' where dst': "calculateOrderedTreeRootCollapseOneLevel sha (Some vs) ?nodes ?n = (dst', (?n + 1) div 2)"
    "length dst' = length ?nodes" "take ((?n + 1) div 2) dst' = pairUp sha vs"
    using collapseOneLevel[of ?n ?nodes "Some vs" vs sha] assms by auto
  let ?i = "ceilLog2 ?n - 1"
  have bound: "(?n + 1) div 2 \<le> 2 ^ ?i"
    using ceilLog2_bound[of ?n] assms by (cases "ceilLog2 ?n") auto
  then have "fst (collapseLevels sha ?i (dst', length (pairUp sha vs))) ! 0 = ordered_root sha ?i (pairUp sha vs)"
    using assms dst' by (intro collapseLevels_ordered_root) auto
  also have "\<dots> = ordered_root sha (ceilLog2 ?n) vs"
  proof (cases "ceilLog2 ?n")
    case 0
    then have "?n = 1" using ceilLog2_bound[of ?n] assms by (cases vs) auto
    then show ?thesis using 0 by (cases vs) auto
  next
    case (Suc k)
    then show ?thesis using ordered_root_pairUp[of vs k sha] ceilLog2_bound[of ?n] assms by simp
  qed
  finally show ?thesis using assms dst'(1) by (simp add: CalculateOrderedTreeRoot_def Let_def)
qed


subsection \<open>The tree that insertion builds\<close>

text \<open>The number a key spells, and the canonical tree on a list of values.\<close>

fun fromKey :: "bytes \<Rightarrow> nat" where
  "fromKey [] = 0"
| "fromKey (b # q) = (if b = 0 then 0 else 2 ^ length q) + fromKey q"

fun otree :: "hasher \<Rightarrow> nat \<Rightarrow> Sha256 list \<Rightarrow> node" where
  "otree sha 0 vs = Node [] (hd vs) (hd vs) None NilNode NilNode"
| "otree sha (Suc k) vs =
     (if length vs \<le> 2 ^ k then (let t = otree sha k vs in setPath t (0 # n_path t))
      else Node [] (GetZeroValueHash sha) (ordered_root sha (Suc k) vs) None
             (otree sha k (take (2 ^ k) vs)) (otree sha k (drop (2 ^ k) vs)))"

interpretation ordered: node_hasher "GetZeroValueHash sha" "treeHash sha" for sha
proof
  fix l l' r r' :: node and p v h d h' d'
  assume ch: "child_hash l = child_hash l'" "child_hash r = child_hash r'"
  have "hash_of l = hash_of l'" "hash_of r = hash_of r'" "l = NilNode \<longleftrightarrow> l' = NilNode" "r = NilNode \<longleftrightarrow> r' = NilNode"
    using ch by (cases l; cases l'; simp; fail) (use ch in \<open>cases r; cases r'; simp; fail\<close>,
      use ch in \<open>cases l; cases l'; simp; fail\<close>, use ch in \<open>cases r; cases r'; simp; fail\<close>)
  then show "treeHash sha (Node p v h d l r) = treeHash sha (Node p v h' d' l' r')"
    by (simp add: treeHash_def)
qed

lemma treeHash_Node: "treeHash sha (Node p v h d l r) =
    (if l = NilNode \<and> r = NilNode then v else hashTwo sha (hash_of l) (hash_of r))"
  by (simp add: treeHash_def)

lemma toKey_length [simp]: "length (toKey i k) = k"
  by (induction k arbitrary: i) auto

lemma toKey_bits [simp]: "bits (toKey i k)"
  by (induction k arbitrary: i) (auto simp: mod2_eq_if)

lemma toKey_Suc: "toKey i (Suc k) = of_nat (i div 2 ^ k mod 2) # toKey i k"
proof (induction k arbitrary: i)
  case (Suc k)
  have "toKey i (Suc (Suc k)) = toKey (i div 2) (Suc k) @ [of_nat (i mod 2)]" by simp
  also have "\<dots> = of_nat (i div 2 ^ Suc k mod 2) # toKey i (Suc k)"
    unfolding Suc.IH[of "i div 2"] by (simp add: div_mult2_eq)
  finally show ?case .
qed simp

declare toKey.simps(2) [simp del]

lemma fromKey_less: "fromKey q < 2 ^ length q"
  by (induction q) auto

lemma toKey_fromKey: "bits q \<Longrightarrow> toKey (fromKey q) (length q) = q"
proof -
  have "bits q \<Longrightarrow> toKey (c * 2 ^ length q + fromKey q) (length q) = q" for c
  proof (induction q arbitrary: c)
    case (Cons b q)
    let ?e = "if b = 0 then 0 else 1 :: nat"
    have n: "c * 2 ^ Suc (length q) + fromKey (b # q) = (2 * c + ?e) * 2 ^ length q + fromKey q"
      by (simp add: algebra_simps)
    have "((2 * c + ?e) * 2 ^ length q + fromKey q) div 2 ^ length q mod 2 = ?e"
      using fromKey_less[of q] by (simp add: div_mult_self3 mod2_eq_if)
    moreover have "toKey ((2 * c + ?e) * 2 ^ length q + fromKey q) (length q) = q"
      using Cons.IH Cons.prems by simp
    moreover have "b = of_nat ?e" using Cons.prems by auto
    ultimately have "toKey ((2 * c + ?e) * 2 ^ length q + fromKey q) (Suc (length q)) = b # q"
      by (simp only: toKey_Suc)
    then show ?case by (simp only: n length_Cons[of b q])
  qed simp
  from this[of 0] show "bits q \<Longrightarrow> ?thesis" by simp
qed

lemma fromKey_toKey: "i < 2 ^ k \<Longrightarrow> fromKey (toKey i k) = i"
proof -
  have "fromKey (toKey i k) = i mod 2 ^ k"
  proof (induction k)
    case (Suc k)
    have "i mod 2 ^ Suc k = i div 2 ^ k mod 2 * 2 ^ k + i mod 2 ^ k"
      by (metis mod_mult2_eq mult.commute power_Suc2 add.commute)
    then show ?case unfolding toKey_Suc using Suc by (auto simp: mod2_eq_if)
  qed simp
  then show "i < 2 ^ k \<Longrightarrow> ?thesis" by simp
qed


subsection \<open>The canonical tree is good and stores the values\<close>

definition value_at :: "Sha256 \<Rightarrow> nat \<Rightarrow> Sha256 list \<Rightarrow> bytes \<Rightarrow> Sha256" where
  "value_at z k vs q = (if length q = k \<and> fromKey q < length vs then vs ! fromKey q else z)"

fun full :: "node \<Rightarrow> bool" where
  "full NilNode = False"
| "full (Node p v h d l r) = (if l = NilNode \<and> r = NilNode then True else full l \<and> full r)"

lemma otree_Node [simp]: "otree sha k vs \<noteq> NilNode"
proof (induction k arbitrary: vs)
  case (Suc k)
  then show ?case by (cases "otree sha k vs") auto
qed simp

lemma hash_of_setPath [simp]: "hash_of (setPath t p) = hash_of t"
  by (cases t) auto

lemma hash_otree: "hash_of (otree sha k vs) = ordered_root sha k vs"
  by (induction k arbitrary: vs) (auto simp: Let_def)

lemma good_prepend:
  assumes "good z (treeHash sha) t" and "t \<noteq> NilNode" and "b = 0 \<or> b = 1"
  shows "good z (treeHash sha) (setPath t (b # n_path t))"
  using assms by (cases t) (auto simp: treeHash_Node)

lemma good_otree:
  "vs \<noteq> [] \<Longrightarrow> length vs \<le> 2 ^ k \<Longrightarrow> GetZeroValueHash sha \<notin> set vs \<Longrightarrow>
   good (GetZeroValueHash sha) (treeHash sha) (otree sha k vs)"
proof (induction k arbitrary: vs)
  case 0
  then show ?case by (cases vs) (auto simp: treeHash_Node)
next
  case (Suc k)
  show ?case
  proof (cases "length vs \<le> 2 ^ k")
    case True
    then show ?thesis using Suc good_prepend by (simp add: Let_def)
  next
    case False
    have "length vs - 2 ^ k \<le> 2 ^ k" using Suc.prems by simp
    then have "good (GetZeroValueHash sha) (treeHash sha) (otree sha k (take (2 ^ k) vs))"
      "good (GetZeroValueHash sha) (treeHash sha) (otree sha k (drop (2 ^ k) vs))"
      using Suc.IH[of "take (2 ^ k) vs"] Suc.IH[of "drop (2 ^ k) vs"] Suc.prems False
      by (auto dest: in_set_takeD in_set_dropD)
    then show ?thesis using False by (simp add: treeHash_Node hash_otree)
  qed
qed

lemma full_setPath [simp]: "full (setPath t p) = full t"
  by (cases t) auto

lemma full_otree: "full (otree sha k vs)"
  by (induction k arbitrary: vs) (auto simp: Let_def)

lemma lookup_prepend:
  assumes "t \<noteq> NilNode"
  shows "trie_lookup z (setPath t (b # n_path t)) q
    = (case q of [] \<Rightarrow> z | c # q' \<Rightarrow> if c = b then trie_lookup z t q' else z)"
  using assms by (cases t; cases q) (auto simp: trie_lookup.simps hasPrefix_iff)

lemma otree_lookup:
  "vs \<noteq> [] \<Longrightarrow> length vs \<le> 2 ^ k \<Longrightarrow> bits q \<Longrightarrow>
   trie_lookup (GetZeroValueHash sha) (otree sha k vs) q = value_at (GetZeroValueHash sha) k vs q"
proof (induction k arbitrary: vs q)
  case 0
  then show ?case by (cases vs) (auto simp: lookup_leaf value_at_def)
next
  case (Suc k)
  let ?z = "GetZeroValueHash sha"
  show ?case
  proof (cases "length vs \<le> 2 ^ k")
    case True
    then have "trie_lookup ?z (otree sha (Suc k) vs) q
        = (case q of [] \<Rightarrow> ?z | c # q' \<Rightarrow> if c = 0 then value_at ?z k vs q' else ?z)"
      using Suc by (auto simp: Let_def lookup_prepend split: list.split)
    then show ?thesis using True by (auto simp: value_at_def split: list.split)
  next
    case False
    have "trie_lookup ?z (otree sha (Suc k) vs) q
        = (case q of [] \<Rightarrow> ?z | c # q' \<Rightarrow> if c = 0 then value_at ?z k (take (2 ^ k) vs) q'
             else value_at ?z k (drop (2 ^ k) vs) q')"
      using Suc.IH[of "take (2 ^ k) vs"] Suc.IH[of "drop (2 ^ k) vs"] Suc.prems False
      by (auto simp: trie_lookup.simps hasPrefix_iff split: list.split)
    then show ?thesis using False fromKey_less[of "tl q"]
      by (auto simp: value_at_def add.commute less_diff_conv split: list.split)
  qed
qed

subsection \<open>Insertion builds the canonical tree\<close>

lemma insertValues_inv:
  "sandbox_inv (GetZeroValueHash sha) f n \<Longrightarrow> sandbox_inv (GetZeroValueHash sha) f (insertValues sha k i vs n)"
  by (induction vs arbitrary: i n) (simp_all add: insert_node_sandbox_inv)

lemma insertValues_lookup:
  "sandbox_inv (GetZeroValueHash sha) f n \<Longrightarrow> bits q \<Longrightarrow> i + length vs \<le> 2 ^ k \<Longrightarrow>
   trie_lookup (GetZeroValueHash sha) (insertValues sha k i vs n) q =
     (if length q = k \<and> i \<le> fromKey q \<and> fromKey q < i + length vs then vs ! (fromKey q - i)
      else trie_lookup (GetZeroValueHash sha) n q)"
proof (induction vs arbitrary: i n)
  case (Cons v vs)
  let ?z = "GetZeroValueHash sha"
  let ?n = "fst (insert_node ?z v n (toKey i k))"
  have inv: "sandbox_inv ?z f ?n" using Cons.prems(1) by (simp add: insert_node_sandbox_inv)
  have "trie_lookup ?z ?n q = (if q = toKey i k then v else trie_lookup ?z n q)"
    using insert_node_lookup[OF sandbox_inv_not_Nil[OF Cons.prems(1)]
      sandbox_inv_bit_paths[OF Cons.prems(1)] toKey_bits[of i k], where z = ?z and v = v] Cons.prems(2) by simp
  moreover have "q = toKey i k \<longleftrightarrow> length q = k \<and> fromKey q = i"
    using fromKey_toKey[of i k] toKey_fromKey[OF Cons.prems(2)] Cons.prems(3) by auto
  ultimately show ?case using Cons.IH[OF inv Cons.prems(2), of "Suc i"] Cons.prems(3)
    by (auto simp: nth_Cons split: nat.split) (metis Suc_diff_le diff_Suc_Suc nat.inject)
qed auto

text \<open>
  The root keeps the empty value the code gives it when it has children, so it differs from the
  canonical tree in that value only.
\<close>

definition otree_root :: "hasher \<Rightarrow> nat \<Rightarrow> Sha256 list \<Rightarrow> node" where
  "otree_root sha k vs = (if k = 0 then otree sha k vs else setValue (otree sha k vs) [])"

lemma lookup_setValue:
  "t \<noteq> NilNode \<Longrightarrow> trie_lookup z (setValue t w) q = (if q = n_path t then w else trie_lookup z t q)"
  by (cases t) (auto simp: trie_lookup.simps hasPrefix_iff split: list.split)

lemma good_setValue:
  assumes "good z (treeHash sha) t" and "n_left t \<noteq> NilNode" and "n_right t \<noteq> NilNode"
  shows "good z (treeHash sha) (setValue t w)"
  using assms by (cases t) (auto simp: treeHash_Node)

lemma create_eq:
  assumes "vs \<noteq> []" and "GetZeroValueHash sha \<notin> set vs"
  shows "forgetSandbox (create sha vs (ceilLog2 (length vs))) = forgetSandbox (otree_root sha (ceilLog2 (length vs)) vs)"
proof -
  let ?z = "GetZeroValueHash sha" and ?k = "ceilLog2 (length vs)"
  let ?r = "Node [] [] [] None NilNode NilNode"
  have inv: "sandbox_inv ?z (treeHash sha) ?r" by simp
  have c: "create sha vs ?k = collapseAndHash ?z (treeHash sha) (insertValues sha ?k 0 vs ?r)"
    using assms by (simp add: create_def)
  have "good ?z (treeHash sha) (create sha vs ?k)"
    unfolding c by (rule ordered.good_collapseAndHash) (rule insertValues_inv[OF inv])
  moreover have "good ?z (treeHash sha) (otree_root sha ?k vs) \<and>
      (\<forall>q. bits q \<longrightarrow> trie_lookup ?z (otree_root sha ?k vs) q
         = (if q = [] \<and> ?k \<noteq> 0 then [] else value_at ?z ?k vs q))"
  proof (cases ?k)
    case 0
    then show ?thesis using good_otree[of vs 0 sha] otree_lookup[of vs 0 _ sha] assms ceilLog2_bound[of "length vs"]
      by (simp add: otree_root_def)
  next
    case (Suc k)
    then have "1 < length vs" by (metis One_nat_def ceilLog2.simps not_less zero_neq_one nat.distinct(1))
    then have "\<not> length vs \<le> 2 ^ k" using ceilLog2_tight[of "length vs"] Suc by simp
    then have "n_path (otree sha (Suc k) vs) = []" "n_left (otree sha (Suc k) vs) \<noteq> NilNode"
      "n_right (otree sha (Suc k) vs) \<noteq> NilNode" by simp_all
    then show ?thesis
      using good_setValue[OF good_otree[of vs "Suc k" sha], of "[]"] otree_lookup[of vs "Suc k" _ sha] assms
        ceilLog2_bound[of "length vs"] Suc
      by (simp add: otree_root_def lookup_setValue del: otree.simps)
  qed
  moreover have "trie_lookup ?z (create sha vs ?k) q = (if q = [] \<and> ?k \<noteq> 0 then [] else value_at ?z ?k vs q)"
    if "bits q" for q
    using insertValues_lookup[OF inv that, of 0 vs ?k] that ceilLog2_bound[of "length vs"] assms(1)
    unfolding c by (auto simp: lookup_collapseAndHash lookup_leaf value_at_def)
  ultimately show ?thesis by (intro ordered.good_unique[of sha]) auto
qed


lemma GetRoot_NewOrderedTree:
  assumes "vs \<noteq> []" and "GetZeroValueHash sha \<notin> set vs"
  shows "GetRoot (NewOrderedTree sha vs) = ordered_root sha (ceilLog2 (length vs)) vs"
proof -
  have f: "hash_of (forgetSandbox t) = hash_of t" and v: "hash_of (setValue t w) = hash_of t" for t w
    by (cases t; simp)+
  show ?thesis
    using arg_cong[OF create_eq[OF assms], of hash_of]
    by (simp add: f v GetRoot_def NewOrderedTree_def Let_def hash_otree otree_root_def split: if_splits)
qed

subsection \<open>Proofs\<close>

lemma isLeaf_otree: "vs \<noteq> [] \<Longrightarrow> length vs \<le> 2 ^ k \<Longrightarrow> isLeaf (otree sha k vs) \<longleftrightarrow> length vs = 1"
proof (induction k arbitrary: vs)
  case 0
  then show ?case by (cases vs) auto
next
  case (Suc k)
  have "isLeaf (setPath t p) = isLeaf t" for t p by (cases t) auto
  moreover have "1 \<le> (2::nat) ^ k" by simp
  ultimately show ?case using Suc by (auto simp: Let_def)
qed

lemma ordered_root_single: "length vs = 1 \<Longrightarrow> ordered_root sha k vs = hd vs"
  by (induction k) auto

lemma toKey_high: "toKey (2 ^ k + i) k = toKey i k"
  by (induction k arbitrary: i) (simp_all add: toKey.simps)

lemma orderedProofLoop_prefix:
  assumes "t \<noteq> NilNode" and "i + 1 < keySize"
  shows "orderedProofLoop key keySize i (setPath t (b # n_path t)) pf = orderedProofLoop key keySize (Suc i) t pf"
proof -
  have "n_left (setPath t p) = n_left t" "n_right (setPath t p) = n_right t" "n_path (setPath t p) = p" for p
    using assms(1) by (cases t; simp)+
  then show ?thesis using assms(2)
    by (subst (1 2) orderedProofLoop.simps) (simp add: Let_def)
qed

lemma orderedProofLoop_branch:
  assumes "i < keySize" and "i < length key" and "l \<noteq> NilNode" and "r \<noteq> NilNode"
    and "c = (if key ! i = 0 then l else r)" and "other = (if key ! i = 0 then r else l)"
  shows "orderedProofLoop key keySize i (Node [] v h d l r) pf =
    (if isLeaf c then Ok (pf @ [hash_of other]) else orderedProofLoop key keySize (Suc i) c (pf @ [hash_of other]))"
  using assms by (subst orderedProofLoop.simps) (simp add: Let_def)

text \<open>Walking down a tree gives the hashes that lead back up to its root.\<close>

lemma orderedProofLoop_otree:
  "\<lbrakk>index < length vs; length vs \<le> 2 ^ k; 1 < length vs; length key = i + k; drop i key = toKey index k\<rbrakk> \<Longrightarrow>
   \<exists>p. orderedProofLoop key (i + k) i (otree sha k vs) pf = Ok (pf @ p) \<and> length p \<le> k \<and>
     foldr (\<lambda>p c. hashTwo sha c p) p (vs ! index) = ordered_root sha k vs"
proof (induction k arbitrary: vs index i pf)
  case (Suc k)
  have key: "drop i key = of_nat (index div 2 ^ k mod 2) # toKey index k" using Suc.prems(5) by (simp add: toKey_Suc)
  then have hd_key: "key ! i = of_nat (index div 2 ^ k mod 2)" by (rule nth_via_drop)
  have tl_key: "drop (Suc i) key = toKey index k" using key by (metis drop_Suc list.sel(3) tl_drop)
  show ?case
  proof (cases "length vs \<le> 2 ^ k")
    case True
    then have "0 < k" using Suc.prems(3) by (cases k) auto
    then have "orderedProofLoop key (i + Suc k) i (otree sha (Suc k) vs) pf
        = orderedProofLoop key (Suc i + k) (Suc i) (otree sha k vs) pf"
      using True orderedProofLoop_prefix[OF otree_Node] by (simp add: Let_def)
    moreover obtain p where "orderedProofLoop key (Suc i + k) (Suc i) (otree sha k vs) pf = Ok (pf @ p)" "length p \<le> k"
      "foldr (\<lambda>p c. hashTwo sha c p) p (vs ! index) = ordered_root sha k vs"
      using Suc.IH[OF Suc.prems(1) True Suc.prems(3) _ tl_key, of pf] Suc.prems(4) by auto
    ultimately show ?thesis using True by (intro exI[of _ p]) simp
  next
    case False
    define low where "low \<longleftrightarrow> index < 2 ^ k"
    define sub where "sub = (if low then take (2 ^ k) vs else drop (2 ^ k) vs)"
    define rest where "rest = (if low then drop (2 ^ k) vs else take (2 ^ k) vs)"
    define j where "j = (if low then index else index - 2 ^ k)"
    have j: "j < length sub" "length sub \<le> 2 ^ k" "sub ! j = vs ! index" "toKey j k = toKey index k"
      using Suc.prems(1,2) False toKey_high[of k j] by (auto simp: j_def sub_def low_def split: if_splits)
    have arc: "key ! i = 0 \<longleftrightarrow> low"
      using Suc.prems(1,2) unfolding hd_key low_def
      by (cases "index < 2 ^ k") (auto simp: div_eq_0_iff le_div_geq not_less mod2_eq_if)
    have root: "ordered_root sha (Suc k) vs = hashTwo sha (ordered_root sha k sub) (ordered_root sha k rest)"
      using False hashTwo_commute by (simp add: sub_def rest_def)
    let ?pf = "pf @ [ordered_root sha k rest]"
    have "orderedProofLoop key (i + Suc k) i (otree sha (Suc k) vs) pf =
        (if isLeaf (otree sha k sub) then Ok ?pf else orderedProofLoop key (Suc i + k) (Suc i) (otree sha k sub) ?pf)"
      using False Suc.prems(4) arc
      by (simp add: orderedProofLoop_branch[OF _ _ _ _ refl refl] sub_def rest_def hash_otree)
    moreover obtain p where "(if isLeaf (otree sha k sub) then Ok ?pf else orderedProofLoop key (Suc i + k) (Suc i) (otree sha k sub) ?pf)
        = Ok (?pf @ p)" "length p \<le> k" "foldr (\<lambda>p c. hashTwo sha c p) p (sub ! j) = ordered_root sha k sub"
    proof (cases "length sub = 1")
      case True
      then show thesis using that[of "[]"] isLeaf_otree[of sub k sha] j(1,2) ordered_root_single[OF True, of sha k]
        by (cases sub) auto
    next
      case False
      have "sub \<noteq> []" using j(1) by auto
      with False have "\<not> isLeaf (otree sha k sub)" and gt: "1 < length sub"
        using isLeaf_otree[of sub k sha] j(1,2) by auto
      then show thesis
        using that Suc.IH[OF j(1,2) gt, of "Suc i" ?pf] j(4) Suc.prems(4) tl_key by auto
    qed
    ultimately show ?thesis unfolding root using j(3)
      by (intro exI[of _ "ordered_root sha k rest # p"]) simp
  qed
qed simp


lemma forgetSandbox_sel:
  "n_path (forgetSandbox t) = n_path t" "hash_of (forgetSandbox t) = hash_of t"
  "isLeaf (forgetSandbox t) = isLeaf t" "full (forgetSandbox t) = full t"
  by (induction t) auto

lemma orderedProofLoop_forgetSandbox:
  "orderedProofLoop key keySize i (forgetSandbox t) pf = orderedProofLoop key keySize i t pf"
proof (induction key keySize i t pf rule: orderedProofLoop.induct)
  case (1 key keySize i current pf)
  show ?case
  proof (cases current)
    case (Node p v h d l r)
    define b where "b = key ! (i + length p)"
    have IH: "orderedProofLoop key keySize (i + length p + 1) (forgetSandbox (if b = 0 then l else r)) pf'
        = orderedProofLoop key keySize (i + length p + 1) (if b = 0 then l else r) pf'"
      if "i < keySize" "\<not> i + length p \<ge> length key" "l \<noteq> NilNode" "r \<noteq> NilNode"
        "\<not> isLeaf (if b = 0 then l else r)" "pf' = pf @ [hash_of (if b = 0 then r else l)]" for pf'
      using "1.IH"[OF that(1) refl _ refl refl refl] that by (cases "b = 0") (simp_all add: Node b_def)
    show ?thesis unfolding Node forgetSandbox.simps
      unfolding orderedProofLoop.simps[of key keySize i "Node p v h None (forgetSandbox l) (forgetSandbox r)" pf]
        orderedProofLoop.simps[of key keySize i "Node p v h d l r" pf] Let_def node.sel b_def[symmetric]
      using IH by (cases "b = 0") (auto simp: forgetSandbox_sel)
  qed simp
qed

lemma orderedProofLoop_setValue:
  "orderedProofLoop key keySize i (setValue t w) pf = orderedProofLoop key keySize i t pf"
  by (cases t) (simp, subst (1 2) orderedProofLoop.simps, simp add: Let_def)

lemma full_setValue [simp]: "full (setValue t w) = full t"
  by (cases t) auto

lemma full_create: "vs \<noteq> [] \<Longrightarrow> GetZeroValueHash sha \<notin> set vs \<Longrightarrow> full (create sha vs (ceilLog2 (length vs)))"
  using arg_cong[OF create_eq, of vs sha full] by (simp add: forgetSandbox_sel otree_root_def full_otree split: if_splits)

text \<open>
  C6. The two computations of a block's Merkle root agree: collapsing the array of hashes level by
  level gives the root hash of the tree that insertion builds, for every list of hashes that does
  not contain the zero value hash. In that tree every inner node has both children, so
  \<open>treeHash\<close> never dereferences nil.
\<close>

theorem CalculateOrderedTreeRoot_eq_GetRoot:
  assumes "GetZeroValueHash sha \<notin> set vs"
  shows "CalculateOrderedTreeRoot sha vs = GetRoot (NewOrderedTree sha vs) \<and> full (ot_root (NewOrderedTree sha vs))"
proof (cases "vs = []")
  case True
  then show ?thesis by (simp add: CalculateOrderedTreeRoot_def GetRoot_def NewOrderedTree_def create_def Let_def)
next
  case False
  then show ?thesis using CalculateOrderedTreeRoot_eq GetRoot_NewOrderedTree full_create[OF False] assms
    by (simp add: NewOrderedTree_def Let_def)
qed

theorem CalculateOrderedTreeRoot_eq_GetRoot_witness:
  "CalculateOrderedTreeRoot demo_sha [[3], [2], [9]] = GetRoot (NewOrderedTree demo_sha [[3], [2], [9]]) \<and>
   full (ot_root (NewOrderedTree demo_sha [[3], [2], [9]]))"
proof (rule CalculateOrderedTreeRoot_eq_GetRoot)
  show "GetZeroValueHash demo_sha \<notin> set [[3], [2], [9]]" by code_simp
qed

lemma OrderedTree_GetProof_index:
  assumes "GetZeroValueHash sha \<notin> set vs" and i: "i < length vs"
  shows "\<exists>proof. OrderedTree_GetProof (NewOrderedTree sha vs) (int i) = Ok proof \<and>
         length proof \<le> ceilLog2 (length vs) \<and>
         OrderedTree_Verify sha (vs ! i) proof (GetRoot (NewOrderedTree sha vs)) = Ok ()"
proof -
  let ?k = "ceilLog2 (length vs)" and ?t = "NewOrderedTree sha vs"
  have ne: "vs \<noteq> []" using i by auto
  have "OrderedTree_GetProof ?t (int i) = orderedProofLoop (toKey i ?k) (0 + ?k) 0 (otree sha ?k vs) []"
    using i arg_cong[OF create_eq[OF ne assms(1)], of "\<lambda>t. orderedProofLoop (toKey i ?k) ?k 0 t []"]
    by (simp add: OrderedTree_GetProof_def NewOrderedTree_def Let_def orderedProofLoop_forgetSandbox
        otree_root_def orderedProofLoop_setValue split: if_splits)
  moreover obtain p where "orderedProofLoop (toKey i ?k) (0 + ?k) 0 (otree sha ?k vs) [] = Ok ([] @ p)" "length p \<le> ?k"
    "foldr (\<lambda>p c. hashTwo sha c p) p (vs ! i) = ordered_root sha ?k vs"
  proof (cases "1 < length vs")
    case True
    then show thesis
      using that orderedProofLoop_otree[OF i ceilLog2_bound True, of "toKey i ?k" 0 sha "[]"] by auto
  next
    case False
    then have len: "length vs = 1" using i by simp
    then have "?k = 0" by (subst ceilLog2.simps) simp
    moreover have "orderedProofLoop key 0 0 t pf = Ok pf" for key t pf
      by (subst orderedProofLoop.simps) simp
    ultimately show thesis using that[of "[]"] i len by (cases vs) auto
  qed
  ultimately show ?thesis using GetRoot_NewOrderedTree[OF ne assms(1)] by (auto simp: OrderedTree_Verify_def)
qed

text \<open>
  C7. \<open>GetProof\<close> of an ordered tree returns a proof for every index of the list, without panicking,
  of at most \<open>keySize\<close> hashes, and \<open>Verify\<close> accepts it for the value at that index against the
  root of the tree. Every other index is rejected with an error.
\<close>

theorem OrderedTree_GetProof_verifies:
  assumes "GetZeroValueHash sha \<notin> set vs"
  shows "(0 \<le> index \<and> index < int (length vs) \<longrightarrow>
      (\<exists>proof. OrderedTree_GetProof (NewOrderedTree sha vs) index = Ok proof \<and>
         length proof \<le> ceilLog2 (length vs) \<and>
         OrderedTree_Verify sha (vs ! nat index) proof (GetRoot (NewOrderedTree sha vs)) = Ok ())) \<and>
    (index < 0 \<or> int (length vs) \<le> index \<longrightarrow>
      OrderedTree_GetProof (NewOrderedTree sha vs) index = Err IndexOutOfBounds)"
proof (intro conjI impI)
  assume "0 \<le> index \<and> index < int (length vs)"
  then obtain i where "index = int i" "i < length vs" by (metis of_nat_less_iff zero_le_imp_eq_int)
  then show "\<exists>proof. OrderedTree_GetProof (NewOrderedTree sha vs) index = Ok proof \<and> length proof \<le> ceilLog2 (length vs) \<and>
      OrderedTree_Verify sha (vs ! nat index) proof (GetRoot (NewOrderedTree sha vs)) = Ok ()"
    using OrderedTree_GetProof_index[OF assms] by simp
next
  assume "index < 0 \<or> int (length vs) \<le> index"
  then show "OrderedTree_GetProof (NewOrderedTree sha vs) index = Err IndexOutOfBounds"
    by (auto simp: OrderedTree_GetProof_def NewOrderedTree_def Let_def)
qed

theorem OrderedTree_GetProof_verifies_witness:
  "(\<exists>proof. OrderedTree_GetProof (NewOrderedTree demo_sha [[3], [2], [9]]) 2 = Ok proof \<and> length proof \<le> ceilLog2 3 \<and>
     OrderedTree_Verify demo_sha [9] proof (GetRoot (NewOrderedTree demo_sha [[3], [2], [9]])) = Ok ())"
proof -
  have "GetZeroValueHash demo_sha \<notin> set [[3], [2], [9]]" by code_simp
  from OrderedTree_GetProof_verifies[OF this, of 2] show ?thesis by (simp add: numeral_3_eq_3)
qed

end
