(* ===== verification/Block_Tracker.thy ===== *)
theory Block_Tracker
  imports Prelude
begin

text \<open>
  The block tracker of \<open>synchronization/block_tracker.go\<close>. Services increment it after a commit;
  readers of a block that is a little ahead wait on it.

  The latch is a channel that \<open>IncrementTo\<close> replaces and closes. Channels are numbered in the
  order they are made; \<open>bt_closed\<close> lists the closed ones. A waiting call sees a sequence of
  events: its context is cancelled (\<open>CtxDone\<close>), or the tracker has some new state
  (\<open>Tracker t\<close>), which wakes the call if the latch it holds is closed there.
\<close>

record BlockTracker =
  bt_graceDistance :: "16 word"
  bt_currentHeight :: BlockHeight
  bt_latch :: nat
  bt_closed :: "nat list"

datatype trackerError = OutsideGraceRange | AbortedWhileWaiting

datatype wait_event = CtxDone | Tracker BlockTracker

definition NewBlockTracker :: "BlockHeight \<Rightarrow> 16 word \<Rightarrow> BlockTracker" where
  "NewBlockTracker startingHeight graceDist =
     \<lparr>bt_graceDistance = graceDist, bt_currentHeight = startingHeight, bt_latch = 0, bt_closed = []\<rparr>"

definition IncrementTo :: "BlockTracker \<Rightarrow> BlockHeight \<Rightarrow> (unit, BlockTracker) result" where
  "IncrementTo t height =
     (if height \<noteq> bt_currentHeight t + 1 then Panic
      else Ok (t\<lparr>bt_currentHeight := bt_currentHeight t + 1, bt_latch := Suc (bt_latch t),
                 bt_closed := bt_latch t # bt_closed t\<rparr>))"

definition readAtomicHeightAndLatch :: "BlockTracker \<Rightarrow> BlockHeight \<times> nat" where
  "readAtomicHeightAndLatch t = (bt_currentHeight t, bt_latch t)"

text \<open>The waiting loop; \<open>None\<close> when the events run out and the call still waits.\<close>

fun waitLoop :: "BlockHeight \<Rightarrow> BlockHeight \<times> nat \<Rightarrow> wait_event list \<Rightarrow> (trackerError, unit) result option" where
  "waitLoop requested (currentHeight, currentLatch) [] =
     (if currentHeight < requested then None else Some (Ok ()))"
| "waitLoop requested (currentHeight, currentLatch) (e # es) =
     (if currentHeight < requested
      then (case e of
              CtxDone \<Rightarrow> Some (Err AbortedWhileWaiting)
            | Tracker t \<Rightarrow>
                if currentLatch \<in> set (bt_closed t) then waitLoop requested (readAtomicHeightAndLatch t) es
                else waitLoop requested (currentHeight, currentLatch) es)
      else Some (Ok ()))"

definition WaitForBlock :: "BlockTracker \<Rightarrow> wait_event list \<Rightarrow> BlockHeight \<Rightarrow> (trackerError, unit) result option" where
  "WaitForBlock t es requestedHeight =
     (let (currentHeight, currentLatch) = readAtomicHeightAndLatch t in
      if currentHeight \<ge> requestedHeight then Some (Ok ())
      else if currentHeight + ucast (bt_graceDistance t) < requestedHeight then Some (Err OutsideGraceRange)
      else waitLoop requestedHeight (currentHeight, currentLatch) es)"

subsection \<open>Increments wake every waiting call\<close>

text \<open>The states that a run of increments goes through.\<close>

fun increments :: "BlockTracker \<Rightarrow> nat \<Rightarrow> BlockTracker list" where
  "increments t 0 = []"
| "increments t (Suc n) =
     (case IncrementTo t (bt_currentHeight t + 1) of Ok t' \<Rightarrow> t' # increments t' n | _ \<Rightarrow> [])"

lemma waitLoop_done: "requested \<le> h \<Longrightarrow> waitLoop requested (h, l) es = Some (Ok ())"
  by (cases es) auto

lemma waitLoop_increments:
  assumes "unat (bt_currentHeight t) + n < 2 ^ 64"
  shows "waitLoop requested (readAtomicHeightAndLatch t) (map Tracker (increments t n)) =
    (if unat requested \<le> unat (bt_currentHeight t) + n then Some (Ok ()) else None)"
  using assms
proof (induction n arbitrary: t)
  case 0
  then show ?case by (auto simp: readAtomicHeightAndLatch_def word_less_nat_alt)
next
  case (Suc n)
  let ?h = "bt_currentHeight t"
  have succ: "unat (?h + 1) = unat ?h + 1"
    using Suc.prems by (simp add: unat_word_ariths)
  show ?case
  proof (cases "?h < requested")
    case True
    let ?t = "t\<lparr>bt_currentHeight := ?h + 1, bt_latch := Suc (bt_latch t), bt_closed := bt_latch t # bt_closed t\<rparr>"
    show ?thesis
      using True Suc.IH[of ?t] Suc.prems succ by (simp add: IncrementTo_def readAtomicHeightAndLatch_def)
  next
    case False
    then show ?thesis
      by (simp add: readAtomicHeightAndLatch_def waitLoop_done not_less word_le_nat_alt)
  qed
qed

lemma waitLoop_sound:
  assumes "waitLoop requested (h, l) es = Some (Ok ())"
  shows "requested \<le> h \<or> (\<exists>t. Tracker t \<in> set es \<and> requested \<le> bt_currentHeight t)"
  using assms
proof (induction requested "(h, l)" es arbitrary: h l rule: waitLoop.induct)
  case (2 requested h l e es)
  then show ?case by (fastforce simp: readAtomicHeightAndLatch_def split: if_splits wait_event.splits)
qed (auto split: if_splits)

text \<open>
  C8. A call that waits for a block within the grace distance is woken by every increment of the
  tracker: it returns without error as soon as the requested block has arrived, and waits as long
  as it has not. No wake-up is lost between reading the height and waiting on the latch.
\<close>

theorem WaitForBlock_returns_when_block_arrives:
  assumes "unat (bt_currentHeight t) + unat (bt_graceDistance t) < 2 ^ 64"
    and "unat requested \<le> unat (bt_currentHeight t) + unat (bt_graceDistance t)"
    and "unat (bt_currentHeight t) + n < 2 ^ 64"
  shows "WaitForBlock t (map Tracker (increments t n)) requested =
    (if unat requested \<le> unat (bt_currentHeight t) + n then Some (Ok ()) else None)"
proof -
  have "unat (bt_currentHeight t + ucast (bt_graceDistance t)) = unat (bt_currentHeight t) + unat (bt_graceDistance t)"
    using assms(1) by (simp add: unat_word_ariths unat_ucast_up)
  then have "\<not> bt_currentHeight t + ucast (bt_graceDistance t) < requested"
    using assms(2) by (simp add: word_less_nat_alt)
  then show ?thesis
    using waitLoop_increments[OF assms(3), of requested]
    by (auto simp: WaitForBlock_def readAtomicHeightAndLatch_def word_le_nat_alt)
qed

theorem WaitForBlock_returns_when_block_arrives_witness:
  "WaitForBlock (NewBlockTracker 3 5) (map Tracker (increments (NewBlockTracker 3 5) 2)) 5 = Some (Ok ()) \<and>
   WaitForBlock (NewBlockTracker 3 5) (map Tracker (increments (NewBlockTracker 3 5) 1)) 5 = None"
  using WaitForBlock_returns_when_block_arrives[of "NewBlockTracker 3 5" 5 2]
    WaitForBlock_returns_when_block_arrives[of "NewBlockTracker 3 5" 5 1]
  by (simp add: NewBlockTracker_def)

lemma WaitForBlock_sound:
  assumes "WaitForBlock t es requested = Some (Ok ())"
  shows "requested \<le> bt_currentHeight t \<or> (\<exists>t'. Tracker t' \<in> set es \<and> requested \<le> bt_currentHeight t')"
  using assms waitLoop_sound[of requested "bt_currentHeight t" "bt_latch t" es]
  by (auto simp: WaitForBlock_def readAtomicHeightAndLatch_def split: if_splits)

lemma IncrementTo_height: "IncrementTo t h = Ok t' \<Longrightarrow> bt_currentHeight t' = h \<and> bt_graceDistance t' = bt_graceDistance t"
  by (auto simp: IncrementTo_def split: if_splits)

end
