(* ===== verification/Protocol.thy ===== *)
theory Protocol
  imports Prelude
begin

text \<open>
  The messages of the protocol package (\<open>orbs-spec\<close>) that the services exchange, as records of the
  fields the code reads. Their byte encoding, \<open>Raw()\<close>, is generated code outside the repository:
  the definitions that hash or measure encoded messages take it as a parameter of type \<open>Wire\<close>.
  Two messages are \<open>Equal\<close> when their encodings are.
\<close>

type_synonym ContractName = bytes
type_synonym MethodName = bytes
type_synonym VirtualChainId = "32 word"
type_synonym ProtocolVersion = "32 word"

datatype TransactionStatus =
    STATUS_RESERVED
  | STATUS_COMMITTED
  | STATUS_DUPLICATE_TRANSACTION_ALREADY_COMMITTED
  | STATUS_DUPLICATE_TRANSACTION_ALREADY_PENDING
  | STATUS_NO_RECORD_FOUND
  | STATUS_PENDING
  | STATUS_PRE_ORDER_VALID
  | STATUS_REJECTED_CONGESTION
  | STATUS_REJECTED_GLOBAL_PRE_ORDER
  | STATUS_REJECTED_NODE_OUT_OF_SYNC
  | STATUS_REJECTED_SIGNATURE_MISMATCH
  | STATUS_REJECTED_SMART_CONTRACT_PRE_ORDER
  | STATUS_REJECTED_TIMESTAMP_AHEAD_OF_NODE_TIME
  | STATUS_REJECTED_TIMESTAMP_WINDOW_EXCEEDED
  | STATUS_REJECTED_UNKNOWN_SIGNER_SCHEME
  | STATUS_REJECTED_UNSUPPORTED_VERSION
  | STATUS_REJECTED_VIRTUAL_CHAIN_MISMATCH

datatype ExecutionResult =
    EXECUTION_RESULT_RESERVED
  | EXECUTION_RESULT_SUCCESS
  | EXECUTION_RESULT_ERROR_SMART_CONTRACT
  | EXECUTION_RESULT_ERROR_INPUT
  | EXECUTION_RESULT_ERROR_CONTRACT_NOT_DEPLOYED
  | EXECUTION_RESULT_ERROR_UNEXPECTED

datatype Signer = NoSigner | EddsaSigner (eddsa_publicKey: bytes) | OtherSigner bytes

record Transaction =
  tx_protocolVersion :: ProtocolVersion
  tx_virtualChainId :: VirtualChainId
  tx_timestamp :: TimestampNano
  tx_signer :: Signer
  tx_contractName :: ContractName
  tx_methodName :: MethodName
  tx_inputArgumentArray :: bytes

record SignedTransaction =
  stx_transaction :: Transaction
  stx_signature :: bytes

record TransactionReceipt =
  rcpt_txhash :: Sha256
  rcpt_executionResult :: ExecutionResult
  rcpt_outputArgumentArray :: bytes
  rcpt_outputEventsArray :: bytes

record ContractStateDiff =
  csd_contractName :: ContractName
  csd_stateDiffs :: "(bytes \<times> bytes) list"

record TransactionsBlockHeader =
  tbh_protocolVersion :: ProtocolVersion
  tbh_virtualChainId :: VirtualChainId
  tbh_blockHeight :: BlockHeight
  tbh_prevBlockHashPtr :: Sha256
  tbh_timestamp :: TimestampNano
  tbh_transactionsMerkleRootHash :: Sha256
  tbh_metadataHash :: Sha256
  tbh_numSignedTransactions :: "32 word"
  tbh_blockProposerAddress :: NodeAddress

record ResultsBlockHeader =
  rbh_protocolVersion :: ProtocolVersion
  rbh_virtualChainId :: VirtualChainId
  rbh_blockHeight :: BlockHeight
  rbh_prevBlockHashPtr :: Sha256
  rbh_timestamp :: TimestampNano
  rbh_receiptsMerkleRootHash :: Sha256
  rbh_stateDiffHash :: Sha256
  rbh_transactionsBlockHashPtr :: Sha256
  rbh_preExecutionStateMerkleRootHash :: Sha256
  rbh_numTransactionReceipts :: "32 word"
  rbh_numContractStateDiffs :: "32 word"
  rbh_blockProposerAddress :: NodeAddress

text \<open>A metadata message and a block proof are their encodings.\<close>

record TransactionsBlockContainer =
  tbc_header :: "TransactionsBlockHeader option"
  tbc_metadata :: bytes
  tbc_signedTransactions :: "SignedTransaction list"
  tbc_blockProof :: bytes

record ResultsBlockContainer =
  rbc_header :: "ResultsBlockHeader option"
  rbc_transactionReceipts :: "TransactionReceipt list"
  rbc_contractStateDiffs :: "ContractStateDiff list"
  rbc_blockProof :: bytes

record BlockPairContainer =
  bp_transactionsBlock :: "TransactionsBlockContainer option"
  bp_resultsBlock :: "ResultsBlockContainer option"

record Wire =
  raw_transaction :: "Transaction \<Rightarrow> bytes"
  raw_signedTransaction :: "SignedTransaction \<Rightarrow> bytes"
  raw_receipt :: "TransactionReceipt \<Rightarrow> bytes"
  raw_contractStateDiff :: "ContractStateDiff \<Rightarrow> bytes"
  raw_transactionsBlockHeader :: "TransactionsBlockHeader \<Rightarrow> bytes"
  raw_resultsBlockHeader :: "ResultsBlockHeader \<Rightarrow> bytes"

subsection \<open>A concrete encoding\<close>

text \<open>A small stand-in for the encoding, for the concrete instances of the theorems.\<close>

definition demo_wire :: Wire where
  "demo_wire =
     \<lparr>raw_transaction = (\<lambda>t. ucast (tx_timestamp t) # tx_contractName t @ tx_methodName t),
      raw_signedTransaction = (\<lambda>s. ucast (tx_timestamp (stx_transaction s)) # tx_contractName (stx_transaction s) @ stx_signature s),
      raw_receipt = rcpt_txhash,
      raw_contractStateDiff = csd_contractName,
      raw_transactionsBlockHeader = (\<lambda>h. ucast (tbh_blockHeight h) # tbh_prevBlockHashPtr h),
      raw_resultsBlockHeader = (\<lambda>h. ucast (rbh_blockHeight h) # rbh_prevBlockHashPtr h)\<rparr>"

end
