(* ===== verification/State_Storage.thy ===== *)
theory State_Storage
  imports Forest_Correct Block_Tracker Protocol "HOL-Library.AList"
begin

text \<open>
  The state storage service: \<open>services/statestorage/service.go\<close>, its rolling revisions
  (\<open>rolling_revisions.go\<close>) and the in-memory persistence
  (\<open>adapter/memory/memory_persistence.go\<close>).

  Go strings (contract names and keys) are byte lists. A Go map is an association list with
  distinct keys, updated with \<open>AList.update\<close> and \<open>AList.delete\<close>; the order of the list is the
  order in which a \<open>range\<close> loop visits the map, which Go leaves open. The two interfaces the
  rolling revisions call, \<open>adapter.StatePersistence\<close> and \<open>merkleRevisions\<close>, are records of
  operations on a state of any type. Logging, metrics other than the persistence gauges, and the
  mutexes (each operation runs under its lock, as one step) are left out.
\<close>

subsection \<open>Chain states\<close>

type_synonym ContractState = "(bytes \<times> bytes) list"
type_synonym ChainState = "(ContractName \<times> ContractState) list"

datatype storageError =
    PersistenceError
  | FailedToUpdateMerkleTree
  | HeightTooNew
  | HeightTooOld
  | NoMerkleHash
  | MissingContractName
  | NotYetCommitted
  | TooOld
  | NoValueFound
  | CouldNotLoadMetadata

definition isZeroValue :: "bytes \<Rightarrow> bool" where
  "isZeroValue v \<longleftrightarrow> v = []"

definition newZeroValue :: bytes where
  "newZeroValue = []"

text \<open>The two-step lookup \<open>state[contract][key]\<close>; a missing contract reads as a nil map.\<close>

definition cs_get :: "ChainState \<Rightarrow> ContractName \<Rightarrow> bytes \<Rightarrow> bytes option" where
  "cs_get s c k = (case map_of s c of None \<Rightarrow> None | Some m \<Rightarrow> map_of m k)"

subsection \<open>The interfaces\<close>

record 'p StatePersistence =
  sp_Write :: "'p \<Rightarrow> BlockHeight \<Rightarrow> TimestampNano \<Rightarrow> NodeAddress \<Rightarrow> Sha256 \<Rightarrow> ChainState
    \<Rightarrow> 'p \<times> (storageError, unit) result"
  sp_Read :: "'p \<Rightarrow> ContractName \<Rightarrow> bytes \<Rightarrow> (storageError, bytes \<times> bool) result"
  sp_ReadMetadata :: "'p \<Rightarrow> (storageError, BlockHeight \<times> TimestampNano \<times> NodeAddress \<times> Sha256) result"

record 'm merkleRevisions =
  mr_Update :: "'m \<Rightarrow> Sha256 \<Rightarrow> TrieDiff list \<Rightarrow> 'm \<times> (forestError, Sha256) result"
  mr_Forget :: "'m \<Rightarrow> Sha256 \<Rightarrow> (unit, 'm) result"

subsection \<open>Rolling revisions\<close>

record revisionDiff =
  rd_diff :: ChainState
  rd_merkleRoot :: Sha256
  rd_height :: BlockHeight
  rd_ts :: TimestampNano
  rd_proposer :: NodeAddress

record ('p, 'm) rollingRevisions =
  persist :: 'p
  transientRevisions :: int
  revisions :: "revisionDiff list"
  merkle :: 'm
  currentHeight :: BlockHeight
  currentTs :: TimestampNano
  currentMerkleRoot :: Sha256
  currentProposer :: NodeAddress
  persistedHeight :: BlockHeight
  persistedRoot :: Sha256
  persistedTs :: TimestampNano
  persistedProposer :: NodeAddress

definition newRollingRevisions ::
  "'p StatePersistence \<Rightarrow> 'p \<Rightarrow> int \<Rightarrow> 'm \<Rightarrow> (storageError, ('p, 'm) rollingRevisions) result" where
  "newRollingRevisions ps p transient m =
     (case sp_ReadMetadata ps p of
        Ok (h, ts, pa, r) \<Rightarrow>
          Ok \<lparr>persist = p, transientRevisions = transient, revisions = [], merkle = m,
              currentHeight = h, currentTs = ts, currentMerkleRoot = r, currentProposer = pa,
              persistedHeight = h, persistedRoot = r, persistedTs = ts, persistedProposer = pa\<rparr>
      | _ \<Rightarrow> Panic)"

definition toMerkleInput :: "hasher \<Rightarrow> ChainState \<Rightarrow> TrieDiff list" where
  "toMerkleInput sha diff =
     concat (map (\<lambda>(contractName, contractState).
       map (\<lambda>(key, value). TrieDiff (CalcSha256 sha [contractName, key]) (CalcSha256 sha [value]))
         contractState) diff)"

text \<open>
  \<open>evictRevisions\<close> returns the revisions as it leaves them also when it fails: a failed write
  ends the loop with the earlier evictions done. Reading \<open>revisions[0]\<close> of an empty slice, possible
  only with a negative capacity, panics.
\<close>

function evictRevisions :: "'p StatePersistence \<Rightarrow> 'm merkleRevisions \<Rightarrow> ('p, 'm) rollingRevisions
    \<Rightarrow> ('p, 'm) rollingRevisions \<times> (storageError, unit) result" where
  "evictRevisions ps mr ls =
     (if int (length (revisions ls)) > transientRevisions ls
      then (case revisions ls of
              [] \<Rightarrow> (ls, Panic)
            | d # rest \<Rightarrow>
                (case sp_Write ps (persist ls) (rd_height d) (rd_ts d) (rd_proposer d) (rd_merkleRoot d) (rd_diff d) of
                   (p, Ok _) \<Rightarrow>
                     (case mr_Forget mr (merkle ls) (persistedRoot ls) of
                        Ok m \<Rightarrow>
                          evictRevisions ps mr
                            (ls\<lparr>persist := p, merkle := m, persistedHeight := rd_height d, persistedTs := rd_ts d,
                                persistedProposer := rd_proposer d, persistedRoot := rd_merkleRoot d,
                                revisions := rest\<rparr>)
                      | _ \<Rightarrow> (ls\<lparr>persist := p\<rparr>, Panic))
                 | (p, Err e) \<Rightarrow> (ls\<lparr>persist := p\<rparr>, Err e)
                 | (p, Panic) \<Rightarrow> (ls\<lparr>persist := p\<rparr>, Panic)))
      else (ls, Ok ()))"
  by pat_completeness auto
termination by (relation "measure (\<lambda>(ps, mr, ls). length (revisions ls))") auto

declare evictRevisions.simps [simp del]

definition addRevision :: "hasher \<Rightarrow> 'p StatePersistence \<Rightarrow> 'm merkleRevisions \<Rightarrow> ('p, 'm) rollingRevisions
    \<Rightarrow> BlockHeight \<Rightarrow> TimestampNano \<Rightarrow> NodeAddress \<Rightarrow> ChainState
    \<Rightarrow> ('p, 'm) rollingRevisions \<times> (storageError, unit) result" where
  "addRevision sha ps mr ls height ts proposer diff =
     (case mr_Update mr (merkle ls) (currentMerkleRoot ls) (toMerkleInput sha diff) of
        (m, Ok newRoot) \<Rightarrow>
          evictRevisions ps mr
            (ls\<lparr>merkle := m,
                revisions := revisions ls @ [\<lparr>rd_diff = diff, rd_merkleRoot = newRoot, rd_height = height,
                                             rd_ts = ts, rd_proposer = proposer\<rparr>],
                currentHeight := height, currentTs := ts, currentMerkleRoot := newRoot\<rparr>)
      | (m, Err e) \<Rightarrow> (ls\<lparr>merkle := m\<rparr>, Err FailedToUpdateMerkleTree)
      | (m, Panic) \<Rightarrow> (ls\<lparr>merkle := m\<rparr>, Panic))"

text \<open>The scan from the newest revision to the oldest.\<close>

fun scanRevisions :: "revisionDiff list \<Rightarrow> BlockHeight \<Rightarrow> ContractName \<Rightarrow> bytes \<Rightarrow> bytes option" where
  "scanRevisions [] height contract key = None"
| "scanRevisions (r # older) height contract key =
     (if rd_height r > height then scanRevisions older height contract key
      else case cs_get (rd_diff r) contract key of
             Some record \<Rightarrow> Some record
           | None \<Rightarrow> scanRevisions older height contract key)"

definition getRevisionRecord :: "'p StatePersistence \<Rightarrow> ('p, 'm) rollingRevisions \<Rightarrow> BlockHeight \<Rightarrow> ContractName
    \<Rightarrow> bytes \<Rightarrow> (storageError, bytes \<times> bool) result" where
  "getRevisionRecord ps ls height contract key =
     (if currentHeight ls < height then Err HeightTooNew
      else case scanRevisions (rev (revisions ls)) height contract key of
             Some record \<Rightarrow> Ok (record, \<not> isZeroValue record)
           | None \<Rightarrow>
               if persistedHeight ls > height then Err HeightTooOld
               else sp_Read ps (persist ls) contract key)"

definition getRevisionHash :: "('p, 'm) rollingRevisions \<Rightarrow> BlockHeight \<Rightarrow> (storageError, Sha256) result" where
  "getRevisionHash ls height =
     (case find (\<lambda>r. rd_height r = height) (rev (revisions ls)) of
        Some r \<Rightarrow> Ok (rd_merkleRoot r)
      | None \<Rightarrow> if height \<noteq> persistedHeight ls then Err NoMerkleHash else Ok (persistedRoot ls))"

subsection \<open>The in-memory persistence\<close>

record InMemoryStatePersistence =
  sp_numberOfKeys :: int
  sp_numberOfContracts :: int
  fullState :: ChainState
  sp_height :: BlockHeight
  sp_ts :: TimestampNano
  sp_proposer :: NodeAddress
  sp_merkleRoot :: Sha256

definition NewStatePersistence :: "hasher \<Rightarrow> InMemoryStatePersistence" where
  "NewStatePersistence sha =
     \<lparr>sp_numberOfKeys = 0, sp_numberOfContracts = 0, fullState = [], sp_height = 0, sp_ts = 0,
      sp_proposer = [], sp_merkleRoot = snd (NewForest sha)\<rparr>"

definition reportSize :: "InMemoryStatePersistence \<Rightarrow> InMemoryStatePersistence" where
  "reportSize sp =
     sp\<lparr>sp_numberOfKeys := sum_list (map (\<lambda>(c, records). int (length records)) (fullState sp)),
        sp_numberOfContracts := int (length (fullState sp))\<rparr>"

definition writeOneRecord :: "ContractName \<Rightarrow> bytes \<Rightarrow> bytes \<Rightarrow> ChainState \<Rightarrow> ChainState" where
  "writeOneRecord c key value st =
     (let st1 = (case map_of st c of None \<Rightarrow> AList.update c [] st | Some _ \<Rightarrow> st);
          records = the (map_of st1 c)
      in if isZeroValue value then AList.update c (AList.delete key records) st1
         else AList.update c (AList.update key value records) st1)"

definition Write :: "InMemoryStatePersistence \<Rightarrow> BlockHeight \<Rightarrow> TimestampNano \<Rightarrow> NodeAddress \<Rightarrow> Sha256 \<Rightarrow> ChainState
    \<Rightarrow> InMemoryStatePersistence \<times> (storageError, unit) result" where
  "Write sp height ts proposer root diff =
     (let sp1 = sp\<lparr>sp_height := height, sp_proposer := proposer, sp_merkleRoot := root\<rparr>;
          st = fold (\<lambda>(contract, records). fold (\<lambda>(key, value). writeOneRecord contract key value) records)
                 diff (fullState sp1)
      in (reportSize (sp1\<lparr>fullState := st\<rparr>), Ok ()))"

definition Read :: "InMemoryStatePersistence \<Rightarrow> ContractName \<Rightarrow> bytes \<Rightarrow> (storageError, bytes \<times> bool) result" where
  "Read sp contract key =
     Ok (case cs_get (fullState sp) contract key of Some record \<Rightarrow> (record, True) | None \<Rightarrow> ([], False))"

definition ReadMetadata :: "InMemoryStatePersistence
    \<Rightarrow> (storageError, BlockHeight \<times> TimestampNano \<times> NodeAddress \<times> Sha256) result" where
  "ReadMetadata sp = Ok (sp_height sp, sp_ts sp, sp_proposer sp, sp_merkleRoot sp)"

text \<open>The interface values that \<open>NewStateStorage\<close> puts together: this persistence and a forest.\<close>

definition inMemory :: "InMemoryStatePersistence StatePersistence" where
  "inMemory = \<lparr>sp_Write = Write, sp_Read = Read, sp_ReadMetadata = ReadMetadata\<rparr>"

definition forestRevisions :: "hasher \<Rightarrow> Forest merkleRevisions" where
  "forestRevisions sha = \<lparr>mr_Update = Update sha, mr_Forget = Forget\<rparr>"

subsection \<open>The service\<close>

record 'p StateStorage =
  ss_snapshotNum :: "32 word"
  ss_blockTracker :: BlockTracker
  ss_reported :: "BlockHeight list"
  ss_revisions :: "('p, Forest) rollingRevisions"

definition NewStateStorage :: "hasher \<Rightarrow> 'p StatePersistence \<Rightarrow> 32 word \<Rightarrow> 32 word \<Rightarrow> 'p
    \<Rightarrow> (storageError, 'p StateStorage) result" where
  "NewStateStorage sha ps snapshotNum graceDistance p =
     (let (forest, _) = NewForest sha in
      bind_result (newRollingRevisions ps p (int (unat snapshotNum)) forest)
        (\<lambda>rs. Ok \<lparr>ss_snapshotNum = snapshotNum, ss_blockTracker = NewBlockTracker 0 (ucast graceDistance),
                    ss_reported = [], ss_revisions = rs\<rparr>))"

definition inflateChainState :: "ContractStateDiff list \<Rightarrow> ChainState" where
  "inflateChainState csd =
     fold (\<lambda>stateDiffs result.
       let contract = csd_contractName stateDiffs;
           contractMap = (case map_of result contract of None \<Rightarrow> [] | Some m \<Rightarrow> m)
       in AList.update contract
            (fold (\<lambda>(key, value) m. AList.update key value m) (csd_stateDiffs stateDiffs) contractMap) result)
     csd []"

record CommitStateDiffInput =
  csdi_resultsBlockHeader :: "ResultsBlockHeader option"
  csdi_contractStateDiffs :: "ContractStateDiff list option"

text \<open>
  \<open>CommitStateDiff\<close> returns the next desired height. \<open>ss_reported\<close> lists the calls it makes on
  the height reporter.
\<close>

definition CommitStateDiff :: "hasher \<Rightarrow> 'p StatePersistence \<Rightarrow> 'p StateStorage \<Rightarrow> CommitStateDiffInput
    \<Rightarrow> 'p StateStorage \<times> (storageError, BlockHeight) result" where
  "CommitStateDiff sha ps s input =
     (case (csdi_resultsBlockHeader input, csdi_contractStateDiffs input) of
        (Some header, Some diffs) \<Rightarrow>
          let commitBlockHeight = rbh_blockHeight header;
              currentHeight0 = currentHeight (ss_revisions s)
          in if currentHeight0 + 1 \<noteq> commitBlockHeight then (s, Ok (currentHeight0 + 1))
             else (case addRevision sha ps (forestRevisions sha) (ss_revisions s) commitBlockHeight
                          (rbh_timestamp header) (rbh_blockProposerAddress header) (inflateChainState diffs) of
                     (rs, Ok _) \<Rightarrow>
                       (case IncrementTo (ss_blockTracker s) commitBlockHeight of
                          Ok bt \<Rightarrow> (s\<lparr>ss_revisions := rs, ss_blockTracker := bt,
                                      ss_reported := ss_reported s @ [commitBlockHeight]\<rparr>,
                                    Ok (commitBlockHeight + 1))
                        | _ \<Rightarrow> (s\<lparr>ss_revisions := rs\<rparr>, Panic))
                   | (rs, Err e) \<Rightarrow> (s\<lparr>ss_revisions := rs\<rparr>, Err e)
                   | (rs, Panic) \<Rightarrow> (s\<lparr>ss_revisions := rs\<rparr>, Panic))
      | _ \<Rightarrow> (s, Panic))"

text \<open>
  \<open>ReadKeys\<close> and \<open>GetStateHash\<close> first wait for the block. \<open>s\<close> is the service when the call
  starts, \<open>es\<close> the events during the wait, and \<open>s'\<close> the service when the call goes on after it.
\<close>

fun readRecords :: "'p StatePersistence \<Rightarrow> ('p, 'm) rollingRevisions \<Rightarrow> BlockHeight \<Rightarrow> ContractName \<Rightarrow> bytes list
    \<Rightarrow> (storageError, (bytes \<times> bytes) list) result" where
  "readRecords ps ls height contract [] = Ok []"
| "readRecords ps ls height contract (key # keys) =
     (case getRevisionRecord ps ls height contract key of
        Ok (record, ok) \<Rightarrow>
          bind_result (readRecords ps ls height contract keys)
            (\<lambda>records. Ok ((key, if ok then record else newZeroValue) # records))
      | Err e \<Rightarrow> Err PersistenceError
      | Panic \<Rightarrow> Panic)"

definition ReadKeys :: "'p StatePersistence \<Rightarrow> 'p StateStorage \<Rightarrow> wait_event list \<Rightarrow> 'p StateStorage \<Rightarrow> BlockHeight
    \<Rightarrow> ContractName \<Rightarrow> bytes list \<Rightarrow> (storageError, (bytes \<times> bytes) list) result option" where
  "ReadKeys ps s es s' height contract keys =
     (if contract = [] then Some (Err MissingContractName)
      else case WaitForBlock (ss_blockTracker s) es height of
             None \<Rightarrow> None
           | Some (Ok _) \<Rightarrow>
               if height + ucast (ss_snapshotNum s') \<le> currentHeight (ss_revisions s') then Some (Err TooOld)
               else Some (bind_result (readRecords ps (ss_revisions s') height contract keys)
                            (\<lambda>records. if records = [] then Err NoValueFound else Ok records))
           | Some _ \<Rightarrow> Some (Err NotYetCommitted))"

definition GetLastCommittedBlockInfo :: "'p StateStorage \<Rightarrow> BlockHeight \<times> TimestampNano \<times> NodeAddress" where
  "GetLastCommittedBlockInfo s =
     (currentHeight (ss_revisions s), currentTs (ss_revisions s), currentProposer (ss_revisions s))"

definition GetStateHash :: "'p StateStorage \<Rightarrow> wait_event list \<Rightarrow> 'p StateStorage \<Rightarrow> BlockHeight
    \<Rightarrow> (storageError, Sha256) result option" where
  "GetStateHash s es s' height =
     (case WaitForBlock (ss_blockTracker s) es height of
        None \<Rightarrow> None
      | Some (Ok _) \<Rightarrow>
          if height + ucast (ss_snapshotNum s') \<le> currentHeight (ss_revisions s') then Some (Err TooOld)
          else Some (getRevisionHash (ss_revisions s') height)
      | Some _ \<Rightarrow> Some (Err NotYetCommitted))"

end
