(* ===== verification/Rolling_Revisions.thy ===== *)
theory Rolling_Revisions
  imports State_Storage
begin

text \<open>
  The rolling revisions keep a history. The two interfaces they call are locales: what a
  persistence and a forest of Merkle revisions promise. Under these contracts, adding revisions
  never fails, and the service's state is described by the list of all diffs committed so far.
\<close>

subsection \<open>The state after a list of diffs\<close>

definition state_apply :: "ChainState \<Rightarrow> (ContractName \<Rightarrow> bytes \<Rightarrow> bytes) \<Rightarrow> ContractName \<Rightarrow> bytes \<Rightarrow> bytes" where
  "state_apply d s c k = (case cs_get d c k of Some v \<Rightarrow> v | None \<Rightarrow> s c k)"

definition state_of :: "ChainState list \<Rightarrow> ContractName \<Rightarrow> bytes \<Rightarrow> bytes" where
  "state_of ds = fold state_apply ds (\<lambda>_ _. [])"

definition merkle_of :: "hasher \<Rightarrow> ChainState list \<Rightarrow> bytes \<Rightarrow> Sha256" where
  "merkle_of sha ds = fold (\<lambda>d. apply_diffs (toMerkleInput sha d)) ds (\<lambda>_. GetZeroValueHash sha)"

text \<open>The association lists that stand for Go maps have distinct keys.\<close>

definition wf_chain :: "ChainState \<Rightarrow> bool" where
  "wf_chain s \<longleftrightarrow> distinct (map fst s) \<and> (\<forall>(c, m) \<in> set s. distinct (map fst m))"

lemma state_of_snoc: "state_of (ds @ [d]) = state_apply d (state_of ds)"
  by (simp add: state_of_def)

lemma merkle_of_snoc: "merkle_of sha (ds @ [d]) = apply_diffs (toMerkleInput sha d) (merkle_of sha ds)"
  by (simp add: merkle_of_def)

lemma state_of_append: "state_of (ds @ es) = fold state_apply es (state_of ds)"
  by (simp add: state_of_def)

text \<open>Scanning revisions of consecutive heights finds the last write up to the height.\<close>

lemma scanRevisions_state:
  assumes "map rd_height rs = map of_nat [Suc k..<Suc (k + length rs)]" and "k + length rs < 2 ^ 64"
    and "k \<le> h" and "h < 2 ^ 64"
  shows "(case scanRevisions (rev rs) (of_nat h) c key of Some v \<Rightarrow> v | None \<Rightarrow> s c key)
    = fold state_apply (map rd_diff (take (h - k) rs)) s c key"
  using assms
proof (induction rs rule: rev_induct)
  case (snoc r rs)
  have ht: "rd_height r = of_nat (Suc (k + length rs))" and hts: "map rd_height rs = map of_nat [Suc k..<Suc (k + length rs)]"
    using snoc.prems(1) by (auto simp: upt_Suc split: if_splits)
  have gt: "rd_height r > of_nat h \<longleftrightarrow> h < Suc (k + length rs)"
    using snoc.prems ht by (simp add: word_less_nat_alt unat_of_nat_small del: of_nat_Suc)
  note IH = snoc.IH[OF hts _ snoc.prems(3,4)]
  show ?case
  proof (cases "h < Suc (k + length rs)")
    case True
    then have "take (h - k) (rs @ [r]) = take (h - k) rs" by simp
    then show ?thesis using IH snoc.prems(2) True gt by simp
  next
    case False
    then have "take (h - k) (rs @ [r]) = take (h - k) rs @ [r]" by simp
    then show ?thesis using IH snoc.prems(2) False gt by (auto simp: state_apply_def split: option.splits)
  qed
qed simp

lemma find_height:
  assumes "map rd_height rs = map of_nat [Suc k..<Suc (k + length rs)]" and "k + length rs < 2 ^ 64" and "h < 2 ^ 64"
  shows "find (\<lambda>r. rd_height r = of_nat h) (rev rs) =
    (if k < h \<and> h \<le> k + length rs then Some (rs ! (h - Suc k)) else None)"
  using assms(1,2)
proof (induction rs rule: rev_induct)
  case (snoc r rs)
  have ht: "rd_height r = of_nat (Suc (k + length rs))" and hts: "map rd_height rs = map of_nat [Suc k..<Suc (k + length rs)]"
    using snoc.prems(1) by (auto simp: upt_Suc split: if_splits)
  have eq: "rd_height r = of_nat h \<longleftrightarrow> h = Suc (k + length rs)"
    using snoc.prems(2) assms(3) ht of_nat_eq_iff_small[where 'a = 64, of "Suc (k + length rs)" h] by auto
  then show ?case using snoc.IH[OF hts] snoc.prems(2) by (auto simp: nth_append)
qed simp

subsection \<open>The contracts of the two interfaces\<close>

locale state_persistence =
  fixes ps :: "'p StatePersistence"
    and stored :: "'p \<Rightarrow> ContractName \<Rightarrow> bytes \<Rightarrow> bytes"
  assumes write_ok: "wf_chain diff \<Longrightarrow>
      \<exists>p'. sp_Write ps p h ts pa r diff = (p', Ok ()) \<and> stored p' = state_apply diff (stored p)"
    and read_ok: "\<exists>v ok. sp_Read ps p c k = Ok (v, ok) \<and> (if ok then v else []) = stored p c k"

locale merkle_revisions =
  fixes mr :: "'m merkleRevisions"
    and retained :: "'m \<Rightarrow> Sha256 multiset"
    and content :: "'m \<Rightarrow> Sha256 \<Rightarrow> bytes \<Rightarrow> Sha256"
    and minv :: "'m \<Rightarrow> bool"
    and is_root :: "(bytes \<Rightarrow> Sha256) \<Rightarrow> Sha256 \<Rightarrow> bool"
  assumes update_ok: "minv m \<Longrightarrow> h \<in># retained m \<Longrightarrow>
      \<exists>m' h'. mr_Update mr m h diffs = (m', Ok h') \<and> minv m' \<and> retained m' = add_mset h' (retained m) \<and>
        content m' h' = apply_diffs diffs (content m h) \<and> is_root (content m' h') h'"
    and forget_ok: "minv m \<Longrightarrow> h \<in># retained m \<Longrightarrow>
      \<exists>m'. mr_Forget mr m h = Ok m' \<and> minv m' \<and> retained m' = retained m - {#h#} \<and>
        (\<forall>g \<in># retained m'. content m' g = content m g)"

subsection \<open>The invariant\<close>

text \<open>
  \<open>ds\<close> lists the diffs of all blocks, block \<open>i\<close> at position \<open>i - 1\<close>. The first
  \<open>length ds - length (revisions ls)\<close> of them are in the persistence, the others in the revisions.
  The forest retains exactly the persisted root and the roots of the revisions.
\<close>

definition all_roots :: "('p, 'm) rollingRevisions \<Rightarrow> Sha256 list" where
  "all_roots ls = persistedRoot ls # map rd_merkleRoot (revisions ls)"

definition heights_ok :: "('p, 'm) rollingRevisions \<Rightarrow> ChainState list \<Rightarrow> bool" where
  "heights_ok ls ds \<longleftrightarrow>
     length (revisions ls) \<le> length ds \<and> currentHeight ls = of_nat (length ds) \<and>
     persistedHeight ls = of_nat (length ds - length (revisions ls)) \<and>
     map rd_diff (revisions ls) = drop (length ds - length (revisions ls)) ds \<and>
     map rd_height (revisions ls) = map of_nat [Suc (length ds - length (revisions ls))..<Suc (length ds)] \<and>
     (int (length (revisions ls)) < transientRevisions ls \<longrightarrow> length (revisions ls) = length ds) \<and>
     list_all wf_chain ds"

definition roots_ok :: "hasher \<Rightarrow> ('m \<Rightarrow> Sha256 multiset) \<Rightarrow> ('m \<Rightarrow> Sha256 \<Rightarrow> bytes \<Rightarrow> Sha256) \<Rightarrow> ('m \<Rightarrow> bool)
    \<Rightarrow> ((bytes \<Rightarrow> Sha256) \<Rightarrow> Sha256 \<Rightarrow> bool) \<Rightarrow> ('p, 'm) rollingRevisions \<Rightarrow> ChainState list \<Rightarrow> bool" where
  "roots_ok sha retained content minv is_root ls ds \<longleftrightarrow>
     minv (merkle ls) \<and> retained (merkle ls) = mset (all_roots ls) \<and>
     currentMerkleRoot ls = last (all_roots ls) \<and>
     content (merkle ls) (currentMerkleRoot ls) = merkle_of sha ds \<and>
     (\<forall>i < length (all_roots ls).
        is_root (merkle_of sha (take (length ds - length (revisions ls) + i) ds)) (all_roots ls ! i))"

definition rr_inv :: "hasher \<Rightarrow> ('p \<Rightarrow> ContractName \<Rightarrow> bytes \<Rightarrow> bytes) \<Rightarrow> ('m \<Rightarrow> Sha256 multiset)
    \<Rightarrow> ('m \<Rightarrow> Sha256 \<Rightarrow> bytes \<Rightarrow> Sha256) \<Rightarrow> ('m \<Rightarrow> bool) \<Rightarrow> ((bytes \<Rightarrow> Sha256) \<Rightarrow> Sha256 \<Rightarrow> bool)
    \<Rightarrow> ('p, 'm) rollingRevisions \<Rightarrow> ChainState list \<Rightarrow> bool" where
  "rr_inv sha stored retained content minv is_root ls ds \<longleftrightarrow>
     heights_ok ls ds \<and> roots_ok sha retained content minv is_root ls ds \<and>
     stored (persist ls) = state_of (take (length ds - length (revisions ls)) ds)"

locale rolling = state_persistence ps stored + merkle_revisions mr retained content minv is_root
  for ps :: "'p StatePersistence" and stored mr
    and retained :: "'m \<Rightarrow> Sha256 multiset" and content minv is_root +
  fixes sha :: hasher
begin

lemma evict_step:
  assumes inv: "rr_inv sha stored retained content minv is_root ls ds" and over: "int (length (revisions ls)) > transientRevisions ls"
    and nonneg: "0 \<le> transientRevisions ls"
  obtains ls' where "evictRevisions ps mr ls = evictRevisions ps mr ls'" and "rr_inv sha stored retained content minv is_root ls' ds"
    and "length (revisions ls) = Suc (length (revisions ls'))" and "transientRevisions ls' = transientRevisions ls"
    and "currentProposer ls' = currentProposer ls" and "currentTs ls' = currentTs ls"
proof -
  obtain d rest where revs: "revisions ls = d # rest" using over nonneg by (cases "revisions ls") auto
  let ?k = "length ds - length (revisions ls)"
  note hk = inv[unfolded rr_inv_def heights_ok_def] and rk = inv[unfolded rr_inv_def roots_ok_def]
  have len: "Suc (length rest) \<le> length ds" using hk by (simp add: revs)
  have dr: "drop ?k ds = rd_diff d # map rd_diff rest" using hk by (simp add: revs)
  have dd: "ds ! ?k = rd_diff d" using dr by (rule nth_via_drop)
  have tail: "map rd_diff rest = drop (Suc ?k) ds" using dr by (metis drop_Suc list.sel(3) tl_drop)
  have "[Suc ?k..<Suc (length ds)] = Suc ?k # [Suc (Suc ?k)..<Suc (length ds)]"
    using len by (intro upt_conv_Cons) (simp add: revs)
  then have hts: "rd_height d = of_nat (Suc ?k)" "map rd_height rest = map of_nat [Suc (Suc ?k)..<Suc (length ds)]"
    using hk unfolding revs by simp_all
  have "wf_chain (rd_diff d)" using hk len by (simp add: list_all_length revs flip: dd)
  then obtain p where p: "sp_Write ps (persist ls) (rd_height d) (rd_ts d) (rd_proposer d) (rd_merkleRoot d) (rd_diff d) = (p, Ok ())"
    "stored p = state_apply (rd_diff d) (stored (persist ls))"
    using write_ok by blast
  have "persistedRoot ls \<in># retained (merkle ls)" using rk by (simp add: all_roots_def)
  then obtain m where m: "mr_Forget mr (merkle ls) (persistedRoot ls) = Ok m" "minv m"
    "retained m = retained (merkle ls) - {#persistedRoot ls#}" "\<forall>g \<in># retained m. content m g = content (merkle ls) g"
    using forget_ok rk by blast
  define ls' where "ls' = ls\<lparr>persist := p, merkle := m, persistedHeight := rd_height d, persistedTs := rd_ts d,
      persistedProposer := rd_proposer d, persistedRoot := rd_merkleRoot d, revisions := rest\<rparr>"
  have roots: "all_roots ls = persistedRoot ls # all_roots ls'" by (simp add: all_roots_def ls'_def revs)
  have k': "length ds - length rest = Suc ?k" using len by (simp add: revs)
  have "heights_ok ls' ds"
    unfolding heights_ok_def ls'_def using hk hts tail len over k' by (simp add: revs)
  moreover have "roots_ok sha retained content minv is_root ls' ds"
  proof -
    have cur: "currentMerkleRoot ls = last (all_roots ls')" "all_roots ls' \<noteq> []"
      using rk roots by (auto simp: all_roots_def)
    then have "currentMerkleRoot ls \<in># retained m" using m(3) rk roots by simp
    then have "content m (currentMerkleRoot ls) = merkle_of sha ds" using m(4) rk by metis
    moreover have "is_root (merkle_of sha (take (Suc ?k + i) ds)) (all_roots ls' ! i)" if "i < length (all_roots ls')" for i
      using rk roots that by (metis add_Suc_shift Suc_less_eq length_Cons nth_Cons_Suc)
    ultimately show ?thesis using m rk roots cur k' unfolding roots_ok_def by (simp add: ls'_def)
  qed
  moreover have "stored p = state_of (take (Suc ?k) ds)"
    using p(2) dd inv len by (simp add: rr_inv_def take_Suc_conv_app_nth state_of_snoc revs)
  ultimately have "rr_inv sha stored retained content minv is_root ls' ds" using k' by (simp add: rr_inv_def) (simp add: ls'_def)
  moreover have "evictRevisions ps mr ls = evictRevisions ps mr ls'"
    using over by (subst evictRevisions.simps) (simp add: revs p(1) m(1) ls'_def)
  ultimately show thesis using that revs by (simp add: ls'_def)
qed

lemma evictRevisions_ok:
  "rr_inv sha stored retained content minv is_root ls ds \<Longrightarrow> 0 \<le> transientRevisions ls \<Longrightarrow>
   \<exists>ls'. evictRevisions ps mr ls = (ls', Ok ()) \<and> rr_inv sha stored retained content minv is_root ls' ds \<and>
     int (length (revisions ls')) \<le> transientRevisions ls' \<and> transientRevisions ls' = transientRevisions ls \<and>
     currentProposer ls' = currentProposer ls \<and> currentTs ls' = currentTs ls"
proof (induction "length (revisions ls)" arbitrary: ls)
  case 0
  then show ?case by (subst evictRevisions.simps) auto
next
  case (Suc n)
  show ?case
  proof (cases "int (length (revisions ls)) > transientRevisions ls")
    case True
    from Suc.prems(1) True Suc.prems(2) obtain ls' where ls': "evictRevisions ps mr ls = evictRevisions ps mr ls'"
      "rr_inv sha stored retained content minv is_root ls' ds" "length (revisions ls) = Suc (length (revisions ls'))"
      "transientRevisions ls' = transientRevisions ls"
      "currentProposer ls' = currentProposer ls" "currentTs ls' = currentTs ls"
      by (rule evict_step)
    then show ?thesis using Suc.hyps(1)[of ls'] Suc.hyps(2) Suc.prems(2) by auto
  next
    case False
    then show ?thesis using Suc.prems by (subst evictRevisions.simps) auto
  qed
qed

text \<open>
  Adding the next block's diff succeeds: the current root is always retained, so \<open>Update\<close> finds
  it, and no eviction fails.
\<close>

lemma addRevision_ok:
  assumes inv: "rr_inv sha stored retained content minv is_root ls ds" and wf: "wf_chain diff"
    and cap: "0 \<le> transientRevisions ls" "int (length (revisions ls)) \<le> transientRevisions ls"
  shows "\<exists>ls'. addRevision sha ps mr ls (currentHeight ls + 1) ts proposer diff = (ls', Ok ()) \<and>
     rr_inv sha stored retained content minv is_root ls' (ds @ [diff]) \<and>
     int (length (revisions ls')) \<le> transientRevisions ls' \<and> transientRevisions ls' = transientRevisions ls \<and>
     currentProposer ls' = currentProposer ls \<and> currentTs ls' = ts"
proof -
  note hk = inv[unfolded rr_inv_def heights_ok_def] and rk = inv[unfolded rr_inv_def roots_ok_def]
  have cur: "currentMerkleRoot ls \<in># retained (merkle ls)"
    using rk by (metis all_roots_def last_in_set list.distinct(1) set_mset_mset)
  obtain m' h' where u: "mr_Update mr (merkle ls) (currentMerkleRoot ls) (toMerkleInput sha diff) = (m', Ok h')"
    "minv m'" "retained m' = add_mset h' (retained (merkle ls))"
    "content m' h' = apply_diffs (toMerkleInput sha diff) (content (merkle ls) (currentMerkleRoot ls))"
    "is_root (content m' h') h'"
    using update_ok[OF _ cur] rk by blast
  define ls1 where "ls1 = ls\<lparr>merkle := m',
      revisions := revisions ls @ [\<lparr>rd_diff = diff, rd_merkleRoot = h', rd_height = currentHeight ls + 1,
                                    rd_ts = ts, rd_proposer = proposer\<rparr>],
      currentHeight := currentHeight ls + 1, currentTs := ts, currentMerkleRoot := h'\<rparr>"
  have "content (merkle ls) (currentMerkleRoot ls) = merkle_of sha ds" using rk by blast
  then have content: "content m' h' = merkle_of sha (ds @ [diff])" by (simp only: u(4) merkle_of_snoc)
  have roots: "all_roots ls1 = all_roots ls @ [h']" by (simp add: all_roots_def ls1_def)
  have k: "length (revisions ls) \<le> length ds" using hk by simp
  have "heights_ok ls1 (ds @ [diff])"
    unfolding heights_ok_def ls1_def using hk k wf cap by (auto simp: Suc_diff_le upt_Suc)
  moreover have "roots_ok sha retained content minv is_root ls1 (ds @ [diff])"
  proof -
    let ?k = "length ds - length (revisions ls)"
    have "is_root (merkle_of sha (take (?k + i) (ds @ [diff]))) (all_roots ls1 ! i)" if "i < length (all_roots ls1)" for i
    proof (cases "i < length (all_roots ls)")
      case True
      then have "?k + i \<le> length ds" using k by (simp add: all_roots_def)
      then show ?thesis using True rk by (simp add: roots nth_append)
    next
      case False
      moreover have "length (all_roots ls1) = Suc (length (all_roots ls))" "length (all_roots ls) = Suc (length (revisions ls))"
        by (simp add: roots) (simp add: all_roots_def)
      ultimately have "i = length (all_roots ls)" "?k + i = Suc (length ds)" using that k by linarith+
      then show ?thesis using u(5) content by (simp add: roots)
    qed
    then show ?thesis using u(2,3) rk content k roots unfolding roots_ok_def by (simp add: ls1_def)
  qed
  moreover have "stored (persist ls1) = state_of (take (length (ds @ [diff]) - length (revisions ls1)) (ds @ [diff]))"
    using inv k by (simp add: rr_inv_def ls1_def)
  ultimately have "rr_inv sha stored retained content minv is_root ls1 (ds @ [diff])" by (simp add: rr_inv_def)
  then have "\<exists>ls'. evictRevisions ps mr ls1 = (ls', Ok ()) \<and> rr_inv sha stored retained content minv is_root ls' (ds @ [diff]) \<and>
      int (length (revisions ls')) \<le> transientRevisions ls' \<and> transientRevisions ls' = transientRevisions ls1 \<and>
      currentProposer ls' = currentProposer ls1 \<and> currentTs ls' = currentTs ls1"
    by (rule evictRevisions_ok) (simp add: ls1_def cap)
  moreover have "addRevision sha ps mr ls (currentHeight ls + 1) ts proposer diff = evictRevisions ps mr ls1"
    by (simp add: addRevision_def u(1) ls1_def)
  ultimately show ?thesis by (simp add: ls1_def)
qed

text \<open>Reading at any retained height gives the state after the diffs up to that height.\<close>

lemma getRevisionRecord_ok:
  assumes inv: "rr_inv sha stored retained content minv is_root ls ds" and h: "length ds - length (revisions ls) \<le> h" "h \<le> length ds" and small: "length ds < 2 ^ 64"
  shows "\<exists>v ok. getRevisionRecord ps ls (of_nat h) c key = Ok (v, ok) \<and>
    (if ok then v else []) = state_of (take h ds) c key"
proof -
  let ?k = "length ds - length (revisions ls)"
  note hk = inv[unfolded rr_inv_def heights_ok_def]
  have "take h ds = take ?k ds @ take (h - ?k) (drop ?k ds)"
    using h(1) by (metis le_add_diff_inverse take_add)
  moreover have "map rd_diff (take (h - ?k) (revisions ls)) = take (h - ?k) (drop ?k ds)"
    using hk by (metis take_map)
  ultimately have "state_of (take h ds) = fold state_apply (map rd_diff (take (h - ?k) (revisions ls))) (state_of (take ?k ds))"
    by (simp only: state_of_append)
  moreover have "map rd_height (revisions ls) = map of_nat [Suc ?k..<Suc (?k + length (revisions ls))]"
    "?k + length (revisions ls) < 2 ^ 64" "h < 2 ^ 64" using hk h small by simp_all
  ultimately have scan: "(case scanRevisions (rev (revisions ls)) (of_nat h) c key of Some v \<Rightarrow> v
      | None \<Rightarrow> state_of (take ?k ds) c key) = state_of (take h ds) c key"
    using scanRevisions_state[where rs = "revisions ls" and k = ?k and h = h and c = c and key = key
        and s = "state_of (take ?k ds)"] h(1) by simp
  have lt: "\<not> (of_nat n :: BlockHeight) < of_nat m" if "m \<le> n" "n < 2 ^ 64" for m n
    using that by (simp add: word_less_nat_alt unat_of_nat_small)
  have "currentHeight ls = of_nat (length ds)" "persistedHeight ls = of_nat ?k" using hk by blast+
  then have "\<not> currentHeight ls < of_nat h" "\<not> of_nat h < persistedHeight ls"
    using lt[of h "length ds"] lt[of ?k h] h small by (simp_all del: of_nat_diff)
  moreover have "stored (persist ls) = state_of (take ?k ds)" using inv by (simp add: rr_inv_def)
  ultimately show ?thesis
    using scan read_ok[of "persist ls" c key]
    by (cases "scanRevisions (rev (revisions ls)) (of_nat h) c key")
      (simp_all add: getRevisionRecord_def isZeroValue_def)
qed

lemma getRevisionHash_ok:
  assumes inv: "rr_inv sha stored retained content minv is_root ls ds" and h: "length ds - length (revisions ls) \<le> h" "h \<le> length ds" and small: "length ds < 2 ^ 64"
  shows "\<exists>r. getRevisionHash ls (of_nat h) = Ok r \<and> is_root (merkle_of sha (take h ds)) r"
proof -
  let ?k = "length ds - length (revisions ls)"
  note hk = inv[unfolded rr_inv_def heights_ok_def] and rk = inv[unfolded rr_inv_def roots_ok_def]
  have find: "find (\<lambda>r. rd_height r = of_nat h) (rev (revisions ls)) =
      (if ?k < h then Some (revisions ls ! (h - Suc ?k)) else None)"
    using find_height[of "revisions ls" ?k h] hk h small by simp
  have root: "is_root (merkle_of sha (take h ds)) (all_roots ls ! (h - ?k))"
    using rk h hk by (auto simp: all_roots_def dest!: spec[of _ "h - ?k"])
  show ?thesis
  proof (cases "?k < h")
    case True
    then obtain j where "h - ?k = Suc j" "j < length (revisions ls)" using h hk by (cases "h - ?k") auto
    moreover from this have "h - Suc ?k = j" by linarith
    ultimately have "all_roots ls ! (h - ?k) = rd_merkleRoot (revisions ls ! (h - Suc ?k))"
      by (simp add: all_roots_def)
    then show ?thesis using find True root by (simp add: getRevisionHash_def)
  next
    case False
    then show ?thesis using find root h hk by (simp add: getRevisionHash_def all_roots_def)
  qed
qed

end

end
