(* ===== verification/State_Storage_Correct.thy ===== *)
theory State_Storage_Correct
  imports Rolling_Revisions
begin

text \<open>
  The in-memory persistence and the trie forest keep the contracts the rolling revisions rely on,
  so the state storage service built on them keeps the history it has to: the interpretations of
  the interface locales, and the properties of the service's operations over every run of commits.
\<close>

subsection \<open>The in-memory persistence\<close>

definition mem_stored :: "InMemoryStatePersistence \<Rightarrow> ContractName \<Rightarrow> bytes \<Rightarrow> bytes" where
  "mem_stored p c k = (case cs_get (fullState p) c k of Some v \<Rightarrow> v | None \<Rightarrow> [])"

lemma cs_get_writeOneRecord:
  "cs_get (writeOneRecord c key v st) c' k' =
     (if c' = c \<and> k' = key then (if v = [] then None else Some v) else cs_get st c' k')"
  by (auto simp: writeOneRecord_def cs_get_def Let_def isZeroValue_def update_conv' delete_conv' split: option.splits)

lemma fold_writeOneRecord:
  assumes "distinct (map fst m)"
  shows "cs_get (fold (\<lambda>(key, v). writeOneRecord c key v) m st) c' k' =
    (if c' = c then (case map_of m k' of Some v \<Rightarrow> (if v = [] then None else Some v) | None \<Rightarrow> cs_get st c' k')
     else cs_get st c' k')"
  using assms
proof (induction m arbitrary: st)
  case (Cons kv m)
  obtain k v where kv: "kv = (k, v)" by fastforce
  have "map_of m k = None" using Cons.prems kv by (simp add: map_of_eq_None_iff)
  then show ?case using Cons by (auto simp: kv cs_get_writeOneRecord split: option.splits)
qed simp

lemma fold_write_chain:
  assumes "wf_chain diff"
  shows "(case cs_get (fold (\<lambda>(c, m). fold (\<lambda>(key, v). writeOneRecord c key v) m) diff st) c k of Some v \<Rightarrow> v | None \<Rightarrow> [])
    = (case cs_get diff c k of Some v \<Rightarrow> v | None \<Rightarrow> (case cs_get st c k of Some v \<Rightarrow> v | None \<Rightarrow> []))"
  using assms
proof (induction diff arbitrary: st)
  case Nil
  then show ?case by (simp add: cs_get_def)
next
  case (Cons cm diff)
  obtain c0 m where cm: "cm = (c0, m)" by fastforce
  have wf: "wf_chain diff" "distinct (map fst m)" "map_of diff c0 = None"
    using Cons.prems by (auto simp: wf_chain_def cm map_of_eq_None_iff)
  have new: "cs_get (cm # diff) c k = (if c = c0 then map_of m k else cs_get diff c k)"
    by (simp add: cs_get_def cm)
  have none: "cs_get diff c0 k = None" using wf(3) by (simp add: cs_get_def)
  show ?case
    unfolding new using Cons.IH[OF wf(1)] none
    by (auto simp: cm fold_writeOneRecord[OF wf(2)] split: option.splits)
qed

interpretation mem: state_persistence inMemory mem_stored
proof
  fix diff :: ChainState and p h ts pa r
  assume "wf_chain diff"
  then show "\<exists>p'. sp_Write inMemory p h ts pa r diff = (p', Ok ()) \<and> mem_stored p' = state_apply diff (mem_stored p)"
    using fold_write_chain[of diff "fullState p"]
    by (auto simp: inMemory_def Write_def Let_def reportSize_def mem_stored_def[abs_def] state_apply_def[abs_def] fun_eq_iff)
next
  fix p c k
  show "\<exists>v ok. sp_Read inMemory p c k = Ok (v, ok) \<and> (if ok then v else []) = mem_stored p c k"
    by (auto simp: inMemory_def Read_def mem_stored_def split: option.splits)
qed

subsection \<open>The forest\<close>

definition forest_retained :: "Forest \<Rightarrow> Sha256 multiset" where
  "forest_retained f = mset (map n_hash (roots f))"

definition forest_content :: "hasher \<Rightarrow> Forest \<Rightarrow> Sha256 \<Rightarrow> bytes \<Rightarrow> Sha256" where
  "forest_content sha f h = (case findRoot f h of Some r \<Rightarrow> trie_get sha r | None \<Rightarrow> (\<lambda>_. GetZeroValueHash sha))"

definition is_trie_root :: "hasher \<Rightarrow> (bytes \<Rightarrow> Sha256) \<Rightarrow> Sha256 \<Rightarrow> bool" where
  "is_trie_root sha c h \<longleftrightarrow> (\<exists>f root. forest_ok sha f \<and> findRoot f h = Some root \<and> trie_get sha root = c)"

lemma is_trie_root_unique: "is_trie_root sha c h \<Longrightarrow> is_trie_root sha c h' \<Longrightarrow> h = h'"
  unfolding is_trie_root_def using root_hash_unique by metis

lemma findRoot_retained: "h \<in># forest_retained f \<longleftrightarrow> (\<exists>r. findRoot f h = Some r)"
proof -
  have "h \<in># forest_retained f \<longleftrightarrow> findRoot f h \<noteq> None"
    by (auto simp: forest_retained_def findRoot_def find_None_iff)
  then show ?thesis by simp
qed

lemma forgetLoop_found: "forgetLoop True h rs = rs"
  by (induction rs) auto

lemma forgetLoop_split:
  assumes "h \<in> n_hash ` set rs"
  obtains xs r ys where "rs = xs @ r # ys" and "n_hash r = h" and "h \<notin> n_hash ` set xs"
    and "forgetLoop False h rs = xs @ ys"
  using assms
proof (induction rs arbitrary: thesis)
  case (Cons a rs)
  show ?case
  proof (cases "n_hash a = h")
    case True
    then show ?thesis using Cons.prems(1)[of "[]" a rs] by (simp add: forgetLoop_found)
  next
    case False
    then obtain xs r ys where "rs = xs @ r # ys" "n_hash r = h" "h \<notin> n_hash ` set xs" "forgetLoop False h rs = xs @ ys"
      using Cons.IH Cons.prems(2) by auto
    then show ?thesis using Cons.prems(1)[of "a # xs" r ys] False by simp
  qed
qed simp

lemma Forget_split:
  assumes "h \<in># forest_retained f"
  obtains xs r ys where "roots f = xs @ r # ys" and "n_hash r = h" and "h \<notin> n_hash ` set xs"
    and "Forget f h = Ok (f\<lparr>roots := xs @ ys\<rparr>)"
proof (cases "roots f")
  case Nil
  then show thesis using assms by (simp add: forest_retained_def)
next
  case (Cons a rs)
  show thesis
  proof (cases "n_hash a = h")
    case True
    then show thesis using that[of "[]" a rs] Cons by (simp add: Forget_def)
  next
    case False
    have "h \<in> n_hash ` set (roots f)" using assms by (simp add: forest_retained_def)
    then obtain xs r ys where "roots f = xs @ r # ys" "n_hash r = h" "h \<notin> n_hash ` set xs"
      "forgetLoop False h (roots f) = xs @ ys" by (rule forgetLoop_split)
    moreover have "Forget f h = Ok (f\<lparr>roots := forgetLoop False h (roots f)\<rparr>)"
      using Cons False by (simp add: Forget_def)
    ultimately show thesis using that by metis
  qed
qed

lemma Forget_contract:
  assumes "forest_ok sha f" and "h \<in># forest_retained f"
  shows "\<exists>f'. Forget f h = Ok f' \<and> forest_ok sha f' \<and> forest_retained f' = forest_retained f - {#h#} \<and>
    (\<forall>g \<in># forest_retained f'. forest_content sha f' g = forest_content sha f g)"
proof -
  from assms(2) obtain xs r ys where s: "roots f = xs @ r # ys" "n_hash r = h" "h \<notin> n_hash ` set xs"
    "Forget f h = Ok (f\<lparr>roots := xs @ ys\<rparr>)" by (rule Forget_split)
  let ?f = "f\<lparr>roots := xs @ ys\<rparr>"
  have "findRoot ?f g = findRoot f g" if "g \<in># forest_retained ?f" for g
  proof (cases "g \<in> n_hash ` set ys")
    case True
    then have "find (\<lambda>r. n_hash r = g) (rev ys) \<noteq> None" by (auto simp: find_None_iff)
    then show ?thesis by (auto simp: findRoot_def s(1) find_append)
  next
    case False
    then have "g \<noteq> h" using that s(3) by (auto simp: forest_retained_def)
    then show ?thesis by (simp add: findRoot_def s(1,2) find_append split: option.split)
  qed
  then have "\<forall>g \<in># forest_retained ?f. forest_content sha ?f g = forest_content sha f g"
    by (simp add: forest_content_def)
  moreover have "forest_ok sha ?f" using assms(1) s(1) by (auto simp: forest_ok_def)
  ultimately show ?thesis using s by (auto simp: forest_retained_def)
qed

lemma Update_contract:
  assumes "forest_ok sha f" and "h \<in># forest_retained f"
  shows "\<exists>f' h'. Update sha f h diffs = (f', Ok h') \<and> forest_ok sha f' \<and>
    forest_retained f' = add_mset h' (forest_retained f) \<and>
    forest_content sha f' h' = apply_diffs diffs (forest_content sha f h) \<and>
    is_trie_root sha (forest_content sha f' h') h'"
proof -
  obtain r where r: "findRoot f h = Some r" using assms(2) by (auto simp: findRoot_retained)
  have ok: "forest_ok sha (appendRoot f (new_root sha diffs r))"
    using forest_ok_Update[OF assms(1), of h diffs] Update_known_root[OF r] by simp
  have "root_ok sha r" using forest_ok_root[OF assms(1) r] by simp
  then show ?thesis using ok
    by (auto simp: Update_known_root[OF r] forest_retained_def appendRoot_def[of f] forest_content_def r
        trie_get_new_root is_trie_root_def findRoot_appendRoot[unfolded appendRoot_def] intro!: exI[of _ "appendRoot f (new_root sha diffs r)"])
qed

interpretation forest: merkle_revisions "forestRevisions sha" forest_retained "forest_content sha" "forest_ok sha" "is_trie_root sha" for sha
  by unfold_locales (simp_all add: forestRevisions_def Update_contract Forget_contract)

interpretation storage: rolling inMemory mem_stored "forestRevisions sha" forest_retained "forest_content sha" "forest_ok sha" "is_trie_root sha" sha for sha
  by unfold_locales

subsection \<open>Inflating the diffs of a block\<close>

definition flat_writes :: "ContractStateDiff list \<Rightarrow> ((ContractName \<times> bytes) \<times> bytes) list" where
  "flat_writes csd = concat (map (\<lambda>d. map (\<lambda>(k, v). ((csd_contractName d, k), v)) (csd_stateDiffs d)) csd)"

lemma map_of_fold_update: "map_of (fold (\<lambda>(k, v). AList.update k v) kvs m) k = map_of (rev kvs @ m) k"
  by (induction kvs arbitrary: m) (auto simp: update_conv' map_add_def split: option.splits)

lemma distinct_fold_update: "distinct (map fst m) \<Longrightarrow> distinct (map fst (fold (\<lambda>(k, v). AList.update k v) kvs m))"
  by (induction kvs arbitrary: m) (auto intro: distinct_update)

lemma set_update_subset: "set (AList.update k v m) \<subseteq> insert (k, v) (set m)"
  by (induction m) auto

lemma wf_chain_update: "wf_chain s \<Longrightarrow> distinct (map fst m) \<Longrightarrow> wf_chain (AList.update c m s)"
  using set_update_subset[of c m s] by (fastforce simp: wf_chain_def intro: distinct_update)

definition inflate_step :: "ContractStateDiff \<Rightarrow> ChainState \<Rightarrow> ChainState" where
  "inflate_step d r = AList.update (csd_contractName d)
     (fold (\<lambda>(k, v). AList.update k v) (csd_stateDiffs d) (case map_of r (csd_contractName d) of None \<Rightarrow> [] | Some m \<Rightarrow> m)) r"

lemma inflateChainState_fold: "inflateChainState csd = fold inflate_step csd []"
  by (simp add: inflateChainState_def inflate_step_def[abs_def] Let_def)

lemma wf_inflate_step: "wf_chain r \<Longrightarrow> wf_chain (inflate_step d r)"
  unfolding inflate_step_def
  by (intro wf_chain_update distinct_fold_update)
    (auto simp: wf_chain_def split: option.split dest!: map_of_SomeD)

lemma cs_get_inflate_step: "cs_get (inflate_step d r) c k =
    (case map_of (rev (map (\<lambda>(k, v). ((csd_contractName d, k), v)) (csd_stateDiffs d))) (c, k) of
       Some v \<Rightarrow> Some v | None \<Rightarrow> cs_get r c k)"
proof -
  have "map_of (rev (map (\<lambda>(k, v). ((n, k), v)) kvs)) (c, k) = (if c = n then map_of (rev kvs) k else None)" for n and kvs :: "(bytes \<times> bytes) list"
    by (induction kvs) (auto simp: map_add_def split: option.splits)
  then show ?thesis
    by (auto simp: inflate_step_def cs_get_def update_conv' map_of_fold_update map_add_def split: option.splits)
qed

lemma wf_inflateChainState: "wf_chain (inflateChainState csd)"
proof -
  have "wf_chain r \<Longrightarrow> wf_chain (fold inflate_step csd r)" for r
    by (induction csd arbitrary: r) (simp_all add: wf_inflate_step)
  moreover have "wf_chain []" by (simp add: wf_chain_def)
  ultimately show ?thesis by (simp only: inflateChainState_fold)
qed

lemma cs_get_inflateChainState: "cs_get (inflateChainState csd) c k = map_of (rev (flat_writes csd)) (c, k)"
proof -
  have "cs_get (fold inflate_step csd r) c k =
      (case map_of (rev (flat_writes csd)) (c, k) of Some v \<Rightarrow> Some v | None \<Rightarrow> cs_get r c k)" for r
    by (induction csd arbitrary: r)
      (auto simp: flat_writes_def cs_get_inflate_step map_add_def split: option.splits)
  from this[of "[]"] show ?thesis by (simp add: inflateChainState_fold cs_get_def split: option.split)
qed

subsection \<open>Runs of the service\<close>

inductive committed :: "hasher \<Rightarrow> 32 word \<Rightarrow> 32 word \<Rightarrow> InMemoryStatePersistence StateStorage \<Rightarrow> ChainState list \<Rightarrow> bool"
  for sha :: hasher and snapshotNum grace :: "32 word" where
  start: "NewStateStorage sha inMemory snapshotNum grace (NewStatePersistence sha) = Ok s \<Longrightarrow>
    committed sha snapshotNum grace s []"
| commit: "\<lbrakk>committed sha snapshotNum grace s ds;
     rbh_blockHeight header = currentHeight (ss_revisions s) + 1;
     CommitStateDiff sha inMemory s \<lparr>csdi_resultsBlockHeader = Some header, csdi_contractStateDiffs = Some diffs\<rparr> = (s', r)\<rbrakk> \<Longrightarrow>
    committed sha snapshotNum grace s' (ds @ [inflateChainState diffs])"

abbreviation storage_inv :: "hasher \<Rightarrow> (InMemoryStatePersistence, Forest) rollingRevisions \<Rightarrow> ChainState list \<Rightarrow> bool" where
  "storage_inv sha \<equiv> rr_inv sha mem_stored forest_retained (forest_content sha) (forest_ok sha) (is_trie_root sha)"

lemma int_uint_order:
  "int n \<le> uint (w :: 'a::len word) \<longleftrightarrow> n \<le> unat w" "int n < uint w \<longleftrightarrow> n < unat w"
  by (simp_all add: uint_nat del: of_nat_unat)

definition service_inv :: "hasher \<Rightarrow> 32 word \<Rightarrow> InMemoryStatePersistence StateStorage \<Rightarrow> ChainState list \<Rightarrow> bool" where
  "service_inv sha snapshotNum s ds \<longleftrightarrow>
     storage_inv sha (ss_revisions s) ds \<and> ss_snapshotNum s = snapshotNum \<and>
     transientRevisions (ss_revisions s) = int (unat snapshotNum) \<and>
     length (revisions (ss_revisions s)) \<le> unat snapshotNum \<and>
     bt_currentHeight (ss_blockTracker s) = of_nat (length ds) \<and>
     currentProposer (ss_revisions s) = []"

lemma service_inv_height: "service_inv sha n s ds \<Longrightarrow> currentHeight (ss_revisions s) = of_nat (length ds)"
  by (simp add: service_inv_def rr_inv_def heights_ok_def)

lemma NewForest_content: "forest_content sha (fst (NewForest sha)) (snd (NewForest sha)) = (\<lambda>_. GetZeroValueHash sha)"
  by (auto simp: forest_content_def findRoot_NewForest trie_get_def empty_node_eq lookup_leaf fun_eq_iff)

lemma service_inv_start:
  assumes "NewStateStorage sha inMemory snapshotNum grace (NewStatePersistence sha) = Ok s"
  shows "service_inv sha snapshotNum s []"
proof -
  have "is_trie_root sha (\<lambda>_. GetZeroValueHash sha) (snd (NewForest sha))"
    unfolding is_trie_root_def using forest_ok_NewForest findRoot_NewForest NewForest_content
    by (metis forest_content_def option.case(2))
  moreover have "forest_retained (fst (NewForest sha)) = {#snd (NewForest sha)#}"
    by (simp add: forest_retained_def NewForest_def Let_def)
  ultimately show ?thesis using assms NewForest_content[of sha] forest_ok_NewForest[of sha]
    by (auto simp: NewStateStorage_def newRollingRevisions_def inMemory_def ReadMetadata_def NewStatePersistence_def
        service_inv_def rr_inv_def heights_ok_def roots_ok_def all_roots_def merkle_of_def state_of_def
        NewBlockTracker_def mem_stored_def cs_get_def fun_eq_iff split: prod.splits)
qed

lemma CommitStateDiff_next:
  assumes "service_inv sha snapshotNum s ds" and "rbh_blockHeight header = currentHeight (ss_revisions s) + 1"
  shows "\<exists>s'. CommitStateDiff sha inMemory s \<lparr>csdi_resultsBlockHeader = Some header, csdi_contractStateDiffs = Some diffs\<rparr>
      = (s', Ok (rbh_blockHeight header + 1)) \<and> service_inv sha snapshotNum s' (ds @ [inflateChainState diffs]) \<and>
      ss_reported s' = ss_reported s @ [rbh_blockHeight header] \<and> currentTs (ss_revisions s') = rbh_timestamp header"
proof -
  have inv: "storage_inv sha (ss_revisions s) ds" and cap: "0 \<le> transientRevisions (ss_revisions s)"
    "int (length (revisions (ss_revisions s))) \<le> transientRevisions (ss_revisions s)"
    using assms(1) by (auto simp only: service_inv_def of_nat_le_iff of_nat_0_le_iff)
  obtain ls' where ls': "addRevision sha inMemory (forestRevisions sha) (ss_revisions s) (currentHeight (ss_revisions s) + 1)
      (rbh_timestamp header) (rbh_blockProposerAddress header) (inflateChainState diffs) = (ls', Ok ())"
    "storage_inv sha ls' (ds @ [inflateChainState diffs])" "int (length (revisions ls')) \<le> transientRevisions ls'"
    "transientRevisions ls' = transientRevisions (ss_revisions s)" "currentProposer ls' = currentProposer (ss_revisions s)"
    "currentTs ls' = rbh_timestamp header"
    using storage.addRevision_ok[OF inv wf_inflateChainState cap] by blast
  have "bt_currentHeight (ss_blockTracker s) = currentHeight (ss_revisions s)"
    using assms(1) service_inv_height[OF assms(1)] by (simp add: service_inv_def)
  then show ?thesis
    using ls' assms by (simp add: CommitStateDiff_def Let_def IncrementTo_def service_inv_def int_uint_order)
qed

lemma committed_inv: "committed sha snapshotNum grace s ds \<Longrightarrow> service_inv sha snapshotNum s ds"
proof (induction rule: committed.induct)
  case (commit s ds header diffs s' r)
  then show ?case using CommitStateDiff_next[OF commit.IH commit.hyps(2), of diffs] by auto
qed (rule service_inv_start)


lemma window_word:
  assumes "h \<le> n" and "n < 2 ^ 63"
  shows "(of_nat h :: BlockHeight) + ucast (w :: 32 word) \<le> of_nat n \<longleftrightarrow> h + unat w \<le> n"
proof -
  have w: "unat w < 2 ^ 32" using unsigned_less[of w] by simp
  have "unat ((of_nat h :: BlockHeight) + ucast w) = h + unat w"
    using w assms by (simp add: unat_word_ariths unat_of_nat_small)
  then show ?thesis using assms by (simp add: word_le_nat_alt unat_of_nat_small)
qed

lemma service_kept:
  assumes "service_inv sha n s ds" and "length ds < h + unat n"
  shows "length ds - length (revisions (ss_revisions s)) \<le> h"
proof -
  have "length (revisions (ss_revisions s)) < unat n \<longrightarrow> length (revisions (ss_revisions s)) = length ds"
    using assms(1) by (auto simp: service_inv_def rr_inv_def heights_ok_def int_uint_order)
  then show ?thesis using assms by (auto simp: service_inv_def)
qed

subsection \<open>Two small runs\<close>

definition demo_header :: "BlockHeight \<Rightarrow> ResultsBlockHeader" where
  "demo_header h =
     \<lparr>rbh_protocolVersion = 1, rbh_virtualChainId = 42, rbh_blockHeight = h, rbh_prevBlockHashPtr = [], rbh_timestamp = 1000,
      rbh_receiptsMerkleRootHash = [], rbh_stateDiffHash = [], rbh_transactionsBlockHashPtr = [],
      rbh_preExecutionStateMerkleRootHash = [], rbh_numTransactionReceipts = 0, rbh_numContractStateDiffs = 1,
      rbh_blockProposerAddress = [7]\<rparr>"

definition demo_diffs :: "bytes \<Rightarrow> ContractStateDiff list" where
  "demo_diffs v = [\<lparr>csd_contractName = [65], csd_stateDiffs = [([66], v)]\<rparr>]"

definition demo_start :: "InMemoryStatePersistence StateStorage" where
  "demo_start = the_ok (NewStateStorage demo_sha inMemory 5 2 (NewStatePersistence demo_sha))"

definition demo_commit :: "InMemoryStatePersistence StateStorage \<Rightarrow> bytes \<Rightarrow> InMemoryStatePersistence StateStorage" where
  "demo_commit s v = fst (CommitStateDiff demo_sha inMemory s
     \<lparr>csdi_resultsBlockHeader = Some (demo_header (currentHeight (ss_revisions s) + 1)),
      csdi_contractStateDiffs = Some (demo_diffs v)\<rparr>)"

lemma committed_demo_start: "committed demo_sha 5 2 demo_start []"
  by (rule committed.start)
    (simp add: demo_start_def NewStateStorage_def newRollingRevisions_def inMemory_def ReadMetadata_def split: prod.split)

lemma committed_demo_commit:
  "committed demo_sha 5 2 s ds \<Longrightarrow> committed demo_sha 5 2 (demo_commit s v) (ds @ [inflateChainState (demo_diffs v)])"
proof -
  assume "committed demo_sha 5 2 s ds"
  then show ?thesis
    by (rule committed.commit[where header = "demo_header (currentHeight (ss_revisions s) + 1)"])
      (auto simp: demo_header_def demo_commit_def prod_eq_iff)
qed

lemma committed_wait:
  assumes "committed sha n g s ds" and "h \<le> length ds" and "length ds < 2 ^ 64"
  shows "WaitForBlock (ss_blockTracker s) es (of_nat h) = Some (Ok ())"
  using committed_inv[OF assms(1)] assms(2,3)
  by (simp add: service_inv_def WaitForBlock_def readAtomicHeightAndLatch_def word_le_nat_alt unat_of_nat_small)

lemma committed_demo:
  "committed demo_sha 5 2 (demo_commit demo_start v) [inflateChainState (demo_diffs v)]"
  "committed demo_sha 5 2 (demo_commit (demo_commit demo_start w) v) [inflateChainState (demo_diffs w), inflateChainState (demo_diffs v)]"
  using committed_demo_commit[OF committed_demo_start] committed_demo_commit[OF committed_demo_commit[OF committed_demo_start]]
  by simp_all

lemma cs_get_demo: "cs_get (inflateChainState (demo_diffs v)) c k = (if c = [65] \<and> k = [66] then Some v else None)"
  by (simp add: cs_get_inflateChainState flat_writes_def demo_diffs_def)

subsection \<open>Properties of the service\<close>

text \<open>
  C9. Committing state diffs never fails or panics on a service started on an empty persistence. A
  block with the next height is accepted: the run goes on with its diffs added to the history,
  where the last write to a key within the block wins; the caller is asked for the height after
  it and the reporter is told. Any other height leaves the service as it was and asks for the
  next height.
\<close>

theorem CommitStateDiff_extends_history:
  assumes "committed sha snapshotNum grace s ds"
  shows "\<exists>s'. CommitStateDiff sha inMemory s \<lparr>csdi_resultsBlockHeader = Some header, csdi_contractStateDiffs = Some diffs\<rparr>
      = (s', Ok (if rbh_blockHeight header = of_nat (length ds) + 1 then rbh_blockHeight header + 1 else of_nat (length ds) + 1)) \<and>
    (if rbh_blockHeight header = of_nat (length ds) + 1
     then committed sha snapshotNum grace s' (ds @ [inflateChainState diffs]) \<and>
       ss_reported s' = ss_reported s @ [rbh_blockHeight header] \<and>
       (\<forall>c k. state_of (ds @ [inflateChainState diffs]) c k
          = (case map_of (rev (flat_writes diffs)) (c, k) of Some v \<Rightarrow> v | None \<Rightarrow> state_of ds c k))
     else s' = s)"
proof -
  note inv = committed_inv[OF assms]
  note ht = service_inv_height[OF inv]
  show ?thesis
  proof (cases "rbh_blockHeight header = of_nat (length ds) + 1")
    case True
    then show ?thesis
      using CommitStateDiff_next[OF inv, of header diffs] committed.commit[OF assms, of header diffs] ht
      by (auto simp: state_of_snoc state_apply_def cs_get_inflateChainState)
  next
    case False
    then show ?thesis by (simp add: CommitStateDiff_def Let_def ht)
  qed
qed

theorem CommitStateDiff_extends_history_witness:
  "\<exists>s'. CommitStateDiff demo_sha inMemory (demo_commit demo_start [9]) \<lparr>csdi_resultsBlockHeader = Some (demo_header 2), csdi_contractStateDiffs = Some (demo_diffs [])\<rparr>
      = (s', Ok 3) \<and> committed demo_sha 5 2 s' [inflateChainState (demo_diffs [9]), inflateChainState (demo_diffs [])]"
  using CommitStateDiff_extends_history[OF committed_demo(1)[of "[9]"], of "demo_header 2" "demo_diffs []"]
  by (auto simp: demo_header_def)

lemma ReadKeys_history:
  assumes "committed sha snapshotNum grace s' ds" and "length ds < 2 ^ 63" and "h \<le> length ds"
    and "WaitForBlock (ss_blockTracker s) es (of_nat h) = Some (Ok ())" and "contract \<noteq> []" and "keys \<noteq> []"
  shows "ReadKeys inMemory s es s' (of_nat h) contract keys =
    Some (if length ds < h + unat snapshotNum
          then Ok (map (\<lambda>key. (key, state_of (take h ds) contract key)) keys) else Err TooOld)"
proof -
  note inv = committed_inv[OF assms(1)]
  let ?ls = "ss_revisions s'"
  have st: "storage_inv sha ?ls ds" using inv by (simp add: service_inv_def)
  have window: "of_nat h + ucast (ss_snapshotNum s') \<le> currentHeight ?ls \<longleftrightarrow> h + unat snapshotNum \<le> length ds"
    using window_word[of h "length ds" snapshotNum] assms(2,3) service_inv_height[OF inv] inv by (simp add: service_inv_def)
  have rec: "readRecords inMemory ?ls (of_nat h) contract ks = Ok (map (\<lambda>key. (key, state_of (take h ds) contract key)) ks)"
    if "length ds < h + unat snapshotNum" for ks
  proof (induction ks)
    case (Cons key ks)
    have kept: "length ds - length (revisions ?ls) \<le> h" using service_kept[OF inv that] .
    obtain v ok where "getRevisionRecord inMemory ?ls (of_nat h) contract key = Ok (v, ok)"
      "(if ok then v else []) = state_of (take h ds) contract key"
      using storage.getRevisionRecord_ok[OF st kept assms(3), of contract key] assms(2) by auto
    then show ?case using Cons by (simp add: newZeroValue_def split: if_splits)
  qed simp
  show ?thesis using assms(4-6) window rec[of keys] by (auto simp: ReadKeys_def)
qed

text \<open>
  C10. \<open>ReadKeys\<close> reads history: for a committed height within the kept window it returns, for each
  key, the value the key had after that block, empty for a key never written or deleted. An older
  height is rejected.
\<close>

theorem ReadKeys_reads_history:
  assumes "committed sha snapshotNum grace s' ds" and "length ds < 2 ^ 63" and "h \<le> length ds"
    and "WaitForBlock (ss_blockTracker s) es (of_nat h) = Some (Ok ())" and "contract \<noteq> []" and "keys \<noteq> []"
  shows "ReadKeys inMemory s es s' (of_nat h) contract keys =
    Some (if length ds < h + unat snapshotNum
          then Ok (map (\<lambda>key. (key, state_of (take h ds) contract key)) keys) else Err TooOld)"
  using assms by (rule ReadKeys_history)

theorem ReadKeys_reads_history_witness:
  "ReadKeys inMemory (demo_commit (demo_commit demo_start [9]) []) [] (demo_commit (demo_commit demo_start [9]) []) 1 [65] [[66], [67]]
    = Some (Ok [([66], [9]), ([67], [])])"
  using ReadKeys_reads_history[OF committed_demo(2)[of "[9]" "[]"], of 1 "demo_commit (demo_commit demo_start [9]) []" "[]" "[65]" "[[66], [67]]"]
    committed_wait[OF committed_demo(2)[of "[9]" "[]"], of 1 "[]"]
  by (simp add: state_of_def state_apply_def cs_get_demo)

subsection \<open>State hashes\<close>

text \<open>The pairs of contract and key that a list of diffs writes.\<close>

definition touched :: "ChainState list \<Rightarrow> (ContractName \<times> bytes) set" where
  "touched ds = {(c, k). \<exists>d \<in> set ds. cs_get d c k \<noteq> None}"

lemma cs_get_wf: "wf_chain d \<Longrightarrow> cs_get d c k = Some v \<longleftrightarrow> (\<exists>m. (c, m) \<in> set d \<and> (k, v) \<in> set m)"
proof -
  assume wf: "wf_chain d"
  have "cs_get d c k = Some v \<longleftrightarrow> (\<exists>m. map_of d c = Some m \<and> map_of m k = Some v)"
    by (auto simp: cs_get_def split: option.splits)
  moreover have "map_of d c = Some m \<longleftrightarrow> (c, m) \<in> set d" for m
    using wf by (auto simp: wf_chain_def map_of_eq_Some_iff)
  moreover have "(c, m) \<in> set d \<Longrightarrow> map_of m k = Some v \<longleftrightarrow> (k, v) \<in> set m" for m
    using wf by (auto simp: wf_chain_def map_of_eq_Some_iff)
  ultimately show ?thesis by auto
qed

lemma set_toMerkleInput:
  assumes "wf_chain d"
  shows "set (toMerkleInput sha d) = {TrieDiff (sha (c @ k)) (sha v) | c k v. cs_get d c k = Some v}"
proof -
  have "set (toMerkleInput sha d) = (\<Union>(c, m) \<in> set d. (\<lambda>(k, v). TrieDiff (sha (c @ k)) (sha v)) ` set m)"
    by (simp add: toMerkleInput_def CalcSha256_def case_prod_unfold)
  also have "\<dots> = {TrieDiff (sha (c @ k)) (sha v) | c k v. \<exists>m. (c, m) \<in> set d \<and> (k, v) \<in> set m}"
    by auto
  finally show ?thesis by (simp only: cs_get_wf[OF assms])
qed

lemma apply_diffs_unique:
  assumes "\<And>v'. TrieDiff x v' \<in> set ds \<Longrightarrow> v' = v"
  shows "apply_diffs ds m x = (if TrieDiff x v \<in> set ds then v else m x)"
  using assms
proof (induction ds arbitrary: m)
  case Nil
  show ?case by simp
next
  case (Cons d ds)
  obtain k w where d: "d = TrieDiff k w" by (cases d)
  have IH: "apply_diffs ds (m(k := w)) x = (if TrieDiff x v \<in> set ds then v else (m(k := w)) x)"
    by (rule Cons.IH) (rule Cons.prems, simp)
  show ?case
  proof (cases "k = x")
    case True
    then have "w = v" by (intro Cons.prems) (simp add: d)
    then show ?thesis unfolding d apply_diffs.simps IH using True by simp
  next
    case False
    then show ?thesis unfolding d apply_diffs.simps IH by simp
  qed
qed

text \<open>Where no two written pairs share a trie key, the trie stores the hash of each value.\<close>

lemma merkle_of_state:
  assumes inj: "inj_on (\<lambda>(c, k). sha (c @ k)) T" and "list_all wf_chain ds" and "touched ds \<subseteq> T"
  shows "(\<forall>c k. (c, k) \<in> T \<longrightarrow> merkle_of sha ds (sha (c @ k)) = sha (state_of ds c k)) \<and>
    (\<forall>x. x \<notin> (\<lambda>(c, k). sha (c @ k)) ` T \<longrightarrow> merkle_of sha ds x = GetZeroValueHash sha)"
  using assms(2,3)
proof (induction ds rule: rev_induct)
  case Nil
  then show ?case by (simp add: merkle_of_def state_of_def GetZeroValueHash_def)
next
  case (snoc d ds)
  let ?in = "toMerkleInput sha d"
  have sub: "touched ds \<subseteq> T" using snoc.prems(2) by (auto simp: touched_def)
  have wf: "wf_chain d" "list_all wf_chain ds" using snoc.prems(1) by auto
  have T: "(c, k) \<in> T" if "cs_get d c k = Some v" for c k v using that snoc.prems(2) by (auto simp: touched_def)
  note IH = snoc.IH[OF wf(2) sub]
  have "merkle_of sha (ds @ [d]) (sha (c @ k)) = sha (state_of (ds @ [d]) c k)" if ck: "(c, k) \<in> T" for c k
  proof -
    have only: "TrieDiff (sha (c @ k)) v \<in> set ?in \<longleftrightarrow> (\<exists>w. cs_get d c k = Some w \<and> v = sha w)" for v
      unfolding set_toMerkleInput[OF wf(1)] using T inj_onD[OF inj, of "(c, k)"] ck by fastforce
    have old: "merkle_of sha ds (sha (c @ k)) = sha (state_of ds c k)" using IH ck by blast
    show ?thesis
    proof (cases "cs_get d c k")
      case None
      then show ?thesis using old only apply_diffs_unique[of "sha (c @ k)" ?in]
        by (simp add: merkle_of_snoc state_of_snoc state_apply_def)
    next
      case (Some w)
      then have "apply_diffs ?in (merkle_of sha ds) (sha (c @ k)) = sha w"
        using apply_diffs_unique[of "sha (c @ k)" ?in "sha w"] only by auto
      then show ?thesis using Some by (simp add: merkle_of_snoc state_of_snoc state_apply_def)
    qed
  qed
  moreover have "merkle_of sha (ds @ [d]) x = GetZeroValueHash sha" if x: "x \<notin> (\<lambda>(c, k). sha (c @ k)) ` T" for x
  proof -
    have "TrieDiff x v \<notin> set ?in" for v
      using T x unfolding set_toMerkleInput[OF wf(1)] by fastforce
    then have "apply_diffs ?in (merkle_of sha ds) x = merkle_of sha ds x"
      using apply_diffs_unique[of x ?in "merkle_of sha ds x" "merkle_of sha ds"] by simp
    then show ?thesis using IH x by (simp add: merkle_of_snoc)
  qed
  ultimately show ?case by blast
qed

lemma merkle_of_cong:
  assumes "inj_on (\<lambda>(c, k). sha (c @ k)) T" and "list_all wf_chain ds" and "touched ds \<subseteq> T"
    and "list_all wf_chain ds'" and "touched ds' \<subseteq> T" and "state_of ds = state_of ds'"
  shows "merkle_of sha ds = merkle_of sha ds'"
proof
  fix x
  show "merkle_of sha ds x = merkle_of sha ds' x"
    using merkle_of_state[OF assms(1-3)] merkle_of_state[OF assms(1,4,5)] assms(6)
    by (cases "x \<in> (\<lambda>(c, k). sha (c @ k)) ` T") auto
qed

text \<open>
  C11. The state hash of a block is determined by the state after it. Take any two runs of the
  service, with any histories and any window sizes. If the states after two blocks agree, and no
  two contract and key pairs that the runs write share a trie key, \<open>GetStateHash\<close> returns the same
  hash for both blocks.
\<close>

theorem GetStateHash_determined_by_state:
  assumes "committed sha n grace s1 ds" and "committed sha n' grace' s2 ds'"
    and "length ds < 2 ^ 63" and "h \<le> length ds" and "length ds < h + unat n"
    and "length ds' < 2 ^ 63" and "h' \<le> length ds'" and "length ds' < h' + unat n'"
    and "WaitForBlock (ss_blockTracker s1) [] (of_nat h) = Some (Ok ())"
    and "WaitForBlock (ss_blockTracker s2) [] (of_nat h') = Some (Ok ())"
    and "inj_on (\<lambda>(c, k). sha (c @ k)) (touched ds \<union> touched ds')"
    and "state_of (take h ds) = state_of (take h' ds')"
  shows "\<exists>hash. GetStateHash s1 [] s1 (of_nat h) = Some (Ok hash) \<and> GetStateHash s2 [] s2 (of_nat h') = Some (Ok hash)"
proof -
  have get: "\<exists>r. GetStateHash s [] s (of_nat h) = Some (Ok r) \<and> is_trie_root sha (merkle_of sha (take h ds)) r"
    if c: "committed sha n grace s ds" and b: "length ds < 2 ^ 63" "h \<le> length ds" "length ds < h + unat n"
      and w: "WaitForBlock (ss_blockTracker s) [] (of_nat h) = Some (Ok ())" for n grace s ds h
  proof -
    note inv = committed_inv[OF c]
    have "storage_inv sha (ss_revisions s) ds" using inv by (simp add: service_inv_def)
    moreover have "\<not> of_nat h + ucast (ss_snapshotNum s) \<le> currentHeight (ss_revisions s)"
      using window_word[of h "length ds" n] b service_inv_height[OF inv] inv by (simp add: service_inv_def)
    ultimately show ?thesis
      using storage.getRevisionHash_ok[of sha "ss_revisions s" ds h] service_kept[OF inv b(3)] b w
      by (auto simp: GetStateHash_def)
  qed
  have sub: "touched (take h ds) \<subseteq> touched ds \<union> touched ds'" "touched (take h' ds') \<subseteq> touched ds \<union> touched ds'"
    by (auto simp: touched_def dest!: in_set_takeD)
  have "list_all wf_chain ds" "list_all wf_chain ds'"
    using committed_inv[OF assms(1)] committed_inv[OF assms(2)] by (auto simp: service_inv_def rr_inv_def heights_ok_def)
  then have "list_all wf_chain (take h ds)" "list_all wf_chain (take h' ds')"
    by (auto simp: list_all_iff dest!: in_set_takeD)
  then have "merkle_of sha (take h ds) = merkle_of sha (take h' ds')"
    using merkle_of_cong[OF assms(11) _ sub(1) _ sub(2) assms(12)] by blast
  then show ?thesis
    using get[OF assms(1,3,4,5,9)] get[OF assms(2,6,7,8,10)] is_trie_root_unique by metis
qed

theorem GetStateHash_determined_by_state_witness:
  "\<exists>hash. GetStateHash (demo_commit (demo_commit demo_start [9]) [4]) [] (demo_commit (demo_commit demo_start [9]) [4]) 2 = Some (Ok hash) \<and>
    GetStateHash (demo_commit demo_start [4]) [] (demo_commit demo_start [4]) 1 = Some (Ok hash)"
proof -
  let ?d = "\<lambda>v. inflateChainState (demo_diffs v)"
  have t: "touched [?d [9], ?d [4]] \<union> touched [?d [4]] \<subseteq> {([65], [66])}"
    by (auto simp: touched_def cs_get_demo split: if_splits)
  have inj: "inj_on (\<lambda>(c, k). demo_sha (c @ k)) (touched [?d [9], ?d [4]] \<union> touched [?d [4]])"
    by (rule inj_on_subset[OF _ t]) simp
  have "state_of (take 2 [?d [9], ?d [4]]) = state_of (take 1 [?d [4]])"
    by (auto simp: state_of_def state_apply_def cs_get_demo fun_eq_iff)
  then show ?thesis
    using GetStateHash_determined_by_state[OF committed_demo(2)[of "[9]" "[4]"] committed_demo(1)[of "[4]"], of 2 1]
      committed_wait[OF committed_demo(2)[of "[9]" "[4]"], of 2 "[]"] committed_wait[OF committed_demo(1)[of "[4]"], of 1 "[]"]
      inj
    by simp
qed

text \<open>
  \<open>GetLastCommittedBlockInfo\<close> reports the height and the timestamp of the last committed block,
  but not its proposer: \<open>addRevision\<close> does not set the current proposer, so the address reported
  is the one the service started with, empty, whoever proposed the block.
\<close>

lemma GetLastCommittedBlockInfo_stale_proposer:
  assumes "committed sha snapshotNum grace s ds" and "rbh_blockHeight header = of_nat (length ds) + 1"
    and "CommitStateDiff sha inMemory s \<lparr>csdi_resultsBlockHeader = Some header, csdi_contractStateDiffs = Some diffs\<rparr> = (s', r)"
  shows "GetLastCommittedBlockInfo s' = (rbh_blockHeight header, rbh_timestamp header, [])"
proof -
  note inv = committed_inv[OF assms(1)]
  have "service_inv sha snapshotNum s' (ds @ [inflateChainState diffs])" "currentTs (ss_revisions s') = rbh_timestamp header"
    using CommitStateDiff_next[OF inv, of header diffs] service_inv_height[OF inv] assms(2,3) by auto
  moreover from this(1) have "currentHeight (ss_revisions s') = rbh_blockHeight header"
    using service_inv_height assms(2) by fastforce
  ultimately show ?thesis by (simp add: GetLastCommittedBlockInfo_def service_inv_def)
qed

text \<open>
  The trie key of a record is the hash of the contract name and the key run together, with
  nothing between them. When one block writes two records whose names and keys run together to
  the same bytes, the content of the new trie, and with it the state hash, depends on the order
  in which \<open>toMerkleInput\<close> visits the Go map, which differs from node to node.
\<close>

lemma toMerkleInput_order_matters:
  assumes "c1 @ k1 = c2 @ k2" and "c1 \<noteq> c2" and "sha v1 \<noteq> sha v2"
    and "d = [(c1, [(k1, v1)]), (c2, [(k2, v2)])]" and "d' = [(c2, [(k2, v2)]), (c1, [(k1, v1)])]"
  shows "(\<forall>c k. cs_get d c k = cs_get d' c k) \<and>
    apply_diffs (toMerkleInput sha d) m (sha (c1 @ k1)) = sha v2 \<and>
    apply_diffs (toMerkleInput sha d') m (sha (c1 @ k1)) = sha v1 \<and>
    apply_diffs (toMerkleInput sha d) m \<noteq> apply_diffs (toMerkleInput sha d') m"
proof -
  have "apply_diffs (toMerkleInput sha d) m (sha (c1 @ k1)) = sha v2"
    "apply_diffs (toMerkleInput sha d') m (sha (c1 @ k1)) = sha v1"
    using assms(1) by (simp_all add: assms(4,5) toMerkleInput_def CalcSha256_def)
  then show ?thesis using assms(2,3) by (auto simp: assms(4,5) cs_get_def)
qed

end
