(* ===== verification/Bloom_Filter.thy ===== *)
theory Bloom_Filter
  imports Prelude
begin

text \<open>
  The timestamp bloom filter of \<open>crypto/bloom/timestamp.go\<close>: its sizing arithmetic on 32-bit words,
  insertion and membership, and the packing of the bits into bytes. Indexing out of range panics.
\<close>

unbundle bit_operations_syntax

record TimestampBloomFilter =
  bf_bitset :: "bool list"
  bf_size :: "32 word"
  bf_bitCount :: "8 word"

definition FNVMagicNumber :: "64 word" where
  "FNVMagicNumber = 0xAF63BD4C8601B7DF"

definition nextHighPowerOfTwo :: "32 word \<Rightarrow> 32 word" where
  "nextHighPowerOfTwo n0 =
     (let n = n0 - 1;
          n = n OR drop_bit 1 n;
          n = n OR drop_bit 2 n;
          n = n OR drop_bit 4 n;
          n = n OR drop_bit 8 n;
          n = n OR drop_bit 16 n
      in n + 1)"

function countLoop :: "32 word \<Rightarrow> 8 word \<Rightarrow> 8 word" where
  "countLoop n c = (if n > 1 then countLoop (drop_bit 1 n) (c + 1) else c)"
  by pat_completeness auto
termination
  by (relation "measure (\<lambda>(n, c). unat n)")
     (auto simp: drop_bit_eq_div unat_div word_less_nat_alt)

declare countLoop.simps [simp del]

definition countPowerOfTwoBit :: "32 word \<Rightarrow> 8 word" where
  "countPowerOfTwoBit n = countLoop n 0"

definition New_bloom :: "64 word \<Rightarrow> TimestampBloomFilter" where
  "New_bloom size0 =
     (let roundedSize = nextHighPowerOfTwo (ucast size0)
      in \<lparr> bf_bitset = replicate (unat roundedSize) False,
           bf_size = roundedSize,
           bf_bitCount = countPowerOfTwoBit roundedSize \<rparr>)"

definition bits_of_byte :: "byte \<Rightarrow> bool list" where
  "bits_of_byte b = map (\<lambda>j. b AND push_bit j 1 \<noteq> 0) (rev [0..<8])"

definition NewFromRaw :: "bytes \<Rightarrow> TimestampBloomFilter" where
  "NewFromRaw raw =
     (let size0 = (of_nat (length raw * 8) :: 32 word)
      in \<lparr> bf_bitset = concat (map bits_of_byte raw),
           bf_size = size0,
           bf_bitCount = countPowerOfTwoBit size0 \<rparr>)"

definition hash_bloom :: "TimestampBloomFilter \<Rightarrow> TimestampNano \<Rightarrow> 64 word" where
  "hash_bloom bf v =
     (let s = unat (64 - bf_bitCount bf)
      in drop_bit s (push_bit s (FNVMagicNumber XOR v)))"

definition Add_bloom :: "TimestampBloomFilter \<Rightarrow> TimestampNano \<Rightarrow> (unit, TimestampBloomFilter) result" where
  "Add_bloom bf timeStamp =
     (let loc = unat (hash_bloom bf timeStamp)
      in if loc < length (bf_bitset bf) then Ok (bf \<lparr> bf_bitset := (bf_bitset bf)[loc := True] \<rparr>) else Panic)"

definition Test_bloom :: "TimestampBloomFilter \<Rightarrow> TimestampNano \<Rightarrow> (unit, bool) result" where
  "Test_bloom bf timeStamp =
     (let loc = unat (hash_bloom bf timeStamp)
      in if loc < length (bf_bitset bf) then Ok (bf_bitset bf ! loc) else Panic)"

fun orMasks :: "nat \<Rightarrow> bool list \<Rightarrow> byte \<Rightarrow> byte" where
  "orMasks l [] r = r"
| "orMasks l (b # bs) r = orMasks (l - 1) bs (if b then r OR push_bit l 1 else r)"

definition boolSliceToByte :: "bool list \<Rightarrow> byte" where
  "boolSliceToByte bools = (if length bools > 8 then 0 else orMasks (length bools - 1) bools 0)"

fun rawLoop :: "nat \<Rightarrow> nat \<Rightarrow> bool list \<Rightarrow> (unit, bytes) result" where
  "rawLoop i 0 bs = Ok []"
| "rawLoop i (Suc m) bs =
     (let endOfSlice = min ((i + 1) * 8) (length bs)
      in if i * 8 > endOfSlice then Panic
         else bind_result (rawLoop (Suc i) m bs)
                (\<lambda>out. Ok (boolSliceToByte (drop (i * 8) (take endOfSlice bs)) # out)))"

definition Raw_bloom :: "TimestampBloomFilter \<Rightarrow> (unit, bytes) result" where
  "Raw_bloom bf =
     (let byteCount = (if bf_size bf \<le> 8 then 1 else unat (bf_size bf div 8))
      in rawLoop 0 byteCount (bf_bitset bf))"

fun equalsLoop :: "bool list \<Rightarrow> bool list \<Rightarrow> (unit, bool) result" where
  "equalsLoop [] other = Ok True"
| "equalsLoop (b # bs) [] = Panic"
| "equalsLoop (b # bs) (c # cs) = (if b \<noteq> c then Ok False else equalsLoop bs cs)"

definition Equals_bloom :: "TimestampBloomFilter \<Rightarrow> TimestampBloomFilter \<Rightarrow> (unit, bool) result" where
  "Equals_bloom bf other =
     (if bf_size bf \<noteq> bf_size other then Ok False else equalsLoop (bf_bitset bf) (bf_bitset other))"

subsection \<open>Sizing\<close>

lemma bit_or_drop: "bit (n OR drop_bit m n) i \<longleftrightarrow> bit n i \<or> bit (n :: 32 word) (m + i)"
  by (simp add: bit_or_iff bit_drop_bit_eq)

definition spread :: "nat \<Rightarrow> 32 word \<Rightarrow> 32 word \<Rightarrow> bool" where
  "spread m n0 n \<longleftrightarrow> (\<forall>i. bit n i \<longleftrightarrow> (\<exists>j < m. bit n0 (i + j)))"

lemma spread_step:
  assumes "spread m n0 n" shows "spread (2 * m) n0 (n OR drop_bit m n)"
proof -
  have "(\<exists>j<m. P (i + j)) \<or> (\<exists>j<m. P (m + i + j)) \<longleftrightarrow> (\<exists>j<2 * m. P (i + j))" for P :: "nat \<Rightarrow> bool" and i
  proof
    assume "\<exists>j<2 * m. P (i + j)"
    then obtain j where j: "j < 2 * m" "P (i + j)" by blast
    show "(\<exists>j<m. P (i + j)) \<or> (\<exists>j<m. P (m + i + j))"
    proof (cases "j < m")
      case False
      then have "j - m < m" "m + i + (j - m) = i + j" using j by auto
      then show ?thesis using j by metis
    qed (use j in blast)
  next
    assume "(\<exists>j<m. P (i + j)) \<or> (\<exists>j<m. P (m + i + j))"
    then show "\<exists>j<2 * m. P (i + j)"
    proof
      assume "\<exists>j<m. P (m + i + j)"
      then obtain j where "j < m" "P (i + (m + j))" by (auto simp: ac_simps)
      then show ?thesis by (intro exI[of _ "m + j"]) auto
    next
      assume "\<exists>j<m. P (i + j)"
      then obtain j where "j < m" "P (i + j)" by blast
      then show ?thesis by (intro exI[of _ j]) auto
    qed
  qed
  then show ?thesis using assms unfolding spread_def by (simp add: bit_or_drop)
qed


lemma nextHighPowerOfTwo_bits:
  assumes "i < 32"
  shows "bit (nextHighPowerOfTwo n - 1) i \<longleftrightarrow> (\<exists>j \<ge> i. bit (n - 1) j)"
proof -
  define n0 where "n0 = n - 1"
  define n1 where "n1 = n0 OR drop_bit 1 n0"
  define n2 where "n2 = n1 OR drop_bit 2 n1"
  define n3 where "n3 = n2 OR drop_bit 4 n2"
  define n4 where "n4 = n3 OR drop_bit 8 n3"
  define n5 where "n5 = n4 OR drop_bit 16 n4"
  have "spread 1 n0 n0" by (simp add: spread_def)
  then have "spread 2 n0 n1" using spread_step[of 1 n0 n0] by (simp add: n1_def)
  then have "spread 4 n0 n2" using spread_step[of 2 n0 n1] by (simp add: n2_def)
  then have "spread 8 n0 n3" using spread_step[of 4 n0 n2] by (simp add: n3_def)
  then have "spread 16 n0 n4" using spread_step[of 8 n0 n3] by (simp add: n4_def)
  then have s: "spread 32 n0 n5" using spread_step[of 16 n0 n4] by (simp add: n5_def)
  have "nextHighPowerOfTwo n - 1 = n5"
    by (simp add: nextHighPowerOfTwo_def Let_def n0_def n1_def n2_def n3_def n4_def n5_def)
  moreover have "(\<exists>j<32. bit n0 (i + j)) \<longleftrightarrow> (\<exists>j \<ge> i. bit n0 j)"
  proof
    assume "\<exists>j \<ge> i. bit n0 j"
    then obtain j where "i \<le> j" "bit n0 j" by blast
    moreover from this have "j < 32" using bit_imp_le_length[of n0 j] by simp
    ultimately show "\<exists>j<32. bit n0 (i + j)" by (intro exI[of _ "j - i"]) auto
  qed (use le_add1 in blast)
  ultimately show ?thesis using s by (simp add: spread_def n0_def)
qed

lemma no_bits_above_iff: "(\<exists>j \<ge> i. bit x j) \<longleftrightarrow> \<not> unat (x :: 32 word) < 2 ^ i"
proof -
  have "unat x < 2 ^ i \<longleftrightarrow> take_bit i (unat x) = unat x" by (simp add: take_bit_nat_eq_self_iff)
  also have "\<dots> \<longleftrightarrow> (\<forall>j. (j < i \<and> bit (unat x) j) = bit (unat x) j)" by (simp add: bit_eq_iff bit_take_bit_iff)
  finally show ?thesis by (simp add: bit_unsigned_iff) (metis bit_imp_le_length not_less)
qed

lemma nextHighPowerOfTwo_correct:
  assumes "0 < n" "unat n \<le> 2 ^ 31"
  shows "\<exists>k \<le> 31. nextHighPowerOfTwo n = 2 ^ k \<and> unat n \<le> 2 ^ k \<and> (k = 0 \<or> 2 ^ (k - 1) < unat n)"
proof -
  define x where "x = n - 1"
  have ux: "unat x = unat n - 1" "unat n > 0"
    using assms(1) by (simp_all add: x_def unat_sub word_le_nat_alt word_less_nat_alt)
  define k where "k = (LEAST k. unat x < 2 ^ k)"
  have ex: "unat x < 2 ^ 31" using ux assms(2) by simp
  have up: "unat x < 2 ^ k" unfolding k_def by (rule LeastI [of _ 31]) (rule ex)
  have k31: "k \<le> 31" unfolding k_def by (rule Least_le) (rule ex)
  have low: "\<not> unat x < 2 ^ i" if "i < k" for i using that not_less_Least unfolding k_def by blast
  have iff: "\<not> unat x < 2 ^ i \<longleftrightarrow> i < k" for i
  proof (cases "i < k")
    case False
    then have "(2 :: nat) ^ k \<le> 2 ^ i" by (intro power_increasing) auto
    then have "unat x < 2 ^ i" using up by (rule less_le_trans [rotated])
    then show ?thesis using False by blast
  qed (use low in blast)
  have "nextHighPowerOfTwo n - 1 = mask k"
    by (rule bit_word_eqI)
       (use k31 in \<open>simp add: nextHighPowerOfTwo_bits bit_mask_iff no_bits_above_iff iff flip: x_def\<close>)
  then have "nextHighPowerOfTwo n = mask k + 1" by (simp add: diff_eq_eq)
  then have "nextHighPowerOfTwo n = 2 ^ k" by (simp add: mask_eq_exp_minus_1)
  moreover have "unat n \<le> 2 ^ k" using up ux by simp
  moreover have "k = 0 \<or> 2 ^ (k - 1) < unat n" using low [of "k - 1"] ux by (cases k) auto
  ultimately show ?thesis using k31 by blast
qed

lemma unat_pow2: "k < 32 \<Longrightarrow> unat (2 ^ k :: 32 word) = 2 ^ k"
  using unat_of_nat_small [of "2 ^ k", where 'a = 32] power_strict_increasing [of k 32 "2 :: nat"] by simp

lemma countLoop_pow: "k < 32 \<Longrightarrow> countLoop (2 ^ k) c = c + of_nat k"
proof (induction k arbitrary: c)
  case (Suc k)
  have "drop_bit 1 (2 ^ Suc k :: 32 word) = 2 ^ k"
    using Suc.prems unat_pow2 [of "Suc k"] unat_pow2 [of k]
    by (intro word_unat_eq_iff [THEN iffD2]) (simp add: drop_bit_eq_div unat_div del: power_Suc, simp)
  moreover have "1 < (2 ^ Suc k :: 32 word)"
    using Suc.prems unat_pow2 [of "Suc k"] one_less_power [of "2 :: nat" "Suc k"]
    by (simp only: word_less_nat_alt unat_1)
  ultimately show ?case using Suc by (subst countLoop.simps) (simp del: power_Suc add: ac_simps)
qed (simp add: countLoop.simps)

subsection \<open>Membership\<close>

definition bloom_ok :: "nat \<Rightarrow> TimestampBloomFilter \<Rightarrow> bool" where
  "bloom_ok k bf \<longleftrightarrow> k < 32 \<and> bf_size bf = 2 ^ k \<and> bf_bitCount bf = of_nat k \<and> length (bf_bitset bf) = 2 ^ k"

lemma hash_bloom_mod:
  assumes "bloom_ok k bf" shows "hash_bloom bf v = take_bit k (FNVMagicNumber XOR v)"
proof -
  have "unat (64 - bf_bitCount bf) = 64 - k"
    using assms by (simp add: bloom_ok_def unat_sub word_le_nat_alt unat_of_nat_small)
  then show ?thesis using assms
    by (intro bit_word_eqI) (auto simp: bloom_ok_def hash_bloom_def Let_def bit_simps)
qed

lemma hash_bloom_less: "bloom_ok k bf \<Longrightarrow> unat (hash_bloom bf v) < length (bf_bitset bf)"
proof -
  have "unat (take_bit k (x :: 64 word)) < 2 ^ k" for x by (simp only: unsigned_take_bit_eq take_bit_nat_less_exp)
  moreover assume "bloom_ok k bf"
  ultimately show ?thesis using hash_bloom_mod [of k bf v] by (simp only: bloom_ok_def)
qed

lemma hash_bloom_same: "bloom_ok k bf \<Longrightarrow> bloom_ok k bf' \<Longrightarrow> hash_bloom bf' v = hash_bloom bf v"
  by (simp add: hash_bloom_mod)

lemma New_bloom_ok:
  assumes "0 < size0" "unat size0 \<le> 2 ^ 31"
  shows "\<exists>k. bloom_ok k (New_bloom size0) \<and> unat size0 \<le> 2 ^ k"
proof -
  have u: "unat (ucast size0 :: 32 word) = unat size0"
    using assms(2) by (simp add: unsigned_ucast_eq take_bit_nat_eq_self)
  have "0 < (ucast size0 :: 32 word)" using assms(1) u by (simp add: word_less_nat_alt)
  then obtain k where "k \<le> 31" "nextHighPowerOfTwo (ucast size0) = 2 ^ k" "unat size0 \<le> 2 ^ k"
    using nextHighPowerOfTwo_correct [of "ucast size0"] u assms(2) by auto
  then show ?thesis
    by (intro exI [of _ k]) (simp add: bloom_ok_def New_bloom_def Let_def unat_pow2 countPowerOfTwoBit_def countLoop_pow)
qed

lemma Add_bloom_ok:
  assumes "bloom_ok k bf"
  obtains bf' where "Add_bloom bf t = Ok bf'" "bloom_ok k bf'" "Test_bloom bf' t = Ok True"
    "\<And>u. Test_bloom bf u = Ok True \<Longrightarrow> Test_bloom bf' u = Ok True"
proof
  let ?bf = "bf \<lparr> bf_bitset := (bf_bitset bf)[unat (hash_bloom bf t) := True] \<rparr>"
  have ok: "bloom_ok k ?bf" using assms by (simp add: bloom_ok_def)
  note same = hash_bloom_same [OF assms ok] and less = hash_bloom_less [OF assms]
  show "Add_bloom bf t = Ok ?bf" using less by (simp add: Add_bloom_def Let_def)
  show "bloom_ok k ?bf" by (rule ok)
  show "Test_bloom ?bf t = Ok True" using less by (simp add: Test_bloom_def same)
  show "Test_bloom ?bf u = Ok True" if "Test_bloom bf u = Ok True" for u
    using that less by (simp add: Test_bloom_def Let_def same nth_list_update)
qed

fun addAll :: "TimestampBloomFilter \<Rightarrow> TimestampNano list \<Rightarrow> (unit, TimestampBloomFilter) result" where
  "addAll bf [] = Ok bf"
| "addAll bf (t # ts) = bind_result (Add_bloom bf t) (\<lambda>bf'. addAll bf' ts)"

lemma addAll_ok:
  assumes "bloom_ok k bf"
  shows "\<exists>bf'. addAll bf ts = Ok bf' \<and> bloom_ok k bf' \<and>
    (\<forall>u. u \<in> set ts \<or> Test_bloom bf u = Ok True \<longrightarrow> Test_bloom bf' u = Ok True)"
  using assms
proof (induction ts arbitrary: bf)
  case (Cons t ts)
  obtain bf1 where 1: "Add_bloom bf t = Ok bf1" "bloom_ok k bf1" "Test_bloom bf1 t = Ok True"
    "\<And>u. Test_bloom bf u = Ok True \<Longrightarrow> Test_bloom bf1 u = Ok True" using Add_bloom_ok [OF Cons.prems, of t thesis] by blast
  from Cons.IH [OF 1(2)] obtain bf2 where "addAll bf1 ts = Ok bf2" "bloom_ok k bf2"
    "\<forall>u. u \<in> set ts \<or> Test_bloom bf1 u = Ok True \<longrightarrow> Test_bloom bf2 u = Ok True" by blast
  with 1 show ?case by (intro exI [of _ bf2]) auto
qed auto

text \<open>
  C16. A bloom filter made by \<open>New\<close> for a size between 1 and $2^{31}$ takes every sequence of timestamps
  without panicking, and afterwards tests true on each of them: no false negatives.
\<close>

theorem bloom_no_false_negatives:
  assumes "0 < size0" "unat size0 \<le> 2 ^ 31"
  shows "\<exists>bf. addAll (New_bloom size0) ts = Ok bf \<and> (\<forall>u. u \<in> set ts \<longrightarrow> Test_bloom bf u = Ok True)"
  using New_bloom_ok [OF assms] addAll_ok by metis

theorem bloom_no_false_negatives_witness:
  "\<exists>bf. addAll (New_bloom 100) [5, 7] = Ok bf \<and> (\<forall>u. u \<in> set [5, 7] \<longrightarrow> Test_bloom bf u = Ok True)"
  by (rule bloom_no_false_negatives) simp_all

subsection \<open>The packed form\<close>

lemma bit_orMasks:
  "length bs \<le> 8 \<Longrightarrow> bit (orMasks (length bs - 1) bs r) j \<longleftrightarrow>
    bit r j \<or> j < length bs \<and> bs ! (length bs - 1 - j)"
proof (induction bs arbitrary: r)
  case (Cons b bs)
  let ?r = "if b then r OR push_bit (length bs) 1 else r"
  have r: "bit ?r j \<longleftrightarrow> bit r j \<or> b \<and> j = length bs"
    using Cons.prems by (auto simp: bit_or_iff bit_exp_iff)
  have "bit (orMasks (length (b # bs) - 1) (b # bs) r) j \<longleftrightarrow>
      bit ?r j \<or> j < length bs \<and> bs ! (length bs - 1 - j)"
    using Cons.IH [of ?r] Cons.prems by simp
  then show ?case unfolding r by (cases "j = length bs") (auto simp: nth_Cons')
qed simp

lemma bits_of_boolSlice:
  assumes "length bs = 8" shows "bits_of_byte (boolSliceToByte bs) = bs"
proof (rule nth_equalityI)
  fix i assume "i < length (bits_of_byte (boolSliceToByte bs))"
  then have i: "i < 8" by (simp add: bits_of_byte_def)
  have "bits_of_byte (boolSliceToByte bs) ! i \<longleftrightarrow> bit (boolSliceToByte bs) (7 - i)"
    using i by (simp add: bits_of_byte_def rev_nth bit_iff_and_push_bit_not_eq_0)
  also have "\<dots> \<longleftrightarrow> bs ! i"
    using i assms bit_orMasks [of bs 0 "7 - i"] less_imp_diff_less [of 7 8 i] by (simp add: boolSliceToByte_def)
  finally show "bits_of_byte (boolSliceToByte bs) ! i = bs ! i" .
qed (use assms in \<open>simp add: bits_of_byte_def\<close>)

lemma rawLoop_bits:
  "length bs = 8 * (i + m) \<Longrightarrow> \<exists>raw. rawLoop i m bs = Ok raw \<and> length raw = m \<and> concat (map bits_of_byte raw) = drop (8 * i) bs"
proof (induction i m bs rule: rawLoop.induct)
  case (2 i m bs)
  let ?s = "drop (i * 8) (take (min ((i + 1) * 8) (length bs)) bs)"
  have "length ?s = 8" using 2(2) by simp
  moreover have "?s @ drop (8 * Suc i) bs = drop (8 * i) bs"
  proof -
    have "?s = take 8 (drop (8 * i) bs)" using 2(2) by (simp add: drop_take mult.commute)
    moreover have "drop (8 * Suc i) bs = drop 8 (drop (8 * i) bs)" by (simp add: add.commute)
    ultimately show ?thesis by (simp only: append_take_drop_id)
  qed
  moreover obtain raw where "rawLoop (Suc i) m bs = Ok raw" "length raw = m"
    "concat (map bits_of_byte raw) = drop (8 * Suc i) bs" using 2 by auto
  ultimately show ?case using 2(2)
    by (intro exI [of _ "boolSliceToByte ?s # raw"]) (simp add: Let_def bits_of_boolSlice)
qed simp

text \<open>
  Packing a well-formed filter of at least eight bits with \<open>Raw\<close> and reading it back with
  \<open>NewFromRaw\<close> gives the same filter, so that \<open>Equals\<close> holds and every test is unchanged.
\<close>

lemma bloom_raw_roundtrip:
  assumes "bloom_ok k bf" "3 \<le> k"
  shows "\<exists>raw. Raw_bloom bf = Ok raw \<and> length raw = 2 ^ (k - 3) \<and> NewFromRaw raw = bf"
proof -
  obtain m where m: "k = m + 3" using assms(2) by (metis add.commute le_Suc_ex)
  have p: "(2 :: nat) ^ k = 8 * 2 ^ m" by (simp add: m power_add)
  have ub: "unat (bf_size bf) = 8 * 2 ^ m" using assms(1) unat_pow2 [of k] p by (simp add: bloom_ok_def)
  have cnt: "(if bf_size bf \<le> 8 then 1 else unat (bf_size bf div 8)) = 2 ^ m"
  proof (cases m)
    case (Suc n)
    have "\<not> 2 * 2 ^ n \<le> Suc 0" by (induction n) auto
    then show ?thesis using ub Suc by (simp add: word_le_nat_alt unat_div)
  qed (use ub in \<open>simp add: word_le_nat_alt\<close>)
  obtain raw where r: "rawLoop 0 (2 ^ m) (bf_bitset bf) = Ok raw" "length raw = 2 ^ m"
    "concat (map bits_of_byte raw) = bf_bitset bf"
    using rawLoop_bits [of "bf_bitset bf" 0 "2 ^ m"] assms(1) p by (auto simp: bloom_ok_def)
  have "(of_nat (length raw * 8) :: 32 word) = of_nat (2 ^ k)" by (simp only: r p mult.commute)
  then have "(of_nat (length raw * 8) :: 32 word) = 2 ^ k" by simp
  then show ?thesis using r cnt assms(1) m
    by (intro exI [of _ raw])
       (simp add: Raw_bloom_def NewFromRaw_def bloom_ok_def countPowerOfTwoBit_def countLoop_pow)
qed

end
