(* ===== verification/Hex_Encoding.thy ===== *)
theory Hex_Encoding
  imports Prelude
begin

text \<open>
  The checksummed hexadecimal encoding of \<open>crypto/encoding/hex.go\<close>. Strings are byte lists. The
  functions of Go's \<open>encoding/hex\<close> and \<open>strings\<close> that it calls are modelled on ASCII input, which is
  all that reaches them: a string that is not hexadecimal is refused before its case is looked at.
\<close>

unbundle bit_operations_syntax

datatype hexError = InvalidHexString | InvalidChecksum

definition hexDigit :: "byte \<Rightarrow> byte" where
  "hexDigit n = (if n < 10 then 48 + n else 87 + n)"

definition hexEncodeToString :: "bytes \<Rightarrow> bytes" where
  "hexEncodeToString data = concat (map (\<lambda>b. [hexDigit (drop_bit 4 b), hexDigit (b AND 15)]) data)"

definition fromHexChar :: "byte \<Rightarrow> byte option" where
  "fromHexChar c =
     (if 48 \<le> c \<and> c \<le> 57 then Some (c - 48)
      else if 97 \<le> c \<and> c \<le> 102 then Some (c - 97 + 10)
      else if 65 \<le> c \<and> c \<le> 70 then Some (c - 65 + 10)
      else None)"

fun hexDecodeString :: "bytes \<Rightarrow> bytes option" where
  "hexDecodeString [] = Some []"
| "hexDecodeString [c] = None"
| "hexDecodeString (c # d # rest) =
     (case (fromHexChar c, fromHexChar d, hexDecodeString rest) of
        (Some a, Some b, Some bs) \<Rightarrow> Some ((push_bit 4 a OR b) # bs)
      | _ \<Rightarrow> None)"

definition toUpper :: "bytes \<Rightarrow> bytes" where
  "toUpper = map (\<lambda>c. if 97 \<le> c \<and> c \<le> 122 then c - 32 else c)"

definition toLower :: "bytes \<Rightarrow> bytes" where
  "toLower = map (\<lambda>c. if 65 \<le> c \<and> c \<le> 90 then c + 32 else c)"

definition checksumChar :: "bytes \<Rightarrow> nat \<Rightarrow> byte \<Rightarrow> byte" where
  "checksumChar hashed i c =
     (let hashByte = hashed ! ((i div 2) mod SHA256_HASH_SIZE_BYTES);
          hashByte = (if i mod 2 = 0 then drop_bit 4 hashByte else hashByte AND 15)
      in if c > 57 \<and> hashByte > 7 then c - 32 else c)"

definition EncodeHex :: "hasher \<Rightarrow> bytes \<Rightarrow> bytes" where
  "EncodeHex sha data =
     (let result = hexEncodeToString data; hashed = CalcSha256 sha [data]
      in [48, 120] @ map (\<lambda>i. checksumChar hashed i (result ! i)) [0..<length result])"

definition DecodeHex :: "hasher \<Rightarrow> bytes \<Rightarrow> bytes \<times> hexError option" where
  "DecodeHex sha str0 =
     (let str = (if take 2 str0 = [48, 120] then drop 2 str0 else str0)
      in case hexDecodeString str of
           None \<Rightarrow> ([], Some InvalidHexString)
         | Some data \<Rightarrow>
             if drop 2 (EncodeHex sha data) \<noteq> str
             then if toUpper str = str \<or> toLower str = str then (data, None) else (data, Some InvalidChecksum)
             else (data, None))"

text \<open>A character and its checksummed form denote one hexadecimal digit.\<close>

lemma and_15: "b AND 15 = take_bit 4 (b :: byte)"
  by (simp add: take_bit_eq_mask mask_eq_exp_minus_1)

lemma nibble_less: "drop_bit 4 (b :: byte) < 16" "(b AND 15) < 16"
proof -
  have "unat b < 256" by (rule less_le_trans [OF unsigned_less]) simp
  then show "drop_bit 4 b < 16" by (simp add: word_less_nat_alt drop_bit_eq_div unat_div)
  have "unat (take_bit 4 b) < 2 ^ 4" by (simp only: unsigned_take_bit_eq take_bit_nat_less_exp)
  then show "(b AND 15) < 16" by (simp add: and_15 word_less_nat_alt)
qed

lemma join_nibbles: "push_bit 4 (drop_bit 4 b) OR (b AND 15) = (b :: byte)"
  unfolding and_15 by (rule bit_word_eqI) (auto simp: bit_or_iff bit_push_bit_iff bit_drop_bit_eq bit_take_bit_iff possible_bit_word simp del: push_bit_numeral)

lemma hex_digits_table:
  "list_all (\<lambda>n. fromHexChar (hexDigit n) = Some n \<and> (hexDigit n > 57 \<longrightarrow> fromHexChar (hexDigit n - 32) = Some n))
     (map (of_nat :: nat \<Rightarrow> byte) [0..<16])"
  by code_simp

lemma fromHexChar_checksum:
  assumes "n < 16" shows "fromHexChar (checksumChar hashed i (hexDigit n)) = Some n"
proof -
  have "unat n < 16" using assms by (simp add: word_less_nat_alt)
  then have "n \<in> set (map of_nat [0..<16])" by (auto intro!: image_eqI [of _ _ "unat n"])
  with hex_digits_table have "fromHexChar (hexDigit n) = Some n"
    "hexDigit n > 57 \<Longrightarrow> fromHexChar (hexDigit n - 32) = Some n"
    unfolding list_all_iff by blast+
  then show ?thesis unfolding checksumChar_def Let_def by (simp split: if_splits)
qed

text \<open>The checksummed text as a recursion over the data, two characters per byte.\<close>

lemma length_hexEncode [simp]: "length (hexEncodeToString data) = 2 * length data"
  by (induction data) (auto simp: hexEncodeToString_def)

lemma hexDecode_checksum:
  "hexDecodeString (map (\<lambda>i. checksumChar hashed (k + i) (hexEncodeToString data ! i)) [0..<2 * length data]) = Some data"
proof (induction data arbitrary: k)
  case (Cons b data)
  have enc: "hexEncodeToString (b # data) = hexDigit (drop_bit 4 b) # hexDigit (b AND 15) # hexEncodeToString data"
    by (simp add: hexEncodeToString_def)
  have upt: "[0..<2 * length (b # data)] = 0 # 1 # map (\<lambda>i. i + 2) [0..<2 * length data]"
    unfolding map_add_upt by (simp add: upt_conv_Cons numeral_2_eq_2 del: upt_Suc)
  have "map (\<lambda>i. checksumChar hashed (k + i) (hexEncodeToString (b # data) ! i)) [0..<2 * length (b # data)] =
      checksumChar hashed k (hexDigit (drop_bit 4 b)) # checksumChar hashed (k + 1) (hexDigit (b AND 15)) #
      map (\<lambda>i. checksumChar hashed (k + 2 + i) (hexEncodeToString data ! i)) [0..<2 * length data]"
    unfolding upt enc by (simp add: o_def ac_simps)
  then show ?case using Cons [of "k + 2"] by (simp add: fromHexChar_checksum nibble_less join_nibbles)
qed simp

text \<open>
  \<open>DecodeHex\<close> inverts \<open>EncodeHex\<close>: every byte string encodes to a text that decodes to it, with a
  valid checksum, whatever the hash function.
\<close>

lemma DecodeHex_EncodeHex:
  "DecodeHex sha (EncodeHex sha data) = (data, None)"
proof -
  have "drop 2 (EncodeHex sha data) =
      map (\<lambda>i. checksumChar (CalcSha256 sha [data]) (0 + i) (hexEncodeToString data ! i)) [0..<2 * length data]"
    by (simp add: EncodeHex_def)
  then have "hexDecodeString (drop 2 (EncodeHex sha data)) = Some data" by (simp only: hexDecode_checksum)
  moreover have "take 2 (EncodeHex sha data) = [48, 120]" by (simp add: EncodeHex_def)
  ultimately show ?thesis by (simp add: DecodeHex_def)
qed

end
