(* ===== verification/Byte_Words.thy ===== *)
theory Byte_Words
  imports Prelude
begin

text \<open>
  Little-endian 64-bit words over bytes, and the word-at-a-time exclusive or of
  \<open>crypto/logic/xor.go\<close> with its equivalence to the byte-at-a-time one.
\<close>

unbundle bit_operations_syntax

definition load64 :: "bytes \<Rightarrow> 64 word" where
  "load64 bs = foldr (\<lambda>b acc. ucast b OR push_bit 8 acc) (take 8 bs) 0"

definition store64 :: "64 word \<Rightarrow> bytes" where
  "store64 v = map (\<lambda>k. ucast (drop_bit (8 * k) v)) [0..<8]"

lemma length_store64 [simp]: "length (store64 v) = 8"
  by (simp add: store64_def)

lemma bit_store64: "k < 8 \<Longrightarrow> bit (store64 v ! k) j \<longleftrightarrow> j < 8 \<and> bit v (8 * k + j)"
  by (simp add: store64_def bit_simps)

lemma bit_fold_bytes:
  "bit (foldr (\<lambda>b acc. ucast b OR push_bit 8 acc) (bs :: bytes) (0 :: 'a::len word)) n \<longleftrightarrow>
   n < LENGTH('a) \<and> n div 8 < length bs \<and> bit (bs ! (n div 8)) (n mod 8)"
proof (induction bs arbitrary: n)
  case (Cons b bs)
  have small: "\<not> bit b n" if "8 \<le> n" using that bit_imp_le_length [of b n] by auto
  show ?case
  proof (cases "n < 8")
    case True
    then show ?thesis by (simp add: bit_simps)
  next
    case False
    then have "n div 8 = Suc ((n - 8) div 8)" "(n - 8) mod 8 = n mod 8" by (auto simp: le_div_geq le_mod_geq)
    then show ?thesis using False Cons [of "n - 8"] small by (auto simp: bit_simps)
  qed
qed simp

lemma bit_load64:
  "length bs \<ge> 8 \<Longrightarrow> bit (load64 bs) n \<longleftrightarrow> n < 64 \<and> bit (bs ! (n div 8)) (n mod 8)"
  by (auto simp: load64_def bit_fold_bytes)

lemma load64_store64 [simp]: "load64 (store64 v @ rest) = v"
proof (rule bit_word_eqI)
  fix n assume "n < LENGTH(64)"
  then have "n < 64" "n div 8 < 8" by auto
  then show "bit (load64 (store64 v @ rest)) n = bit v n"
    by (simp add: bit_load64 nth_append bit_store64)
qed

text \<open>The same for 32-bit words.\<close>

definition load32 :: "bytes \<Rightarrow> 32 word" where
  "load32 bs = foldr (\<lambda>b acc. ucast b OR push_bit 8 acc) (take 4 bs) 0"

definition store32 :: "32 word \<Rightarrow> bytes" where
  "store32 v = map (\<lambda>k. ucast (drop_bit (8 * k) v)) [0..<4]"

lemma length_store32 [simp]: "length (store32 v) = 4"
  by (simp add: store32_def)

lemma load32_store32 [simp]: "load32 (store32 v @ rest) = v" "load32 (store32 v) = v"
proof -
  show "load32 (store32 v @ rest) = v" for rest
  proof (rule bit_word_eqI)
    fix n assume "n < LENGTH(32)"
    then have "n < 32" "n div 8 < 4" by auto
    then show "bit (load32 (store32 v @ rest)) n = bit v n"
      by (simp add: load32_def bit_fold_bytes nth_append store32_def bit_simps)
  qed
  from this [of "[]"] show "load32 (store32 v) = v" by simp
qed

lemma load32_inject:
  assumes "load32 a = load32 b" "length a = 4" "length b = 4"
  shows "a = b"
proof (rule nth_equalityI)
  fix k assume k: "k < length a"
  show "a ! k = b ! k"
  proof (rule bit_word_eqI)
    fix j assume j: "j < LENGTH(8)"
    then have "(8 * k + j) div 8 = k" "(8 * k + j) mod 8 = j" "8 * k + j < 32" using k assms(2) by auto
    then show "bit (a ! k) j = bit (b ! k) j"
      using arg_cong [OF assms(1), of "\<lambda>w. bit w (8 * k + j)"] k assms(2,3) by (simp add: load32_def bit_fold_bytes)
  qed
qed (use assms in simp)

lemma store64_xor:
  assumes "length a \<ge> 8" "length b \<ge> 8" "k < 8"
  shows "store64 (load64 a XOR load64 b) ! k = a ! k XOR b ! k"
  by (rule bit_word_eqI) (use assms in \<open>simp add: bit_store64 bit_xor_iff bit_load64\<close>)

definition wordSize :: nat where
  "wordSize = 8"

text \<open>
  \<open>dw[i] = aw[i] ^ bw[i]\<close> on the slices viewed as 64-bit words: it reads and writes bytes
  \<open>8 i .. 8 i + 7\<close>.
\<close>

fun xor_words :: "nat \<Rightarrow> nat \<Rightarrow> bytes \<Rightarrow> bytes \<Rightarrow> bytes \<Rightarrow> bytes" where
  "xor_words i 0 dst a b = dst"
| "xor_words i (Suc m) dst a b =
     xor_words (Suc i) m
       (take (8 * i) dst @ store64 (load64 (drop (8 * i) a) XOR load64 (drop (8 * i) b)) @ drop (8 * i + 8) dst) a b"

fun xor_bytes :: "nat \<Rightarrow> nat \<Rightarrow> bytes \<Rightarrow> bytes \<Rightarrow> bytes \<Rightarrow> bytes" where
  "xor_bytes i 0 dst a b = dst"
| "xor_bytes i (Suc m) dst a b = xor_bytes (Suc i) m (dst[i := a ! i XOR b ! i]) a b"

text \<open>Both routines return the destination and the count; too short a destination panics.\<close>

definition fastXORBytes :: "bytes \<Rightarrow> bytes \<Rightarrow> bytes \<Rightarrow> (unit, bytes \<times> nat) result" where
  "fastXORBytes dst a b =
     (let n = (if length b < length a then length b else length a)
      in if n = 0 then Ok (dst, 0)
         else if length dst \<le> n - 1 then Panic
         else let w = n div wordSize;
                  dst1 = (if w > 0 then xor_words 0 w dst a b else dst)
              in Ok (xor_bytes (n - n mod wordSize) (n mod wordSize) dst1 a b, n))"

definition safeXORBytes :: "bytes \<Rightarrow> bytes \<Rightarrow> bytes \<Rightarrow> (unit, bytes \<times> nat) result" where
  "safeXORBytes dst a b =
     (let n = (if length b < length a then length b else length a)
      in if length dst < n then Panic else Ok (xor_bytes 0 n dst a b, n))"

definition CalcXor :: "bool \<Rightarrow> bytes \<Rightarrow> bytes \<Rightarrow> (unit, bytes) result" where
  "CalcXor supportsUnaligned a b =
     (if length a \<noteq> length b then Ok []
      else let res = replicate (length a) 0
           in bind_result (if supportsUnaligned then fastXORBytes res a b else safeXORBytes res a b)
                (\<lambda>(dst, _). Ok dst))"

lemma length_xor_bytes [simp]: "length (xor_bytes i m dst a b) = length dst"
  by (induction i m dst a b rule: xor_bytes.induct) auto

lemma nth_xor_bytes:
  "i + m \<le> length dst \<Longrightarrow> k < length dst \<Longrightarrow>
   xor_bytes i m dst a b ! k = (if i \<le> k \<and> k < i + m then a ! k XOR b ! k else dst ! k)"
  by (induction i m dst a b rule: xor_bytes.induct) (auto simp: nth_list_update)

lemma xor_words_props:
  assumes "8 * (i + m) \<le> length dst" "8 * (i + m) \<le> length a" "8 * (i + m) \<le> length b"
  shows "length (xor_words i m dst a b) = length dst \<and>
    (\<forall>k < length dst. xor_words i m dst a b ! k =
       (if 8 * i \<le> k \<and> k < 8 * (i + m) then a ! k XOR b ! k else dst ! k))"
  using assms
proof (induction i m dst a b rule: xor_words.induct)
  case (2 i m dst a b)
  let ?d = "take (8 * i) dst @ store64 (load64 (drop (8 * i) a) XOR load64 (drop (8 * i) b)) @ drop (8 * i + 8) dst"
  have len: "length ?d = length dst" using 2(2) by simp
  have nth: "?d ! k = (if 8 * i \<le> k \<and> k < 8 * i + 8 then a ! k XOR b ! k else dst ! k)" if "k < length dst" for k
    using 2(2-4) that by (auto simp: nth_append store64_xor)
  show ?case using 2(1) 2(2-4) len nth by auto
qed auto

lemma fastXORBytes_eq_safe:
  "fastXORBytes dst a b = safeXORBytes dst a b"
proof -
  define n where "n = min (length a) (length b)"
  have n: "(if length b < length a then length b else length a) = n" by (simp add: n_def min_def)
  show ?thesis
  proof (cases "length dst < n \<or> n = 0")
    case True
    then show ?thesis unfolding fastXORBytes_def safeXORBytes_def n Let_def by (cases "n = 0") auto
  next
    case False
    have le: "8 * (n div 8) \<le> length dst" "8 * (n div 8) \<le> length a" "8 * (n div 8) \<le> length b"
      using False by (auto simp: n_def)
    note xw = xor_words_props [of 0 "n div 8" dst a b, simplified, OF le]
    have split: "n - n mod 8 = 8 * (n div 8)" by (simp add: minus_mod_eq_mult_div)
    have "xor_bytes (n - n mod 8) (n mod 8) (xor_words 0 (n div 8) dst a b) a b = xor_bytes 0 n dst a b"
      by (rule nth_equalityI) (use False xw split in \<open>auto simp: nth_xor_bytes\<close>)
    then show ?thesis using False
      unfolding fastXORBytes_def safeXORBytes_def n Let_def wordSize_def by (cases "n div 8 = 0") auto
  qed
qed

text \<open>
  \<open>CalcXor\<close> never panics and is the bytewise exclusive or on slices of one length, and the empty
  slice otherwise, on architectures with and without unaligned word access.
\<close>

lemma CalcXor_bytewise:
  "CalcXor supportsUnaligned a b = Ok (if length a = length b then map2 (XOR) a b else [])"
proof (cases "length a = length b")
  case True
  have "xor_bytes 0 (length b) (replicate (length b) 0) a b = map2 (XOR) a b"
    by (rule nth_equalityI) (use True in \<open>auto simp: nth_xor_bytes\<close>)
  then show ?thesis using True by (simp add: CalcXor_def fastXORBytes_eq_safe safeXORBytes_def Let_def)
qed (simp add: CalcXor_def)

end
