(* ===== verification/Digest.thy ===== *)
theory Digest
  imports Ordered_Tree Protocol Byte_Words
begin

text \<open>
  Digests of transactions and blocks (\<open>crypto/digest\<close>) and the block validators built on them
  (\<open>crypto/validators/validators.go\<close>). The SHA256 function, the encoding of messages, the keccak
  hash, the recovery of a public key from a signature and the fixed-width integer codec of the
  encoding library are parameters. A nil container or header is \<open>None\<close>; dereferencing it panics.
\<close>

subsection \<open>Transactions and receipts\<close>

definition TX_ID_SIZE_BYTES :: nat where
  "TX_ID_SIZE_BYTES = 8 + 32"

definition CalcContractStateDiffHash :: "hasher \<Rightarrow> Wire \<Rightarrow> ContractStateDiff \<Rightarrow> Sha256" where
  "CalcContractStateDiffHash sha w stateDiff = CalcSha256 sha [raw_contractStateDiff w stateDiff]"

definition CalcTxHash :: "hasher \<Rightarrow> Wire \<Rightarrow> Transaction \<Rightarrow> Sha256" where
  "CalcTxHash sha w transaction = CalcSha256 sha [raw_transaction w transaction]"

definition CalcTxHashsFromSignedTransactions :: "hasher \<Rightarrow> Wire \<Rightarrow> SignedTransaction list \<Rightarrow> Sha256 list" where
  "CalcTxHashsFromSignedTransactions sha w transactions = map (\<lambda>tx. CalcTxHash sha w (stx_transaction tx)) transactions"

definition CalcSignedTxHashes :: "hasher \<Rightarrow> Wire \<Rightarrow> SignedTransaction list \<Rightarrow> Sha256 list" where
  "CalcSignedTxHashes sha w signedTransactions = map (\<lambda>tx. CalcTxHash sha w (stx_transaction tx)) signedTransactions"

definition CalcReceiptHash :: "hasher \<Rightarrow> Wire \<Rightarrow> TransactionReceipt \<Rightarrow> Sha256" where
  "CalcReceiptHash sha w receipt = CalcSha256 sha [raw_receipt w receipt]"

definition CalcReceiptHashes :: "hasher \<Rightarrow> Wire \<Rightarrow> TransactionReceipt list \<Rightarrow> Sha256 list" where
  "CalcReceiptHashes sha w receipts = map (CalcReceiptHash sha w) receipts"

definition CalcQueryHash :: "hasher \<Rightarrow> bytes \<Rightarrow> Sha256" where
  "CalcQueryHash sha queryRaw = CalcSha256 sha [queryRaw]"

text \<open>
  A transaction id is the timestamp, written by \<open>membuffers.WriteUint64\<close>, and then the hash.
\<close>

definition GenerateTxId :: "(64 word \<Rightarrow> bytes) \<Rightarrow> Sha256 \<Rightarrow> TimestampNano \<Rightarrow> bytes" where
  "GenerateTxId writeUint64 txHash txTimestamp =
     (let res = copy_bytes (replicate TX_ID_SIZE_BYTES 0) (writeUint64 txTimestamp)
      in take 8 res @ copy_bytes (drop 8 res) txHash)"

definition CalcTxId :: "hasher \<Rightarrow> Wire \<Rightarrow> (64 word \<Rightarrow> bytes) \<Rightarrow> Transaction \<Rightarrow> bytes" where
  "CalcTxId sha w writeUint64 transaction =
     GenerateTxId writeUint64 (CalcTxHash sha w transaction) (tx_timestamp transaction)"

datatype digestError = InvalidTxIdLength | InvalidSigner | MissingContractName | IncorrectNodeAddressLength
  | RecoverFailed | MismatchedNodeAddress

definition ExtractTxId :: "(bytes \<Rightarrow> 64 word) \<Rightarrow> bytes \<Rightarrow> (digestError, Sha256 \<times> TimestampNano) result" where
  "ExtractTxId getUint64 txId =
     (if length txId \<noteq> TX_ID_SIZE_BYTES then Err InvalidTxIdLength
      else Ok (drop 8 txId, getUint64 txId))"

subsection \<open>Blocks\<close>

definition CalcTransactionMetaDataHash :: "hasher \<Rightarrow> bytes \<Rightarrow> Sha256" where
  "CalcTransactionMetaDataHash sha metaData = CalcSha256 sha [metaData]"

definition CalcTransactionsBlockHash :: "hasher \<Rightarrow> Wire \<Rightarrow> TransactionsBlockContainer option \<Rightarrow> Sha256" where
  "CalcTransactionsBlockHash sha w transactionsBlock =
     (case transactionsBlock of
        None \<Rightarrow> []
      | Some b \<Rightarrow> (case tbc_header b of
                    None \<Rightarrow> []
                  | Some header \<Rightarrow> CalcSha256 sha [raw_transactionsBlockHeader w header]))"

definition CalcResultsBlockHash :: "hasher \<Rightarrow> Wire \<Rightarrow> ResultsBlockContainer option \<Rightarrow> Sha256" where
  "CalcResultsBlockHash sha w resultsBlock =
     (case resultsBlock of
        None \<Rightarrow> []
      | Some b \<Rightarrow> (case rbc_header b of
                    None \<Rightarrow> []
                  | Some header \<Rightarrow> CalcSha256 sha [raw_resultsBlockHeader w header]))"

definition CalcBlockHash :: "hasher \<Rightarrow> Wire \<Rightarrow> TransactionsBlockContainer option \<Rightarrow> ResultsBlockContainer option \<Rightarrow> Sha256" where
  "CalcBlockHash sha w transactionsBlock resultsBlock =
     (if transactionsBlock = None \<or> resultsBlock = None then []
      else CalcSha256 sha [CalcTransactionsBlockHash sha w transactionsBlock, CalcResultsBlockHash sha w resultsBlock])"

definition CalcTransactionsMerkleRoot :: "hasher \<Rightarrow> Wire \<Rightarrow> SignedTransaction list \<Rightarrow> Sha256" where
  "CalcTransactionsMerkleRoot sha w txs =
     CalculateOrderedTreeRoot sha (map (\<lambda>tx. CalcTxHash sha w (stx_transaction tx)) txs)"

definition CalcReceiptsMerkleRoot :: "hasher \<Rightarrow> Wire \<Rightarrow> TransactionReceipt list \<Rightarrow> Sha256" where
  "CalcReceiptsMerkleRoot sha w receipts = CalculateOrderedTreeRoot sha (map (CalcReceiptHash sha w) receipts)"

definition CalcStateDiffHash :: "hasher \<Rightarrow> Wire \<Rightarrow> ContractStateDiff list \<Rightarrow> Sha256" where
  "CalcStateDiffHash sha w stateDiffs = CalcSha256 sha (map (raw_contractStateDiff w) stateDiffs)"

definition CalcNewBlockTimestamp :: "TimestampNano \<Rightarrow> TimestampNano \<Rightarrow> TimestampNano" where
  "CalcNewBlockTimestamp prevBlockTimestamp now =
     (if now > prevBlockTimestamp then now else prevBlockTimestamp + 1)"

subsection \<open>Addresses and signatures\<close>

definition CLIENT_ADDRESS_SIZE_BYTES :: nat where
  "CLIENT_ADDRESS_SIZE_BYTES = 20"

definition CLIENT_ADDRESS_SHA256_OFFSET :: nat where
  "CLIENT_ADDRESS_SHA256_OFFSET = SHA256_HASH_SIZE_BYTES - CLIENT_ADDRESS_SIZE_BYTES"

definition ED25519_PUBLIC_KEY_SIZE_BYTES :: nat where
  "ED25519_PUBLIC_KEY_SIZE_BYTES = 32"

definition NODE_ADDRESS_SIZE_BYTES :: nat where
  "NODE_ADDRESS_SIZE_BYTES = 20"

definition CalcClientAddressOfEd25519PublicKey :: "hasher \<Rightarrow> bytes \<Rightarrow> (digestError, bytes) result" where
  "CalcClientAddressOfEd25519PublicKey sha publicKey =
     (if length publicKey \<noteq> ED25519_PUBLIC_KEY_SIZE_BYTES then Err InvalidSigner
      else Ok (drop CLIENT_ADDRESS_SHA256_OFFSET (CalcSha256 sha [publicKey])))"

text \<open>
  What \<open>signer.Eddsa().SignerPublicKey()\<close> does on each kind of signer is generated code: it is the
  argument \<open>eddsaPublicKey\<close>, and may panic.
\<close>

definition CalcClientAddressOfEd25519Signer ::
  "hasher \<Rightarrow> (Signer \<Rightarrow> (digestError, bytes) result) \<Rightarrow> Signer \<Rightarrow> (digestError, bytes) result" where
  "CalcClientAddressOfEd25519Signer sha eddsaPublicKey signer =
     bind_result (eddsaPublicKey signer) (CalcClientAddressOfEd25519PublicKey sha)"

definition CalcClientAddressOfContract :: "hasher \<Rightarrow> ContractName \<Rightarrow> (digestError, bytes) result" where
  "CalcClientAddressOfContract sha contractName =
     (if length contractName = 0 then Err MissingContractName
      else Ok (drop CLIENT_ADDRESS_SHA256_OFFSET (CalcSha256 sha [contractName])))"

definition CalcKeccak256 :: "hasher \<Rightarrow> bytes list \<Rightarrow> bytes" where
  "CalcKeccak256 keccak data = keccak (concat data)"

definition CalcNodeAddressFromPublicKey :: "hasher \<Rightarrow> bytes \<Rightarrow> NodeAddress" where
  "CalcNodeAddressFromPublicKey keccak publicKey = drop 12 (CalcKeccak256 keccak [publicKey])"

definition SignAsNode :: "hasher \<Rightarrow> (bytes \<Rightarrow> bytes \<Rightarrow> bytes option) \<Rightarrow> bytes \<Rightarrow> bytes \<Rightarrow> bytes option" where
  "SignAsNode sha signEcdsa privateKey data = signEcdsa privateKey (CalcSha256 sha [data])"

definition VerifyNodeSignature ::
  "hasher \<Rightarrow> hasher \<Rightarrow> (bytes \<Rightarrow> bytes \<Rightarrow> bytes option) \<Rightarrow> NodeAddress \<Rightarrow> bytes \<Rightarrow> bytes \<Rightarrow> (digestError, unit) result" where
  "VerifyNodeSignature sha keccak recover nodeAddress data sig =
     (if length nodeAddress \<noteq> NODE_ADDRESS_SIZE_BYTES then Err IncorrectNodeAddressLength
      else case recover (CalcSha256 sha [data]) sig of
             None \<Rightarrow> Err RecoverFailed
           | Some publicKey \<Rightarrow>
               if nodeAddress \<noteq> CalcNodeAddressFromPublicKey keccak publicKey then Err MismatchedNodeAddress
               else Ok ())"

subsection \<open>Block validators\<close>

datatype validatorError =
    ErrMismatchedTxMerkleRoot
  | ErrMismatchedMetadataHash
  | ErrMismatchedReceiptsRootHash
  | ErrCalcReceiptsMerkleRoot
  | ErrMismatchedStateDiffHash
  | ErrCalcStateDiffHash
  | ErrMismatchedBlockHash
  | ErrNilBlock

record BlockValidatorContext =
  bvcx_TransactionsBlock :: "TransactionsBlockContainer option"
  bvcx_ResultsBlock :: "ResultsBlockContainer option"
  bvcx_CalcReceiptsMerkleRoot :: "TransactionReceipt list \<Rightarrow> Sha256 option"
  bvcx_CalcStateDiffHash :: "ContractStateDiff list \<Rightarrow> Sha256 option"
  bvcx_ExpectedBlockHash :: Sha256

text \<open>The functions a validation reads the two headers with; nil panics.\<close>

definition tx_header :: "TransactionsBlockContainer option \<Rightarrow> ('e, TransactionsBlockContainer \<times> TransactionsBlockHeader) result" where
  "tx_header b = (case b of None \<Rightarrow> Panic | Some c \<Rightarrow> (case tbc_header c of None \<Rightarrow> Panic | Some h \<Rightarrow> Ok (c, h)))"

definition rx_header :: "ResultsBlockContainer option \<Rightarrow> ('e, ResultsBlockContainer \<times> ResultsBlockHeader) result" where
  "rx_header b = (case b of None \<Rightarrow> Panic | Some c \<Rightarrow> (case rbc_header c of None \<Rightarrow> Panic | Some h \<Rightarrow> Ok (c, h)))"

definition ValidateTransactionsBlockMerkleRoot :: "hasher \<Rightarrow> Wire \<Rightarrow> BlockValidatorContext \<Rightarrow> (validatorError, unit) result" where
  "ValidateTransactionsBlockMerkleRoot sha w bvcx =
     bind_result (tx_header (bvcx_TransactionsBlock bvcx))
       (\<lambda>(b, header).
          if tbh_transactionsMerkleRootHash header \<noteq> CalcTransactionsMerkleRoot sha w (tbc_signedTransactions b)
          then Err ErrMismatchedTxMerkleRoot else Ok ())"

definition ValidateTransactionsBlockMetadataHash :: "hasher \<Rightarrow> BlockValidatorContext \<Rightarrow> (validatorError, unit) result" where
  "ValidateTransactionsBlockMetadataHash sha bvcx =
     bind_result (tx_header (bvcx_TransactionsBlock bvcx))
       (\<lambda>(b, header).
          if tbh_metadataHash header \<noteq> CalcTransactionMetaDataHash sha (tbc_metadata b)
          then Err ErrMismatchedMetadataHash else Ok ())"

definition ValidateReceiptsMerkleRoot :: "BlockValidatorContext \<Rightarrow> (validatorError, unit) result" where
  "ValidateReceiptsMerkleRoot bvcx =
     bind_result (rx_header (bvcx_ResultsBlock bvcx))
       (\<lambda>(b, header).
          case bvcx_CalcReceiptsMerkleRoot bvcx (rbc_transactionReceipts b) of
            None \<Rightarrow> Err ErrCalcReceiptsMerkleRoot
          | Some root \<Rightarrow> if rbh_receiptsMerkleRootHash header \<noteq> root then Err ErrMismatchedReceiptsRootHash else Ok ())"

definition ValidateResultsBlockStateDiffHash :: "BlockValidatorContext \<Rightarrow> (validatorError, unit) result" where
  "ValidateResultsBlockStateDiffHash bvcx =
     bind_result (rx_header (bvcx_ResultsBlock bvcx))
       (\<lambda>(b, header).
          case bvcx_CalcStateDiffHash bvcx (rbc_contractStateDiffs b) of
            None \<Rightarrow> Err ErrCalcStateDiffHash
          | Some h \<Rightarrow> if rbh_stateDiffHash header \<noteq> h then Err ErrMismatchedStateDiffHash else Ok ())"

definition ValidateBlockHash :: "hasher \<Rightarrow> Wire \<Rightarrow> BlockValidatorContext \<Rightarrow> (validatorError, unit) result" where
  "ValidateBlockHash sha w bvcx =
     (if bvcx_TransactionsBlock bvcx = None \<or> bvcx_ResultsBlock bvcx = None then Err ErrNilBlock
      else if bvcx_ExpectedBlockHash bvcx \<noteq> CalcBlockHash sha w (bvcx_TransactionsBlock bvcx) (bvcx_ResultsBlock bvcx)
           then Err ErrMismatchedBlockHash else Ok ())"

subsection \<open>Properties\<close>

text \<open>What a node signs, it verifies: the two agree on the digest of the data.\<close>

lemma VerifyNodeSignature_SignAsNode:
  assumes "signEcdsa priv (CalcSha256 sha [data]) = Some sig" "recover (CalcSha256 sha [data]) sig = Some pub"
    and "nodeAddress = CalcNodeAddressFromPublicKey keccak pub" "length nodeAddress = NODE_ADDRESS_SIZE_BYTES"
  shows "SignAsNode sha signEcdsa priv data = Some sig \<and> VerifyNodeSignature sha keccak recover nodeAddress data sig = Ok ()"
  using assms by (simp add: SignAsNode_def VerifyNodeSignature_def)

lemma CalcNewBlockTimestamp_increases:
  "prev < - 1 \<Longrightarrow> prev < CalcNewBlockTimestamp prev now \<and> now \<le> CalcNewBlockTimestamp prev now"
  using inc_less_eq_iff [of prev prev] by (auto simp: CalcNewBlockTimestamp_def word_less_nat_alt word_le_nat_alt unat_word_ariths)

text \<open>
  A transaction id gives back the hash and the timestamp it was made of: \<open>ExtractTxId\<close> inverts
  \<open>GenerateTxId\<close> on 32-byte hashes, for every 8-byte integer codec that reads back what it wrote.
\<close>

lemma ExtractTxId_GenerateTxId:
  assumes "\<And>n. length (writeUint64 n) = 8" and "\<And>n rest. getUint64 (writeUint64 n @ rest) = n"
    and "length txHash = SHA256_HASH_SIZE_BYTES"
  shows "length (GenerateTxId writeUint64 txHash ts) = TX_ID_SIZE_BYTES \<and>
    ExtractTxId getUint64 (GenerateTxId writeUint64 txHash ts) = Ok (txHash, ts)"
proof -
  have "GenerateTxId writeUint64 txHash ts = writeUint64 ts @ txHash"
    using assms(1)[of ts] assms(3)
    by (simp add: GenerateTxId_def copy_bytes_def Let_def TX_ID_SIZE_BYTES_def SHA256_HASH_SIZE_BYTES_def)
  then show ?thesis using assms(1)[of ts] assms(2,3)
    by (simp add: ExtractTxId_def TX_ID_SIZE_BYTES_def SHA256_HASH_SIZE_BYTES_def)
qed

end
