(* ===== verification/Pending_Pool.thy ===== *)
theory Pending_Pool
  imports Digest "HOL-Library.Multiset" "HOL-Library.AList"
begin

text \<open>
  The pool of pending transactions, \<open>services/transactionpool/pending_pool.go\<close>: a map by transaction
  hash beside a linked list in order of arrival, newest at the front, and the sum of the encoded sizes
  as a 32-bit word. Elements of the linked list carry an identity, so that an element that was removed
  has no predecessor. Each method runs under the pool's mutex and is one step.

  The callback for removed transactions acts on a state of its own, the argument \<open>cb\<close> of the methods
  that call it. Rates and histograms are not kept; the two gauges are.
\<close>

subsection \<open>The waiter\<close>

text \<open>A channel with one slot: a second notification is dropped while the first is unread.\<close>

record transactionWaiter =
  tw_incremented :: bool

definition newTransactionWaiter :: transactionWaiter where
  "newTransactionWaiter = \<lparr>tw_incremented = False\<rparr>"

definition waiter_inc :: "transactionWaiter \<Rightarrow> transactionWaiter" where
  "waiter_inc tw = tw\<lparr>tw_incremented := True\<rparr>"

subsection \<open>State\<close>

record pendingTransaction =
  ptx_gatewayNodeAddress :: NodeAddress
  ptx_transaction :: SignedTransaction
  ptx_listElement :: nat

record pendingTxPool =
  pp_currentSizeInBytes :: "32 word"
  pp_transactionsByHash :: "(Sha256 \<times> pendingTransaction) list"
  pp_transactionList :: "(nat \<times> SignedTransaction) list"
  pp_nextElement :: nat
  pp_pendingPoolSizeInBytes :: "32 word"
  pp_waiter :: transactionWaiter
  pp_transactionCountGauge :: "64 word"
  pp_poolSizeInBytesGauge :: "64 word"

definition NewPendingPool :: "32 word \<Rightarrow> pendingTxPool" where
  "NewPendingPool pendingPoolSizeInBytes =
     \<lparr>pp_currentSizeInBytes = 0, pp_transactionsByHash = [], pp_transactionList = [], pp_nextElement = 0,
      pp_pendingPoolSizeInBytes = pendingPoolSizeInBytes, pp_waiter = newTransactionWaiter,
      pp_transactionCountGauge = 0, pp_poolSizeInBytesGauge = 0\<rparr>"

definition sizeOfSignedTransaction :: "Wire \<Rightarrow> SignedTransaction \<Rightarrow> 32 word" where
  "sizeOfSignedTransaction w transaction = of_nat (length (raw_signedTransaction w transaction))"

abbreviation stxHash :: "hasher \<Rightarrow> Wire \<Rightarrow> SignedTransaction \<Rightarrow> Sha256" where
  "stxHash sha w tx \<equiv> CalcTxHash sha w (stx_transaction tx)"

subsection \<open>Operations\<close>

definition pending_add ::
  "hasher \<Rightarrow> Wire \<Rightarrow> pendingTxPool \<Rightarrow> SignedTransaction \<Rightarrow> NodeAddress \<Rightarrow> pendingTxPool \<times> (TransactionStatus + Sha256)" where
  "pending_add sha w p transaction gatewayNodeAddress =
     (let size0 = sizeOfSignedTransaction w transaction in
      if pp_currentSizeInBytes p + size0 > pp_pendingPoolSizeInBytes p then (p, Inl STATUS_REJECTED_CONGESTION)
      else let key = stxHash sha w transaction in
        if map_of (pp_transactionsByHash p) key \<noteq> None then (p, Inl STATUS_DUPLICATE_TRANSACTION_ALREADY_PENDING)
        else (p\<lparr>pp_currentSizeInBytes := pp_currentSizeInBytes p + size0,
                pp_transactionsByHash := AList.update key
                   \<lparr>ptx_gatewayNodeAddress = gatewayNodeAddress, ptx_transaction = transaction,
                    ptx_listElement = pp_nextElement p\<rparr> (pp_transactionsByHash p),
                pp_transactionList := (pp_nextElement p, transaction) # pp_transactionList p,
                pp_nextElement := Suc (pp_nextElement p),
                pp_transactionCountGauge := pp_transactionCountGauge p + 1,
                pp_poolSizeInBytesGauge := pp_poolSizeInBytesGauge p + ucast size0,
                pp_waiter := waiter_inc (pp_waiter p)\<rparr>, Inr key))"

definition pending_has :: "hasher \<Rightarrow> Wire \<Rightarrow> pendingTxPool \<Rightarrow> SignedTransaction \<Rightarrow> bool" where
  "pending_has sha w p transaction = (map_of (pp_transactionsByHash p) (stxHash sha w transaction) \<noteq> None)"

definition pending_remove ::
  "Wire \<Rightarrow> (Sha256 \<Rightarrow> TransactionStatus \<Rightarrow> 's \<Rightarrow> 's) \<Rightarrow> pendingTxPool \<times> 's \<Rightarrow> Sha256 \<Rightarrow> TransactionStatus
     \<Rightarrow> (pendingTxPool \<times> 's) \<times> NodeAddress option" where
  "pending_remove w onTransactionRemoved ps txHash removalReason =
     (let (p, cb) = ps in
      case map_of (pp_transactionsByHash p) txHash of
        None \<Rightarrow> ((p, cb), None)
      | Some pendingTx \<Rightarrow>
          ((p\<lparr>pp_transactionsByHash := AList.delete txHash (pp_transactionsByHash p),
              pp_currentSizeInBytes := pp_currentSizeInBytes p - sizeOfSignedTransaction w (ptx_transaction pendingTx),
              pp_transactionList := filter (\<lambda>e. fst e \<noteq> ptx_listElement pendingTx) (pp_transactionList p),
              pp_transactionCountGauge := pp_transactionCountGauge p - 1,
              pp_poolSizeInBytesGauge :=
                pp_poolSizeInBytesGauge p - ucast (sizeOfSignedTransaction w (ptx_transaction pendingTx))\<rparr>,
            onTransactionRemoved txHash removalReason cb),
           Some (ptx_gatewayNodeAddress pendingTx)))"

text \<open>The loop of \<open>getBatch\<close> from the back of the list, \<open>n\<close> the number of transactions taken.\<close>

fun getBatchLoop :: "Wire \<Rightarrow> 32 word \<Rightarrow> 32 word \<Rightarrow> 32 word \<Rightarrow> nat \<Rightarrow> SignedTransaction list \<Rightarrow> SignedTransaction list" where
  "getBatchLoop w maxNum sizeLimit sizeInBytes n [] = []"
| "getBatchLoop w maxNum sizeLimit sizeInBytes n (tx # es) =
     (if of_nat n \<ge> maxNum then []
      else let txSize = sizeOfSignedTransaction w tx in
        if sizeLimit > 0 \<and> sizeInBytes + txSize > sizeLimit then []
        else tx # getBatchLoop w maxNum sizeLimit (sizeInBytes + txSize) (Suc n) es)"

definition getBatch :: "Wire \<Rightarrow> pendingTxPool \<Rightarrow> 32 word \<Rightarrow> 32 word \<Rightarrow> SignedTransaction list" where
  "getBatch w p maxNumOfTransactions sizeLimitInBytes =
     getBatchLoop w maxNumOfTransactions sizeLimitInBytes 0 0 (map snd (rev (pp_transactionList p)))"

definition pending_get :: "pendingTxPool \<Rightarrow> Sha256 \<Rightarrow> SignedTransaction option" where
  "pending_get p txHash = map_option ptx_transaction (map_of (pp_transactionsByHash p) txHash)"

definition lastTransaction :: "pendingTxPool \<Rightarrow> (nat \<times> SignedTransaction) option" where
  "lastTransaction p = (if pp_transactionList p = [] then None else Some (last (pp_transactionList p)))"

text \<open>\<open>e.Prev()\<close>: nil for the front element and for an element that is no longer in the list.\<close>

fun prevElement :: "(nat \<times> 'a) list \<Rightarrow> nat \<Rightarrow> (nat \<times> 'a) option" where
  "prevElement (x # y # es) e =
     (if fst x = e then None else if fst y = e then Some x else prevElement (y # es) e)"
| "prevElement es e = None"

definition prevTransaction :: "pendingTxPool \<Rightarrow> nat \<times> SignedTransaction \<Rightarrow> (nat \<times> SignedTransaction) option" where
  "prevTransaction p e = prevElement (pp_transactionList p) (fst e)"

lemma prevElement_index:
  "prevElement es e = Some x \<Longrightarrow> length (takeWhile (\<lambda>y. fst y \<noteq> fst x) es) < length (takeWhile (\<lambda>y. fst y \<noteq> e) es)"
  by (induction es e rule: prevElement.induct) (auto split: if_splits)

lemma filter_shorter_or_same: "filter P xs = xs \<or> length (filter P xs) < length xs"
  by (metis filter_True length_filter_less)

lemma pending_remove_list:
  "pp_transactionList (fst (fst (pending_remove w f (p, cb) h r))) = pp_transactionList p \<or>
   length (pp_transactionList (fst (fst (pending_remove w f (p, cb) h r)))) < length (pp_transactionList p)"
  using filter_shorter_or_same by (auto simp: pending_remove_def split: option.splits)

function pendingClearLoop ::
  "hasher \<Rightarrow> Wire \<Rightarrow> (Sha256 \<Rightarrow> TransactionStatus \<Rightarrow> 's \<Rightarrow> 's) \<Rightarrow> TimestampNano \<Rightarrow>
     (nat \<times> SignedTransaction) option \<Rightarrow> pendingTxPool \<Rightarrow> 's \<Rightarrow> pendingTxPool \<times> 's" where
  "pendingClearLoop sha w f timestamp None p cb = (p, cb)"
| "pendingClearLoop sha w f timestamp (Some e) p cb =
     (if tx_timestamp (stx_transaction (snd e)) < timestamp
      then let ps = fst (pending_remove w f (p, cb) (stxHash sha w (snd e)) STATUS_REJECTED_TIMESTAMP_WINDOW_EXCEEDED)
           in pendingClearLoop sha w f timestamp (prevTransaction (fst ps) e) (fst ps) (snd ps)
      else pendingClearLoop sha w f timestamp (prevTransaction p e) p cb)"
  by pat_completeness auto
termination
proof (relation "measures [\<lambda>(sha, w, f, ts, e, p, cb). length (pp_transactionList p),
    \<lambda>(sha, w, f, ts, e, p, cb). case e of None \<Rightarrow> 0 | Some e \<Rightarrow> Suc (length (takeWhile (\<lambda>y. fst y \<noteq> fst e) (pp_transactionList p)))]",
    goal_cases)
  case (2 sha w f ts e p cb ps)
  then show ?case using pending_remove_list [of w f p cb "stxHash sha w (snd e)" STATUS_REJECTED_TIMESTAMP_WINDOW_EXCEEDED]
    by (auto simp: prevTransaction_def case_prod_beta dest: prevElement_index split: option.splits)
next
  case (3 sha w f ts e p cb)
  then show ?case by (auto simp: prevTransaction_def case_prod_beta dest: prevElement_index split: option.splits)
qed simp

definition pending_clearTransactionsOlderThan ::
  "hasher \<Rightarrow> Wire \<Rightarrow> (Sha256 \<Rightarrow> TransactionStatus \<Rightarrow> 's \<Rightarrow> 's) \<Rightarrow> pendingTxPool \<times> 's \<Rightarrow> TimestampNano \<Rightarrow> pendingTxPool \<times> 's" where
  "pending_clearTransactionsOlderThan sha w f ps timestamp =
     pendingClearLoop sha w f timestamp (lastTransaction (fst ps)) (fst ps) (snd ps)"

subsection \<open>The invariant\<close>

definition txSizes :: "Wire \<Rightarrow> (nat \<times> SignedTransaction) list \<Rightarrow> 'a::len word" where
  "txSizes w es = sum_list (map (\<lambda>e. ucast (sizeOfSignedTransaction w (snd e))) es)"

definition pending_ok :: "hasher \<Rightarrow> Wire \<Rightarrow> pendingTxPool \<Rightarrow> bool" where
  "pending_ok sha w p \<longleftrightarrow>
     distinct (map fst (pp_transactionsByHash p)) \<and>
     distinct (map fst (pp_transactionList p)) \<and>
     (\<forall>e \<in> set (pp_transactionList p). fst e < pp_nextElement p) \<and>
     (\<forall>k ptx. map_of (pp_transactionsByHash p) k = Some ptx \<longrightarrow>
        k = stxHash sha w (ptx_transaction ptx) \<and> (ptx_listElement ptx, ptx_transaction ptx) \<in> set (pp_transactionList p)) \<and>
     (\<forall>e \<in> set (pp_transactionList p). \<exists>ptx. map_of (pp_transactionsByHash p) (stxHash sha w (snd e)) = Some ptx \<and>
        ptx_transaction ptx = snd e \<and> ptx_listElement ptx = fst e) \<and>
     pp_currentSizeInBytes p = txSizes w (pp_transactionList p) \<and>
     pp_transactionCountGauge p = of_nat (length (pp_transactionList p)) \<and>
     pp_poolSizeInBytesGauge p = txSizes w (pp_transactionList p)"

lemma pending_okD:
  assumes "pending_ok sha w p"
  shows "distinct (map fst (pp_transactionsByHash p))" "distinct (map fst (pp_transactionList p))"
    "e \<in> set (pp_transactionList p) \<Longrightarrow> fst e < pp_nextElement p"
    "map_of (pp_transactionsByHash p) k = Some ptx \<Longrightarrow> k = stxHash sha w (ptx_transaction ptx)"
    "map_of (pp_transactionsByHash p) k = Some ptx \<Longrightarrow> (ptx_listElement ptx, ptx_transaction ptx) \<in> set (pp_transactionList p)"
    "pp_currentSizeInBytes p = txSizes w (pp_transactionList p)"
    "pp_transactionCountGauge p = of_nat (length (pp_transactionList p))"
    "pp_poolSizeInBytesGauge p = txSizes w (pp_transactionList p)"
  using assms unfolding pending_ok_def by blast+

lemma pending_ok_listE:
  assumes "pending_ok sha w p" "e \<in> set (pp_transactionList p)"
  obtains ptx where "map_of (pp_transactionsByHash p) (stxHash sha w (snd e)) = Some ptx"
    "ptx_transaction ptx = snd e" "ptx_listElement ptx = fst e"
  using assms unfolding pending_ok_def by blast

lemma NewPendingPool_ok: "pending_ok sha w (NewPendingPool limit)"
  by (simp add: pending_ok_def NewPendingPool_def txSizes_def)

lemma txSizes_Cons [simp]: "txSizes w (e # es) = ucast (sizeOfSignedTransaction w (snd e)) + txSizes w es"
  by (simp add: txSizes_def)

lemma filter_other_key: "x \<notin> fst ` set es \<Longrightarrow> filter (\<lambda>y. fst y \<noteq> x) es = es"
  by (intro filter_True) force

lemma txSizes_filter:
  assumes "distinct (map fst es)" "e \<in> set es"
  shows "txSizes w (filter (\<lambda>x. fst x \<noteq> fst e) es) = txSizes w es - ucast (sizeOfSignedTransaction w (snd e))"
  using assms
proof (induction es)
  case (Cons x es)
  then show ?case using filter_other_key [of "fst x" es] by (cases "e = x") (force simp: algebra_simps)+
qed simp

lemma length_filter_key:
  assumes "distinct (map fst es)" "e \<in> set es"
  shows "length es = Suc (length (filter (\<lambda>x. fst x \<noteq> fst e) es))"
  using assms
proof (induction es)
  case (Cons x es)
  then show ?case using filter_other_key [of "fst x" es] by (cases "e = x") force+
qed simp

lemma pending_okI:
  assumes "distinct (map fst (pp_transactionsByHash p))" "distinct (map fst (pp_transactionList p))"
    "\<And>e. e \<in> set (pp_transactionList p) \<Longrightarrow> fst e < pp_nextElement p"
    "\<And>k ptx. map_of (pp_transactionsByHash p) k = Some ptx \<Longrightarrow> k = stxHash sha w (ptx_transaction ptx)"
    "\<And>k ptx. map_of (pp_transactionsByHash p) k = Some ptx \<Longrightarrow> (ptx_listElement ptx, ptx_transaction ptx) \<in> set (pp_transactionList p)"
    "\<And>e. e \<in> set (pp_transactionList p) \<Longrightarrow> \<exists>ptx. map_of (pp_transactionsByHash p) (stxHash sha w (snd e)) = Some ptx \<and>
       ptx_transaction ptx = snd e \<and> ptx_listElement ptx = fst e"
    "pp_currentSizeInBytes p = txSizes w (pp_transactionList p)"
    "pp_transactionCountGauge p = of_nat (length (pp_transactionList p))"
    "pp_poolSizeInBytesGauge p = txSizes w (pp_transactionList p)"
  shows "pending_ok sha w p"
  unfolding pending_ok_def using assms by blast

lemma pending_add_cases:
  obtains (rejected) st where "pending_add sha w p tx gw = (p, Inl st)"
  | (added) p' where "pending_add sha w p tx gw = (p', Inr (stxHash sha w tx))"
    "map_of (pp_transactionsByHash p) (stxHash sha w tx) = None"
    "pp_currentSizeInBytes p' = pp_currentSizeInBytes p + sizeOfSignedTransaction w tx"
    "pp_currentSizeInBytes p' \<le> pp_pendingPoolSizeInBytes p"
    "pp_pendingPoolSizeInBytes p' = pp_pendingPoolSizeInBytes p"
    "map_of (pp_transactionsByHash p') = (map_of (pp_transactionsByHash p))(stxHash sha w tx \<mapsto>
       \<lparr>ptx_gatewayNodeAddress = gw, ptx_transaction = tx, ptx_listElement = pp_nextElement p\<rparr>)"
    "distinct (map fst (pp_transactionsByHash p)) \<Longrightarrow> distinct (map fst (pp_transactionsByHash p'))"
    "pp_transactionList p' = (pp_nextElement p, tx) # pp_transactionList p"
    "pp_nextElement p' = Suc (pp_nextElement p)"
    "pp_transactionCountGauge p' = pp_transactionCountGauge p + 1"
    "pp_poolSizeInBytesGauge p' = pp_poolSizeInBytesGauge p + ucast (sizeOfSignedTransaction w tx)"
    "tw_incremented (pp_waiter p')"
proof (cases "pp_currentSizeInBytes p + sizeOfSignedTransaction w tx > pp_pendingPoolSizeInBytes p
    \<or> map_of (pp_transactionsByHash p) (stxHash sha w tx) \<noteq> None")
  case True
  then have "\<exists>st. pending_add sha w p tx gw = (p, Inl st)" by (auto simp: pending_add_def Let_def)
  then show ?thesis using rejected by blast
next
  case False
  then have le: "pp_currentSizeInBytes p + sizeOfSignedTransaction w tx \<le> pp_pendingPoolSizeInBytes p"
    and new: "map_of (pp_transactionsByHash p) (stxHash sha w tx) = None" by (auto simp: not_less)
  show ?thesis
    by (intro added [of "fst (pending_add sha w p tx gw)"])
       (use le leD [OF le] new in \<open>simp_all add: pending_add_def Let_def update_conv' distinct_update waiter_inc_def\<close>)
qed

lemma pending_add_ok:
  assumes "pending_ok sha w p" shows "pending_ok sha w (fst (pending_add sha w p tx gw))"
proof (cases rule: pending_add_cases [of sha w p tx gw])
  case (added p')
  note D = pending_okD [OF assms]
  have "pending_ok sha w p'"
  proof (rule pending_okI)
    show "distinct (map fst (pp_transactionsByHash p'))" using D(1) added(7) by blast
    show "distinct (map fst (pp_transactionList p'))" using D(2,3) added(8) by force
    show "fst e < pp_nextElement p'" if "e \<in> set (pp_transactionList p')" for e
      using that D(3) [of e] added(8,9) by auto
    fix k ptx assume k: "map_of (pp_transactionsByHash p') k = Some ptx"
    show "k = stxHash sha w (ptx_transaction ptx)" using k D(4) unfolding added(6) by (auto split: if_splits simp del: map_of_eq_Some_iff)
    show "(ptx_listElement ptx, ptx_transaction ptx) \<in> set (pp_transactionList p')"
      using k D(5) unfolding added(6,8) by (auto split: if_splits simp del: map_of_eq_Some_iff)
  next
    fix e assume e: "e \<in> set (pp_transactionList p')"
    show "\<exists>ptx. map_of (pp_transactionsByHash p') (stxHash sha w (snd e)) = Some ptx \<and>
        ptx_transaction ptx = snd e \<and> ptx_listElement ptx = fst e"
    proof (cases "e = (pp_nextElement p, tx)")
      case False
      then have "e \<in> set (pp_transactionList p)" using e added(8) by simp
      then show ?thesis using pending_ok_listE [OF assms] added(2,6) by (metis fun_upd_other option.distinct(1))
    qed (simp add: added(6))
  qed (use D(6-8) added(3,8,10,11) in \<open>simp_all add: ac_simps\<close>)
  then show ?thesis by (simp add: added(1))
qed (simp add: assms)

lemma pending_remove_cases:
  obtains (absent) "map_of (pp_transactionsByHash p) h = None" "pending_remove w f (p, cb) h r = ((p, cb), None)"
  | (removed) ptx p' where "map_of (pp_transactionsByHash p) h = Some ptx"
    "pending_remove w f (p, cb) h r = ((p', f h r cb), Some (ptx_gatewayNodeAddress ptx))"
    "map_of (pp_transactionsByHash p') = (map_of (pp_transactionsByHash p))(h := None)"
    "distinct (map fst (pp_transactionsByHash p)) \<Longrightarrow> distinct (map fst (pp_transactionsByHash p'))"
    "pp_transactionList p' = filter (\<lambda>e. fst e \<noteq> ptx_listElement ptx) (pp_transactionList p)"
    "pp_nextElement p' = pp_nextElement p"
    "pp_currentSizeInBytes p' = pp_currentSizeInBytes p - sizeOfSignedTransaction w (ptx_transaction ptx)"
    "pp_pendingPoolSizeInBytes p' = pp_pendingPoolSizeInBytes p"
    "pp_transactionCountGauge p' = pp_transactionCountGauge p - 1"
    "pp_poolSizeInBytesGauge p' = pp_poolSizeInBytesGauge p - ucast (sizeOfSignedTransaction w (ptx_transaction ptx))"
proof (cases "map_of (pp_transactionsByHash p) h")
  case None
  then show ?thesis by (intro absent) (simp_all add: pending_remove_def)
next
  case (Some ptx)
  then show ?thesis
    by (intro removed [of ptx "fst (fst (pending_remove w f (p, cb) h r))"])
       (simp_all add: pending_remove_def delete_conv' distinct_delete)
qed

lemma pending_remove_ok:
  assumes "pending_ok sha w p" shows "pending_ok sha w (fst (fst (pending_remove w f (p, cb) h r)))"
proof (cases rule: pending_remove_cases [of p h w f cb r])
  case (removed ptx p')
  note D = pending_okD [OF assms]
  have h: "h = stxHash sha w (ptx_transaction ptx)" and mem: "(ptx_listElement ptx, ptx_transaction ptx) \<in> set (pp_transactionList p)"
    using D(4,5) removed(1) by blast+
  have "pending_ok sha w p'"
  proof (rule pending_okI)
    show "distinct (map fst (pp_transactionsByHash p'))" using D(1) removed(4) by blast
    show "distinct (map fst (pp_transactionList p'))" using D(2) removed(5) by (simp add: distinct_map_filter)
    show "fst e < pp_nextElement p'" if "e \<in> set (pp_transactionList p')" for e
      using that D(3) [of e] removed(5,6) by simp
    fix k q assume "map_of (pp_transactionsByHash p') k = Some q"
    then have k: "map_of (pp_transactionsByHash p) k = Some q" "k \<noteq> h"
      unfolding removed(3) by (simp_all split: if_splits del: map_of_eq_Some_iff)
    show kq: "k = stxHash sha w (ptx_transaction q)" using D(4) k(1) by blast
    have "ptx_listElement q \<noteq> ptx_listElement ptx"
      using eq_key_imp_eq_value [OF D(2)] D(5) [OF k(1)] mem k(2) kq h by metis
    then show "(ptx_listElement q, ptx_transaction q) \<in> set (pp_transactionList p')"
      using D(5) [OF k(1)] removed(5) by simp
  next
    fix e assume e: "e \<in> set (pp_transactionList p')"
    then have "e \<in> set (pp_transactionList p)" and ne: "fst e \<noteq> ptx_listElement ptx" using removed(5) by auto
    then obtain q where q: "map_of (pp_transactionsByHash p) (stxHash sha w (snd e)) = Some q"
      "ptx_transaction q = snd e" "ptx_listElement q = fst e" using pending_ok_listE [OF assms] by blast
    have "stxHash sha w (snd e) \<noteq> h" using q(1,3) ne removed(1) by auto
    then show "\<exists>q. map_of (pp_transactionsByHash p') (stxHash sha w (snd e)) = Some q \<and>
        ptx_transaction q = snd e \<and> ptx_listElement q = fst e" using q unfolding removed(3) by auto
  next
    show "pp_currentSizeInBytes p' = txSizes w (pp_transactionList p')"
      "pp_poolSizeInBytesGauge p' = txSizes w (pp_transactionList p')"
      using D(6,8) removed(5,7,10) by (simp_all add: txSizes_filter [OF D(2) mem, simplified])
    show "pp_transactionCountGauge p' = of_nat (length (pp_transactionList p'))"
      using D(7) length_filter_key [OF D(2) mem] removed(5,9) by simp
  qed
  then show ?thesis by (simp add: removed(2))
qed (simp add: assms)

lemma pendingClearLoop_ok:
  "pending_ok sha w p \<Longrightarrow> pending_ok sha w (fst (pendingClearLoop sha w f ts e p cb))"
proof (induction sha w f ts e p cb rule: pendingClearLoop.induct)
  case (2 sha w f ts e p cb)
  note IH = 2(1) [OF _ refl] 2(2)
  show ?case using IH 2(3)
    by (cases "tx_timestamp (stx_transaction (snd e)) < ts") (simp_all add: Let_def pending_remove_ok)
qed simp

subsection \<open>Batches\<close>

abbreviation arrivals :: "pendingTxPool \<Rightarrow> SignedTransaction list" where
  "arrivals p \<equiv> map snd (rev (pp_transactionList p))"

definition nat_size :: "Wire \<Rightarrow> SignedTransaction list \<Rightarrow> nat" where
  "nat_size w txs = sum_list (map (\<lambda>tx. unat (sizeOfSignedTransaction w tx)) txs)"

lemma nat_size_simps [simp]:
  "nat_size w [] = 0" "nat_size w (tx # txs) = unat (sizeOfSignedTransaction w tx) + nat_size w txs"
  by (simp_all add: nat_size_def)

text \<open>
  A batch is a prefix of the arrivals that respects both limits and cannot be extended: \<open>fits\<close> says that
  \<open>k\<close> transactions are within the limits.
\<close>

definition fits :: "Wire \<Rightarrow> 32 word \<Rightarrow> 32 word \<Rightarrow> SignedTransaction list \<Rightarrow> nat \<Rightarrow> bool" where
  "fits w maxNum sizeLimit txs k \<longleftrightarrow>
     k \<le> unat maxNum \<and> (sizeLimit > 0 \<longrightarrow> nat_size w (take k txs) \<le> unat sizeLimit)"

lemma getBatchLoop_prefix:
  assumes "\<forall>tx \<in> set es. unat sizeLimit + unat (sizeOfSignedTransaction w tx) < 2 ^ 32"
    and "sizeLimit > 0 \<longrightarrow> sizeInBytes \<le> sizeLimit" "n \<le> unat maxNum"
  shows "\<exists>k \<le> length es. getBatchLoop w maxNum sizeLimit sizeInBytes n es = take k es \<and>
    n + k \<le> unat maxNum \<and>
    (sizeLimit > 0 \<longrightarrow> unat sizeInBytes + nat_size w (take k es) \<le> unat sizeLimit) \<and>
    (k < length es \<longrightarrow> n + k = unat maxNum \<or>
       sizeLimit > 0 \<and> unat sizeInBytes + nat_size w (take (Suc k) es) > unat sizeLimit)"
  using assms
proof (induction es arbitrary: sizeInBytes n)
  case (Cons tx es)
  let ?s = "sizeOfSignedTransaction w tx"
  have n32: "unat (of_nat n :: 32 word) = n"
    using Cons.prems(3) unsigned_less [of maxNum] by (intro unat_of_nat_small) (auto intro: le_less_trans)
  show ?case
  proof (cases "of_nat n \<ge> maxNum")
    case True
    then have "n = unat maxNum" using n32 Cons.prems(3) by (simp add: word_le_nat_alt)
    then show ?thesis using True Cons.prems by (intro exI [of _ 0]) (auto simp: word_le_nat_alt)
  next
    case False
    then have n: "Suc n \<le> unat maxNum" using n32 by (simp add: word_le_nat_alt)
    have nowrap: "unat (sizeInBytes + ?s) = unat sizeInBytes + unat ?s" if "sizeLimit > 0"
      using Cons.prems(1,2) that by (intro unat_add_lem [THEN iffD1]) (auto simp: word_le_nat_alt)
    show ?thesis
    proof (cases "sizeLimit > 0 \<and> sizeInBytes + ?s > sizeLimit")
      case True
      then show ?thesis using False Cons.prems nowrap
        by (intro exI [of _ 0]) (auto simp: word_le_nat_alt word_less_nat_alt)
    next
      case fit: False
      obtain k where k: "k \<le> length es" "getBatchLoop w maxNum sizeLimit (sizeInBytes + ?s) (Suc n) es = take k es"
        "Suc n + k \<le> unat maxNum"
        "sizeLimit > 0 \<longrightarrow> unat (sizeInBytes + ?s) + nat_size w (take k es) \<le> unat sizeLimit"
        "k < length es \<longrightarrow> Suc n + k = unat maxNum \<or>
           sizeLimit > 0 \<and> unat (sizeInBytes + ?s) + nat_size w (take (Suc k) es) > unat sizeLimit"
        using Cons.IH [of "sizeInBytes + ?s" "Suc n"] Cons.prems(1) n fit by (auto simp: not_less)
      then show ?thesis using False fit nowrap
        by (intro exI [of _ "Suc k"]) (auto simp: Let_def add.assoc)
    qed
  qed
qed (auto simp: word_le_nat_alt)

lemma getBatch_subset: "set (getBatch w p maxNum sizeLimit) \<subseteq> set (arrivals p)"
proof -
  have "set (getBatchLoop w maxNum sizeLimit sz n es) \<subseteq> set es" for sz n es
    by (induction es arbitrary: sz n) (auto simp: Let_def)
  then show ?thesis unfolding getBatch_def .
qed

subsection \<open>Clearing\<close>

lemma prevElement_removed: "e \<notin> fst ` set es \<Longrightarrow> prevElement es e = None"
  by (induction es e rule: prevElement.induct) auto

lemma prevElement_append:
  "distinct (map fst (pre @ x # y # post)) \<Longrightarrow> prevElement (pre @ x # y # post) (fst y) = Some x"
proof (induction pre)
  case (Cons a pre)
  then show ?case by (cases pre) auto
qed simp

lemma prevElement_front: "prevElement (e # es) (fst e) = None"
  by (cases es) auto

definition expired :: "TimestampNano \<Rightarrow> SignedTransaction \<Rightarrow> bool" where
  "expired timestamp tx \<longleftrightarrow> tx_timestamp (stx_transaction tx) < timestamp"

lemma prevTransaction_removed:
  assumes "pending_ok sha w p" "e \<in> set (pp_transactionList p)"
  shows "prevTransaction (fst (fst (pending_remove w f (p, cb) (stxHash sha w (snd e)) r))) e = None"
proof -
  obtain q where q: "map_of (pp_transactionsByHash p) (stxHash sha w (snd e)) = Some q" "ptx_listElement q = fst e"
    using pending_ok_listE [OF assms] by blast
  show ?thesis
  proof (cases rule: pending_remove_cases [of p "stxHash sha w (snd e)" w f cb r])
    case (removed ptx p')
    then have "pp_transactionList p' = filter (\<lambda>x. fst x \<noteq> fst e) (pp_transactionList p)" using q by simp
    then show ?thesis unfolding removed(2) prevTransaction_def by (simp add: prevElement_removed image_iff)
  qed (use q in simp)
qed

lemma pendingClearLoop_first:
  assumes "pending_ok sha w p" "pp_transactionList p = pre @ e # post"
  shows "pendingClearLoop sha w f ts (Some e) p cb =
    (case find (expired ts) (map snd (e # rev pre)) of
       None \<Rightarrow> (p, cb)
     | Some tx \<Rightarrow> fst (pending_remove w f (p, cb) (stxHash sha w tx) STATUS_REJECTED_TIMESTAMP_WINDOW_EXCEEDED))"
  using assms(2)
proof (induction pre arbitrary: e post rule: rev_induct)
  case Nil
  then have "e \<in> set (pp_transactionList p)" by simp
  note gone = prevTransaction_removed [OF assms(1) this, of f cb STATUS_REJECTED_TIMESTAMP_WINDOW_EXCEEDED]
  have "prevTransaction p e = None" using Nil by (simp add: prevTransaction_def prevElement_front)
  then show ?case using gone by (simp add: expired_def Let_def)
next
  case (snoc x pre)
  then have "e \<in> set (pp_transactionList p)" by simp
  note gone = prevTransaction_removed [OF assms(1) this, of f cb STATUS_REJECTED_TIMESTAMP_WINDOW_EXCEEDED]
  have prev: "prevTransaction p e = Some x"
    using pending_okD(2) [OF assms(1)] snoc.prems prevElement_append [of pre x e post] by (simp add: prevTransaction_def)
  have IH: "pendingClearLoop sha w f ts (Some x) p cb = (case find (expired ts) (map snd (x # rev pre)) of
       None \<Rightarrow> (p, cb)
     | Some tx \<Rightarrow> fst (pending_remove w f (p, cb) (stxHash sha w tx) STATUS_REJECTED_TIMESTAMP_WINDOW_EXCEEDED))"
    by (rule snoc.IH) (simp add: snoc.prems)
  show ?case
  proof (cases "expired ts (snd e)")
    case True
    then show ?thesis using gone by (simp add: expired_def Let_def)
  next
    case False
    then have "pendingClearLoop sha w f ts (Some e) p cb = pendingClearLoop sha w f ts (Some x) p cb"
      by (simp add: expired_def prev)
    then show ?thesis using False IH by simp
  qed
qed

subsection \<open>Reachable pools\<close>

inductive pending_step :: "hasher \<Rightarrow> Wire \<Rightarrow> pendingTxPool \<Rightarrow> pendingTxPool \<Rightarrow> bool" for sha w where
  step_add: "pending_step sha w p (fst (pending_add sha w p tx gw))"
| step_remove: "pending_step sha w p (fst (fst (pending_remove w (\<lambda>_ _ u. u) (p, ()) h r)))"
| step_clear: "pending_step sha w p (fst (pending_clearTransactionsOlderThan sha w (\<lambda>_ _ u. u) (p, ()) ts))"

definition pending_bounded :: "hasher \<Rightarrow> Wire \<Rightarrow> 32 word \<Rightarrow> pendingTxPool \<Rightarrow> bool" where
  "pending_bounded sha w limit p \<longleftrightarrow> pending_ok sha w p \<and> pp_pendingPoolSizeInBytes p = limit \<and>
     nat_size w (arrivals p) = unat (pp_currentSizeInBytes p) \<and> pp_currentSizeInBytes p \<le> limit"

lemma nat_size_append [simp]: "nat_size w (xs @ ys) = nat_size w xs + nat_size w ys"
  by (simp add: nat_size_def)

lemma nat_size_rev [simp]: "nat_size w (rev txs) = nat_size w txs"
  by (simp add: nat_size_def rev_map [symmetric] sum_list_rev)

lemma nat_size_arrivals [simp]: "nat_size w (arrivals p) = nat_size w (map snd (pp_transactionList p))"
  by (simp add: rev_map [symmetric])

lemma txSizes_nat: "(txSizes w es :: 32 word) = of_nat (nat_size w (map snd es))"
  by (induction es) (simp_all add: txSizes_def)

lemma nat_size_filter: "nat_size w (map snd (filter P es)) \<le> nat_size w (map snd es)"
  by (induction es) auto

lemma pending_bounded_shrink:
  assumes "pending_bounded sha w limit p" "pending_ok sha w q"
    "pp_pendingPoolSizeInBytes q = pp_pendingPoolSizeInBytes p" "\<exists>P. pp_transactionList q = filter P (pp_transactionList p)"
  shows "pending_bounded sha w limit q"
proof -
  let ?n = "nat_size w (map snd (pp_transactionList q))"
  have le: "?n \<le> nat_size w (map snd (pp_transactionList p))" using assms(4) nat_size_filter by auto
  also have "\<dots> = unat (pp_currentSizeInBytes p)" using assms(1) by (simp add: pending_bounded_def)
  also have "\<dots> \<le> unat limit" using assms(1) by (simp add: pending_bounded_def word_le_nat_alt)
  finally have n: "?n \<le> unat limit" .
  then have "?n < 2 ^ 32" using unsigned_less [of limit] by (auto intro: le_less_trans)
  then have "unat (pp_currentSizeInBytes q) = ?n"
    using pending_okD(6) [OF assms(2)] by (simp add: txSizes_nat unat_of_nat_small)
  then show ?thesis using n assms by (simp add: pending_bounded_def word_le_nat_alt)
qed

lemma pending_remove_filters:
  "\<exists>P. pp_transactionList (fst (fst (pending_remove w f (p, cb) h r))) = filter P (pp_transactionList p)"
  "pp_pendingPoolSizeInBytes (fst (fst (pending_remove w f (p, cb) h r))) = pp_pendingPoolSizeInBytes p"
proof -
  have "filter (\<lambda>_. True) (pp_transactionList p) = pp_transactionList p" by simp
  then show "\<exists>P. pp_transactionList (fst (fst (pending_remove w f (p, cb) h r))) = filter P (pp_transactionList p)"
    by (cases rule: pending_remove_cases [of p h w f cb r]) (metis fst_conv)+
  show "pp_pendingPoolSizeInBytes (fst (fst (pending_remove w f (p, cb) h r))) = pp_pendingPoolSizeInBytes p"
    by (cases rule: pending_remove_cases [of p h w f cb r]) simp_all
qed

lemma pendingClearLoop_filters:
  "\<exists>P. pp_transactionList (fst (pendingClearLoop sha w f ts e p cb)) = filter P (pp_transactionList p)"
proof (induction sha w f ts e p cb rule: pendingClearLoop.induct)
  case (1 sha w f ts p cb)
  show ?case by (intro exI [of _ "\<lambda>_. True"]) simp
next
  case (2 sha w f ts e p cb)
  show ?case
    using 2(1) [OF _ refl] 2(2) pending_remove_filters(1) [of w f p cb "stxHash sha w (snd e)" STATUS_REJECTED_TIMESTAMP_WINDOW_EXCEEDED]
    by (cases "tx_timestamp (stx_transaction (snd e)) < ts") (auto simp: Let_def)
qed

lemma pendingClearLoop_limit:
  "pp_pendingPoolSizeInBytes (fst (pendingClearLoop sha w f ts e p cb)) = pp_pendingPoolSizeInBytes p"
  by (induction sha w f ts e p cb rule: pendingClearLoop.induct) (auto simp: Let_def pending_remove_filters(2))

lemma pending_step_bounded:
  assumes "pending_step sha w p q" "pending_bounded sha w limit p"
    and "\<forall>tx. unat limit + unat (sizeOfSignedTransaction w tx) < 2 ^ 32"
  shows "pending_bounded sha w limit q"
  using assms(1)
proof cases
  case (step_add tx gw)
  have ok: "pending_ok sha w q" using assms(2) pending_add_ok unfolding step_add pending_bounded_def by blast
  show ?thesis
  proof (cases rule: pending_add_cases [of sha w p tx gw])
    case (added p')
    have q: "q = p'" using step_add added(1) by simp
    have "unat (pp_currentSizeInBytes p) + unat (sizeOfSignedTransaction w tx) < 2 ^ 32"
      using assms(2,3) by (auto simp: pending_bounded_def word_le_nat_alt intro: le_less_trans [OF add_right_mono])
    then have "unat (pp_currentSizeInBytes q) = unat (pp_currentSizeInBytes p) + unat (sizeOfSignedTransaction w tx)"
      unfolding q added(3) by (intro unat_add_lem [THEN iffD1]) simp
    then show ?thesis using assms(2) ok added(4,5,8) q by (simp add: pending_bounded_def)
  qed (use step_add assms(2) in simp)
next
  case (step_remove h r)
  show ?thesis unfolding step_remove
    by (rule pending_bounded_shrink [OF assms(2)])
       (use assms(2) pending_remove_filters pending_remove_ok in \<open>auto simp: pending_bounded_def\<close>)
next
  case (step_clear ts)
  show ?thesis unfolding step_clear pending_clearTransactionsOlderThan_def
    by (rule pending_bounded_shrink [OF assms(2)])
       (use assms(2) pendingClearLoop_filters pendingClearLoop_limit pendingClearLoop_ok in \<open>auto simp: pending_bounded_def\<close>)
qed

lemma pending_clear_eq:
  assumes "pending_ok sha w p"
  shows "pending_clearTransactionsOlderThan sha w f (p, cb) ts =
    (case find (expired ts) (arrivals p) of
       None \<Rightarrow> (p, cb)
     | Some tx \<Rightarrow> fst (pending_remove w f (p, cb) (stxHash sha w tx) STATUS_REJECTED_TIMESTAMP_WINDOW_EXCEEDED))"
proof (cases "pp_transactionList p" rule: rev_cases)
  case (snoc pre e)
  then show ?thesis using pendingClearLoop_first [OF assms, of pre e "[]" f ts cb]
    by (simp add: pending_clearTransactionsOlderThan_def lastTransaction_def)
qed (simp add: pending_clearTransactionsOlderThan_def lastTransaction_def)

subsection \<open>A pool of two transactions\<close>

definition demo_stx :: "TimestampNano \<Rightarrow> byte \<Rightarrow> SignedTransaction" where
  "demo_stx ts c = \<lparr>stx_transaction = \<lparr>tx_protocolVersion = 1, tx_virtualChainId = 42, tx_timestamp = ts,
     tx_signer = EddsaSigner (replicate 32 7), tx_contractName = [c], tx_methodName = [], tx_inputArgumentArray = []\<rparr>,
     stx_signature = []\<rparr>"

definition small_wire :: Wire where
  "small_wire = demo_wire\<lparr>raw_signedTransaction := (\<lambda>s. [1, 2, 3])\<rparr>"

definition demo_pool :: pendingTxPool where
  "demo_pool = fst (pending_add demo_sha small_wire
     (fst (pending_add demo_sha small_wire (NewPendingPool 100) (demo_stx 5 1) [9])) (demo_stx 6 2) [8])"

lemma demo_pool_steps: "(pending_step demo_sha small_wire)\<^sup>*\<^sup>* (NewPendingPool 100) demo_pool"
  unfolding demo_pool_def by (meson pending_step.step_add converse_rtranclp_into_rtranclp rtranclp.rtrancl_refl)

lemma demo_pool_ok: "pending_ok demo_sha small_wire demo_pool"
  unfolding demo_pool_def by (intro pending_add_ok NewPendingPool_ok)

subsection \<open>Properties\<close>

text \<open>
  C19. In every pool reached from an empty one by adding, removing and clearing, the map by hash and the
  list in arrival order hold the same transactions, the gauges count them, and \<open>currentSizeInBytes\<close> is the
  sum of their sizes and within the configured limit, provided that the limit and one transaction
  together fit 32 bits.
\<close>

theorem pending_pool_invariant:
  assumes "(pending_step sha w)\<^sup>*\<^sup>* (NewPendingPool limit) p"
    and "\<forall>tx. unat limit + unat (sizeOfSignedTransaction w tx) < 2 ^ 32"
  shows "pending_ok sha w p \<and> nat_size w (arrivals p) = unat (pp_currentSizeInBytes p) \<and> pp_currentSizeInBytes p \<le> limit"
proof -
  have "pending_bounded sha w limit p" using assms(1)
  proof (induction rule: rtranclp_induct)
    case base
    show ?case using NewPendingPool_ok [of sha w limit] by (simp add: pending_bounded_def) (simp add: NewPendingPool_def)
  next
    case (step q r)
    then show ?case using pending_step_bounded assms(2) by blast
  qed
  then show ?thesis unfolding pending_bounded_def by blast
qed

theorem pending_pool_invariant_witness:
  "pending_ok demo_sha small_wire demo_pool \<and> nat_size small_wire (arrivals demo_pool) = unat (pp_currentSizeInBytes demo_pool)
    \<and> pp_currentSizeInBytes demo_pool \<le> 100"
  using pending_pool_invariant [OF demo_pool_steps] by (simp add: sizeOfSignedTransaction_def small_wire_def)

text \<open>
  C20. A batch is a prefix of the pending transactions in arrival order, within both limits, and maximal:
  the next transaction in line would exceed one of them.
\<close>

theorem getBatch_maximal_prefix:
  assumes "\<forall>tx \<in> set (arrivals p). unat sizeLimit + unat (sizeOfSignedTransaction w tx) < 2 ^ 32"
  shows "\<exists>k \<le> length (arrivals p). getBatch w p maxNum sizeLimit = take k (arrivals p) \<and>
    fits w maxNum sizeLimit (arrivals p) k \<and> (k < length (arrivals p) \<longrightarrow> \<not> fits w maxNum sizeLimit (arrivals p) (Suc k))"
  using getBatchLoop_prefix [OF assms, of 0 0 maxNum] unfolding getBatch_def fits_def by auto

theorem getBatch_maximal_prefix_witness:
  "\<exists>k \<le> length (arrivals demo_pool). getBatch small_wire demo_pool 1 0 = take k (arrivals demo_pool) \<and>
    fits small_wire 1 0 (arrivals demo_pool) k \<and> (k < length (arrivals demo_pool) \<longrightarrow> \<not> fits small_wire 1 0 (arrivals demo_pool) (Suc k))"
  by (rule getBatch_maximal_prefix) (simp add: sizeOfSignedTransaction_def small_wire_def)

text \<open>
  C21. Clearing removes at most one transaction: the first expired one in arrival order. The loop steps on
  from the element it has just removed, which has no predecessor any more, and so ends there.
\<close>

theorem pending_clear_removes_only_first:
  assumes "pending_ok sha w p"
  shows "pending_clearTransactionsOlderThan sha w f (p, cb) ts =
    (case find (\<lambda>tx. tx_timestamp (stx_transaction tx) < ts) (arrivals p) of
       None \<Rightarrow> (p, cb)
     | Some tx \<Rightarrow> fst (pending_remove w f (p, cb) (stxHash sha w tx) STATUS_REJECTED_TIMESTAMP_WINDOW_EXCEEDED)) \<and>
   length (pp_transactionList p) \<le> Suc (length (pp_transactionList (fst (pending_clearTransactionsOlderThan sha w f (p, cb) ts))))"
proof (intro conjI)
  have e: "expired ts = (\<lambda>tx. tx_timestamp (stx_transaction tx) < ts)" by (simp add: fun_eq_iff expired_def)
  note eq = pending_clear_eq [OF assms, of f cb ts]
  show "pending_clearTransactionsOlderThan sha w f (p, cb) ts =
    (case find (\<lambda>tx. tx_timestamp (stx_transaction tx) < ts) (arrivals p) of
       None \<Rightarrow> (p, cb)
     | Some tx \<Rightarrow> fst (pending_remove w f (p, cb) (stxHash sha w tx) STATUS_REJECTED_TIMESTAMP_WINDOW_EXCEEDED))"
    using eq unfolding e .
  have one: "length (pp_transactionList p) \<le> Suc (length (pp_transactionList (fst (fst (pending_remove w f (p, cb) h r)))))" for h r
  proof (cases rule: pending_remove_cases [of p h w f cb r])
    case (removed ptx p')
    then show ?thesis
      using length_filter_key [OF pending_okD(2) [OF assms] pending_okD(5) [OF assms removed(1)]] by simp
  qed simp
  show "length (pp_transactionList p) \<le> Suc (length (pp_transactionList (fst (pending_clearTransactionsOlderThan sha w f (p, cb) ts))))"
    unfolding eq using one by (simp split: option.split)
qed

theorem pending_clear_removes_only_first_witness:
  "pending_clearTransactionsOlderThan demo_sha small_wire (\<lambda>_ _ u. u) (demo_pool, ()) 10 =
    (case find (\<lambda>tx. tx_timestamp (stx_transaction tx) < 10) (arrivals demo_pool) of
       None \<Rightarrow> (demo_pool, ())
     | Some tx \<Rightarrow> fst (pending_remove small_wire (\<lambda>_ _ u. u) (demo_pool, ()) (stxHash demo_sha small_wire tx)
                     STATUS_REJECTED_TIMESTAMP_WINDOW_EXCEEDED)) \<and>
   length (pp_transactionList demo_pool) \<le>
     Suc (length (pp_transactionList (fst (pending_clearTransactionsOlderThan demo_sha small_wire (\<lambda>_ _ u. u) (demo_pool, ()) 10))))"
  by (rule pending_clear_removes_only_first [OF demo_pool_ok])

text \<open>With two expired transactions one is left after clearing.\<close>

lemma pending_clear_leaves_expired:
  "map (tx_timestamp \<circ> stx_transaction \<circ> snd) (pp_transactionList (fst
     (pending_clearTransactionsOlderThan demo_sha small_wire (\<lambda>_ _ u. u) (demo_pool, ()) 10))) = [6]"
  by code_simp

end
