(* ===== verification/Transaction_Pool.thy ===== *)
theory Transaction_Pool
  imports Pending_Pool Block_Tracker
begin

text \<open>
  The transaction pool service, \<open>services/transactionpool\<close>: the pool of committed receipts, the
  validation of transactions, and the operations of the service. Times and durations are 64-bit
  nanosecond counts with their wrap-around. The virtual machine's pre-order check, signatures and the
  clock are arguments. Calls of the registered result handlers are kept as a log of notifications.
\<close>

subsection \<open>Committed pool\<close>

record committedTransaction =
  ctx_receipt :: TransactionReceipt
  ctx_blockHeight :: BlockHeight
  ctx_blockTimestamp :: TimestampNano

record committedTxPool =
  cp_transactions :: "(Sha256 \<times> committedTransaction) list"
  cp_futureTimestampGrace :: "64 word"
  cp_transactionCount :: "64 word"
  cp_poolSizeInBytes :: "64 word"

definition NewCommittedPool :: "64 word \<Rightarrow> committedTxPool" where
  "NewCommittedPool transactionPoolFutureTimestampGraceTimeout =
     \<lparr>cp_transactions = [], cp_futureTimestampGrace = transactionPoolFutureTimestampGraceTimeout,
      cp_transactionCount = 0, cp_poolSizeInBytes = 0\<rparr>"

definition sizeOfCommittedTransaction :: "Wire \<Rightarrow> committedTransaction \<Rightarrow> 32 word" where
  "sizeOfCommittedTransaction w transaction = of_nat (length (raw_receipt w (ctx_receipt transaction)))"

definition committed_add ::
  "Wire \<Rightarrow> committedTxPool \<Rightarrow> TransactionReceipt \<Rightarrow> BlockHeight \<Rightarrow> TimestampNano \<Rightarrow> committedTxPool" where
  "committed_add w p receipt blockHeight blockTs =
     (let transaction = \<lparr>ctx_receipt = receipt, ctx_blockHeight = blockHeight, ctx_blockTimestamp = blockTs\<rparr>;
          size0 = sizeOfCommittedTransaction w transaction
      in p\<lparr>cp_transactions := AList.update (rcpt_txhash receipt) transaction (cp_transactions p),
           cp_transactionCount := cp_transactionCount p + 1,
           cp_poolSizeInBytes := cp_poolSizeInBytes p + ucast size0\<rparr>)"

definition committed_get :: "committedTxPool \<Rightarrow> Sha256 \<Rightarrow> committedTransaction option" where
  "committed_get p txHash = map_of (cp_transactions p) txHash"

definition committed_has :: "committedTxPool \<Rightarrow> Sha256 \<Rightarrow> bool" where
  "committed_has p txHash = (map_of (cp_transactions p) txHash \<noteq> None)"

text \<open>Ranging over the map while deleting from it: an entry deleted before it is reached is skipped.\<close>

fun committedClearLoop ::
  "Wire \<Rightarrow> TimestampNano \<Rightarrow> (Sha256 \<times> committedTransaction) list \<Rightarrow> committedTxPool \<Rightarrow> committedTxPool" where
  "committedClearLoop w timestamp [] p = p"
| "committedClearLoop w timestamp ((k, tx) # rest) p =
     committedClearLoop w timestamp rest
       (if map_of (cp_transactions p) k \<noteq> None \<and> ctx_blockTimestamp tx + cp_futureTimestampGrace p < timestamp
        then p\<lparr>cp_transactions := AList.delete (rcpt_txhash (ctx_receipt tx)) (cp_transactions p),
               cp_transactionCount := cp_transactionCount p - 1,
               cp_poolSizeInBytes := cp_poolSizeInBytes p - ucast (sizeOfCommittedTransaction w tx)\<rparr>
        else p)"

definition committed_clearTransactionsOlderThan :: "Wire \<Rightarrow> committedTxPool \<Rightarrow> TimestampNano \<Rightarrow> committedTxPool" where
  "committed_clearTransactionsOlderThan w p timestamp = committedClearLoop w timestamp (cp_transactions p) p"

subsection \<open>Validation\<close>

definition txpool_ProtocolVersion :: ProtocolVersion where
  "txpool_ProtocolVersion = 1"

record validationContext =
  vc_nodeSyncRejectInterval :: "64 word"
  vc_expiryWindow :: "64 word"
  vc_futureTimestampGrace :: "64 word"
  vc_virtualChainId :: VirtualChainId

text \<open>A validator returns \<open>None\<close>, or the status a transaction is rejected with.\<close>

definition validateProtocolVersion :: "SignedTransaction \<Rightarrow> TransactionStatus option" where
  "validateProtocolVersion transaction =
     (if tx_protocolVersion (stx_transaction transaction) \<noteq> txpool_ProtocolVersion
      then Some STATUS_REJECTED_UNSUPPORTED_VERSION else None)"

definition validateTransactionVirtualChainId :: "validationContext \<Rightarrow> SignedTransaction \<Rightarrow> TransactionStatus option" where
  "validateTransactionVirtualChainId c transaction =
     (if tx_virtualChainId (stx_transaction transaction) \<noteq> vc_virtualChainId c
      then Some STATUS_REJECTED_VIRTUAL_CHAIN_MISMATCH else None)"

definition validateSignatureType :: "SignedTransaction \<Rightarrow> TransactionStatus option" where
  "validateSignatureType transaction =
     (case tx_signer (stx_transaction transaction) of
        EddsaSigner signerPublicKey \<Rightarrow>
          if length signerPublicKey \<noteq> ED25519_PUBLIC_KEY_SIZE_BYTES then Some STATUS_REJECTED_SIGNATURE_MISMATCH else None
      | _ \<Rightarrow> Some STATUS_REJECTED_UNKNOWN_SIGNER_SCHEME)"

definition validateNodeIsInSync :: "validationContext \<Rightarrow> 64 word \<Rightarrow> TimestampNano \<Rightarrow> TransactionStatus option" where
  "validateNodeIsInSync c currentTime lastCommittedBlockTimestamp =
     (let threshold = currentTime - vc_nodeSyncRejectInterval c
      in if lastCommittedBlockTimestamp < threshold then Some STATUS_REJECTED_NODE_OUT_OF_SYNC else None)"

definition validateTransactionNotExpired :: "validationContext \<Rightarrow> SignedTransaction \<Rightarrow> TimestampNano \<Rightarrow> TransactionStatus option" where
  "validateTransactionNotExpired c transaction proposedBlockTimestamp =
     (let threshold = proposedBlockTimestamp - vc_expiryWindow c
      in if tx_timestamp (stx_transaction transaction) < threshold
         then Some STATUS_REJECTED_TIMESTAMP_WINDOW_EXCEEDED else None)"

definition validateTransactionNotInFuture :: "validationContext \<Rightarrow> SignedTransaction \<Rightarrow> TimestampNano \<Rightarrow> TransactionStatus option" where
  "validateTransactionNotInFuture c transaction proposedBlockTimestamp =
     (let tsWithGrace = proposedBlockTimestamp + vc_futureTimestampGrace c
      in if tx_timestamp (stx_transaction transaction) > tsWithGrace
         then Some STATUS_REJECTED_TIMESTAMP_AHEAD_OF_NODE_TIME else None)"

fun firstError :: "'e option list \<Rightarrow> 'e option" where
  "firstError [] = None"
| "firstError (Some e # es) = Some e"
| "firstError (None # es) = firstError es"

definition ValidateAddedTransaction ::
  "validationContext \<Rightarrow> SignedTransaction \<Rightarrow> 64 word \<Rightarrow> TimestampNano \<Rightarrow> TransactionStatus option" where
  "ValidateAddedTransaction c transaction currentTime lastCommittedBlockTimestamp =
     firstError
       [validateProtocolVersion transaction,
        validateSignatureType transaction,
        validateTransactionVirtualChainId c transaction,
        validateNodeIsInSync c currentTime lastCommittedBlockTimestamp,
        validateTransactionNotExpired c transaction currentTime,
        validateTransactionNotInFuture c transaction currentTime]"

definition ValidateTransactionForOrdering ::
  "validationContext \<Rightarrow> SignedTransaction \<Rightarrow> TimestampNano \<Rightarrow> TransactionStatus option" where
  "ValidateTransactionForOrdering c transaction proposedBlockTimestamp =
     firstError
       [validateProtocolVersion transaction,
        validateSignatureType transaction,
        validateTransactionVirtualChainId c transaction,
        validateTransactionNotExpired c transaction proposedBlockTimestamp,
        validateTransactionNotInFuture c transaction proposedBlockTimestamp]"

subsection \<open>Forwarding\<close>

text \<open>
  \<open>transactionAdded\<close> is a channel with one slot. \<open>tf_transactionAdded\<close> lists the values sent and not yet
  received: the first is in the slot, the senders of the others are blocked.
\<close>

record transactionForwarder =
  tf_forwardQueue :: "SignedTransaction list"
  tf_transactionAdded :: "16 word list"

definition appendToQueue :: "transactionForwarder \<Rightarrow> SignedTransaction list \<Rightarrow> transactionForwarder \<times> 16 word" where
  "appendToQueue f transactions =
     (let q = tf_forwardQueue f @ transactions in (f\<lparr>tf_forwardQueue := q\<rparr>, of_nat (length q)))"

text \<open>\<open>submit\<close> also tells whether the caller goes on; otherwise it is blocked on the channel.\<close>

definition submit :: "transactionForwarder \<Rightarrow> SignedTransaction list \<Rightarrow> transactionForwarder \<times> bool" where
  "submit f transactions =
     (let (f, n) = appendToQueue f transactions
      in (f\<lparr>tf_transactionAdded := tf_transactionAdded f @ [n]\<rparr>, tf_transactionAdded f = []))"

definition drainQueue :: "transactionForwarder \<Rightarrow> transactionForwarder \<times> SignedTransaction list" where
  "drainQueue f = (f\<lparr>tf_forwardQueue := []\<rparr>, tf_forwardQueue f)"

text \<open>The checksum of Go's \<open>hash/adler32\<close>, four bytes, most significant first.\<close>

fun adler32 :: "nat \<Rightarrow> nat \<Rightarrow> bytes \<Rightarrow> nat \<times> nat" where
  "adler32 a b [] = (a, b)"
| "adler32 a b (x # xs) = (let a' = (a + unat x) mod 65521 in adler32 a' ((b + a') mod 65521) xs)"

definition adler32_Sum :: "bytes \<Rightarrow> bytes" where
  "adler32_Sum bs =
     (let (a, b) = adler32 1 0 bs in map of_nat [b div 256, b mod 256, a div 256, a mod 256])"

definition HashTransactions :: "hasher \<Rightarrow> Wire \<Rightarrow> SignedTransaction list \<Rightarrow> bytes \<times> Sha256 list" where
  "HashTransactions sha w txs =
     (let hashes = map (stxHash sha w) txs in (adler32_Sum (concat hashes), hashes))"

record ForwardedTransactionsMessage =
  ftm_signedTransactions :: "SignedTransaction list"
  ftm_senderNodeAddress :: NodeAddress
  ftm_signature :: bytes

text \<open>
  One run of \<open>drainQueueAndForward\<close>: the forwarder, the message broadcast if any, and whether the
  forwarder's own goroutine goes on.
\<close>

definition drainQueueAndForward ::
  "hasher \<Rightarrow> Wire \<Rightarrow> (bytes \<Rightarrow> bytes option) \<Rightarrow> NodeAddress \<Rightarrow> transactionForwarder
     \<Rightarrow> transactionForwarder \<times> ForwardedTransactionsMessage option \<times> bool" where
  "drainQueueAndForward sha w sign nodeAddress f0 =
     (let (f, txs) = drainQueue f0 in
      if length txs = 0 then (f, None, True)
      else let (oneBigHash, hashes) = HashTransactions sha w txs in
        case sign oneBigHash of
          None \<Rightarrow> (let (f, goesOn) = submit f txs in (f, None, goesOn))
        | Some sig \<Rightarrow>
            (f, Some \<lparr>ftm_signedTransactions = txs, ftm_senderNodeAddress = nodeAddress, ftm_signature = sig\<rparr>, True))"

datatype forwarder_event = TransactionAdded | TimerFired

text \<open>One turn of the loop of \<open>start\<close>; receiving needs a value in the channel.\<close>

definition forwarder_turn ::
  "hasher \<Rightarrow> Wire \<Rightarrow> (bytes \<Rightarrow> bytes option) \<Rightarrow> NodeAddress \<Rightarrow> 16 word \<Rightarrow> transactionForwarder \<Rightarrow> forwarder_event
     \<Rightarrow> (transactionForwarder \<times> ForwardedTransactionsMessage option \<times> bool) option" where
  "forwarder_turn sha w sign nodeAddress batchSize f e =
     (case e of
        TimerFired \<Rightarrow> Some (drainQueueAndForward sha w sign nodeAddress f)
      | TransactionAdded \<Rightarrow>
          (case tf_transactionAdded f of
             [] \<Rightarrow> None
           | txCount # rest \<Rightarrow>
               let f = f\<lparr>tf_transactionAdded := rest\<rparr> in
               if txCount \<ge> batchSize then Some (drainQueueAndForward sha w sign nodeAddress f)
               else Some (f, None, True)))"

subsection \<open>The service\<close>

datatype notification =
    HandleTransactionResults nat BlockHeight TimestampNano "TransactionReceipt list"
  | HandleTransactionError nat Sha256 TransactionStatus TimestampNano BlockHeight
  | ReportHeight BlockHeight

record TxPool =
  tps_nodeAddress :: NodeAddress
  tps_expirationWindow :: "64 word"
  tps_handlers :: "nat list"
  tps_lastHeight :: BlockHeight
  tps_lastTimestamp :: TimestampNano
  tps_pendingPool :: pendingTxPool
  tps_committedPool :: committedTxPool
  tps_blockTracker :: BlockTracker
  tps_forwarder :: transactionForwarder
  tps_validationContext :: validationContext
  tps_log :: "notification list"

record TxPoolConfig =
  tpc_nodeAddress :: NodeAddress
  tpc_virtualChainId :: VirtualChainId
  tpc_expirationWindow :: "64 word"
  tpc_nodeSyncRejectTime :: "64 word"
  tpc_futureTimestampGraceTimeout :: "64 word"
  tpc_pendingPoolSizeInBytes :: "32 word"
  tpc_blockTrackerGraceDistance :: "32 word"

definition createValidationContext :: "TxPoolConfig \<Rightarrow> validationContext" where
  "createValidationContext c =
     \<lparr>vc_nodeSyncRejectInterval = tpc_nodeSyncRejectTime c, vc_expiryWindow = tpc_expirationWindow c,
      vc_futureTimestampGrace = tpc_futureTimestampGraceTimeout c, vc_virtualChainId = tpc_virtualChainId c\<rparr>"

definition NewTransactionPool :: "TxPoolConfig \<Rightarrow> TxPool" where
  "NewTransactionPool config =
     \<lparr>tps_nodeAddress = tpc_nodeAddress config, tps_expirationWindow = tpc_expirationWindow config, tps_handlers = [],
      tps_lastHeight = 0, tps_lastTimestamp = 0,
      tps_pendingPool = NewPendingPool (tpc_pendingPoolSizeInBytes config),
      tps_committedPool = NewCommittedPool (tpc_futureTimestampGraceTimeout config),
      tps_blockTracker = NewBlockTracker 0 (ucast (tpc_blockTrackerGraceDistance config)),
      tps_forwarder = \<lparr>tf_forwardQueue = [], tf_transactionAdded = []\<rparr>,
      tps_validationContext = createValidationContext config, tps_log = []\<rparr>"

definition RegisterTransactionResultsHandler :: "TxPool \<Rightarrow> nat \<Rightarrow> TxPool" where
  "RegisterTransactionResultsHandler s handler = s\<lparr>tps_handlers := tps_handlers s @ [handler]\<rparr>"

definition onTransactionError :: "TxPool \<Rightarrow> Sha256 \<Rightarrow> TransactionStatus \<Rightarrow> notification list \<Rightarrow> notification list" where
  "onTransactionError s txHash removalReason calls =
     (if removalReason \<noteq> STATUS_COMMITTED
      then calls @ map (\<lambda>trh. HandleTransactionError trh txHash removalReason (tps_lastTimestamp s) (tps_lastHeight s)) (tps_handlers s)
      else calls)"

text \<open>\<open>s.pendingPool.remove\<close>, with the service's own callback.\<close>

definition service_remove :: "Wire \<Rightarrow> TxPool \<Rightarrow> Sha256 \<Rightarrow> TransactionStatus \<Rightarrow> TxPool \<times> NodeAddress option" where
  "service_remove w s txHash removalReason =
     (let ((p, calls), gw) = pending_remove w (onTransactionError s) (tps_pendingPool s, tps_log s) txHash removalReason
      in (s\<lparr>tps_pendingPool := p, tps_log := calls\<rparr>, gw))"

text \<open>One tick of each of the two cleaning processes.\<close>

definition cleanCommittedPool :: "Wire \<Rightarrow> TxPool \<Rightarrow> TxPool" where
  "cleanCommittedPool w s =
     s\<lparr>tps_committedPool := committed_clearTransactionsOlderThan w (tps_committedPool s)
        (tps_lastTimestamp s - tps_expirationWindow s)\<rparr>"

definition cleanPendingPool :: "hasher \<Rightarrow> Wire \<Rightarrow> TxPool \<Rightarrow> TxPool" where
  "cleanPendingPool sha w s =
     (let (p, calls) = pending_clearTransactionsOlderThan sha w (onTransactionError s) (tps_pendingPool s, tps_log s)
        (tps_lastTimestamp s - tps_expirationWindow s)
      in s\<lparr>tps_pendingPool := p, tps_log := calls\<rparr>)"

subsection \<open>Adding transactions\<close>

datatype txPoolError =
    ErrTransactionRejected TransactionStatus
  | ErrVirtualMachine
  | ErrPreOrderResultCount
  | ErrTracker trackerError
  | ErrAlreadyCommitted Sha256
  | ErrInvalidForOrdering Sha256 TransactionStatus
  | ErrFailedPreOrder Sha256 TransactionStatus
  | ErrSignature digestError

text \<open>
  \<open>TransactionSetPreOrder\<close> of the virtual machine: the statuses in its output (\<open>None\<close> for a nil output)
  and whether it returned an error.
\<close>

type_synonym PreOrder = "SignedTransaction list \<Rightarrow> BlockHeight \<Rightarrow> TimestampNano \<Rightarrow> TransactionStatus list option \<times> bool"

record TxOutput =
  out_transactionReceipt :: "TransactionReceipt option"
  out_transactionStatus :: TransactionStatus
  out_blockHeight :: BlockHeight
  out_blockTimestamp :: TimestampNano

definition addTransactionOutputFor :: "TxPool \<Rightarrow> TransactionReceipt option \<Rightarrow> TransactionStatus \<Rightarrow> TxOutput" where
  "addTransactionOutputFor s maybeReceipt status =
     \<lparr>out_transactionReceipt = maybeReceipt, out_transactionStatus = status,
      out_blockHeight = tps_lastHeight s, out_blockTimestamp = tps_lastTimestamp s\<rparr>"

definition validateSingleTransactionForPreOrder ::
  "PreOrder \<Rightarrow> TxPool \<Rightarrow> 64 word \<Rightarrow> SignedTransaction \<Rightarrow> (txPoolError, unit) result" where
  "validateSingleTransactionForPreOrder preOrder s now transaction =
     (let (output, failed) = preOrder [transaction] (tps_lastHeight s + 1) now in
      if failed then Err ErrVirtualMachine
      else case output of
        None \<Rightarrow> Panic
      | Some preOrderResults \<Rightarrow>
          if length preOrderResults \<noteq> 1 then Err ErrPreOrderResultCount
          else if preOrderResults ! 0 \<noteq> STATUS_PRE_ORDER_VALID then Err (ErrTransactionRejected (preOrderResults ! 0))
          else Ok ())"

definition addToPendingPoolAfterCheckingCommitted ::
  "hasher \<Rightarrow> Wire \<Rightarrow> TxPool \<Rightarrow> SignedTransaction \<Rightarrow> Sha256 \<Rightarrow> TxPool \<times> TxOutput option \<times> txPoolError option" where
  "addToPendingPoolAfterCheckingCommitted sha w s tx txHash =
     (case committed_get (tps_committedPool s) txHash of
        Some alreadyCommitted \<Rightarrow>
          (s, Some (addTransactionOutputFor s (Some (ctx_receipt alreadyCommitted)) STATUS_DUPLICATE_TRANSACTION_ALREADY_COMMITTED), None)
      | None \<Rightarrow>
          (case pending_add sha w (tps_pendingPool s) tx (tps_nodeAddress s) of
             (p, Inl status) \<Rightarrow> (s\<lparr>tps_pendingPool := p\<rparr>, Some (addTransactionOutputFor s None status), Some (ErrTransactionRejected status))
           | (p, Inr _) \<Rightarrow> (s\<lparr>tps_pendingPool := p\<rparr>, None, None)))"

text \<open>
  \<open>currentTime\<close> and \<open>now\<close> are the two readings of the system clock. The last component tells whether the call
  returns or is blocked handing the transaction to the forwarder.
\<close>

definition AddNewTransaction ::
  "hasher \<Rightarrow> Wire \<Rightarrow> PreOrder \<Rightarrow> TxPool \<Rightarrow> 64 word \<Rightarrow> 64 word \<Rightarrow> SignedTransaction
     \<Rightarrow> (unit, TxPool \<times> TxOutput \<times> txPoolError option \<times> bool) result" where
  "AddNewTransaction sha w preOrder s currentTime now tx =
     (let txHash = stxHash sha w tx in
      case ValidateAddedTransaction (tps_validationContext s) tx currentTime (tps_lastTimestamp s) of
        Some status \<Rightarrow> Ok (s, addTransactionOutputFor s None status, Some (ErrTransactionRejected status), True)
      | None \<Rightarrow>
          (case validateSingleTransactionForPreOrder preOrder s now tx of
             Panic \<Rightarrow> Panic
           | Err err \<Rightarrow>
               (let status = (case err of ErrTransactionRejected st \<Rightarrow> st | _ \<Rightarrow> STATUS_REJECTED_SMART_CONTRACT_PRE_ORDER)
                in Ok (s, addTransactionOutputFor s None status, Some err, True))
           | Ok _ \<Rightarrow>
               (case addToPendingPoolAfterCheckingCommitted sha w s tx txHash of
                  (s, Some output, err) \<Rightarrow> Ok (s, output, err, True)
                | (s, None, err) \<Rightarrow>
                    (let (f, goesOn) = submit (tps_forwarder s) [tx];
                         s = s\<lparr>tps_forwarder := f\<rparr>
                     in Ok (s, addTransactionOutputFor s None STATUS_PENDING, None, goesOn)))))"

definition HandleForwardedTransactions ::
  "hasher \<Rightarrow> hasher \<Rightarrow> (bytes \<Rightarrow> bytes \<Rightarrow> bytes option) \<Rightarrow> Wire \<Rightarrow> TxPool \<Rightarrow> ForwardedTransactionsMessage
     \<Rightarrow> TxPool \<times> txPoolError option" where
  "HandleForwardedTransactions sha keccak recover w s message =
     (let (oneBigHash, _) = HashTransactions sha w (ftm_signedTransactions message) in
      case VerifyNodeSignature sha keccak recover (ftm_senderNodeAddress message) oneBigHash (ftm_signature message) of
        Err e \<Rightarrow> (s, Some (ErrSignature e))
      | _ \<Rightarrow>
          (s\<lparr>tps_pendingPool :=
              fold (\<lambda>tx p. fst (pending_add sha w p tx (ftm_senderNodeAddress message))) (ftm_signedTransactions message)
                (tps_pendingPool s)\<rparr>, None))"

definition getTxResult :: "TxPool \<Rightarrow> TransactionReceipt option \<Rightarrow> TransactionStatus \<Rightarrow> TxOutput" where
  "getTxResult s receipt status =
     \<lparr>out_transactionReceipt = receipt, out_transactionStatus = status,
      out_blockHeight = tps_lastHeight s, out_blockTimestamp = tps_lastTimestamp s\<rparr>"

definition GetCommittedTransactionReceipt :: "TxPool \<Rightarrow> Sha256 \<Rightarrow> TxOutput" where
  "GetCommittedTransactionReceipt s txhash =
     (case pending_get (tps_pendingPool s) txhash of
        Some tx \<Rightarrow> getTxResult s None STATUS_PENDING
      | None \<Rightarrow>
          (case committed_get (tps_committedPool s) txhash of
             Some tx \<Rightarrow> \<lparr>out_transactionReceipt = Some (ctx_receipt tx), out_transactionStatus = STATUS_COMMITTED,
                         out_blockHeight = ctx_blockHeight tx, out_blockTimestamp = ctx_blockTimestamp tx\<rparr>
           | None \<Rightarrow> getTxResult s None STATUS_NO_RECORD_FOUND))"

subsection \<open>Committing receipts\<close>

record committer =
  cm_nodeAddress :: NodeAddress
  cm_blockHeight :: BlockHeight
  cm_blockTime :: TimestampNano
  cm_myReceipts :: "TransactionReceipt list"

definition amITheGatewayOf :: "committer \<Rightarrow> NodeAddress option \<Rightarrow> bool" where
  "amITheGatewayOf c removedTxGateway = (removedTxGateway = Some (cm_nodeAddress c))"

fun commit :: "Wire \<Rightarrow> TxPool \<Rightarrow> committer \<Rightarrow> TransactionReceipt list \<Rightarrow> TxPool \<times> committer" where
  "commit w s c [] = (s, c)"
| "commit w s c (receipt # receipts) =
     (let s = s\<lparr>tps_committedPool := committed_add w (tps_committedPool s) receipt (cm_blockHeight c) (cm_blockTime c)\<rparr>;
          (s, removedTxGateway) = service_remove w s (rcpt_txhash receipt) STATUS_COMMITTED;
          c = (if amITheGatewayOf c removedTxGateway then c\<lparr>cm_myReceipts := cm_myReceipts c @ [receipt]\<rparr> else c)
      in commit w s c receipts)"

definition committer_notify :: "committer \<Rightarrow> nat list \<Rightarrow> notification list" where
  "committer_notify c resultsHandlers =
     (if length (cm_myReceipts c) > 0
      then map (\<lambda>handler. HandleTransactionResults handler (cm_blockHeight c) (cm_blockTime c) (cm_myReceipts c)) resultsHandlers
      else [])"

definition updateBlockHeightAndTimestamp :: "TxPool \<Rightarrow> ResultsBlockHeader \<Rightarrow> TxPool \<times> BlockHeight \<times> TimestampNano" where
  "updateBlockHeightAndTimestamp s header =
     (s\<lparr>tps_lastHeight := rbh_blockHeight header, tps_lastTimestamp := rbh_timestamp header\<rparr>,
      rbh_blockHeight header, rbh_timestamp header)"

text \<open>The output is the pair of the next desired and the last committed height.\<close>

definition CommitTransactionReceipts ::
  "Wire \<Rightarrow> TxPool \<Rightarrow> BlockHeight \<Rightarrow> ResultsBlockHeader \<Rightarrow> TransactionReceipt list
     \<Rightarrow> (unit, TxPool \<times> BlockHeight \<times> BlockHeight) result" where
  "CommitTransactionReceipts w s lastCommittedBlockHeight header receipts =
     (let bh = tps_lastHeight s in
      if lastCommittedBlockHeight \<noteq> bh + 1 then Ok (s, bh + 1, bh)
      else let (s, newBh, ts) = updateBlockHeightAndTimestamp s header;
               c = \<lparr>cm_nodeAddress = tps_nodeAddress s, cm_blockHeight = newBh, cm_blockTime = ts, cm_myReceipts = []\<rparr>;
               (s, c) = commit w s c receipts
           in bind_result (IncrementTo (tps_blockTracker s) newBh)
                (\<lambda>tracker. Ok (s\<lparr>tps_blockTracker := tracker,
                    tps_log := tps_log s @ [ReportHeight newBh] @ committer_notify c (tps_handlers s)\<rparr>,
                  newBh + 1, newBh)))"

subsection \<open>Ordering\<close>

record rejectedTransaction =
  rt_hash :: Sha256
  rt_status :: TransactionStatus

record transactionBatch =
  tb_maxNumOfTransactions :: "32 word"
  tb_sizeLimit :: "32 word"
  tb_incomingTransactions :: "SignedTransaction list"
  tb_transactionsToReject :: "rejectedTransaction list"
  tb_transactionsForPreOrder :: "SignedTransaction list"
  tb_validTransactions :: "SignedTransaction list"

definition newTransactionBatch :: "32 word \<Rightarrow> 32 word \<Rightarrow> transactionBatch" where
  "newTransactionBatch maxNum sizeLimit =
     \<lparr>tb_maxNumOfTransactions = maxNum, tb_sizeLimit = sizeLimit, tb_incomingTransactions = [],
      tb_transactionsToReject = [], tb_transactionsForPreOrder = [], tb_validTransactions = []\<rparr>"

definition fetchUsing :: "Wire \<Rightarrow> transactionBatch \<Rightarrow> pendingTxPool \<Rightarrow> transactionBatch" where
  "fetchUsing w r fetcher =
     r\<lparr>tb_incomingTransactions := getBatch w fetcher (tb_maxNumOfTransactions r) (tb_sizeLimit r)\<rparr>"

definition batch_reject :: "transactionBatch \<Rightarrow> Sha256 \<Rightarrow> TransactionStatus \<Rightarrow> transactionBatch" where
  "batch_reject r txHash transactionStatus =
     r\<lparr>tb_transactionsToReject := tb_transactionsToReject r @ [\<lparr>rt_hash = txHash, rt_status = transactionStatus\<rparr>]\<rparr>"

definition queueForPreOrderValidation :: "transactionBatch \<Rightarrow> SignedTransaction \<Rightarrow> transactionBatch" where
  "queueForPreOrderValidation r transaction =
     r\<lparr>tb_transactionsForPreOrder := tb_transactionsForPreOrder r @ [transaction]\<rparr>"

definition batch_accept :: "transactionBatch \<Rightarrow> SignedTransaction \<Rightarrow> transactionBatch" where
  "batch_accept r transaction = r\<lparr>tb_validTransactions := tb_validTransactions r @ [transaction]\<rparr>"

definition filterOne ::
  "hasher \<Rightarrow> Wire \<Rightarrow> validationContext \<Rightarrow> committedTxPool \<Rightarrow> TimestampNano \<Rightarrow> SignedTransaction \<Rightarrow> transactionBatch \<Rightarrow> transactionBatch" where
  "filterOne sha w validator committedTransactions proposedBlockTimestamp tx r =
     (let txHash = stxHash sha w tx in
      case ValidateTransactionForOrdering validator tx proposedBlockTimestamp of
        Some status \<Rightarrow> batch_reject r txHash status
      | None \<Rightarrow>
          if committed_has committedTransactions txHash
          then batch_reject r txHash STATUS_DUPLICATE_TRANSACTION_ALREADY_COMMITTED
          else queueForPreOrderValidation r tx)"

definition filterInvalidTransactions ::
  "hasher \<Rightarrow> Wire \<Rightarrow> validationContext \<Rightarrow> committedTxPool \<Rightarrow> TimestampNano \<Rightarrow> transactionBatch \<Rightarrow> transactionBatch" where
  "filterInvalidTransactions sha w validator committedTransactions proposedBlockTimestamp r =
     (fold (filterOne sha w validator committedTransactions proposedBlockTimestamp) (tb_incomingTransactions r) r)
       \<lparr>tb_incomingTransactions := []\<rparr>"

definition preOrderCheck :: "PreOrder \<Rightarrow> SignedTransaction list \<Rightarrow> BlockHeight \<Rightarrow> TimestampNano
    \<Rightarrow> (unit, TransactionStatus list \<times> bool) result" where
  "preOrderCheck preOrder txs currentBlockHeight currentBlockTimestamp =
     (let (output, failed) = preOrder txs currentBlockHeight currentBlockTimestamp in
      if failed then Ok ([], True)
      else case output of None \<Rightarrow> Panic | Some preOrderResults \<Rightarrow> Ok (preOrderResults, False))"

definition preOrderOne :: "hasher \<Rightarrow> Wire \<Rightarrow> SignedTransaction \<times> TransactionStatus \<Rightarrow> transactionBatch \<Rightarrow> transactionBatch" where
  "preOrderOne sha w p r =
     (if snd p = STATUS_PRE_ORDER_VALID then batch_accept r (fst p)
      else batch_reject r (stxHash sha w (fst p)) (snd p))"

text \<open>The batch, and whether the check returned an error.\<close>

definition runPreOrderValidations ::
  "hasher \<Rightarrow> Wire \<Rightarrow> PreOrder \<Rightarrow> transactionBatch \<Rightarrow> BlockHeight \<Rightarrow> TimestampNano \<Rightarrow> (unit, transactionBatch \<times> bool) result" where
  "runPreOrderValidations sha w preOrder r currentBlockHeight currentBlockTimestamp =
     bind_result (preOrderCheck preOrder (tb_transactionsForPreOrder r) currentBlockHeight currentBlockTimestamp)
       (\<lambda>(preOrderResults, failed).
          if length preOrderResults \<noteq> length (tb_transactionsForPreOrder r) then Panic
          else Ok ((fold (preOrderOne sha w) (zip (tb_transactionsForPreOrder r) preOrderResults) r)
                     \<lparr>tb_transactionsForPreOrder := []\<rparr>, failed))"

definition runBatch ::
  "hasher \<Rightarrow> Wire \<Rightarrow> PreOrder \<Rightarrow> TxPool \<Rightarrow> BlockHeight \<Rightarrow> 32 word \<Rightarrow> 32 word \<Rightarrow> TimestampNano \<Rightarrow> (unit, transactionBatch \<times> bool) result" where
  "runBatch sha w preOrder s currentBlockHeight maxNum maxSizeKb proposedBlockTimestamp =
     (let batch = fetchUsing w (newTransactionBatch maxNum (maxSizeKb * 1024)) (tps_pendingPool s);
          batch = filterInvalidTransactions sha w (tps_validationContext s) (tps_committedPool s) proposedBlockTimestamp batch
      in runPreOrderValidations sha w preOrder batch currentBlockHeight proposedBlockTimestamp)"

fun notifyRejections :: "Wire \<Rightarrow> rejectedTransaction list \<Rightarrow> TxPool \<Rightarrow> TxPool" where
  "notifyRejections w [] s = s"
| "notifyRejections w (rejected # rest) s =
     notifyRejections w rest (fst (service_remove w s (rt_hash rejected) (rt_status rejected)))"

definition hasEnoughTransactions :: "transactionBatch \<Rightarrow> nat \<Rightarrow> bool" where
  "hasEnoughTransactions r numOfTransactions = (length (tb_validTransactions r) \<ge> numOfTransactions)"

definition proposeBlockTimestampWithCurrentTime :: "64 word \<Rightarrow> TimestampNano \<Rightarrow> TimestampNano" where
  "proposeBlockTimestampWithCurrentTime now prevBlockTimestamp = CalcNewBlockTimestamp prevBlockTimestamp now"

text \<open>
  While the batch is empty the call waits: either the time between empty blocks is over, or a transaction
  has arrived, with the service's state and the clock at that moment. \<open>None\<close>: it still waits.
\<close>

datatype order_event = EmptyBlockTimeout | NewTransaction TxPool "64 word"

record OrderingInput =
  oi_currentBlockHeight :: BlockHeight
  oi_prevBlockTimestamp :: TimestampNano
  oi_maxTransactionsSetSizeKb :: "32 word"
  oi_maxNumberOfTransactions :: "32 word"

text \<open>The state with its rejections notified, the transactions, the proposed timestamp, and the error.\<close>

type_synonym OrderingOutput = "TxPool \<times> SignedTransaction list \<times> TimestampNano \<times> bool"

definition orderingBatch ::
  "hasher \<Rightarrow> Wire \<Rightarrow> PreOrder \<Rightarrow> OrderingInput \<Rightarrow> TxPool \<Rightarrow> 64 word \<Rightarrow> (unit, TimestampNano \<times> transactionBatch \<times> bool) result" where
  "orderingBatch sha w preOrder input s now =
     (let ts = proposeBlockTimestampWithCurrentTime now (oi_prevBlockTimestamp input)
      in bind_result (runBatch sha w preOrder s (oi_currentBlockHeight input) (oi_maxNumberOfTransactions input)
                        (oi_maxTransactionsSetSizeKb input) ts)
           (\<lambda>(batch, failed). Ok (ts, batch, failed)))"

definition finishOrdering :: "Wire \<Rightarrow> TxPool \<Rightarrow> TimestampNano \<times> transactionBatch \<times> bool \<Rightarrow> OrderingOutput" where
  "finishOrdering w s b =
     (let (ts, batch, failed) = b
      in (notifyRejections w (tb_transactionsToReject batch) s, tb_validTransactions batch, ts, failed))"

fun orderingLoop ::
  "hasher \<Rightarrow> Wire \<Rightarrow> PreOrder \<Rightarrow> OrderingInput \<Rightarrow> TxPool \<Rightarrow> TimestampNano \<times> transactionBatch \<times> bool \<Rightarrow> order_event list
     \<Rightarrow> (txPoolError, OrderingOutput) result option" where
  "orderingLoop sha w preOrder input s b events =
     (if hasEnoughTransactions (fst (snd b)) 1 then Some (Ok (finishOrdering w s b))
      else case events of
        [] \<Rightarrow> None
      | EmptyBlockTimeout # _ \<Rightarrow> Some (Ok (finishOrdering w s b))
      | NewTransaction s' now # rest \<Rightarrow>
          (case orderingBatch sha w preOrder input s' now of
             Ok b' \<Rightarrow> orderingLoop sha w preOrder input s' b' rest
           | _ \<Rightarrow> Some Panic))"

declare orderingLoop.simps [simp del]

definition GetTransactionsForOrdering ::
  "hasher \<Rightarrow> Wire \<Rightarrow> PreOrder \<Rightarrow> OrderingInput \<Rightarrow> TxPool \<Rightarrow> wait_event list \<Rightarrow> TxPool \<Rightarrow> 64 word \<Rightarrow> order_event list
     \<Rightarrow> (txPoolError, OrderingOutput) result option" where
  "GetTransactionsForOrdering sha w preOrder input s0 waits s now events =
     (if oi_currentBlockHeight input = 1
      then Some (Ok (s0, [], proposeBlockTimestampWithCurrentTime now (oi_prevBlockTimestamp input), False))
      else case WaitForBlock (tps_blockTracker s0) waits (oi_currentBlockHeight input - 1) of
        None \<Rightarrow> None
      | Some (Err e) \<Rightarrow> Some (Err (ErrTracker e))
      | Some Panic \<Rightarrow> Some Panic
      | Some (Ok _) \<Rightarrow>
          (case orderingBatch sha w preOrder input s now of
             Ok b \<Rightarrow> orderingLoop sha w preOrder input s b events
           | _ \<Rightarrow> Some Panic))"

fun validateEach ::
  "hasher \<Rightarrow> Wire \<Rightarrow> TxPool \<Rightarrow> TimestampNano \<Rightarrow> SignedTransaction list \<Rightarrow> txPoolError option" where
  "validateEach sha w s ts [] = None"
| "validateEach sha w s ts (tx # txs) =
     (let txHash = stxHash sha w tx in
      if committed_has (tps_committedPool s) txHash then Some (ErrAlreadyCommitted txHash)
      else case ValidateTransactionForOrdering (tps_validationContext s) tx ts of
        Some status \<Rightarrow> Some (ErrInvalidForOrdering txHash status)
      | None \<Rightarrow> validateEach sha w s ts txs)"

definition ValidateTransactionsForOrdering ::
  "hasher \<Rightarrow> Wire \<Rightarrow> PreOrder \<Rightarrow> TxPool \<Rightarrow> wait_event list \<Rightarrow> TxPool \<Rightarrow> BlockHeight \<Rightarrow> TimestampNano \<Rightarrow> SignedTransaction list
     \<Rightarrow> (txPoolError, unit) result option" where
  "ValidateTransactionsForOrdering sha w preOrder s0 waits s currentBlockHeight currentBlockTimestamp txs =
     (case WaitForBlock (tps_blockTracker s0) waits (currentBlockHeight - 1) of
        None \<Rightarrow> None
      | Some (Err e) \<Rightarrow> Some (Err (ErrTracker e))
      | Some Panic \<Rightarrow> Some Panic
      | Some (Ok _) \<Rightarrow>
          (case validateEach sha w s currentBlockTimestamp txs of
             Some e \<Rightarrow> Some (Err e)
           | None \<Rightarrow>
               (let (output, failed) = preOrder txs currentBlockHeight currentBlockTimestamp in
                case output of
                  None \<Rightarrow> Some Panic
                | Some results \<Rightarrow>
                    (case (if length results = length txs
                           then find (\<lambda>p. snd p \<noteq> STATUS_PRE_ORDER_VALID) (zip txs results) else None) of
                       Some p \<Rightarrow> Some (Err (ErrFailedPreOrder (stxHash sha w (fst p)) (snd p)))
                     | None \<Rightarrow> if failed then Some (Err ErrVirtualMachine) else Some (Ok ())))))"

end
