(* ===== verification/Consensus_Context.thy ===== *)
theory Consensus_Context
  imports Transaction_Pool
begin

text \<open>
  The consensus context, \<open>services/consensuscontext\<close>: making the transactions block and the results block
  of a height, and validating those of another node. The transaction pool, the virtual machine and the
  state storage are called through arguments, as are the clock, the encodings of an empty metadata and an
  empty proof, and the encoding of a signer.
\<close>

datatype ccError =
    ErrMismatchedProtocolVersion
  | ErrMismatchedVirtualChainID
  | ErrMismatchedBlockHeight
  | ErrMismatchedPrevBlockHash
  | ErrMismatchedBlockProposer
  | ErrFailedTransactionOrdering
  | ErrMismatchedTxRxBlockHeight
  | ErrMismatchedTxRxTimestamps
  | ErrMismatchedTxHashPtrToActualTxBlock
  | ErrMismatchedTxRxBlockProposer
  | ErrGetStateHash
  | ErrMismatchedPreExecutionStateMerkleRoot
  | ErrProcessTransactionSet
  | ErrTriggerDisabledAndTriggerExists
  | ErrTriggerEnabledAndTriggerMissing
  | ErrTriggerEnabledAndTriggerNotLast
  | ErrTriggerEnabledAndTriggerInvalid
  | ErrTriggerEnabledAndTriggerInvalidTime
  | ErrTimestampNotAfterPrevious
  | ErrTimestampAboveJitter
  | ErrTimestampBelowJitter
  | ErrFetchTransactions
  | ErrZeroTimestamp
  | ErrContextCanceled
  | ErrValidator validatorError

record ConsensusContextConfig =
  cc_protocolVersion :: ProtocolVersion
  cc_virtualChainId :: VirtualChainId
  cc_triggersEnabled :: bool
  cc_maximumTransactionsInBlock :: "32 word"
  cc_allowedTimestampJitter :: "64 word"

definition TRIGGERS_CONTRACT_NAME :: ContractName where
  "TRIGGERS_CONTRACT_NAME = str ''_Triggers''"

definition METHOD_TRIGGER :: MethodName where
  "METHOD_TRIGGER = str ''trigger''"

text \<open>Validators run in order up to the first that fails.\<close>

fun runValidators :: "('e, unit) result list \<Rightarrow> ('e, unit) result" where
  "runValidators [] = Ok ()"
| "runValidators (Ok _ # vs) = runValidators vs"
| "runValidators (Err e # vs) = Err e"
| "runValidators (Panic # vs) = Panic"

definition check :: "bool \<Rightarrow> 'e \<Rightarrow> ('e, unit) result" where
  "check b e = (if b then Ok () else Err e)"

fun liftError :: "('e \<Rightarrow> 'f) \<Rightarrow> ('e, 'a) result \<Rightarrow> ('f, 'a) result" where
  "liftError f (Ok x) = Ok x"
| "liftError f (Err e) = Err (f e)"
| "liftError f Panic = Panic"

subsection \<open>Creating blocks\<close>

record NewTransactionsBlockInput =
  nti_currentBlockHeight :: BlockHeight
  nti_prevBlockHash :: Sha256
  nti_prevBlockTimestamp :: TimestampNano
  nti_blockProposerAddress :: NodeAddress

definition fetchTransactions ::
  "(OrderingInput \<Rightarrow> (SignedTransaction list \<times> TimestampNano) option) \<Rightarrow> BlockHeight \<Rightarrow> TimestampNano \<Rightarrow> 32 word
     \<Rightarrow> (SignedTransaction list \<times> TimestampNano) option" where
  "fetchTransactions getTransactionsForOrdering currentBlockHeight prevBlockTimestamp maxNumberOfTransactions =
     getTransactionsForOrdering
       \<lparr>oi_currentBlockHeight = currentBlockHeight, oi_prevBlockTimestamp = prevBlockTimestamp,
        oi_maxTransactionsSetSizeKb = 0, oi_maxNumberOfTransactions = maxNumberOfTransactions\<rparr>"

definition createTriggerTransaction :: "ConsensusContextConfig \<Rightarrow> TimestampNano \<Rightarrow> SignedTransaction" where
  "createTriggerTransaction cfg blockTime =
     \<lparr>stx_transaction = \<lparr>tx_protocolVersion = cc_protocolVersion cfg, tx_virtualChainId = cc_virtualChainId cfg,
        tx_timestamp = blockTime, tx_signer = NoSigner, tx_contractName = TRIGGERS_CONTRACT_NAME,
        tx_methodName = METHOD_TRIGGER, tx_inputArgumentArray = []\<rparr>, stx_signature = []\<rparr>"

definition updateTransactions :: "ConsensusContextConfig \<Rightarrow> SignedTransaction list \<Rightarrow> TimestampNano \<Rightarrow> SignedTransaction list" where
  "updateTransactions cfg txs blockTime =
     (if cc_triggersEnabled cfg then txs @ [createTriggerTransaction cfg blockTime] else txs)"

definition createTransactionsBlock ::
  "hasher \<Rightarrow> Wire \<Rightarrow> bytes \<Rightarrow> bytes \<Rightarrow> ConsensusContextConfig \<Rightarrow> (OrderingInput \<Rightarrow> (SignedTransaction list \<times> TimestampNano) option)
     \<Rightarrow> NewTransactionsBlockInput \<Rightarrow> (ccError, TransactionsBlockContainer) result" where
  "createTransactionsBlock sha w emptyMetadata emptyProof cfg getTransactionsForOrdering input =
     (case fetchTransactions getTransactionsForOrdering (nti_currentBlockHeight input) (nti_prevBlockTimestamp input)
             (cc_maximumTransactionsInBlock cfg) of
        None \<Rightarrow> Err ErrFetchTransactions
      | Some (proposed, newBlockTimestamp) \<Rightarrow>
          if newBlockTimestamp = 0 then Err ErrZeroTimestamp
          else let transactionsForBlock = updateTransactions cfg proposed newBlockTimestamp in
            Ok \<lparr>tbc_header = Some
                  \<lparr>tbh_protocolVersion = cc_protocolVersion cfg, tbh_virtualChainId = cc_virtualChainId cfg,
                   tbh_blockHeight = nti_currentBlockHeight input, tbh_prevBlockHashPtr = nti_prevBlockHash input,
                   tbh_timestamp = newBlockTimestamp,
                   tbh_transactionsMerkleRootHash = CalcTransactionsMerkleRoot sha w transactionsForBlock,
                   tbh_metadataHash = CalcTransactionMetaDataHash sha emptyMetadata,
                   tbh_numSignedTransactions = of_nat (length transactionsForBlock),
                   tbh_blockProposerAddress = nti_blockProposerAddress input\<rparr>,
                tbc_metadata = emptyMetadata, tbc_signedTransactions = transactionsForBlock, tbc_blockProof = emptyProof\<rparr>)"

text \<open>\<open>ProcessTransactionSet\<close> of the virtual machine: transactions, height, time and proposer to receipts and diffs.\<close>

type_synonym ProcessTransactionSet =
  "SignedTransaction list \<Rightarrow> BlockHeight \<Rightarrow> TimestampNano \<Rightarrow> NodeAddress \<Rightarrow> (TransactionReceipt list \<times> ContractStateDiff list) option"

record NewResultsBlockInput =
  nri_currentBlockHeight :: BlockHeight
  nri_prevBlockHash :: Sha256
  nri_transactionsBlock :: "TransactionsBlockContainer option"
  nri_blockProposerAddress :: NodeAddress

definition createResultsBlock ::
  "hasher \<Rightarrow> Wire \<Rightarrow> bytes \<Rightarrow> ConsensusContextConfig \<Rightarrow> ProcessTransactionSet \<Rightarrow> (BlockHeight \<Rightarrow> Sha256 option)
     \<Rightarrow> NewResultsBlockInput \<Rightarrow> (ccError, ResultsBlockContainer) result" where
  "createResultsBlock sha w emptyProof cfg processTransactionSet getStateHash input =
     bind_result (tx_header (nri_transactionsBlock input)) (\<lambda>(txBlock, header).
       case processTransactionSet (tbc_signedTransactions txBlock) (nri_currentBlockHeight input) (tbh_timestamp header)
              (nri_blockProposerAddress input) of
         None \<Rightarrow> Err ErrProcessTransactionSet
       | Some (receipts, stateDiffs) \<Rightarrow>
           if nri_currentBlockHeight input = 0 then Panic
           else case getStateHash (nri_currentBlockHeight input - 1) of
             None \<Rightarrow> Err ErrGetStateHash
           | Some preExecutionStateRootHash \<Rightarrow>
               Ok \<lparr>rbc_header = Some
                     \<lparr>rbh_protocolVersion = cc_protocolVersion cfg, rbh_virtualChainId = cc_virtualChainId cfg,
                      rbh_blockHeight = nri_currentBlockHeight input, rbh_prevBlockHashPtr = nri_prevBlockHash input,
                      rbh_timestamp = tbh_timestamp header,
                      rbh_receiptsMerkleRootHash = CalcReceiptsMerkleRoot sha w receipts,
                      rbh_stateDiffHash = CalcStateDiffHash sha w stateDiffs,
                      rbh_transactionsBlockHashPtr = CalcTransactionsBlockHash sha w (nri_transactionsBlock input),
                      rbh_preExecutionStateMerkleRootHash = preExecutionStateRootHash,
                      rbh_numTransactionReceipts = of_nat (length receipts),
                      rbh_numContractStateDiffs = of_nat (length stateDiffs),
                      rbh_blockProposerAddress = nri_blockProposerAddress input\<rparr>,
                   rbc_transactionReceipts = receipts, rbc_contractStateDiffs = stateDiffs, rbc_blockProof = emptyProof\<rparr>)"

subsection \<open>Validating a transactions block\<close>

record ValidateTransactionsBlockInput =
  vti_currentBlockHeight :: BlockHeight
  vti_transactionsBlock :: "TransactionsBlockContainer option"
  vti_prevBlockHash :: Sha256
  vti_prevBlockTimestamp :: TimestampNano
  vti_blockProposerAddress :: NodeAddress

record txValidatorContext =
  tvc_protocolVersion :: ProtocolVersion
  tvc_virtualChainId :: VirtualChainId
  tvc_allowedTimestampJitter :: "64 word"
  tvc_input :: ValidateTransactionsBlockInput

definition with_txHeader :: "txValidatorContext \<Rightarrow> (TransactionsBlockHeader \<Rightarrow> (ccError, unit) result) \<Rightarrow> (ccError, unit) result" where
  "with_txHeader vctx f = bind_result (tx_header (vti_transactionsBlock (tvc_input vctx))) (\<lambda>(_, h). f h)"

definition validateTxProtocolVersion :: "txValidatorContext \<Rightarrow> (ccError, unit) result" where
  "validateTxProtocolVersion vctx =
     with_txHeader vctx (\<lambda>h. check (tbh_protocolVersion h = tvc_protocolVersion vctx) ErrMismatchedProtocolVersion)"

definition validateTxVirtualChainID :: "txValidatorContext \<Rightarrow> (ccError, unit) result" where
  "validateTxVirtualChainID vctx =
     with_txHeader vctx (\<lambda>h. check (tbh_virtualChainId h = tvc_virtualChainId vctx) ErrMismatchedVirtualChainID)"

definition validateTxBlockHeight :: "txValidatorContext \<Rightarrow> (ccError, unit) result" where
  "validateTxBlockHeight vctx =
     with_txHeader vctx (\<lambda>h. check (tbh_blockHeight h = vti_currentBlockHeight (tvc_input vctx)) ErrMismatchedBlockHeight)"

definition validateTxPrevBlockHashPtr :: "txValidatorContext \<Rightarrow> (ccError, unit) result" where
  "validateTxPrevBlockHashPtr vctx =
     with_txHeader vctx (\<lambda>h. check (tbh_prevBlockHashPtr h = vti_prevBlockHash (tvc_input vctx)) ErrMismatchedPrevBlockHash)"

definition validateTxBlockProposer :: "txValidatorContext \<Rightarrow> (ccError, unit) result" where
  "validateTxBlockProposer vctx =
     with_txHeader vctx (\<lambda>h.
       if length (tbh_blockProposerAddress h) > 0
       then check (tbh_blockProposerAddress h = vti_blockProposerAddress (tvc_input vctx)) ErrMismatchedBlockProposer
       else Ok ())"

definition isValidBlockTimestamp :: "TimestampNano \<Rightarrow> TimestampNano \<Rightarrow> TimestampNano \<Rightarrow> 64 word \<Rightarrow> (ccError, unit) result" where
  "isValidBlockTimestamp currentBlockTimestamp prevBlockTimestamp now allowedTimestampJitter =
     (let upperJitterLimitNano = now + allowedTimestampJitter;
          lowerJitterLimitNano = now - allowedTimestampJitter
      in if prevBlockTimestamp \<ge> currentBlockTimestamp then Err ErrTimestampNotAfterPrevious
         else if currentBlockTimestamp > upperJitterLimitNano then Err ErrTimestampAboveJitter
         else if currentBlockTimestamp < lowerJitterLimitNano then Err ErrTimestampBelowJitter
         else Ok ())"

definition validateTxTransactionsBlockTimestamp :: "64 word \<Rightarrow> txValidatorContext \<Rightarrow> (ccError, unit) result" where
  "validateTxTransactionsBlockTimestamp now vctx =
     with_txHeader vctx (\<lambda>h. isValidBlockTimestamp (tbh_timestamp h) (vti_prevBlockTimestamp (tvc_input vctx)) now
       (tvc_allowedTimestampJitter vctx))"

definition blockContext :: "TransactionsBlockContainer option \<Rightarrow> ResultsBlockContainer option \<Rightarrow>
    (TransactionReceipt list \<Rightarrow> Sha256 option) \<Rightarrow> (ContractStateDiff list \<Rightarrow> Sha256 option) \<Rightarrow> BlockValidatorContext" where
  "blockContext tx rx calcReceipts calcDiffs =
     \<lparr>bvcx_TransactionsBlock = tx, bvcx_ResultsBlock = rx, bvcx_CalcReceiptsMerkleRoot = calcReceipts,
      bvcx_CalcStateDiffHash = calcDiffs, bvcx_ExpectedBlockHash = []\<rparr>"

definition validateTransactionsBlockMerkleRoot :: "hasher \<Rightarrow> Wire \<Rightarrow> txValidatorContext \<Rightarrow> (ccError, unit) result" where
  "validateTransactionsBlockMerkleRoot sha w vctx =
     liftError ErrValidator (ValidateTransactionsBlockMerkleRoot sha w
       (blockContext (vti_transactionsBlock (tvc_input vctx)) None (\<lambda>_. None) (\<lambda>_. None)))"

definition validateTransactionsBlockMetadataHash :: "hasher \<Rightarrow> txValidatorContext \<Rightarrow> (ccError, unit) result" where
  "validateTransactionsBlockMetadataHash sha vctx =
     liftError ErrValidator (ValidateTransactionsBlockMetadataHash sha
       (blockContext (vti_transactionsBlock (tvc_input vctx)) None (\<lambda>_. None) (\<lambda>_. None)))"

text \<open>\<open>validateForOrdering\<close> is the transaction pool's check of height, time and transactions.\<close>

definition validateTxTransactionOrdering ::
  "ConsensusContextConfig \<Rightarrow> (BlockHeight \<Rightarrow> TimestampNano \<Rightarrow> SignedTransaction list \<Rightarrow> bool) \<Rightarrow> TransactionsBlockContainer option
     \<Rightarrow> (ccError, unit) result" where
  "validateTxTransactionOrdering cfg validateForOrdering transactionBlock =
     bind_result (tx_header transactionBlock) (\<lambda>(b, h).
       let txs = tbc_signedTransactions b in
       if cc_triggersEnabled cfg \<and> length txs = 0 then Err ErrTriggerEnabledAndTriggerMissing
       else let txs = (if cc_triggersEnabled cfg then take (length txs - 1) txs else txs) in
         check (validateForOrdering (tbh_blockHeight h) (tbh_timestamp h) txs) ErrFailedTransactionOrdering)"

definition validateTransactionsBlockIsTxTrigger :: "SignedTransaction \<Rightarrow> bool" where
  "validateTransactionsBlockIsTxTrigger signedTransaction =
     (tx_contractName (stx_transaction signedTransaction) = TRIGGERS_CONTRACT_NAME \<and>
      tx_methodName (stx_transaction signedTransaction) = METHOD_TRIGGER)"

definition validateTransactionsBlockTxTriggerIsValidTime :: "SignedTransaction \<Rightarrow> TimestampNano \<Rightarrow> bool" where
  "validateTransactionsBlockTxTriggerIsValidTime signedTransaction blockTime =
     (tx_timestamp (stx_transaction signedTransaction) = blockTime)"

definition validateTransactionsBlockTxTriggerIsValid :: "(Signer \<Rightarrow> bytes) \<Rightarrow> SignedTransaction \<Rightarrow> ConsensusContextConfig \<Rightarrow> bool" where
  "validateTransactionsBlockTxTriggerIsValid rawSigner signedTransaction cfg =
     (if length (stx_signature signedTransaction) \<noteq> 0 then False
      else let transaction = stx_transaction signedTransaction in
        \<not> (tx_protocolVersion transaction \<noteq> cc_protocolVersion cfg \<or>
           tx_virtualChainId transaction \<noteq> cc_virtualChainId cfg \<or>
           length (tx_inputArgumentArray transaction) \<noteq> 0 \<or>
           length (rawSigner (tx_signer transaction)) \<noteq> 0))"

text \<open>The header is dereferenced only once the last transaction is known to be a trigger.\<close>

definition validateTransactionsBlockTriggerCompliance ::
  "(Signer \<Rightarrow> bytes) \<Rightarrow> ConsensusContextConfig \<Rightarrow> TransactionsBlockContainer option \<Rightarrow> (ccError, unit) result" where
  "validateTransactionsBlockTriggerCompliance rawSigner cfg transactionsBlock =
     (case transactionsBlock of
        None \<Rightarrow> Panic
      | Some b \<Rightarrow>
          (let txs = tbc_signedTransactions b; txCount = length txs in
           if cc_triggersEnabled cfg
           then if txCount = 0 \<or> \<not> validateTransactionsBlockIsTxTrigger (txs ! (txCount - 1)) then Err ErrTriggerEnabledAndTriggerMissing
                else bind_result (tx_header transactionsBlock) (\<lambda>(_, h).
                  if \<not> validateTransactionsBlockTxTriggerIsValidTime (txs ! (txCount - 1)) (tbh_timestamp h)
                  then Err ErrTriggerEnabledAndTriggerInvalidTime
                  else if \<not> validateTransactionsBlockTxTriggerIsValid rawSigner (txs ! (txCount - 1)) cfg
                  then Err ErrTriggerEnabledAndTriggerInvalid
                  else check (\<forall>tx \<in> set (take (txCount - 2) txs). \<not> validateTransactionsBlockIsTxTrigger tx)
                         ErrTriggerEnabledAndTriggerNotLast)
           else check (\<forall>tx \<in> set txs. \<not> validateTransactionsBlockIsTxTrigger tx) ErrTriggerDisabledAndTriggerExists))"

definition ValidateTransactionsBlock ::
  "hasher \<Rightarrow> Wire \<Rightarrow> (Signer \<Rightarrow> bytes) \<Rightarrow> ConsensusContextConfig \<Rightarrow> 64 word
     \<Rightarrow> (BlockHeight \<Rightarrow> TimestampNano \<Rightarrow> SignedTransaction list \<Rightarrow> bool) \<Rightarrow> ValidateTransactionsBlockInput \<Rightarrow> (ccError, unit) result" where
  "ValidateTransactionsBlock sha w rawSigner cfg now validateForOrdering input =
     (let vctx = \<lparr>tvc_protocolVersion = cc_protocolVersion cfg, tvc_virtualChainId = cc_virtualChainId cfg,
                  tvc_allowedTimestampJitter = cc_allowedTimestampJitter cfg, tvc_input = input\<rparr>
      in runValidators
           [validateTxProtocolVersion vctx,
            validateTxVirtualChainID vctx,
            validateTxBlockHeight vctx,
            validateTxPrevBlockHashPtr vctx,
            validateTxTransactionsBlockTimestamp now vctx,
            validateTxBlockProposer vctx,
            validateTransactionsBlockMerkleRoot sha w vctx,
            validateTransactionsBlockMetadataHash sha vctx,
            validateTransactionsBlockTriggerCompliance rawSigner cfg (vti_transactionsBlock input),
            validateTxTransactionOrdering cfg validateForOrdering (vti_transactionsBlock input)])"

subsection \<open>Validating a results block\<close>

record ValidateResultsBlockInput =
  vri_currentBlockHeight :: BlockHeight
  vri_resultsBlock :: "ResultsBlockContainer option"
  vri_prevBlockHash :: Sha256
  vri_transactionsBlock :: "TransactionsBlockContainer option"
  vri_blockProposerAddress :: NodeAddress

record rxValidatorContext =
  rvc_protocolVersion :: ProtocolVersion
  rvc_virtualChainId :: VirtualChainId
  rvc_input :: ValidateResultsBlockInput
  rvc_getStateHash :: "BlockHeight \<Rightarrow> Sha256 option"
  rvc_processTransactionSet :: ProcessTransactionSet
  rvc_calcReceiptsMerkleRoot :: "TransactionReceipt list \<Rightarrow> Sha256 option"
  rvc_calcStateDiffHash :: "ContractStateDiff list \<Rightarrow> Sha256 option"

definition with_rxHeader :: "rxValidatorContext \<Rightarrow> (ResultsBlockHeader \<Rightarrow> (ccError, unit) result) \<Rightarrow> (ccError, unit) result" where
  "with_rxHeader vcrx f = bind_result (rx_header (vri_resultsBlock (rvc_input vcrx))) (\<lambda>(_, h). f h)"

definition with_rxTxHeader :: "rxValidatorContext \<Rightarrow> (TransactionsBlockHeader \<Rightarrow> (ccError, unit) result) \<Rightarrow> (ccError, unit) result" where
  "with_rxTxHeader vcrx f = bind_result (tx_header (vri_transactionsBlock (rvc_input vcrx))) (\<lambda>(_, h). f h)"

definition validateRxProtocolVersion :: "rxValidatorContext \<Rightarrow> (ccError, unit) result" where
  "validateRxProtocolVersion vcrx =
     with_rxHeader vcrx (\<lambda>h. check (rbh_protocolVersion h = rvc_protocolVersion vcrx) ErrMismatchedProtocolVersion)"

definition validateRxVirtualChainID :: "rxValidatorContext \<Rightarrow> (ccError, unit) result" where
  "validateRxVirtualChainID vcrx =
     with_rxHeader vcrx (\<lambda>h. check (rbh_virtualChainId h = rvc_virtualChainId vcrx) ErrMismatchedVirtualChainID)"

definition validateRxBlockHeight :: "rxValidatorContext \<Rightarrow> (ccError, unit) result" where
  "validateRxBlockHeight vcrx =
     with_rxHeader vcrx (\<lambda>h.
       if rbh_blockHeight h \<noteq> vri_currentBlockHeight (rvc_input vcrx) then Err ErrMismatchedBlockHeight
       else with_rxTxHeader vcrx (\<lambda>t. check (rbh_blockHeight h = tbh_blockHeight t) ErrMismatchedTxRxBlockHeight))"

definition validateRxBlockProposer :: "rxValidatorContext \<Rightarrow> (ccError, unit) result" where
  "validateRxBlockProposer vcrx =
     with_rxHeader vcrx (\<lambda>h.
       if length (rbh_blockProposerAddress h) > 0
       then if rbh_blockProposerAddress h \<noteq> vri_blockProposerAddress (rvc_input vcrx) then Err ErrMismatchedBlockProposer
            else with_rxTxHeader vcrx (\<lambda>t. check (rbh_blockProposerAddress h = tbh_blockProposerAddress t) ErrMismatchedTxRxBlockProposer)
       else Ok ())"

definition validateRxTxBlockPtrMatchesActualTxBlock :: "hasher \<Rightarrow> Wire \<Rightarrow> rxValidatorContext \<Rightarrow> (ccError, unit) result" where
  "validateRxTxBlockPtrMatchesActualTxBlock sha w vcrx =
     with_rxHeader vcrx (\<lambda>h.
       check (rbh_transactionsBlockHashPtr h = CalcTransactionsBlockHash sha w (vri_transactionsBlock (rvc_input vcrx)))
         ErrMismatchedTxHashPtrToActualTxBlock)"

definition validateIdenticalTxRxTimestamp :: "rxValidatorContext \<Rightarrow> (ccError, unit) result" where
  "validateIdenticalTxRxTimestamp vcrx =
     with_rxTxHeader vcrx (\<lambda>t. with_rxHeader vcrx (\<lambda>h. check (rbh_timestamp h = tbh_timestamp t) ErrMismatchedTxRxTimestamps))"

definition validateRxPrevBlockHashPtr :: "rxValidatorContext \<Rightarrow> (ccError, unit) result" where
  "validateRxPrevBlockHashPtr vcrx =
     with_rxHeader vcrx (\<lambda>h. check (rbh_prevBlockHashPtr h = vri_prevBlockHash (rvc_input vcrx)) ErrMismatchedPrevBlockHash)"

definition validateReceiptsMerkleRoot :: "rxValidatorContext \<Rightarrow> (ccError, unit) result" where
  "validateReceiptsMerkleRoot vcrx =
     liftError ErrValidator (ValidateReceiptsMerkleRoot
       (blockContext (vri_transactionsBlock (rvc_input vcrx)) (vri_resultsBlock (rvc_input vcrx)) (rvc_calcReceiptsMerkleRoot vcrx) (\<lambda>_. None)))"

definition validateRxStateDiffHash :: "rxValidatorContext \<Rightarrow> (ccError, unit) result" where
  "validateRxStateDiffHash vcrx =
     liftError ErrValidator (ValidateResultsBlockStateDiffHash
       (blockContext (vri_transactionsBlock (rvc_input vcrx)) (vri_resultsBlock (rvc_input vcrx)) (\<lambda>_. None) (rvc_calcStateDiffHash vcrx)))"

definition validatePreExecutionStateMerkleRoot :: "rxValidatorContext \<Rightarrow> (ccError, unit) result" where
  "validatePreExecutionStateMerkleRoot vcrx =
     with_rxHeader vcrx (\<lambda>h.
       case rvc_getStateHash vcrx (rbh_blockHeight h - 1) of
         None \<Rightarrow> Err ErrGetStateHash
       | Some stateMerkleRootHash \<Rightarrow>
           check (rbh_preExecutionStateMerkleRootHash h = stateMerkleRootHash) ErrMismatchedPreExecutionStateMerkleRoot)"

definition validateExecution :: "rxValidatorContext \<Rightarrow> (ccError, unit) result" where
  "validateExecution vcrx =
     bind_result (tx_header (vri_transactionsBlock (rvc_input vcrx))) (\<lambda>(b, t).
       case rvc_processTransactionSet vcrx (tbc_signedTransactions b) (tbh_blockHeight t) (tbh_timestamp t)
              (vri_blockProposerAddress (rvc_input vcrx)) of
         None \<Rightarrow> Err ErrProcessTransactionSet
       | Some (receipts, stateDiffs) \<Rightarrow>
           with_rxHeader vcrx (\<lambda>h.
             case rvc_calcReceiptsMerkleRoot vcrx receipts of
               None \<Rightarrow> Err (ErrValidator ErrCalcReceiptsMerkleRoot)
             | Some root \<Rightarrow>
                 if rbh_receiptsMerkleRootHash h \<noteq> root then Err (ErrValidator ErrMismatchedReceiptsRootHash)
                 else case rvc_calcStateDiffHash vcrx stateDiffs of
                   None \<Rightarrow> Err (ErrValidator ErrCalcStateDiffHash)
                 | Some d \<Rightarrow> check (rbh_stateDiffHash h = d) (ErrValidator ErrMismatchedStateDiffHash)))"

text \<open>\<open>cancelled i\<close>: the context is done before the \<open>i\<close>-th validator.\<close>

definition ValidateResultsBlock ::
  "hasher \<Rightarrow> Wire \<Rightarrow> ConsensusContextConfig \<Rightarrow> ProcessTransactionSet \<Rightarrow> (BlockHeight \<Rightarrow> Sha256 option) \<Rightarrow> (nat \<Rightarrow> bool)
     \<Rightarrow> ValidateResultsBlockInput \<Rightarrow> (ccError, unit) result" where
  "ValidateResultsBlock sha w cfg processTransactionSet getStateHash cancelled input =
     (let vcrx = \<lparr>rvc_protocolVersion = cc_protocolVersion cfg, rvc_virtualChainId = cc_virtualChainId cfg, rvc_input = input,
                  rvc_getStateHash = getStateHash, rvc_processTransactionSet = processTransactionSet,
                  rvc_calcReceiptsMerkleRoot = (\<lambda>r. Some (CalcReceiptsMerkleRoot sha w r)),
                  rvc_calcStateDiffHash = (\<lambda>d. Some (CalcStateDiffHash sha w d))\<rparr>;
          validators =
           [validateRxProtocolVersion vcrx,
            validateRxVirtualChainID vcrx,
            validateRxBlockHeight vcrx,
            validateRxTxBlockPtrMatchesActualTxBlock sha w vcrx,
            validateIdenticalTxRxTimestamp vcrx,
            validateRxPrevBlockHashPtr vcrx,
            validateRxBlockProposer vcrx,
            validateReceiptsMerkleRoot vcrx,
            validateRxStateDiffHash vcrx,
            validatePreExecutionStateMerkleRoot vcrx,
            validateExecution vcrx]
      in runValidators (map (\<lambda>(i, v). if cancelled i then Err ErrContextCanceled else v) (enumerate 0 validators)))"

subsection \<open>Agreement of creation and validation\<close>

lemmas txValidator_defs =
  with_txHeader_def validateTxProtocolVersion_def validateTxVirtualChainID_def validateTxBlockHeight_def
  validateTxPrevBlockHashPtr_def validateTxBlockProposer_def validateTxTransactionsBlockTimestamp_def
  validateTransactionsBlockMerkleRoot_def validateTransactionsBlockMetadataHash_def blockContext_def
  ValidateTransactionsBlockMerkleRoot_def ValidateTransactionsBlockMetadataHash_def

lemmas rxValidator_defs =
  with_rxHeader_def with_rxTxHeader_def validateRxProtocolVersion_def validateRxVirtualChainID_def validateRxBlockHeight_def
  validateRxBlockProposer_def validateRxTxBlockPtrMatchesActualTxBlock_def validateIdenticalTxRxTimestamp_def
  validateRxPrevBlockHashPtr_def validateReceiptsMerkleRoot_def validateRxStateDiffHash_def
  validatePreExecutionStateMerkleRoot_def validateExecution_def blockContext_def
  ValidateReceiptsMerkleRoot_def ValidateResultsBlockStateDiffHash_def

lemma tx_header_Some [simp]: "tbc_header c = Some h \<Longrightarrow> tx_header (Some c) = Ok (c, h)"
  by (simp add: tx_header_def)

lemma rx_header_Some [simp]: "rbc_header c = Some h \<Longrightarrow> rx_header (Some c) = Ok (c, h)"
  by (simp add: rx_header_def)

lemma check_simps [simp]: "check True e = Ok ()" "check False e = Err e" "check b e = Ok () \<longleftrightarrow> b"
  by (simp_all add: check_def)

lemma runValidators_Ok: "runValidators vs = Ok () \<longleftrightarrow> (\<forall>v \<in> set vs. v = Ok ())"
  by (induction vs rule: runValidators.induct) auto

lemma runValidators_guarded:
  "runValidators (map (\<lambda>(i, v). if cancelled i then Err e else v) (enumerate n vs)) = Ok () \<Longrightarrow> \<forall>v \<in> set vs. v = Ok ()"
  by (induction vs arbitrary: n) (auto simp: runValidators_Ok split: if_splits)

lemma bind_result_OkE:
  assumes "bind_result r f = Ok y" obtains x where "r = Ok x" "f x = Ok y"
  using assms by (cases r) auto

lemma tx_header_OkD: "tx_header b = Ok (c, h) \<Longrightarrow> b = Some c \<and> tbc_header c = Some h"
  by (auto simp: tx_header_def split: option.splits)

text \<open>
  Of the fetched transactions, the check for triggers sees all when triggers are disabled, and all but the last when
  the block ends with a trigger of its own.
\<close>

lemma trigger_compliance_created:
  assumes "rawSigner NoSigner = []"
    and "tbc_signedTransactions b = updateTransactions cfg txs ts" "tbc_header b = Some h" "tbh_timestamp h = ts"
  shows "validateTransactionsBlockTriggerCompliance rawSigner cfg (Some b) =
    check (\<forall>tx \<in> set (if cc_triggersEnabled cfg then butlast txs else txs). \<not> validateTransactionsBlockIsTxTrigger tx)
      (if cc_triggersEnabled cfg then ErrTriggerEnabledAndTriggerNotLast else ErrTriggerDisabledAndTriggerExists)"
proof (cases "cc_triggersEnabled cfg")
  case True
  have "validateTransactionsBlockIsTxTrigger (createTriggerTransaction cfg ts)"
    "validateTransactionsBlockTxTriggerIsValidTime (createTriggerTransaction cfg ts) ts"
    "validateTransactionsBlockTxTriggerIsValid rawSigner (createTriggerTransaction cfg ts) cfg"
    using assms(1) by (simp_all add: validateTransactionsBlockIsTxTrigger_def validateTransactionsBlockTxTriggerIsValidTime_def
        validateTransactionsBlockTxTriggerIsValid_def createTriggerTransaction_def)
  then show ?thesis using True assms(2-4)
    by (simp add: validateTransactionsBlockTriggerCompliance_def updateTransactions_def Let_def nth_append butlast_conv_take)
next
  case False
  then show ?thesis using assms(2)
    by (simp add: validateTransactionsBlockTriggerCompliance_def updateTransactions_def Let_def)
qed

lemma isValidBlockTimestamp_Ok:
  "isValidBlockTimestamp ts prev now jitter = Ok () \<longleftrightarrow> prev < ts \<and> ts \<le> now + jitter \<and> now - jitter \<le> ts"
  by (auto simp: isValidBlockTimestamp_def Let_def)

text \<open>
  C25. The fate of a transactions block that a node creates, at a node with the same configuration that agrees on
  the height, the previous block and the proposer. It passes the validation exactly when three things hold that the
  creator does not decide alone: its timestamp, which the pool chose, is after that of the previous block and
  within the jitter of the validator's clock (added and subtracted in 64 bits); the validator's pool finds the
  fetched transactions, without the trigger, orderable at that height and time; and the pool of the creator gave no
  transaction that calls the trigger itself (the last of them is not looked at when triggers are enabled). Hash,
  version, chain, pointer, metadata, proposer and trigger checks never refuse it, and no validator panics.
\<close>

theorem created_transactions_block_validates:
  assumes "createTransactionsBlock sha w emptyMetadata emptyProof cfg getTransactions input = Ok b"
    and "rawSigner NoSigner = []"
    and "result = ValidateTransactionsBlock sha w rawSigner cfg now validateForOrdering
     \<lparr>vti_currentBlockHeight = nti_currentBlockHeight input, vti_transactionsBlock = Some b,
      vti_prevBlockHash = nti_prevBlockHash input, vti_prevBlockTimestamp = nti_prevBlockTimestamp input,
      vti_blockProposerAddress = nti_blockProposerAddress input\<rparr>"
  shows "\<exists>txs ts. fetchTransactions getTransactions (nti_currentBlockHeight input) (nti_prevBlockTimestamp input)
      (cc_maximumTransactionsInBlock cfg) = Some (txs, ts) \<and> result \<noteq> Panic \<and>
    (result = Ok () \<longleftrightarrow>
       (nti_prevBlockTimestamp input < ts \<and> ts \<le> now + cc_allowedTimestampJitter cfg \<and> now - cc_allowedTimestampJitter cfg \<le> ts) \<and>
       validateForOrdering (nti_currentBlockHeight input) ts txs \<and>
       (\<forall>tx \<in> set (if cc_triggersEnabled cfg then butlast txs else txs). \<not> validateTransactionsBlockIsTxTrigger tx))"
proof -
  obtain txs ts where f: "fetchTransactions getTransactions (nti_currentBlockHeight input) (nti_prevBlockTimestamp input)
      (cc_maximumTransactionsInBlock cfg) = Some (txs, ts)"
    using assms(1) by (auto simp: createTransactionsBlock_def split: option.splits)
  define txs' where "txs' = updateTransactions cfg txs ts"
  obtain h where h: "tbc_header b = Some h" "tbc_signedTransactions b = txs'" "tbc_metadata b = emptyMetadata"
    "tbh_protocolVersion h = cc_protocolVersion cfg" "tbh_virtualChainId h = cc_virtualChainId cfg"
    "tbh_blockHeight h = nti_currentBlockHeight input" "tbh_prevBlockHashPtr h = nti_prevBlockHash input" "tbh_timestamp h = ts"
    "tbh_transactionsMerkleRootHash h = CalcTransactionsMerkleRoot sha w txs'"
    "tbh_metadataHash h = CalcTransactionMetaDataHash sha emptyMetadata" "tbh_blockProposerAddress h = nti_blockProposerAddress input"
    using assms(1) f by (auto simp: createTransactionsBlock_def Let_def txs'_def split: if_splits)
  note trig = trigger_compliance_created [of rawSigner b cfg txs ts h, OF assms(2) h(2) [unfolded txs'_def] h(1,8)]
  have ord: "validateTxTransactionOrdering cfg validateForOrdering (Some b) =
      check (validateForOrdering (nti_currentBlockHeight input) ts txs) ErrFailedTransactionOrdering"
    using h by (simp add: validateTxTransactionOrdering_def txs'_def updateTransactions_def Let_def)
  have "result = runValidators [isValidBlockTimestamp ts (nti_prevBlockTimestamp input) now (cc_allowedTimestampJitter cfg),
      validateTransactionsBlockTriggerCompliance rawSigner cfg (Some b), validateTxTransactionOrdering cfg validateForOrdering (Some b)]"
    unfolding assms(3) ValidateTransactionsBlock_def using h
    by (cases "isValidBlockTimestamp ts (nti_prevBlockTimestamp input) now (cc_allowedTimestampJitter cfg)") (simp_all add: txValidator_defs)
  moreover have "isValidBlockTimestamp ts (nti_prevBlockTimestamp input) now (cc_allowedTimestampJitter cfg) \<noteq> Panic"
    by (simp add: isValidBlockTimestamp_def Let_def)
  ultimately have "result \<noteq> Panic"
    unfolding trig ord by (cases "isValidBlockTimestamp ts (nti_prevBlockTimestamp input) now (cc_allowedTimestampJitter cfg)") (simp_all add: check_def)
  moreover have "result = Ok () \<longleftrightarrow> isValidBlockTimestamp ts (nti_prevBlockTimestamp input) now (cc_allowedTimestampJitter cfg) = Ok () \<and>
      validateTransactionsBlockTriggerCompliance rawSigner cfg (Some b) = Ok () \<and> validateTxTransactionOrdering cfg validateForOrdering (Some b) = Ok ()"
    unfolding \<open>result = runValidators _\<close> runValidators_Ok by simp
  ultimately show ?thesis using f unfolding trig ord isValidBlockTimestamp_Ok check_simps(3) by blast
qed

lemma matching_results_header_validates:
  assumes "tbc_header tb = Some t" "process (tbc_signedTransactions tb) height (tbh_timestamp t) proposer = Some (receipts, diffs)"
    and "getStateHash (height - 1) = Some root"
    and "rbc_header b = Some h" "rbc_transactionReceipts b = receipts" "rbc_contractStateDiffs b = diffs"
    and "h = \<lparr>rbh_protocolVersion = cc_protocolVersion cfg, rbh_virtualChainId = cc_virtualChainId cfg, rbh_blockHeight = height,
        rbh_prevBlockHashPtr = prevHash, rbh_timestamp = tbh_timestamp t,
        rbh_receiptsMerkleRootHash = CalcReceiptsMerkleRoot sha w receipts, rbh_stateDiffHash = CalcStateDiffHash sha w diffs,
        rbh_transactionsBlockHashPtr = CalcTransactionsBlockHash sha w (Some tb), rbh_preExecutionStateMerkleRootHash = root,
        rbh_numTransactionReceipts = n, rbh_numContractStateDiffs = m, rbh_blockProposerAddress = proposer\<rparr>"
    and "tbh_blockHeight t = height" "tbh_blockProposerAddress t = proposer" "\<And>i. \<not> cancelled i"
  shows "ValidateResultsBlock sha w cfg process getStateHash cancelled
     \<lparr>vri_currentBlockHeight = height, vri_resultsBlock = Some b, vri_prevBlockHash = prevHash,
      vri_transactionsBlock = Some tb, vri_blockProposerAddress = proposer\<rparr> = Ok ()"
  using assms by (simp add: ValidateResultsBlock_def rxValidator_defs enumerate_eq_zip Let_def upt_rec)

text \<open>
  C26. A results block that a node creates passes the validation of every node with the same configuration,
  state and execution that agrees on the previous block and the proposer, for a transactions block of that
  height and proposer.
\<close>

theorem created_results_block_validates:
  assumes "createResultsBlock sha w emptyProof cfg process getStateHash input = Ok b"
    and "nri_transactionsBlock input = Some tb" "tbc_header tb = Some t"
    and "tbh_blockHeight t = nri_currentBlockHeight input" "tbh_blockProposerAddress t = nri_blockProposerAddress input"
    and "\<And>i. \<not> cancelled i"
  shows "ValidateResultsBlock sha w cfg process getStateHash cancelled
     \<lparr>vri_currentBlockHeight = nri_currentBlockHeight input, vri_resultsBlock = Some b, vri_prevBlockHash = nri_prevBlockHash input,
      vri_transactionsBlock = Some tb, vri_blockProposerAddress = nri_blockProposerAddress input\<rparr> = Ok ()"
proof -
  obtain receipts diffs root where p: "process (tbc_signedTransactions tb) (nri_currentBlockHeight input) (tbh_timestamp t)
      (nri_blockProposerAddress input) = Some (receipts, diffs)" "getStateHash (nri_currentBlockHeight input - 1) = Some root"
    using assms(1-3) by (auto simp: createResultsBlock_def tx_header_def split: option.splits if_splits)
  have "\<exists>h. rbc_header b = Some h \<and> rbc_transactionReceipts b = receipts \<and> rbc_contractStateDiffs b = diffs \<and>
      h = \<lparr>rbh_protocolVersion = cc_protocolVersion cfg, rbh_virtualChainId = cc_virtualChainId cfg,
        rbh_blockHeight = nri_currentBlockHeight input, rbh_prevBlockHashPtr = nri_prevBlockHash input, rbh_timestamp = tbh_timestamp t,
        rbh_receiptsMerkleRootHash = CalcReceiptsMerkleRoot sha w receipts, rbh_stateDiffHash = CalcStateDiffHash sha w diffs,
        rbh_transactionsBlockHashPtr = CalcTransactionsBlockHash sha w (Some tb), rbh_preExecutionStateMerkleRootHash = root,
        rbh_numTransactionReceipts = of_nat (length receipts), rbh_numContractStateDiffs = of_nat (length diffs),
        rbh_blockProposerAddress = nri_blockProposerAddress input\<rparr>"
    using assms(1-3) p by (auto simp: createResultsBlock_def split: if_splits)
  then show ?thesis using matching_results_header_validates assms(3-6) p by blast
qed

text \<open>
  C27. A node that accepts a results block of a height above 0 would have made the same one: its own execution of the
  transactions, on its own state, gives a header that agrees in every field but three. The two counts no validator
  looks at; and a header may name no proposer, as older headers do, and is then accepted in place of one that names
  the expected proposer.
\<close>

theorem accepted_results_block_agrees:
  assumes "ValidateResultsBlock sha w cfg process getStateHash cancelled
     \<lparr>vri_currentBlockHeight = height, vri_resultsBlock = Some b, vri_prevBlockHash = prevHash,
      vri_transactionsBlock = Some tb, vri_blockProposerAddress = proposer\<rparr> = Ok ()"
    and "rbc_header b = Some h" "height \<noteq> 0"
  shows "\<exists>b' h'. createResultsBlock sha w emptyProof cfg process getStateHash
      \<lparr>nri_currentBlockHeight = height, nri_prevBlockHash = prevHash, nri_transactionsBlock = Some tb, nri_blockProposerAddress = proposer\<rparr> = Ok b' \<and>
     rbc_header b' = Some h' \<and> rbh_blockProposerAddress h' = proposer \<and> (rbh_blockProposerAddress h = [] \<or> rbh_blockProposerAddress h = proposer) \<and>
     h = h'\<lparr>rbh_numTransactionReceipts := rbh_numTransactionReceipts h, rbh_numContractStateDiffs := rbh_numContractStateDiffs h,
       rbh_blockProposerAddress := rbh_blockProposerAddress h\<rparr>"
proof -
  let ?in = "\<lparr>vri_currentBlockHeight = height, vri_resultsBlock = Some b, vri_prevBlockHash = prevHash,
      vri_transactionsBlock = Some tb, vri_blockProposerAddress = proposer\<rparr>"
  let ?c = "\<lparr>rvc_protocolVersion = cc_protocolVersion cfg, rvc_virtualChainId = cc_virtualChainId cfg, rvc_input = ?in,
      rvc_getStateHash = getStateHash, rvc_processTransactionSet = process,
      rvc_calcReceiptsMerkleRoot = (\<lambda>r. Some (CalcReceiptsMerkleRoot sha w r)),
      rvc_calcStateDiffHash = (\<lambda>d. Some (CalcStateDiffHash sha w d))\<rparr>"
  have V: "validateRxProtocolVersion ?c = Ok ()" "validateRxVirtualChainID ?c = Ok ()" "validateRxBlockHeight ?c = Ok ()"
    "validateRxTxBlockPtrMatchesActualTxBlock sha w ?c = Ok ()" "validateIdenticalTxRxTimestamp ?c = Ok ()"
    "validateRxPrevBlockHashPtr ?c = Ok ()" "validateRxBlockProposer ?c = Ok ()"
    "validatePreExecutionStateMerkleRoot ?c = Ok ()" "validateExecution ?c = Ok ()"
    using runValidators_guarded [OF assms(1) [unfolded ValidateResultsBlock_def Let_def]] by simp_all
  obtain t where t: "tbc_header tb = Some t"
    using V(5) by (auto simp: validateIdenticalTxRxTimestamp_def with_rxTxHeader_def elim!: bind_result_OkE dest: tx_header_OkD)
  note simps = rxValidator_defs assms(2) t
  have f: "rbh_protocolVersion h = cc_protocolVersion cfg" "rbh_virtualChainId h = cc_virtualChainId cfg"
    "rbh_blockHeight h = height" "tbh_blockHeight t = height"
    "rbh_transactionsBlockHashPtr h = CalcTransactionsBlockHash sha w (Some tb)" "rbh_timestamp h = tbh_timestamp t"
    "rbh_prevBlockHashPtr h = prevHash" "rbh_blockProposerAddress h = [] \<or> rbh_blockProposerAddress h = proposer"
    using V(1-7) by (simp_all add: simps split: if_splits)
  have root: "getStateHash (height - 1) = Some (rbh_preExecutionStateMerkleRootHash h)"
    using V(8) f(3) by (simp add: simps split: option.splits)
  obtain receipts diffs where "process (tbc_signedTransactions tb) height (tbh_timestamp t) proposer = Some (receipts, diffs)"
    "rbh_receiptsMerkleRootHash h = CalcReceiptsMerkleRoot sha w receipts" "rbh_stateDiffHash h = CalcStateDiffHash sha w diffs"
    using V(9) f(4) by (auto simp: simps split: option.splits if_splits)
  then show ?thesis using assms(3) t root f by (simp add: createResultsBlock_def)
qed

text \<open>
  With triggers enabled, the transaction before the last is never looked at: replacing it, also by a
  second trigger, leaves the verdict unchanged. The loop stops two short of the end and not one.
\<close>

lemma trigger_compliance_skips_one:
  assumes "cc_triggersEnabled cfg"
  shows "validateTransactionsBlockTriggerCompliance rawSigner cfg (Some (b\<lparr>tbc_signedTransactions := txs @ [t1, t2]\<rparr>)) =
    validateTransactionsBlockTriggerCompliance rawSigner cfg (Some (b\<lparr>tbc_signedTransactions := txs @ [t1', t2]\<rparr>))"
  using assms by (simp add: validateTransactionsBlockTriggerCompliance_def nth_append tx_header_def Let_def split: option.split)

subsection \<open>Concrete instances\<close>

definition demo_cc :: ConsensusContextConfig where
  "demo_cc = \<lparr>cc_protocolVersion = 1, cc_virtualChainId = 42, cc_triggersEnabled = True,
     cc_maximumTransactionsInBlock = 10, cc_allowedTimestampJitter = 5\<rparr>"

definition demo_fetch :: "OrderingInput \<Rightarrow> (SignedTransaction list \<times> TimestampNano) option" where
  "demo_fetch input = Some ([demo_stx 5 1], 7)"

definition demo_rawSigner :: "Signer \<Rightarrow> bytes" where
  "demo_rawSigner s = (case s of NoSigner \<Rightarrow> [] | EddsaSigner k \<Rightarrow> 1 # k | OtherSigner k \<Rightarrow> 2 # k)"

definition demo_nti :: NewTransactionsBlockInput where
  "demo_nti = \<lparr>nti_currentBlockHeight = 2, nti_prevBlockHash = [3], nti_prevBlockTimestamp = 4, nti_blockProposerAddress = [9]\<rparr>"

definition demo_tx_block :: TransactionsBlockContainer where
  "demo_tx_block = (case createTransactionsBlock demo_sha demo_wire [] [] demo_cc demo_fetch demo_nti of Ok b \<Rightarrow> b)"

lemma demo_tx_block: "createTransactionsBlock demo_sha demo_wire [] [] demo_cc demo_fetch demo_nti = Ok demo_tx_block"
  by (simp add: demo_tx_block_def createTransactionsBlock_def fetchTransactions_def demo_fetch_def Let_def)

theorem created_transactions_block_validates_witness:
  "ValidateTransactionsBlock demo_sha demo_wire demo_rawSigner demo_cc 7 (\<lambda>_ _ _. True)
     \<lparr>vti_currentBlockHeight = nti_currentBlockHeight demo_nti, vti_transactionsBlock = Some demo_tx_block,
      vti_prevBlockHash = nti_prevBlockHash demo_nti, vti_prevBlockTimestamp = nti_prevBlockTimestamp demo_nti,
      vti_blockProposerAddress = nti_blockProposerAddress demo_nti\<rparr> = Ok ()"
  using created_transactions_block_validates [OF demo_tx_block, of demo_rawSigner _ 7 "\<lambda>_ _ _. True", OF _ refl]
  by (auto simp: demo_rawSigner_def fetchTransactions_def demo_fetch_def demo_nti_def demo_cc_def)

definition demo_process :: ProcessTransactionSet where
  "demo_process txs h ts proposer = Some (map (\<lambda>tx. \<lparr>rcpt_txhash = stxHash demo_sha demo_wire tx, rcpt_executionResult = EXECUTION_RESULT_SUCCESS,
     rcpt_outputArgumentArray = [], rcpt_outputEventsArray = []\<rparr>) txs, [])"

definition demo_nri :: NewResultsBlockInput where
  "demo_nri = \<lparr>nri_currentBlockHeight = 2, nri_prevBlockHash = [3], nri_transactionsBlock = Some demo_tx_block, nri_blockProposerAddress = [9]\<rparr>"

lemma demo_tx_header:
  "\<exists>t. tbc_header demo_tx_block = Some t \<and> tbh_blockHeight t = 2 \<and> tbh_blockProposerAddress t = [9]"
  by (simp add: demo_tx_block_def createTransactionsBlock_def fetchTransactions_def demo_fetch_def demo_nti_def Let_def)

lemma demo_rx_block:
  "\<exists>b h. createResultsBlock demo_sha demo_wire [] demo_cc demo_process (\<lambda>_. Some [5]) demo_nri = Ok b \<and>
     rbc_header b = Some h \<and> rbh_blockProposerAddress h = [9]"
  using demo_tx_header by (auto simp: createResultsBlock_def demo_nri_def demo_process_def)

theorem created_results_block_validates_witness:
  "\<exists>b. ValidateResultsBlock demo_sha demo_wire demo_cc demo_process (\<lambda>_. Some [5]) (\<lambda>_. False)
     \<lparr>vri_currentBlockHeight = nri_currentBlockHeight demo_nri, vri_resultsBlock = Some b, vri_prevBlockHash = nri_prevBlockHash demo_nri,
      vri_transactionsBlock = Some demo_tx_block, vri_blockProposerAddress = nri_blockProposerAddress demo_nri\<rparr> = Ok ()"
proof -
  obtain b t where "createResultsBlock demo_sha demo_wire [] demo_cc demo_process (\<lambda>_. Some [5]) demo_nri = Ok b"
    "tbc_header demo_tx_block = Some t" "tbh_blockHeight t = 2" "tbh_blockProposerAddress t = [9]"
    using demo_rx_block demo_tx_header by blast
  then show ?thesis
    using created_results_block_validates [of demo_sha demo_wire "[]" demo_cc demo_process "\<lambda>_. Some [5]" demo_nri b demo_tx_block t "\<lambda>_. False"]
    by (auto simp: demo_nri_def)
qed

definition demo_receipts :: "TransactionReceipt list" where
  "demo_receipts = fst (the (demo_process (tbc_signedTransactions demo_tx_block) 2 7 [9]))"

definition demo_rx_header :: ResultsBlockHeader where
  "demo_rx_header = \<lparr>rbh_protocolVersion = 1, rbh_virtualChainId = 42, rbh_blockHeight = 2, rbh_prevBlockHashPtr = [3], rbh_timestamp = 7,
     rbh_receiptsMerkleRootHash = CalcReceiptsMerkleRoot demo_sha demo_wire demo_receipts, rbh_stateDiffHash = CalcStateDiffHash demo_sha demo_wire [],
     rbh_transactionsBlockHashPtr = CalcTransactionsBlockHash demo_sha demo_wire (Some demo_tx_block),
     rbh_preExecutionStateMerkleRootHash = [5], rbh_numTransactionReceipts = 99, rbh_numContractStateDiffs = 0, rbh_blockProposerAddress = [9]\<rparr>"

theorem accepted_results_block_agrees_witness:
  "\<exists>b' h'. createResultsBlock demo_sha demo_wire [] demo_cc demo_process (\<lambda>_. Some [5])
      \<lparr>nri_currentBlockHeight = 2, nri_prevBlockHash = [3], nri_transactionsBlock = Some demo_tx_block, nri_blockProposerAddress = [9]\<rparr> = Ok b' \<and>
     rbc_header b' = Some h' \<and> rbh_blockProposerAddress h' = [9] \<and> (rbh_blockProposerAddress demo_rx_header = [] \<or> rbh_blockProposerAddress demo_rx_header = [9]) \<and>
     demo_rx_header = h'\<lparr>rbh_numTransactionReceipts := rbh_numTransactionReceipts demo_rx_header,
       rbh_numContractStateDiffs := rbh_numContractStateDiffs demo_rx_header, rbh_blockProposerAddress := rbh_blockProposerAddress demo_rx_header\<rparr>"
proof (rule accepted_results_block_agrees)
  obtain t where t: "tbc_header demo_tx_block = Some t" "tbh_blockHeight t = 2" "tbh_blockProposerAddress t = [9]" "tbh_timestamp t = 7"
    by (auto simp: demo_tx_block_def createTransactionsBlock_def fetchTransactions_def demo_fetch_def demo_nti_def Let_def)
  show "ValidateResultsBlock demo_sha demo_wire demo_cc demo_process (\<lambda>_. Some [5]) (\<lambda>_. False)
     \<lparr>vri_currentBlockHeight = 2, vri_resultsBlock = Some \<lparr>rbc_header = Some demo_rx_header, rbc_transactionReceipts = demo_receipts,
        rbc_contractStateDiffs = [], rbc_blockProof = []\<rparr>, vri_prevBlockHash = [3],
      vri_transactionsBlock = Some demo_tx_block, vri_blockProposerAddress = [9]\<rparr> = Ok ()"
    by (rule matching_results_header_validates [OF t(1), where receipts = demo_receipts and diffs = "[]" and root = "[5]"])
       (use t in \<open>simp_all add: demo_rx_header_def demo_receipts_def demo_process_def demo_cc_def\<close>)
qed (simp_all add: demo_rx_header_def)

end
