(* ===== verification/Block_Storage.thy ===== *)
theory Block_Storage
  imports Digest Block_Tracker
begin

text \<open>
  Block storage, \<open>services/blockstorage\<close>: the in-memory persistence, committing blocks with the
  detection of forks, queries, the serving side of block synchronisation and receipt proofs. The
  service reaches the blocks through the interface \<open>BlockPersistence\<close>, here a record of operations on
  a state \<open>'p\<close>. A nil container or header panics when it is read.
\<close>

datatype storageErr =
    ErrUnknownHeight
  | ErrVersionTx | ErrVersionRs
  | ErrFutureBlock
  | ErrForkTimestamp | ErrForkTxHeader | ErrForkRsHeader
  | ErrHeightMismatch | ErrUnexpectedHeight
  | ErrAllAlgosRefused
  | ErrNoBlocks
  | ErrFirstAboveCommitted
  | ErrTxNotInBlock
  | ErrProof orderedTreeError
  | ErrWait trackerError
  | ErrSend
  | ErrIO

definition ProtocolVersion_blocks :: ProtocolVersion where
  "ProtocolVersion_blocks = 1"

abbreviation bp_tx :: "BlockPairContainer \<Rightarrow> ('e, TransactionsBlockContainer \<times> TransactionsBlockHeader) result" where
  "bp_tx b \<equiv> tx_header (bp_transactionsBlock b)"

abbreviation bp_rs :: "BlockPairContainer \<Rightarrow> ('e, ResultsBlockContainer \<times> ResultsBlockHeader) result" where
  "bp_rs b \<equiv> rx_header (bp_resultsBlock b)"

subsection \<open>The persistence interface\<close>

record 'p BlockPersistence =
  bpp_WriteNextBlock :: "'p \<Rightarrow> BlockPairContainer \<Rightarrow> (storageErr, 'p \<times> bool \<times> BlockHeight) result"
  bpp_GetLastBlock :: "'p \<Rightarrow> (storageErr, BlockPairContainer option) result"
  bpp_GetTransactionsBlock :: "'p \<Rightarrow> BlockHeight \<Rightarrow> (storageErr, TransactionsBlockContainer option) result"
  bpp_GetResultsBlock :: "'p \<Rightarrow> BlockHeight \<Rightarrow> (storageErr, ResultsBlockContainer option) result"
  bpp_GetBlockByTx :: "'p \<Rightarrow> Sha256 \<Rightarrow> TimestampNano \<Rightarrow> TimestampNano \<Rightarrow> (storageErr, (BlockPairContainer \<times> nat) option) result"
  bpp_GetBlockTracker :: "'p \<Rightarrow> BlockTracker"

subsection \<open>In-memory persistence\<close>

record InMemoryBlockPersistence =
  imb_blocks :: "BlockPairContainer list"
  imb_tracker :: BlockTracker
  imb_size :: "64 word"

definition NewBlockPersistence :: "BlockPairContainer list \<Rightarrow> InMemoryBlockPersistence" where
  "NewBlockPersistence preloadedBlocks =
     \<lparr>imb_blocks = preloadedBlocks, imb_tracker = NewBlockTracker (of_nat (length preloadedBlocks)) 5, imb_size = 0\<rparr>"

definition mem_GetLastBlock :: "InMemoryBlockPersistence \<Rightarrow> (storageErr, BlockPairContainer option) result" where
  "mem_GetLastBlock bp =
     (let count = length (imb_blocks bp)
      in if count = 0 then Ok None else Ok (Some (imb_blocks bp ! (count - 1))))"

definition mem_GetLastBlockHeight :: "InMemoryBlockPersistence \<Rightarrow> BlockHeight" where
  "mem_GetLastBlockHeight bp = of_nat (length (imb_blocks bp))"

text \<open>On a 64-bit machine a pointer takes 8 bytes and a slice header 24.\<close>

definition sizeOfBlock :: "Wire \<Rightarrow> BlockPairContainer \<Rightarrow> (storageErr, 64 word) result" where
  "sizeOfBlock w block =
     bind_result (bp_tx block) (\<lambda>(tb, th). bind_result (bp_rs block) (\<lambda>(rb, rh).
       let txBlockSize = length (raw_transactionsBlockHeader w th) + length (tbc_blockProof tb) + length (tbc_metadata tb)
             + sum_list (map (length \<circ> raw_signedTransaction w) (tbc_signedTransactions tb));
           rsBlockSize = length (raw_resultsBlockHeader w rh) + length (rbc_blockProof rb)
             + sum_list (map (length \<circ> raw_contractStateDiff w) (rbc_contractStateDiffs rb))
             + sum_list (map (length \<circ> raw_receipt w) (rbc_transactionReceipts rb));
           txBlockPointers = 8 + 8 + 8 + 8 + 24 + 8 * length (tbc_signedTransactions tb);
           rsBlockPointers = 8 + 8 + 8 + 24 + 24 + 8 * length (rbc_contractStateDiffs rb) + 8 * length (rbc_transactionReceipts rb)
       in Ok (of_nat (txBlockSize + rsBlockSize + (8 + txBlockPointers + rsBlockPointers)))))"

definition validateAndAddNextBlock ::
  "InMemoryBlockPersistence \<Rightarrow> BlockPairContainer \<Rightarrow> (storageErr, InMemoryBlockPersistence \<times> bool \<times> BlockHeight) result" where
  "validateAndAddNextBlock bp blockPair =
     (let currentTop = of_nat (length (imb_blocks bp)) in
      bind_result (bp_tx blockPair) (\<lambda>(_, th).
        if of_nat (length (imb_blocks bp)) + 1 \<noteq> tbh_blockHeight th then Ok (bp, False, currentTop)
        else bind_result (bp_rs blockPair) (\<lambda>(_, rh).
          case IncrementTo (imb_tracker bp) (rbh_blockHeight rh) of
            Ok t \<Rightarrow> Ok (bp\<lparr>imb_blocks := imb_blocks bp @ [blockPair], imb_tracker := t\<rparr>, True, rbh_blockHeight rh)
          | _ \<Rightarrow> Panic)))"

definition mem_WriteNextBlock ::
  "Wire \<Rightarrow> InMemoryBlockPersistence \<Rightarrow> BlockPairContainer \<Rightarrow> (storageErr, InMemoryBlockPersistence \<times> bool \<times> BlockHeight) result" where
  "mem_WriteNextBlock w bp blockPair =
     bind_result (validateAndAddNextBlock bp blockPair) (\<lambda>(bp, added, pHeight).
       if added then bind_result (sizeOfBlock w blockPair) (\<lambda>n. Ok (bp\<lparr>imb_size := imb_size bp + n\<rparr>, added, pHeight))
       else Ok (bp, added, pHeight))"

fun findReceipt :: "Sha256 \<Rightarrow> nat \<Rightarrow> TransactionReceipt list \<Rightarrow> nat option" where
  "findReceipt txHash i [] = None"
| "findReceipt txHash i (r # rs) = (if rcpt_txhash r = txHash then Some i else findReceipt txHash (Suc i) rs)"

fun candidateBlocks :: "TimestampNano \<Rightarrow> TimestampNano \<Rightarrow> BlockPairContainer list \<Rightarrow> (storageErr, BlockPairContainer list) result" where
  "candidateBlocks minBlockTs maxBlockTs [] = Ok []"
| "candidateBlocks minBlockTs maxBlockTs (b # bs) =
     bind_result (bp_tx b) (\<lambda>(_, th).
       let bts = tbh_timestamp th in
       bind_result (candidateBlocks minBlockTs maxBlockTs bs) (\<lambda>rest.
         Ok (if maxBlockTs \<ge> bts \<and> minBlockTs \<le> bts then b # rest else rest)))"

fun searchBlocks :: "Sha256 \<Rightarrow> BlockPairContainer list \<Rightarrow> (storageErr, (BlockPairContainer \<times> nat) option) result" where
  "searchBlocks txHash [] = Ok None"
| "searchBlocks txHash (b # bs) =
     (case bp_resultsBlock b of
        None \<Rightarrow> Panic
      | Some rb \<Rightarrow> (case findReceipt txHash 0 (rbc_transactionReceipts rb) of
                     Some txi \<Rightarrow> Ok (Some (b, txi))
                   | None \<Rightarrow> searchBlocks txHash bs))"

definition mem_GetBlockByTx ::
  "InMemoryBlockPersistence \<Rightarrow> Sha256 \<Rightarrow> TimestampNano \<Rightarrow> TimestampNano \<Rightarrow> (storageErr, (BlockPairContainer \<times> nat) option) result" where
  "mem_GetBlockByTx bp txHash minBlockTs maxBlockTs =
     bind_result (candidateBlocks minBlockTs maxBlockTs (imb_blocks bp)) (searchBlocks txHash)"

text \<open>For height 0 the index wraps around and is out of range.\<close>

definition getBlockPairAtHeight :: "InMemoryBlockPersistence \<Rightarrow> BlockHeight \<Rightarrow> (storageErr, BlockPairContainer) result" where
  "getBlockPairAtHeight bp height =
     (if height > of_nat (length (imb_blocks bp)) then Err ErrUnknownHeight
      else let i = unat (height - 1) in if i < length (imb_blocks bp) then Ok (imb_blocks bp ! i) else Panic)"

definition mem_GetTransactionsBlock :: "InMemoryBlockPersistence \<Rightarrow> BlockHeight \<Rightarrow> (storageErr, TransactionsBlockContainer option) result" where
  "mem_GetTransactionsBlock bp height = bind_result (getBlockPairAtHeight bp height) (\<lambda>b. Ok (bp_transactionsBlock b))"

definition mem_GetResultsBlock :: "InMemoryBlockPersistence \<Rightarrow> BlockHeight \<Rightarrow> (storageErr, ResultsBlockContainer option) result" where
  "mem_GetResultsBlock bp height = bind_result (getBlockPairAtHeight bp height) (\<lambda>b. Ok (bp_resultsBlock b))"

text \<open>
  The cursor function acts on a state of the caller and tells whether it wants more. With a page size of
  zero the loop need not end, which is the value \<open>None\<close>.
\<close>

type_synonym 'c CursorFunc = "BlockHeight \<Rightarrow> BlockPairContainer list \<Rightarrow> 'c \<Rightarrow> 'c \<times> bool"

partial_function (option) scanLoop ::
  "'c CursorFunc \<Rightarrow> BlockPairContainer list \<Rightarrow> 8 word \<Rightarrow> BlockHeight \<Rightarrow> 'c \<Rightarrow> 'c option" where
  "scanLoop f allBlocks pageSize from c =
     (let allBlocksLength = of_nat (length allBlocks) in
      if from \<le> allBlocksLength
      then let fromIndex = from - 1;
               toIndex = (if fromIndex + ucast pageSize > allBlocksLength then allBlocksLength else fromIndex + ucast pageSize);
               (c', wantsMore) = f from (take (unat toIndex - unat fromIndex) (drop (unat fromIndex) allBlocks)) c
           in if wantsMore then scanLoop f allBlocks pageSize (toIndex + 1) c' else Some c'
      else Some c)"

definition mem_ScanBlocks ::
  "InMemoryBlockPersistence \<Rightarrow> BlockHeight \<Rightarrow> 8 word \<Rightarrow> 'c CursorFunc \<Rightarrow> 'c \<Rightarrow> (storageErr, 'c) result option" where
  "mem_ScanBlocks bp from pageSize f c =
     (if of_nat (length (imb_blocks bp)) < from \<or> from = 0 then Some (Err ErrUnknownHeight)
      else map_option Ok (scanLoop f (imb_blocks bp) pageSize from c))"

definition memPersistence :: "Wire \<Rightarrow> InMemoryBlockPersistence BlockPersistence" where
  "memPersistence w =
     \<lparr>bpp_WriteNextBlock = mem_WriteNextBlock w, bpp_GetLastBlock = mem_GetLastBlock,
      bpp_GetTransactionsBlock = mem_GetTransactionsBlock, bpp_GetResultsBlock = mem_GetResultsBlock,
      bpp_GetBlockByTx = mem_GetBlockByTx, bpp_GetBlockTracker = imb_tracker\<rparr>"

subsection \<open>Committing and validating blocks\<close>

definition validateProtocolVersion_blocks :: "BlockPairContainer \<Rightarrow> (storageErr, unit) result" where
  "validateProtocolVersion_blocks blockPair =
     bind_result (bp_tx blockPair) (\<lambda>(_, th). bind_result (bp_rs blockPair) (\<lambda>(_, rh).
       if tbh_protocolVersion th \<noteq> ProtocolVersion_blocks then Err ErrVersionTx
       else if rbh_protocolVersion rh \<noteq> ProtocolVersion_blocks then Err ErrVersionRs
       else Ok ()))"

definition detectForks ::
  "Wire \<Rightarrow> BlockPairContainer \<Rightarrow> TransactionsBlockHeader \<Rightarrow> ResultsBlockHeader \<Rightarrow> (storageErr, unit) result" where
  "detectForks w proposedBlock storedTxBlockHeader storedRsBlockHeader =
     bind_result (bp_tx proposedBlock) (\<lambda>(_, th). bind_result (bp_rs proposedBlock) (\<lambda>(_, rh).
       if tbh_timestamp th \<noteq> tbh_timestamp storedTxBlockHeader then Err ErrForkTimestamp
       else if raw_transactionsBlockHeader w th \<noteq> raw_transactionsBlockHeader w storedTxBlockHeader then Err ErrForkTxHeader
       else if raw_resultsBlockHeader w rh \<noteq> raw_resultsBlockHeader w storedRsBlockHeader then Err ErrForkRsHeader
       else Ok ()))"

text \<open>
  The service's own state besides the persistence: gauges and whether node sync was told. \<open>receiver\<close> is
  whether the goroutine that reads the unbuffered channel is ready.
\<close>

record BlockStorage =
  bs_blockHeight :: "64 word"
  bs_lastCommittedTime :: "64 word"
  bs_notified :: nat

definition commitBlock ::
  "Wire \<Rightarrow> 'p BlockPersistence \<Rightarrow> BlockStorage \<Rightarrow> 'p \<Rightarrow> BlockPairContainer \<Rightarrow> bool \<Rightarrow> bool
     \<Rightarrow> (storageErr, BlockStorage \<times> 'p) result" where
  "commitBlock w ops s p blockPair notifyNodeSync receiver =
     bind_result (bp_tx blockPair) (\<lambda>(_, th).
       let proposedBlockHeight = tbh_blockHeight th in
       bind_result (validateProtocolVersion_blocks blockPair) (\<lambda>_.
       bind_result (bpp_WriteNextBlock ops p blockPair) (\<lambda>(p, added, persistedHeight).
         if proposedBlockHeight > persistedHeight + 1 then Err ErrFutureBlock
         else if \<not> added
         then bind_result (bpp_GetResultsBlock ops p proposedBlockHeight) (\<lambda>storedRsBlock.
              bind_result (bpp_GetTransactionsBlock ops p proposedBlockHeight) (\<lambda>storedTxBlock.
              bind_result (tx_header storedTxBlock) (\<lambda>(_, sth).
              bind_result (rx_header storedRsBlock) (\<lambda>(_, srh).
              bind_result (detectForks w blockPair sth srh) (\<lambda>_. Ok (s, p))))))
         else Ok (s\<lparr>bs_blockHeight := tbh_blockHeight th, bs_lastCommittedTime := tbh_timestamp th,
                    bs_notified := (if notifyNodeSync \<and> receiver then Suc (bs_notified s) else bs_notified s)\<rparr>, p))))"

definition CommitBlock where
  "CommitBlock w ops s p blockPair receiver = commitBlock w ops s p blockPair True receiver"

definition NodeSyncCommitBlock where
  "NodeSyncCommitBlock w ops s p blockPair receiver = commitBlock w ops s p blockPair False receiver"

definition getBlockHeight :: "BlockPairContainer option \<Rightarrow> (storageErr, BlockHeight) result" where
  "getBlockHeight block = (case block of None \<Rightarrow> Ok 0 | Some b \<Rightarrow> bind_result (bp_tx b) (\<lambda>(_, th). Ok (tbh_blockHeight th)))"

definition getBlockTimestamp :: "BlockPairContainer option \<Rightarrow> (storageErr, TimestampNano) result" where
  "getBlockTimestamp block = (case block of None \<Rightarrow> Ok 0 | Some b \<Rightarrow> bind_result (bp_tx b) (\<lambda>(_, th). Ok (tbh_timestamp th)))"

definition validateConsecutiveBlockHeight :: "BlockPairContainer \<Rightarrow> BlockPairContainer option \<Rightarrow> (storageErr, unit) result" where
  "validateConsecutiveBlockHeight blockPair lastCommittedBlock =
     bind_result (getBlockHeight lastCommittedBlock) (\<lambda>last.
       bind_result (bp_tx blockPair) (\<lambda>(_, th). bind_result (bp_rs blockPair) (\<lambda>(_, rh).
         if tbh_blockHeight th \<noteq> rbh_blockHeight rh then Err ErrHeightMismatch
         else if tbh_blockHeight th \<noteq> last + 1 then Err ErrUnexpectedHeight
         else Ok ())))"

datatype consensusMode = UPDATE_ONLY | VERIFY_AND_UPDATE | VERIFY_ONLY

text \<open>\<open>handlers\<close> answer whether they accept the block after the previous one in the given mode.\<close>

definition notifyConsensusAlgos ::
  "(consensusMode \<Rightarrow> BlockPairContainer option \<Rightarrow> BlockPairContainer option \<Rightarrow> bool) list \<Rightarrow> bool \<Rightarrow>
     BlockPairContainer option \<Rightarrow> BlockPairContainer option \<Rightarrow> consensusMode \<Rightarrow> (storageErr, unit) result" where
  "notifyConsensusAlgos handlers ctxDone prevBlockPair blockPair mode =
     (let verifyMode = (mode = VERIFY_AND_UPDATE \<or> mode = VERIFY_ONLY);
          verifiedCount = length (filter (\<lambda>handler. verifyMode \<and> handler mode prevBlockPair blockPair) handlers)
      in if verifyMode \<and> verifiedCount = 0 \<and> \<not> ctxDone then Err ErrAllAlgosRefused else Ok ())"

definition ValidateBlockForCommit ::
  "'p BlockPersistence \<Rightarrow> (consensusMode \<Rightarrow> BlockPairContainer option \<Rightarrow> BlockPairContainer option \<Rightarrow> bool) list \<Rightarrow> bool \<Rightarrow>
     'p \<Rightarrow> BlockPairContainer \<Rightarrow> (storageErr, unit) result" where
  "ValidateBlockForCommit ops handlers ctxDone p blockPair =
     bind_result (validateProtocolVersion_blocks blockPair) (\<lambda>_.
     bind_result (bpp_GetLastBlock ops p) (\<lambda>lastCommittedBlock.
     bind_result (validateConsecutiveBlockHeight blockPair lastCommittedBlock) (\<lambda>_.
       notifyConsensusAlgos handlers ctxDone lastCommittedBlock (Some blockPair) VERIFY_AND_UPDATE)))"

definition validateBlockDoesNotExist ::
  "Wire \<Rightarrow> TransactionsBlockHeader \<Rightarrow> ResultsBlockHeader \<Rightarrow> BlockPairContainer option \<Rightarrow> (storageErr, bool) result" where
  "validateBlockDoesNotExist w txBlockHeader rsBlockHeader lastCommittedBlock =
     bind_result (getBlockHeight lastCommittedBlock) (\<lambda>currentBlockHeight.
       let attemptedBlockHeight = tbh_blockHeight txBlockHeader in
       if attemptedBlockHeight < currentBlockHeight then Ok False
       else if attemptedBlockHeight = currentBlockHeight
       then bind_result (getBlockTimestamp lastCommittedBlock) (\<lambda>ts.
         if tbh_timestamp txBlockHeader \<noteq> ts then Err ErrForkTimestamp
         else case lastCommittedBlock of
           None \<Rightarrow> Panic
         | Some lastBlock \<Rightarrow>
             bind_result (bp_tx lastBlock) (\<lambda>(_, th).
               if raw_transactionsBlockHeader w txBlockHeader \<noteq> raw_transactionsBlockHeader w th then Err ErrForkTxHeader
               else bind_result (bp_rs lastBlock) (\<lambda>(_, rh).
                 if raw_resultsBlockHeader w rsBlockHeader \<noteq> raw_resultsBlockHeader w rh then Err ErrForkRsHeader
                 else Ok False)))
       else Ok True)"

subsection \<open>Queries\<close>

definition GetLastCommittedBlockHeight :: "'p BlockPersistence \<Rightarrow> 'p \<Rightarrow> (storageErr, BlockHeight \<times> TimestampNano) result" where
  "GetLastCommittedBlockHeight ops p =
     bind_result (bpp_GetLastBlock ops p) (\<lambda>b.
     bind_result (getBlockHeight b) (\<lambda>h.
     bind_result (getBlockTimestamp b) (\<lambda>ts. Ok (h, ts))))"

text \<open>
  The header queries wait for the block with the tracker of the state \<open>p0\<close> in which the call starts; \<open>p\<close> is
  the state when it goes on.
\<close>

definition waitFor :: "'p BlockPersistence \<Rightarrow> 'p \<Rightarrow> wait_event list \<Rightarrow> BlockHeight \<Rightarrow> (storageErr, 'a) result \<Rightarrow> (storageErr, 'a) result option" where
  "waitFor ops p0 es height r =
     (case WaitForBlock (bpp_GetBlockTracker ops p0) es height of
        None \<Rightarrow> None
      | Some (Ok _) \<Rightarrow> Some r
      | Some (Err e) \<Rightarrow> Some (Err (ErrWait e))
      | Some Panic \<Rightarrow> Some Panic)"

definition loadTransactionsBlockHeader ::
  "'p BlockPersistence \<Rightarrow> 'p \<Rightarrow> BlockHeight \<Rightarrow> (storageErr, bytes \<times> TransactionsBlockHeader option \<times> bytes) result" where
  "loadTransactionsBlockHeader ops p height =
     bind_result (bpp_GetTransactionsBlock ops p height) (\<lambda>txBlock.
       case txBlock of None \<Rightarrow> Panic | Some b \<Rightarrow> Ok (tbc_blockProof b, tbc_header b, tbc_metadata b))"

definition GetTransactionsBlockHeader where
  "GetTransactionsBlockHeader ops p0 es p height = waitFor ops p0 es height (loadTransactionsBlockHeader ops p height)"

definition loadResultsBlockHeader ::
  "'p BlockPersistence \<Rightarrow> 'p \<Rightarrow> BlockHeight \<Rightarrow> (storageErr, bytes \<times> ResultsBlockHeader option) result" where
  "loadResultsBlockHeader ops p height =
     bind_result (bpp_GetResultsBlock ops p height) (\<lambda>rxBlock.
       case rxBlock of None \<Rightarrow> Panic | Some b \<Rightarrow> Ok (rbc_blockProof b, rbc_header b))"

definition GetResultsBlockHeader where
  "GetResultsBlockHeader ops p0 es p height = waitFor ops p0 es height (loadResultsBlockHeader ops p height)"

definition createEmptyTransactionReceiptResult ::
  "'p BlockPersistence \<Rightarrow> 'p \<Rightarrow> (storageErr, TransactionReceipt option \<times> BlockHeight \<times> TimestampNano) result" where
  "createEmptyTransactionReceiptResult ops p =
     bind_result (GetLastCommittedBlockHeight ops p) (\<lambda>(h, ts). Ok (None, h, ts))"

definition GetTransactionReceipt ::
  "'p BlockPersistence \<Rightarrow> 64 word \<Rightarrow> 64 word \<Rightarrow> 'p \<Rightarrow> Sha256 \<Rightarrow> TimestampNano
     \<Rightarrow> (storageErr, TransactionReceipt option \<times> BlockHeight \<times> TimestampNano) result" where
  "GetTransactionReceipt ops graceNano txExpireNano p txhash transactionTimestamp =
     (let start = transactionTimestamp - graceNano;
          end = transactionTimestamp + (graceNano + txExpireNano) in
      bind_result (bpp_GetBlockByTx ops p txhash start end) (\<lambda>found.
        case found of
          None \<Rightarrow> createEmptyTransactionReceiptResult ops p
        | Some (blockPair, txIdx) \<Rightarrow>
            bind_result (bp_rs blockPair) (\<lambda>(rb, rh).
              if txIdx < length (rbc_transactionReceipts rb)
              then Ok (Some (rbc_transactionReceipts rb ! txIdx), rbh_blockHeight rh, rbh_timestamp rh) else Panic)))"

text \<open>
  The slice of blocks is first allocated with room for \<open>last - first + 1\<close> pointers, in unsigned arithmetic;
  \<open>make\<close> panics when that exceeds the address space of $2^{48}$ bytes.
\<close>

definition maxSliceCap :: nat where
  "maxSliceCap = 2 ^ 45"

definition GetBlockSlice ::
  "InMemoryBlockPersistence \<Rightarrow> BlockHeight \<Rightarrow> BlockHeight
     \<Rightarrow> (storageErr, BlockPairContainer list \<times> BlockHeight \<times> BlockHeight) result option" where
  "GetBlockSlice p firstHeight lastHeight =
     (if unat (lastHeight - firstHeight + 1) > maxSliceCap then Some Panic
      else case mem_ScanBlocks p firstHeight 1 (\<lambda>firstInPage page blocks. (blocks @ page, firstInPage < lastHeight)) [] of
        None \<Rightarrow> None
      | Some (Ok blocks) \<Rightarrow>
          if length blocks = 0 then Some (Err ErrNoBlocks)
          else Some (Ok (blocks, firstHeight, firstHeight + of_nat (length blocks) - 1))
      | Some (Err e) \<Rightarrow> Some (Err e)
      | Some Panic \<Rightarrow> Some Panic)"

definition GetBlockPair ::
  "InMemoryBlockPersistence \<Rightarrow> wait_event list \<Rightarrow> InMemoryBlockPersistence \<Rightarrow> BlockHeight
     \<Rightarrow> (storageErr, BlockPairContainer option) result option" where
  "GetBlockPair p0 es p height =
     (case WaitForBlock (imb_tracker p0) es height of
        None \<Rightarrow> None
      | Some (Ok _) \<Rightarrow>
          (case mem_ScanBlocks p height 1 (\<lambda>h page bpc. (Some (page ! 0), False)) None of
             None \<Rightarrow> None
           | Some r \<Rightarrow> Some r)
      | Some _ \<Rightarrow> Some (Ok None))"

subsection \<open>Serving block synchronisation\<close>

record BlockSyncRange =
  bsr_firstBlockHeight :: BlockHeight
  bsr_lastBlockHeight :: BlockHeight
  bsr_lastCommittedBlockHeight :: BlockHeight

text \<open>The answer to an availability request, if any: the heights that are available.\<close>

definition sourceHandleBlockAvailabilityRequest ::
  "'p BlockPersistence \<Rightarrow> 'p \<Rightarrow> BlockSyncRange \<Rightarrow> (storageErr, BlockSyncRange option) result" where
  "sourceHandleBlockAvailabilityRequest ops p batchRange =
     bind_result (GetLastCommittedBlockHeight ops p) (\<lambda>(lastCommittedBlockHeight, _).
       if lastCommittedBlockHeight \<le> bsr_lastCommittedBlockHeight batchRange then Ok None
       else Ok (Some \<lparr>bsr_firstBlockHeight = 1, bsr_lastBlockHeight = lastCommittedBlockHeight,
                      bsr_lastCommittedBlockHeight = lastCommittedBlockHeight\<rparr>))"

datatype sendResult = Sent | ChunkTooBig | SendFailed

text \<open>The loop that halves the chunk until it fits a message.\<close>

function sendChunks ::
  "(BlockSyncRange \<Rightarrow> BlockPairContainer list \<Rightarrow> sendResult) \<Rightarrow> BlockHeight \<Rightarrow> BlockHeight \<Rightarrow> BlockPairContainer list \<Rightarrow> nat
     \<Rightarrow> (storageErr, BlockSyncRange \<times> BlockPairContainer list) result" where
  "sendChunks send firstAvailable lastCommitted blocks chunkSize =
     (let batchRange = \<lparr>bsr_firstBlockHeight = firstAvailable, bsr_lastBlockHeight = firstAvailable + of_nat chunkSize - 1,
                   bsr_lastCommittedBlockHeight = lastCommitted\<rparr>;
          chunk = take chunkSize blocks
      in case send batchRange chunk of
           Sent \<Rightarrow> Ok (batchRange, chunk)
         | SendFailed \<Rightarrow> Err ErrSend
         | ChunkTooBig \<Rightarrow> if chunkSize = 0 then Err ErrSend
                          else sendChunks send firstAvailable lastCommitted blocks (chunkSize div 2))"
  by pat_completeness auto
termination
  by (relation "measure (\<lambda>(_, _, _, _, n). n)") auto

declare sendChunks.simps [simp del]

definition sourceHandleBlockSyncRequest ::
  "32 word \<Rightarrow> (BlockSyncRange \<Rightarrow> BlockPairContainer list \<Rightarrow> sendResult) \<Rightarrow> Wire \<Rightarrow> InMemoryBlockPersistence \<Rightarrow> BlockSyncRange
     \<Rightarrow> (storageErr, BlockSyncRange \<times> BlockPairContainer list) result option" where
  "sourceHandleBlockSyncRequest numBlocksInBatch send w p batchRange =
     (let firstRequested = bsr_firstBlockHeight batchRange in
      case GetLastCommittedBlockHeight (memPersistence w) p of
        Ok (lastCommitted, _) \<Rightarrow>
          if firstRequested > lastCommitted then Some (Err ErrFirstAboveCommitted)
          else let lastRequested =
                 (if firstRequested - lastCommitted > ucast (numBlocksInBatch - 1)
                  then firstRequested + ucast (numBlocksInBatch - 1) else bsr_lastBlockHeight batchRange)
            in (case GetBlockSlice p firstRequested lastRequested of
                  None \<Rightarrow> None
                | Some (Ok (blocks, firstAvailable, _)) \<Rightarrow> Some (sendChunks send firstAvailable lastCommitted blocks (length blocks))
                | Some (Err e) \<Rightarrow> Some (Err e)
                | Some Panic \<Rightarrow> Some Panic)
      | Err e \<Rightarrow> Some (Err e)
      | Panic \<Rightarrow> Some Panic)"

subsection \<open>Receipt proofs\<close>

definition generateProof :: "hasher \<Rightarrow> Wire \<Rightarrow> TransactionReceipt list \<Rightarrow> nat \<Rightarrow> (storageErr, OrderedTreeProof) result" where
  "generateProof sha w receipts index =
     (case OrderedTree_GetProof (NewOrderedTree sha (CalcReceiptHashes sha w receipts)) (int index) of
        Ok p \<Rightarrow> Ok p
      | Err e \<Rightarrow> Err (ErrProof e)
      | Panic \<Rightarrow> Panic)"

text \<open>The proof is returned beside its flattened form, which is what the message carries.\<close>

definition GenerateReceiptProof ::
  "hasher \<Rightarrow> Wire \<Rightarrow> 'p BlockPersistence \<Rightarrow> 'p \<Rightarrow> BlockHeight \<Rightarrow> Sha256
     \<Rightarrow> (storageErr, ResultsBlockHeader \<times> bytes \<times> OrderedTreeProof \<times> bytes) result" where
  "GenerateReceiptProof sha w ops p height txhash =
     bind_result (bpp_GetResultsBlock ops p height) (\<lambda>block.
     case block of
       None \<Rightarrow> Panic
     | Some b \<Rightarrow>
         (case findReceipt txhash 0 (rbc_transactionReceipts b) of
            None \<Rightarrow> Err ErrTxNotInBlock
          | Some i \<Rightarrow>
              bind_result (generateProof sha w (rbc_transactionReceipts b) i) (\<lambda>pr.
                bind_result (rx_header (Some b)) (\<lambda>(_, h).
                  Ok (h, rbc_blockProof b, pr, FlattenOrderedTreeProof pr)))))"

end
