(* ===== verification/Block_Storage_Correct.thy ===== *)
theory Block_Storage_Correct
  imports Block_Storage
begin

text \<open>
  Correctness of block storage. The locale \<open>block_persistence\<close> is the contract of the interface the
  service uses; committing is proved correct from it, and the in-memory persistence satisfies it.
\<close>

subsection \<open>Complete blocks\<close>

definition block_at :: "BlockPairContainer \<Rightarrow> BlockHeight \<Rightarrow> bool" where
  "block_at b height \<longleftrightarrow> (\<exists>tb th rb rh. bp_transactionsBlock b = Some tb \<and> tbc_header tb = Some th \<and>
     bp_resultsBlock b = Some rb \<and> rbc_header rb = Some rh \<and> tbh_blockHeight th = height \<and> rbh_blockHeight rh = height)"

definition txHeader :: "BlockPairContainer \<Rightarrow> TransactionsBlockHeader" where
  "txHeader b = the (tbc_header (the (bp_transactionsBlock b)))"

definition rsHeader :: "BlockPairContainer \<Rightarrow> ResultsBlockHeader" where
  "rsHeader b = the (rbc_header (the (bp_resultsBlock b)))"

lemma block_at_simps:
  assumes "block_at b height"
  shows "bp_tx b = Ok (the (bp_transactionsBlock b), txHeader b)" "bp_rs b = Ok (the (bp_resultsBlock b), rsHeader b)"
    "tbh_blockHeight (txHeader b) = height" "rbh_blockHeight (rsHeader b) = height"
  using assms by (auto simp: block_at_def txHeader_def rsHeader_def tx_header_def rx_header_def)

definition chain_at :: "BlockPairContainer list \<Rightarrow> bool" where
  "chain_at bs \<longleftrightarrow> length bs < 2 ^ 63 \<and> (\<forall>i < length bs. block_at (bs ! i) (of_nat i + 1))"

lemma chain_at_snoc:
  assumes "chain_at bs" "block_at b (of_nat (length bs) + 1)" "length bs + 1 < 2 ^ 63" shows "chain_at (bs @ [b])"
  using assms by (auto simp: chain_at_def nth_append less_Suc_eq)

lemma of_nat_64: "n < 2 ^ 63 \<Longrightarrow> unat (of_nat n :: 64 word) = n"
  by (rule unat_of_nat_small) simp

lemma height_less: "m \<le> 2 ^ 63 \<Longrightarrow> n \<le> 2 ^ 63 \<Longrightarrow> (of_nat m :: 64 word) < of_nat n \<longleftrightarrow> m < n"
  by (rule of_nat_less_iff_small) simp_all

lemma height_eq: "m \<le> 2 ^ 63 \<Longrightarrow> n \<le> 2 ^ 63 \<Longrightarrow> (of_nat m :: 64 word) = of_nat n \<longleftrightarrow> m = n"
  by (rule of_nat_eq_iff_small) simp_all

subsection \<open>The contract of a persistence\<close>

definition same_headers :: "Wire \<Rightarrow> BlockPairContainer \<Rightarrow> BlockPairContainer \<Rightarrow> bool" where
  "same_headers w b c \<longleftrightarrow> tbh_timestamp (txHeader b) = tbh_timestamp (txHeader c) \<and>
     raw_transactionsBlockHeader w (txHeader b) = raw_transactionsBlockHeader w (txHeader c) \<and>
     raw_resultsBlockHeader w (rsHeader b) = raw_resultsBlockHeader w (rsHeader c)"

text \<open>\<open>repr p bs\<close>: the persistence holds the chain \<open>bs\<close>; \<open>fits p b\<close>: it has room for the block.\<close>

locale block_persistence =
  fixes ops :: "'p BlockPersistence" and repr :: "'p \<Rightarrow> BlockPairContainer list \<Rightarrow> bool" and fits :: "'p \<Rightarrow> BlockPairContainer \<Rightarrow> bool"
  assumes repr_chain: "repr p bs \<Longrightarrow> chain_at bs"
    and write_next: "repr p bs \<Longrightarrow> fits p b \<Longrightarrow> block_at b (of_nat (length bs) + 1) \<Longrightarrow> length bs + 1 < 2 ^ 63 \<Longrightarrow>
      \<exists>p'. bpp_WriteNextBlock ops p b = Ok (p', True, of_nat (length bs) + 1) \<and> repr p' (bs @ [b])"
    and write_other: "repr p bs \<Longrightarrow> block_at b h \<Longrightarrow> h \<noteq> of_nat (length bs) + 1 \<Longrightarrow>
      bpp_WriteNextBlock ops p b = Ok (p, False, of_nat (length bs))"
    and get_tx: "repr p bs \<Longrightarrow> i < length bs \<Longrightarrow> bpp_GetTransactionsBlock ops p (of_nat i + 1) = Ok (bp_transactionsBlock (bs ! i))"
    and get_rs: "repr p bs \<Longrightarrow> i < length bs \<Longrightarrow> bpp_GetResultsBlock ops p (of_nat i + 1) = Ok (bp_resultsBlock (bs ! i))"
    and get_last: "repr p bs \<Longrightarrow> bpp_GetLastBlock ops p = Ok (if bs = [] then None else Some (last bs))"
begin

lemma last_committed:
  assumes "repr p bs" shows "\<exists>ts. GetLastCommittedBlockHeight ops p = Ok (of_nat (length bs), ts)"
proof (cases bs rule: rev_cases)
  case Nil
  then show ?thesis using get_last [OF assms] by (simp add: GetLastCommittedBlockHeight_def getBlockHeight_def getBlockTimestamp_def)
next
  case (snoc cs b)
  then have "block_at b (of_nat (length cs) + 1)"
    using repr_chain [OF assms] by (auto simp: chain_at_def nth_append dest: spec [of _ "length cs"])
  note b = block_at_simps(1-4) [OF this]
  show ?thesis using snoc get_last [OF assms]
    by (simp add: GetLastCommittedBlockHeight_def getBlockHeight_def getBlockTimestamp_def b add.commute)
qed

lemma commit_next:
  assumes "repr p bs" "fits p b" "block_at b (of_nat (length bs) + 1)" "length bs + 1 < 2 ^ 63"
    and "validateProtocolVersion_blocks b = Ok ()"
  shows "\<exists>p'. commitBlock w ops s p b notify receiver =
      Ok (s\<lparr>bs_blockHeight := of_nat (length bs) + 1, bs_lastCommittedTime := tbh_timestamp (txHeader b),
            bs_notified := (if notify \<and> receiver then Suc (bs_notified s) else bs_notified s)\<rparr>, p') \<and> repr p' (bs @ [b])"
proof -
  note b = block_at_simps(1-4) [OF assms(3)]
  obtain p' where p': "bpp_WriteNextBlock ops p b = Ok (p', True, of_nat (length bs) + 1)" "repr p' (bs @ [b])"
    using write_next [OF assms(1-4)] by blast
  have "\<not> (of_nat (length bs + 2) :: 64 word) < of_nat (length bs + 1)"
    using height_less [of "length bs + 2" "length bs + 1"] assms(4) by simp
  then have "\<not> (of_nat (length bs) + 1 + 1 :: 64 word) < of_nat (length bs) + 1"
    by (simp add: add.commute)
  then show ?thesis using p' assms(5) by (simp add: commitBlock_def b)
qed

lemma commit_known:
  assumes "repr p bs" "i < length bs" "block_at b (of_nat i + 1)" "validateProtocolVersion_blocks b = Ok ()"
  shows "commitBlock w ops s p b notify receiver =
    (if same_headers w b (bs ! i) then Ok (s, p)
     else Err (if tbh_timestamp (txHeader b) \<noteq> tbh_timestamp (txHeader (bs ! i)) then ErrForkTimestamp
               else if raw_transactionsBlockHeader w (txHeader b) \<noteq> raw_transactionsBlockHeader w (txHeader (bs ! i))
               then ErrForkTxHeader else ErrForkRsHeader))"
proof -
  note b = block_at_simps(1-4) [OF assms(3)]
  have len: "length bs < 2 ^ 63" and at: "block_at (bs ! i) (of_nat i + 1)"
    using repr_chain [OF assms(1)] assms(2) by (auto simp: chain_at_def)
  note c = block_at_simps(1-4) [OF at]
  have ne: "(of_nat i + 1 :: 64 word) \<noteq> of_nat (length bs) + 1" using height_eq [of i "length bs"] assms(2) len by simp
  have le: "\<not> (of_nat i + 1 :: 64 word) > of_nat (length bs) + 1"
    using height_less [of "length bs + 1" "i + 1"] assms(2) len by (simp add: add.commute)
  show ?thesis
    using write_other [OF assms(1,3) ne] get_tx [OF assms(1,2)] get_rs [OF assms(1,2)] assms(4) le
    by (simp add: commitBlock_def b c detectForks_def same_headers_def)
qed

lemma commit_future:
  assumes "repr p bs" "length bs < i" "i < 2 ^ 63" "block_at b (of_nat i + 1)" "validateProtocolVersion_blocks b = Ok ()"
  shows "commitBlock w ops s p b notify receiver = Err ErrFutureBlock"
proof -
  note b = block_at_simps(1-4) [OF assms(4)]
  have ne: "(of_nat i + 1 :: 64 word) \<noteq> of_nat (length bs) + 1" using height_eq [of i "length bs"] assms(2,3) by simp
  have "(of_nat i + 1 :: 64 word) > of_nat (length bs) + 1"
    using height_less [of "length bs + 1" "i + 1"] assms(2,3) by (simp add: add.commute)
  then show ?thesis using write_other [OF assms(1,4) ne] assms(5) by (simp add: commitBlock_def b)
qed

end

subsection \<open>The in-memory persistence\<close>

definition mem_ok :: "InMemoryBlockPersistence \<Rightarrow> bool" where
  "mem_ok p \<longleftrightarrow> chain_at (imb_blocks p) \<and> bt_currentHeight (imb_tracker p) = of_nat (length (imb_blocks p))"

definition mem_repr :: "InMemoryBlockPersistence \<Rightarrow> BlockPairContainer list \<Rightarrow> bool" where
  "mem_repr p bs \<longleftrightarrow> mem_ok p \<and> imb_blocks p = bs"

lemma mem_repr: "mem_ok p \<Longrightarrow> mem_repr p (imb_blocks p)"
  by (simp add: mem_repr_def)

lemma mem_ok_new: "chain_at bs \<Longrightarrow> mem_ok (NewBlockPersistence bs)"
  by (simp add: mem_ok_def NewBlockPersistence_def NewBlockTracker_def)

lemma getBlockPairAtHeight_nth:
  assumes "length (imb_blocks p) < 2 ^ 63" "i < length (imb_blocks p)"
  shows "getBlockPairAtHeight p (of_nat i + 1) = Ok (imb_blocks p ! i)"
proof -
  have "\<not> (of_nat (length (imb_blocks p)) :: 64 word) < of_nat (i + 1)"
    using height_less [of "length (imb_blocks p)" "i + 1"] assms by simp
  then show ?thesis using assms of_nat_64 [of i] by (simp add: getBlockPairAtHeight_def add.commute)
qed

lemma mem_write_next:
  assumes ok: "mem_ok p" and b: "block_at b (of_nat (length (imb_blocks p)) + 1)" and le: "length (imb_blocks p) + 1 < 2 ^ 63"
  shows "\<exists>p'. bpp_WriteNextBlock (memPersistence w) p b = Ok (p', True, of_nat (length (imb_blocks p)) + 1) \<and>
    mem_ok p' \<and> imb_blocks p' = imb_blocks p @ [b]"
proof -
  note bs = block_at_simps(1-4) [OF b]
  let ?t = "(imb_tracker p)\<lparr>bt_currentHeight := bt_currentHeight (imb_tracker p) + 1, bt_latch := Suc (bt_latch (imb_tracker p)),
      bt_closed := bt_latch (imb_tracker p) # bt_closed (imb_tracker p)\<rparr>"
  obtain n where n: "sizeOfBlock w b = Ok n" by (simp add: sizeOfBlock_def bs Let_def)
  have "IncrementTo (imb_tracker p) (of_nat (length (imb_blocks p)) + 1) = Ok ?t" using ok by (simp add: IncrementTo_def mem_ok_def)
  then have "bpp_WriteNextBlock (memPersistence w) p b =
      Ok (p\<lparr>imb_blocks := imb_blocks p @ [b], imb_tracker := ?t, imb_size := imb_size p + n\<rparr>, True, of_nat (length (imb_blocks p)) + 1)"
    using n by (simp add: memPersistence_def mem_WriteNextBlock_def validateAndAddNextBlock_def bs)
  moreover have "mem_ok (p\<lparr>imb_blocks := imb_blocks p @ [b], imb_tracker := ?t, imb_size := imb_size p + n\<rparr>)"
    using ok chain_at_snoc [OF _ b le] by (simp add: mem_ok_def add.commute)
  ultimately show ?thesis by simp
qed

interpretation mem: block_persistence "memPersistence w" mem_repr "\<lambda>_ _. True" for w
proof
  fix p bs b assume repr: "mem_repr p bs"
  then have ok: "mem_ok p" and bs: "bs = imb_blocks p" by (auto simp: mem_repr_def)
  have len: "length (imb_blocks p) < 2 ^ 63" using ok by (simp add: mem_ok_def chain_at_def)
  show "chain_at bs" using ok bs by (simp add: mem_ok_def)
  show "bpp_GetLastBlock (memPersistence w) p = Ok (if bs = [] then None else Some (last bs))"
    by (simp add: memPersistence_def mem_GetLastBlock_def Let_def last_conv_nth bs)
  show "bpp_GetTransactionsBlock (memPersistence w) p (of_nat i + 1) = Ok (bp_transactionsBlock (bs ! i))"
    "bpp_GetResultsBlock (memPersistence w) p (of_nat i + 1) = Ok (bp_resultsBlock (bs ! i))"
    if "i < length bs" for i
    using getBlockPairAtHeight_nth [OF len, of i] that
    by (simp_all add: memPersistence_def mem_GetTransactionsBlock_def mem_GetResultsBlock_def bs)
  show "bpp_WriteNextBlock (memPersistence w) p b = Ok (p, False, of_nat (length bs))"
    if "block_at b h" "h \<noteq> of_nat (length bs) + 1" for h
    using that(2) bs by (simp add: memPersistence_def mem_WriteNextBlock_def validateAndAddNextBlock_def block_at_simps(1-4) [OF that(1)])
  show "\<exists>p'. bpp_WriteNextBlock (memPersistence w) p b = Ok (p', True, of_nat (length bs) + 1) \<and> mem_repr p' (bs @ [b])"
    if "block_at b (of_nat (length bs) + 1)" "length bs + 1 < 2 ^ 63"
    using mem_write_next [OF ok, of b w] that by (auto simp: mem_repr_def bs)
qed

subsection \<open>Scanning\<close>

text \<open>Scanning with pages of one block, as a recursion over the blocks.\<close>

fun scanSingles :: "'c CursorFunc \<Rightarrow> BlockHeight \<Rightarrow> BlockPairContainer list \<Rightarrow> 'c \<Rightarrow> 'c" where
  "scanSingles f h [] c = c"
| "scanSingles f h (b # bs) c = (case f h [b] c of (c', wantsMore) \<Rightarrow> if wantsMore then scanSingles f (h + 1) bs c' else c')"

lemma scanLoop_singles:
  assumes "length bs < 2 ^ 63" "i \<le> length bs"
  shows "scanLoop f bs 1 (of_nat i + 1) c = Some (scanSingles f (of_nat i + 1) (drop i bs) c)"
  using assms(2)
proof (induction "length bs - i" arbitrary: i c)
  case 0
  then have "i = length bs" by simp
  moreover have "\<not> (of_nat (i + 1) :: 64 word) \<le> of_nat i" using height_less [of i "i + 1"] assms(1) \<open>i = length bs\<close> by simp
  ultimately show ?case by (subst scanLoop.simps) (simp add: Let_def add.commute)
next
  case (Suc n)
  then have i: "i < length bs" by simp
  have le: "(of_nat (i + 1) :: 64 word) \<le> of_nat (length bs)"
    using height_less [of "length bs" "i + 1"] assms(1) i by (simp add: not_less [symmetric])
  have "\<not> (of_nat (length bs) :: 64 word) < of_nat i + 1" using le by (simp add: not_less add.commute)
  moreover have "unat (of_nat i + 1 :: 64 word) = i + 1" using of_nat_64 [of "i + 1"] i assms(1) by (simp add: add.commute)
  moreover have "take (Suc i - i) (drop i bs) = [bs ! i]" using i by (simp add: take_Suc_conv_app_nth hd_drop_conv_nth take_Suc)
  moreover have "drop i bs = bs ! i # drop (Suc i) bs" using i by (simp add: Cons_nth_drop_Suc)
  moreover have "scanLoop f bs 1 (of_nat (Suc i) + 1) c' = Some (scanSingles f (of_nat (Suc i) + 1) (drop (Suc i) bs) c')" for c'
    using Suc.hyps(1) [of "Suc i"] Suc.hyps(2) i by simp
  ultimately show ?case using le of_nat_64 [of i] i assms(1)
    by (subst scanLoop.simps) (simp add: Let_def add.commute split: prod.split)
qed

lemma scanSingles_collect:
  assumes "i < j" "j \<le> 2 ^ 63" "i + length bs \<le> 2 ^ 63"
  shows "scanSingles (\<lambda>h page blocks. (blocks @ page, h < (of_nat j :: 64 word))) (of_nat i + 1) bs c = c @ take (j - i) bs"
  using assms
proof (induction bs arbitrary: i c)
  case (Cons b bs)
  have less: "(of_nat i + 1 :: 64 word) < of_nat j \<longleftrightarrow> Suc i < j"
    using height_less [of "Suc i" j] Cons.prems by (simp add: add.commute)
  show ?case
  proof (cases "Suc i < j")
    case True
    then have "scanSingles (\<lambda>h page blocks. (blocks @ page, h < (of_nat j :: 64 word))) (of_nat (Suc i) + 1) bs (c @ [b]) =
        (c @ [b]) @ take (j - Suc i) bs" using Cons by (intro Cons.IH) auto
    moreover have "j - i = Suc (j - Suc i)" using True by simp
    ultimately show ?thesis using less True by (simp add: add.commute)
  next
    case False
    then have "j - i = 1" using Cons.prems by simp
    then show ?thesis using less False by simp
  qed
qed simp

lemma GetBlockSlice_eq:
  assumes "mem_ok p" "i < length (imb_blocks p)" "i < j" "j \<le> 2 ^ 63" "j - i \<le> 2 ^ 45"
  shows "GetBlockSlice p (of_nat i + 1) (of_nat j) =
    Some (Ok (take (j - i) (drop i (imb_blocks p)), of_nat i + 1, of_nat (min j (length (imb_blocks p)))))"
proof -
  let ?bs = "imb_blocks p" and ?n = "length (imb_blocks p)"
  have n: "?n < 2 ^ 63" using assms(1) by (simp add: mem_ok_def chain_at_def)
  have "(of_nat j - (of_nat i + 1) + 1 :: 64 word) = of_nat (j - i)" using assms(3) by (simp add: of_nat_diff)
  then have cap: "unat (of_nat j - (of_nat i + 1) + 1 :: 64 word) = j - i" using assms(3,4) by (simp only: ) (rule unat_of_nat_small, simp)
  have known: "\<not> (of_nat ?n :: 64 word) < of_nat i + 1" using height_less [of ?n "i + 1"] assms(2) n by (simp add: add.commute)
  have nz: "(of_nat i + 1 :: 64 word) \<noteq> 0" using height_eq [of "i + 1" 0] assms(2) n by (simp add: add.commute)
  have len: "length (take (j - i) (drop i ?bs)) = min j ?n - i" by simp
  have "(of_nat i + 1 + of_nat (min j ?n - i) - 1 :: 64 word) = of_nat (min j ?n)" using assms(2,3) by (simp add: of_nat_diff)
  moreover have "take (j - i) (drop i ?bs) \<noteq> []" using assms(2,3) by simp
  moreover have "scanLoop (\<lambda>h page blocks. (blocks @ page, h < (of_nat j :: 64 word))) ?bs 1 (of_nat i + 1) [] = Some (take (j - i) (drop i ?bs))"
    using assms(2) n scanSingles_collect [OF assms(3,4), of "drop i ?bs" "[]"] by (simp add: scanLoop_singles)
  moreover have "\<not> maxSliceCap < unat (of_nat j - (of_nat i + 1) + 1 :: 64 word)" using cap assms(5) by (simp add: maxSliceCap_def)
  ultimately show ?thesis using known nz len
    by (simp add: GetBlockSlice_def mem_ScanBlocks_def min_le_iff_disj del: length_take length_drop)
qed

lemma sendChunks_prefix:
  "sendChunks send first0 committed blocks n = Ok (r, chunk) \<Longrightarrow>
   \<exists>k \<le> n. chunk = take k blocks \<and> bsr_firstBlockHeight r = first0 \<and> bsr_lastBlockHeight r = first0 + of_nat k - 1 \<and> send r chunk = Sent"
proof (induction send first0 committed blocks n rule: sendChunks.induct)
  case (1 send first0 committed blocks n)
  let ?r = "\<lparr>bsr_firstBlockHeight = first0, bsr_lastBlockHeight = first0 + of_nat n - 1, bsr_lastCommittedBlockHeight = committed\<rparr>"
  show ?case
  proof (cases "send ?r (take n blocks)")
    case Sent
    then have "r = ?r" "chunk = take n blocks" using 1(2) by (simp_all add: sendChunks.simps [of _ _ _ _ n] Let_def)
    then show ?thesis using Sent by (intro exI [of _ n]) simp
  next
    case ChunkTooBig
    then have "n \<noteq> 0" "sendChunks send first0 committed blocks (n div 2) = Ok (r, chunk)"
      using 1(2) by (simp_all add: sendChunks.simps [of _ _ _ _ n] Let_def split: if_splits)
    then show ?thesis using 1(1) [OF refl refl ChunkTooBig] by (meson div_le_dividend order_trans)
  next
    case SendFailed
    then show ?thesis using 1(2) by (simp add: sendChunks.simps [of _ _ _ _ n] Let_def)
  qed
qed

subsection \<open>A concrete chain\<close>

definition demo_block :: "BlockHeight \<Rightarrow> BlockPairContainer" where
  "demo_block h =
     \<lparr>bp_transactionsBlock = Some \<lparr>tbc_header = Some \<lparr>tbh_protocolVersion = 1, tbh_virtualChainId = 42, tbh_blockHeight = h,
          tbh_prevBlockHashPtr = [], tbh_timestamp = 100 * h, tbh_transactionsMerkleRootHash = [], tbh_metadataHash = [],
          tbh_numSignedTransactions = 0, tbh_blockProposerAddress = []\<rparr>,
        tbc_metadata = [], tbc_signedTransactions = [], tbc_blockProof = []\<rparr>,
      bp_resultsBlock = Some \<lparr>rbc_header = Some \<lparr>rbh_protocolVersion = 1, rbh_virtualChainId = 42, rbh_blockHeight = h,
          rbh_prevBlockHashPtr = [], rbh_timestamp = 100 * h, rbh_receiptsMerkleRootHash = [], rbh_stateDiffHash = [],
          rbh_transactionsBlockHashPtr = [], rbh_preExecutionStateMerkleRootHash = [], rbh_numTransactionReceipts = 0,
          rbh_numContractStateDiffs = 0, rbh_blockProposerAddress = []\<rparr>,
        rbc_transactionReceipts = [], rbc_contractStateDiffs = [], rbc_blockProof = []\<rparr>\<rparr>"

definition demo_store :: InMemoryBlockPersistence where
  "demo_store = NewBlockPersistence [demo_block 1, demo_block 2]"

lemma demo_block_at: "block_at (demo_block h) h"
  by (simp add: block_at_def demo_block_def)

lemma demo_store_ok: "mem_ok demo_store" "imb_blocks demo_store = [demo_block 1, demo_block 2]"
proof -
  have "chain_at [demo_block 1, demo_block 2]"
    using demo_block_at [of 1] demo_block_at [of 2] by (auto simp: chain_at_def less_Suc_eq)
  then show "mem_ok demo_store" unfolding demo_store_def by (rule mem_ok_new)
qed (simp add: demo_store_def NewBlockPersistence_def)

lemma demo_block_version: "validateProtocolVersion_blocks (demo_block h) = Ok ()"
  by (simp add: validateProtocolVersion_blocks_def demo_block_def tx_header_def rx_header_def ProtocolVersion_blocks_def)

subsection \<open>Properties\<close>

text \<open>
  C29. Committing a complete block to the in-memory store: the block after the last extends the chain; a
  block at a height that is already stored changes nothing and is accepted if its headers are those of the
  stored block and reported as a fork otherwise; a block further ahead is refused.
\<close>

theorem commitBlock_extends_or_detects_fork:
  assumes "mem_ok p" "block_at b (of_nat i + 1)" "validateProtocolVersion_blocks b = Ok ()" "i + 1 < 2 ^ 63"
  shows "(i = length (imb_blocks p) \<longrightarrow> (\<exists>s' p'. commitBlock w (memPersistence w) s p b notify receiver = Ok (s', p') \<and> mem_ok p' \<and>
       imb_blocks p' = imb_blocks p @ [b] \<and> bs_blockHeight s' = of_nat i + 1)) \<and>
    (i < length (imb_blocks p) \<longrightarrow> commitBlock w (memPersistence w) s p b notify receiver =
       (if same_headers w b (imb_blocks p ! i) then Ok (s, p)
        else Err (if tbh_timestamp (txHeader b) \<noteq> tbh_timestamp (txHeader (imb_blocks p ! i)) then ErrForkTimestamp
                  else if raw_transactionsBlockHeader w (txHeader b) \<noteq> raw_transactionsBlockHeader w (txHeader (imb_blocks p ! i))
                  then ErrForkTxHeader else ErrForkRsHeader))) \<and>
    (length (imb_blocks p) < i \<longrightarrow> commitBlock w (memPersistence w) s p b notify receiver = Err ErrFutureBlock)"
  using mem.commit_next [OF mem_repr [OF assms(1)] _ _ _ assms(3)] mem.commit_known [OF mem_repr [OF assms(1)] _ assms(2,3)]
    mem.commit_future [OF mem_repr [OF assms(1)] _ _ assms(2,3)] assms(2,4) by (fastforce simp: mem_repr_def)

theorem commitBlock_extends_or_detects_fork_witness:
  "\<exists>s' p'. commitBlock demo_wire (memPersistence demo_wire) \<lparr>bs_blockHeight = 2, bs_lastCommittedTime = 0, bs_notified = 0\<rparr>
      demo_store (demo_block 3) True True = Ok (s', p') \<and> imb_blocks p' = [demo_block 1, demo_block 2, demo_block 3] \<and> bs_blockHeight s' = 3"
proof -
  have "block_at (demo_block 3) (of_nat 2 + 1)" using demo_block_at [of 3] by simp
  from commitBlock_extends_or_detects_fork [OF demo_store_ok(1) this demo_block_version]
  show ?thesis by (simp add: demo_store_ok(2)) blast
qed

text \<open>
  C30. \<open>GetBlockSlice\<close> returns exactly the stored blocks from the first to the last height, cut off at the
  top of the chain, and ends.
\<close>

theorem GetBlockSlice_returns_range:
  assumes "mem_ok p" "i < length (imb_blocks p)" "i < j" "j \<le> 2 ^ 63" "j - i \<le> 2 ^ 45"
  shows "GetBlockSlice p (of_nat i + 1) (of_nat j) =
    Some (Ok (take (j - i) (drop i (imb_blocks p)), of_nat i + 1, of_nat (min j (length (imb_blocks p)))))"
  by (rule GetBlockSlice_eq [OF assms])

theorem GetBlockSlice_returns_range_witness:
  "GetBlockSlice demo_store 2 7 = Some (Ok ([demo_block 2], 2, 2))"
  using GetBlockSlice_returns_range [OF demo_store_ok(1), of 1 7] by (simp add: demo_store_ok(2))

lemma sync_request_below_top:
  assumes "mem_ok p" "length (imb_blocks p) < 2 ^ 62" "i + 1 < length (imb_blocks p)" "0 < numBlocksInBatch"
    and "bsr_firstBlockHeight r = of_nat i + 1"
  shows "sourceHandleBlockSyncRequest numBlocksInBatch send w p r =
    (let blocks = take (unat numBlocksInBatch) (drop i (imb_blocks p))
     in Some (sendChunks send (of_nat i + 1) (of_nat (length (imb_blocks p))) blocks (length blocks)))"
proof -
  let ?n = "length (imb_blocks p)" and ?m = "unat numBlocksInBatch"
  obtain ts where last: "GetLastCommittedBlockHeight (memPersistence w) p = Ok (of_nat ?n, ts)"
    using mem.last_committed [OF mem_repr [OF assms(1)]] by blast
  have le: "\<not> (of_nat ?n :: 64 word) < of_nat i + 1" using height_less [of ?n "i + 1"] assms(2,3) by (simp add: add.commute)
  have m: "0 < ?m" "?m < 2 ^ 32" "unat (numBlocksInBatch - 1) = ?m - 1"
    using assms(4) unsigned_less [of numBlocksInBatch] by (simp_all add: word_less_nat_alt unat_sub word_le_nat_alt)
  have b64: "unat (ucast (numBlocksInBatch - 1) :: 64 word) = ?m - 1" using m by (simp add: unat_ucast_up)
  have "unat (of_nat i + 1 :: 64 word) = i + 1" using of_nat_64 [of "i + 1"] assms(2,3) by (simp add: add.commute)
  moreover have "unat (of_nat ?n :: 64 word) = ?n" using of_nat_64 [of ?n] assms(2) by simp
  ultimately have "unat (of_nat i + 1 - of_nat ?n :: 64 word) = i + 1 + 2 ^ 64 - ?n"
    using assms(3) unat_sub_if_size [of "of_nat i + 1 :: 64 word" "of_nat ?n"] by (simp add: word_size)
  then have wrap: "(ucast (numBlocksInBatch - 1) :: 64 word) < of_nat i + 1 - of_nat ?n"
    using b64 m(2) assms(2) by (simp add: word_less_nat_alt)
  have "(ucast (numBlocksInBatch - 1) :: 64 word) = of_nat (?m - 1)" using b64 m(2) by (simp add: word_unat_eq_iff unat_of_nat_small)
  then have lastReq: "(of_nat i + 1 + ucast (numBlocksInBatch - 1) :: 64 word) = of_nat (i + ?m)" using m(1) by (simp add: of_nat_diff)
  have sl: "GetBlockSlice p (of_nat i + 1) (of_nat i + 1 + ucast (numBlocksInBatch - 1)) =
      Some (Ok (take ?m (drop i (imb_blocks p)), of_nat i + 1, of_nat (min (i + ?m) ?n)))"
    unfolding lastReq using GetBlockSlice_eq [OF assms(1), of i "i + ?m"] m(1,2) assms(2,3) by (simp del: of_nat_add)
  show ?thesis using last le wrap sl assms(5) by (simp add: sourceHandleBlockSyncRequest_def Let_def)
qed

lemma sync_request_at_top:
  assumes "mem_ok p" "i + 1 = length (imb_blocks p)" "bsr_firstBlockHeight r = of_nat i + 1"
  shows "sourceHandleBlockSyncRequest numBlocksInBatch send w p r =
    (case GetBlockSlice p (of_nat i + 1) (bsr_lastBlockHeight r) of
       None \<Rightarrow> None
     | Some (Ok (blocks, firstAvailable, _)) \<Rightarrow> Some (sendChunks send firstAvailable (of_nat i + 1) blocks (length blocks))
     | Some (Err e) \<Rightarrow> Some (Err e)
     | Some Panic \<Rightarrow> Some Panic)"
proof -
  have n: "(of_nat (length (imb_blocks p)) :: 64 word) = of_nat i + 1" using assms(2) by (metis of_nat_1 of_nat_add)
  obtain ts where "GetLastCommittedBlockHeight (memPersistence w) p = Ok (of_nat i + 1, ts)"
    using mem.last_committed [OF mem_repr [OF assms(1)]] n by metis
  then show ?thesis using assms(3) by (simp add: sourceHandleBlockSyncRequest_def Let_def)
qed

text \<open>
  A peer that asks for blocks below the last committed one is served a batch from the height it asks for,
  whatever last height it asks for: the bound is compared with the wrapped difference of the wrong heights.
  At the last committed height itself the requested last height is not bounded at all, and a large one makes
  the node panic while it allocates the answer.
\<close>

lemma sync_request_bounds:
  assumes "mem_ok p" "length (imb_blocks p) < 2 ^ 62" "i < length (imb_blocks p)" "0 < numBlocksInBatch"
    and "bsr_firstBlockHeight r = of_nat i + 1"
  shows "(i + 1 < length (imb_blocks p) \<longrightarrow>
      sourceHandleBlockSyncRequest numBlocksInBatch send w p r =
        (let blocks = take (unat numBlocksInBatch) (drop i (imb_blocks p))
         in Some (sendChunks send (of_nat i + 1) (of_nat (length (imb_blocks p))) blocks (length blocks)))) \<and>
    (i + 1 = length (imb_blocks p) \<and> unat (bsr_lastBlockHeight r - bsr_firstBlockHeight r + 1) > 2 ^ 45 \<longrightarrow>
      sourceHandleBlockSyncRequest numBlocksInBatch send w p r = Some Panic)"
  using sync_request_below_top [OF assms(1,2) _ assms(4,5)] sync_request_at_top [OF assms(1) _ assms(5)] assms(5)
  by (simp add: GetBlockSlice_def maxSliceCap_def)

subsection \<open>Receipt proofs\<close>

lemma findReceipt_Some:
  "findReceipt txHash i rs = Some j \<Longrightarrow> i \<le> j \<and> j - i < length rs \<and> rcpt_txhash (rs ! (j - i)) = txHash"
proof (induction rs arbitrary: i)
  case (Cons r rs)
  then show ?case by (fastforce simp: nth_Cons' Suc_diff_le split: if_splits)
qed simp

lemma findReceipt_None: "findReceipt txHash i rs = None \<longleftrightarrow> txHash \<notin> rcpt_txhash ` set rs"
  by (induction rs arbitrary: i) auto

text \<open>
  C32. For every transaction of a stored block whose header commits to its receipts, as validated in
  consensus, the node gives a proof that the receipt is in the block: the proof verifies the hash of the
  receipt against the root in the header it gives along with it. A transaction that is not in the block is
  answered with an error.
\<close>

theorem GenerateReceiptProof_verifies:
  assumes "mem_ok p" "i < length (imb_blocks p)" "bp_resultsBlock (imb_blocks p ! i) = Some rb" "rbc_header rb = Some h"
    and "rbh_receiptsMerkleRootHash h = CalcReceiptsMerkleRoot sha w (rbc_transactionReceipts rb)"
    and "GetZeroValueHash sha \<notin> set (CalcReceiptHashes sha w (rbc_transactionReceipts rb))"
  shows "(txhash \<in> rcpt_txhash ` set (rbc_transactionReceipts rb) \<longrightarrow>
      (\<exists>r \<in> set (rbc_transactionReceipts rb). \<exists>pr. rcpt_txhash r = txhash \<and>
         GenerateReceiptProof sha w (memPersistence w) p (of_nat i + 1) txhash = Ok (h, rbc_blockProof rb, pr, FlattenOrderedTreeProof pr) \<and>
         OrderedTree_Verify sha (CalcReceiptHash sha w r) pr (rbh_receiptsMerkleRootHash h) = Ok ())) \<and>
    (txhash \<notin> rcpt_txhash ` set (rbc_transactionReceipts rb) \<longrightarrow>
      GenerateReceiptProof sha w (memPersistence w) p (of_nat i + 1) txhash = Err ErrTxNotInBlock)"
proof -
  let ?rs = "rbc_transactionReceipts rb"
  have get: "bpp_GetResultsBlock (memPersistence w) p (of_nat i + 1) = Ok (Some rb)" using mem.get_rs [OF mem_repr [OF assms(1)] assms(2)] assms(3) by simp
  show ?thesis
  proof (intro conjI impI)
    assume "txhash \<in> rcpt_txhash ` set ?rs"
    then obtain j where j: "findReceipt txhash 0 ?rs = Some j" using findReceipt_None by (metis not_Some_eq)
    then have len: "j < length ?rs" "rcpt_txhash (?rs ! j) = txhash" using findReceipt_Some by fastforce+
    let ?vs = "CalcReceiptHashes sha w ?rs"
    have vs: "?vs \<noteq> []" "j < length ?vs" "?vs ! j = CalcReceiptHash sha w (?rs ! j)" using len by (auto simp: CalcReceiptHashes_def)
    have root: "rbh_receiptsMerkleRootHash h = GetRoot (NewOrderedTree sha ?vs)"
      using assms(5) CalculateOrderedTreeRoot_eq [OF vs(1)] GetRoot_NewOrderedTree [OF vs(1) assms(6)]
      by (simp add: CalcReceiptsMerkleRoot_def CalcReceiptHashes_def)
    obtain pr where "OrderedTree_GetProof (NewOrderedTree sha ?vs) (int j) = Ok pr"
      "OrderedTree_Verify sha (?vs ! j) pr (GetRoot (NewOrderedTree sha ?vs)) = Ok ()"
      using OrderedTree_GetProof_index [OF assms(6) vs(2)] by blast
    then show "\<exists>r \<in> set ?rs. \<exists>pr. rcpt_txhash r = txhash \<and>
        GenerateReceiptProof sha w (memPersistence w) p (of_nat i + 1) txhash = Ok (h, rbc_blockProof rb, pr, FlattenOrderedTreeProof pr) \<and>
        OrderedTree_Verify sha (CalcReceiptHash sha w r) pr (rbh_receiptsMerkleRootHash h) = Ok ()"
      using len j vs(3) root assms(4)
      by (intro bexI [of _ "?rs ! j"] exI [of _ pr]) (simp_all add: GenerateReceiptProof_def get generateProof_def rx_header_def)
  next
    assume "txhash \<notin> rcpt_txhash ` set ?rs"
    then show "GenerateReceiptProof sha w (memPersistence w) p (of_nat i + 1) txhash = Err ErrTxNotInBlock"
      by (simp add: GenerateReceiptProof_def get findReceipt_None [THEN iffD2])
  qed
qed

definition demo_receipts :: "TransactionReceipt list" where
  "demo_receipts = map (\<lambda>n. \<lparr>rcpt_txhash = [n], rcpt_executionResult = EXECUTION_RESULT_SUCCESS, rcpt_outputArgumentArray = [], rcpt_outputEventsArray = []\<rparr>) [5, 6, 7]"

definition demo_rb :: ResultsBlockContainer where
  "demo_rb = (the (bp_resultsBlock (demo_block 1)))\<lparr>
     rbc_header := Some ((rsHeader (demo_block 1))\<lparr>rbh_receiptsMerkleRootHash := CalcReceiptsMerkleRoot demo_sha demo_wire demo_receipts\<rparr>),
     rbc_transactionReceipts := demo_receipts\<rparr>"

theorem GenerateReceiptProof_verifies_witness:
  "\<exists>r \<in> set demo_receipts. \<exists>pr h. rcpt_txhash r = [6] \<and>
     GenerateReceiptProof demo_sha demo_wire (memPersistence demo_wire)
       (NewBlockPersistence [(demo_block 1)\<lparr>bp_resultsBlock := Some demo_rb\<rparr>]) 1 [6] = Ok (h, [], pr, FlattenOrderedTreeProof pr) \<and>
     OrderedTree_Verify demo_sha (CalcReceiptHash demo_sha demo_wire r) pr (rbh_receiptsMerkleRootHash h) = Ok ()"
proof -
  let ?b = "(demo_block 1)\<lparr>bp_resultsBlock := Some demo_rb\<rparr>"
  let ?h = "(rsHeader (demo_block 1))\<lparr>rbh_receiptsMerkleRootHash := CalcReceiptsMerkleRoot demo_sha demo_wire demo_receipts\<rparr>"
  have "block_at ?b 1" by (simp add: block_at_def demo_block_def demo_rb_def rsHeader_def)
  then have ok: "mem_ok (NewBlockPersistence [?b])" by (intro mem_ok_new) (simp add: chain_at_def)
  have z: "GetZeroValueHash demo_sha \<notin> set (CalcReceiptHashes demo_sha demo_wire (rbc_transactionReceipts demo_rb))" by code_simp
  have rb: "rbc_header demo_rb = Some ?h" "rbc_transactionReceipts demo_rb = demo_receipts" "rbc_blockProof demo_rb = []"
    by (simp_all add: demo_rb_def demo_block_def)
  have "[6] \<in> rcpt_txhash ` set demo_receipts" by (simp add: demo_receipts_def)
  then show ?thesis
    using GenerateReceiptProof_verifies [OF ok _ _ rb(1) _ z, of 0 "[6]"] rb by (auto simp: NewBlockPersistence_def)
qed

end
