(* ===== verification/Transaction_Pool_Correct.thy ===== *)
theory Transaction_Pool_Correct
  imports Transaction_Pool
begin

text \<open>
  Correctness of the transaction pool: what is proposed for a block passes the validation of the other
  nodes, what is committed leaves the pending pool and is reported to its gateway, and a transaction
  that the committed pool forgets is too old to be ordered again.
\<close>

subsection \<open>Removal and the rest of the state\<close>

lemma service_remove_simps [simp]:
  "tps_committedPool (fst (service_remove w s h r)) = tps_committedPool s"
  "tps_validationContext (fst (service_remove w s h r)) = tps_validationContext s"
  "tps_blockTracker (fst (service_remove w s h r)) = tps_blockTracker s"
  "tps_nodeAddress (fst (service_remove w s h r)) = tps_nodeAddress s"
  "tps_handlers (fst (service_remove w s h r)) = tps_handlers s"
  "tps_lastHeight (fst (service_remove w s h r)) = tps_lastHeight s"
  "tps_lastTimestamp (fst (service_remove w s h r)) = tps_lastTimestamp s"
  "tps_pendingPool (fst (service_remove w s h r)) =
     fst (fst (pending_remove w (onTransactionError s) (tps_pendingPool s, tps_log s) h r))"
  "tps_log (fst (service_remove w s h r)) =
     snd (fst (pending_remove w (onTransactionError s) (tps_pendingPool s, tps_log s) h r))"
  "snd (service_remove w s h r) = snd (pending_remove w (onTransactionError s) (tps_pendingPool s, tps_log s) h r)"
  by (simp_all add: service_remove_def case_prod_beta Let_def)

lemma notifyRejections_simps [simp]:
  "tps_committedPool (notifyRejections w rs s) = tps_committedPool s"
  "tps_validationContext (notifyRejections w rs s) = tps_validationContext s"
  by (induction w rs s rule: notifyRejections.induct) simp_all

subsection \<open>Proposed transactions are valid\<close>

definition orderable :: "hasher \<Rightarrow> Wire \<Rightarrow> validationContext \<Rightarrow> committedTxPool \<Rightarrow> TimestampNano \<Rightarrow> SignedTransaction \<Rightarrow> bool" where
  "orderable sha w c committed ts tx \<longleftrightarrow>
     ValidateTransactionForOrdering c tx ts = None \<and> \<not> committed_has committed (stxHash sha w tx)"

lemma fold_filterOne:
  "tb_transactionsForPreOrder (fold (filterOne sha w c committed ts) txs r) =
     tb_transactionsForPreOrder r @ filter (orderable sha w c committed ts) txs"
  "tb_validTransactions (fold (filterOne sha w c committed ts) txs r) = tb_validTransactions r"
  by (induction txs arbitrary: r)
     (auto simp: filterOne_def orderable_def batch_reject_def queueForPreOrderValidation_def Let_def split: option.splits)

lemma fold_preOrderOne:
  "tb_validTransactions (fold (preOrderOne sha w) ps r) =
     tb_validTransactions r @ map fst (filter (\<lambda>p. snd p = STATUS_PRE_ORDER_VALID) ps)"
  by (induction ps arbitrary: r) (auto simp: preOrderOne_def batch_reject_def batch_accept_def)

definition pointwise :: "PreOrder \<Rightarrow> (SignedTransaction \<Rightarrow> BlockHeight \<Rightarrow> TimestampNano \<Rightarrow> TransactionStatus) \<Rightarrow> bool" where
  "pointwise preOrder status \<longleftrightarrow> (\<forall>txs h ts. preOrder txs h ts = (Some (map (\<lambda>tx. status tx h ts) txs), False))"

lemma filter_zip_map: "map fst (filter (\<lambda>p. snd p = v) (zip txs (map f txs))) = filter (\<lambda>tx. f tx = v) txs"
  by (induction txs) auto

lemma orderingBatch_eq:
  assumes "pointwise preOrder status" "orderingBatch sha w preOrder input s now = Ok (ts, b, failed)"
  shows "tb_validTransactions b =
    filter (\<lambda>tx. status tx (oi_currentBlockHeight input) ts = STATUS_PRE_ORDER_VALID)
      (filter (orderable sha w (tps_validationContext s) (tps_committedPool s) ts)
        (getBatch w (tps_pendingPool s) (oi_maxNumberOfTransactions input) (oi_maxTransactionsSetSizeKb input * 1024)))"
    "ts = proposeBlockTimestampWithCurrentTime now (oi_prevBlockTimestamp input)" "\<not> failed"
  using assms
  by (auto simp: orderingBatch_def runBatch_def runPreOrderValidations_def preOrderCheck_def pointwise_def Let_def
      filterInvalidTransactions_def fetchUsing_def newTransactionBatch_def fold_filterOne fold_preOrderOne filter_zip_map)

text \<open>What a batch that was proposed satisfies, in terms of the state it leaves.\<close>

definition proposal_ok ::
  "hasher \<Rightarrow> Wire \<Rightarrow> (SignedTransaction \<Rightarrow> BlockHeight \<Rightarrow> TimestampNano \<Rightarrow> TransactionStatus) \<Rightarrow> BlockHeight
     \<Rightarrow> validationContext \<Rightarrow> committedTxPool \<Rightarrow> TimestampNano \<Rightarrow> SignedTransaction list \<Rightarrow> bool" where
  "proposal_ok sha w status h c committed ts txs \<longleftrightarrow>
     (\<forall>tx \<in> set txs. orderable sha w c committed ts tx \<and> status tx h ts = STATUS_PRE_ORDER_VALID)"

lemma finishOrdering_ok:
  assumes "pointwise preOrder status" "orderingBatch sha w preOrder input s now = Ok b"
    and "finishOrdering w s b = (s', txs, ts, failed)"
  shows "proposal_ok sha w status (oi_currentBlockHeight input) (tps_validationContext s') (tps_committedPool s') ts txs \<and> \<not> failed"
proof -
  obtain batch where b: "b = (ts, batch, failed)" "txs = tb_validTransactions batch"
    and s': "s' = notifyRejections w (tb_transactionsToReject batch) s"
    using assms(3) by (cases b) (auto simp: finishOrdering_def)
  show ?thesis using orderingBatch_eq [OF assms(1) assms(2) [unfolded b(1)]] b(2) s'
    by (simp add: proposal_ok_def)
qed

lemma orderingLoop_ok:
  assumes "pointwise preOrder status"
    and "orderingLoop sha w preOrder input s b events = Some (Ok (s', txs, ts, failed))"
    and "orderingBatch sha w preOrder input s now = Ok b"
  shows "proposal_ok sha w status (oi_currentBlockHeight input) (tps_validationContext s') (tps_committedPool s') ts txs \<and> \<not> failed"
  using assms(2,3)
proof (induction events arbitrary: s b now)
  case Nil
  then have "finishOrdering w s b = (s', txs, ts, failed)" by (simp add: orderingLoop.simps split: if_splits)
  then show ?case using finishOrdering_ok [OF assms(1)] Nil.prems(2) by blast
next
  case (Cons e events)
  show ?case
  proof (cases "finishOrdering w s b = (s', txs, ts, failed)")
    case True
    then show ?thesis using finishOrdering_ok [OF assms(1)] Cons.prems(2) by blast
  next
    case False
    then obtain s1 now1 b1 where "orderingBatch sha w preOrder input s1 now1 = Ok b1"
      "orderingLoop sha w preOrder input s1 b1 events = Some (Ok (s', txs, ts, failed))"
      using Cons.prems(1) by (subst (asm) orderingLoop.simps) (auto split: if_splits order_event.splits result.splits)
    then show ?thesis using Cons.IH by blast
  qed
qed

lemma validateEach_ok:
  "\<forall>tx \<in> set txs. orderable sha w (tps_validationContext s) (tps_committedPool s) ts tx \<Longrightarrow> validateEach sha w s ts txs = None"
  by (induction txs) (auto simp: orderable_def Let_def)

subsection \<open>A service with two pending transactions\<close>

definition demo_config :: TxPoolConfig where
  "demo_config = \<lparr>tpc_nodeAddress = [9], tpc_virtualChainId = 42, tpc_expirationWindow = 3, tpc_nodeSyncRejectTime = 100,
     tpc_futureTimestampGraceTimeout = 10, tpc_pendingPoolSizeInBytes = 100, tpc_blockTrackerGraceDistance = 5\<rparr>"

definition demo_service :: TxPool where
  "demo_service = (NewTransactionPool demo_config)\<lparr>tps_pendingPool := demo_pool, tps_lastHeight := 1, tps_lastTimestamp := 4,
     tps_handlers := [1], tps_blockTracker := NewBlockTracker 1 5\<rparr>"

definition demo_preOrder :: PreOrder where
  "demo_preOrder txs h ts = (Some (map (\<lambda>_. STATUS_PRE_ORDER_VALID) txs), False)"

definition demo_input :: OrderingInput where
  "demo_input = \<lparr>oi_currentBlockHeight = 2, oi_prevBlockTimestamp = 4, oi_maxTransactionsSetSizeKb = 1, oi_maxNumberOfTransactions = 10\<rparr>"

text \<open>
  C22. The transactions one node proposes for a block, with the timestamp it proposes, pass the validation of
  every node that has the same validation settings, has committed no transaction that the proposer had not,
  and has reached the previous block, when the pre-order check judges each transaction by itself.
\<close>

theorem proposed_transactions_validate:
  assumes "pointwise preOrder status"
    and "GetTransactionsForOrdering sha w preOrder input s0 waits s now events = Some (Ok (s', txs, ts, failed))"
    and "tps_validationContext v = tps_validationContext s'"
    and "\<forall>h. committed_has (tps_committedPool v) h \<longrightarrow> committed_has (tps_committedPool s') h"
    and "WaitForBlock (tps_blockTracker v0) vwaits (oi_currentBlockHeight input - 1) = Some (Ok ())"
  shows "\<not> failed \<and>
    ValidateTransactionsForOrdering sha w preOrder v0 vwaits v (oi_currentBlockHeight input) ts txs = Some (Ok ())"
proof -
  have ok: "proposal_ok sha w status (oi_currentBlockHeight input) (tps_validationContext s') (tps_committedPool s') ts txs \<and> \<not> failed"
  proof (cases "oi_currentBlockHeight input = 1")
    case True
    then show ?thesis using assms(2) by (auto simp: GetTransactionsForOrdering_def proposal_ok_def)
  next
    case False
    then obtain b where "orderingBatch sha w preOrder input s now = Ok b"
      "orderingLoop sha w preOrder input s b events = Some (Ok (s', txs, ts, failed))"
      using assms(2) by (auto simp: GetTransactionsForOrdering_def split: option.splits result.splits)
    then show ?thesis using orderingLoop_ok [OF assms(1)] by blast
  qed
  then have "\<forall>tx \<in> set txs. orderable sha w (tps_validationContext v) (tps_committedPool v) ts tx"
    using assms(3,4) by (auto simp: proposal_ok_def orderable_def)
  moreover have "find (\<lambda>p. snd p \<noteq> STATUS_PRE_ORDER_VALID)
      (zip txs (map (\<lambda>tx. status tx (oi_currentBlockHeight input) ts) txs)) = None"
    using ok by (auto simp: find_None_iff proposal_ok_def set_zip)
  ultimately show ?thesis using ok assms(1,5)
    by (simp add: ValidateTransactionsForOrdering_def validateEach_ok pointwise_def)
qed

lemma demo_ordering:
  "case GetTransactionsForOrdering demo_sha small_wire demo_preOrder demo_input demo_service [] demo_service 7 [] of
     Some (Ok (s', txs, ts, failed)) \<Rightarrow> tps_validationContext s' = tps_validationContext demo_service \<and>
       tps_committedPool s' = tps_committedPool demo_service \<and> txs = [demo_stx 5 1, demo_stx 6 2] \<and> ts = 7
   | _ \<Rightarrow> False"
  by code_simp

theorem proposed_transactions_validate_witness:
  "ValidateTransactionsForOrdering demo_sha small_wire demo_preOrder demo_service [] demo_service 2 7 [demo_stx 5 1, demo_stx 6 2] = Some (Ok ())"
proof -
  obtain s' failed where g: "GetTransactionsForOrdering demo_sha small_wire demo_preOrder demo_input demo_service [] demo_service 7 [] =
      Some (Ok (s', [demo_stx 5 1, demo_stx 6 2], 7, failed))"
    and s': "tps_validationContext s' = tps_validationContext demo_service" "tps_committedPool s' = tps_committedPool demo_service"
    using demo_ordering by (auto split: option.splits result.splits)
  have p: "pointwise demo_preOrder (\<lambda>_ _ _. STATUS_PRE_ORDER_VALID)" by (simp add: pointwise_def demo_preOrder_def)
  have w: "WaitForBlock (tps_blockTracker demo_service) [] (oi_currentBlockHeight demo_input - 1) = Some (Ok ())" by code_simp
  show ?thesis using proposed_transactions_validate [OF p g _ _ w, of demo_service] s'
    by (simp add: demo_input_def)
qed

subsection \<open>Committing\<close>

abbreviation pendingMap :: "TxPool \<Rightarrow> Sha256 \<Rightarrow> pendingTransaction option" where
  "pendingMap s \<equiv> map_of (pp_transactionsByHash (tps_pendingPool s))"

definition commitStep :: "Wire \<Rightarrow> TxPool \<Rightarrow> committer \<Rightarrow> TransactionReceipt \<Rightarrow> TxPool" where
  "commitStep w s c receipt = fst (service_remove w
     (s\<lparr>tps_committedPool := committed_add w (tps_committedPool s) receipt (cm_blockHeight c) (cm_blockTime c)\<rparr>)
     (rcpt_txhash receipt) STATUS_COMMITTED)"

definition mine :: "TxPool \<Rightarrow> NodeAddress \<Rightarrow> TransactionReceipt \<Rightarrow> bool" where
  "mine s node receipt \<longleftrightarrow> map_option ptx_gatewayNodeAddress (pendingMap s (rcpt_txhash receipt)) = Some node"

lemma commit_Cons:
  "commit w s c (receipt # receipts) = commit w (commitStep w s c receipt)
     (if mine s (cm_nodeAddress c) receipt then c\<lparr>cm_myReceipts := cm_myReceipts c @ [receipt]\<rparr> else c) receipts"
  by (simp add: commitStep_def mine_def service_remove_def pending_remove_def amITheGatewayOf_def Let_def case_prod_beta
      split: option.splits)

lemma commitStep_simps [simp]:
  "tps_blockTracker (commitStep w s c r) = tps_blockTracker s"
  "tps_handlers (commitStep w s c r) = tps_handlers s"
  "tps_nodeAddress (commitStep w s c r) = tps_nodeAddress s"
  "tps_lastHeight (commitStep w s c r) = tps_lastHeight s"
  "tps_log (commitStep w s c r) = tps_log s"
  "pendingMap (commitStep w s c r) = (pendingMap s)(rcpt_txhash r := None)"
  "committed_get (tps_committedPool (commitStep w s c r)) =
     (committed_get (tps_committedPool s))(rcpt_txhash r \<mapsto>
        \<lparr>ctx_receipt = r, ctx_blockHeight = cm_blockHeight c, ctx_blockTimestamp = cm_blockTime c\<rparr>)"
  by (auto simp: commitStep_def pending_remove_def onTransactionError_def delete_conv' committed_get_def committed_add_def
      update_conv' Let_def fun_eq_iff split: option.splits)

lemma commitStep_ok: "pending_ok sha w (tps_pendingPool s) \<Longrightarrow> pending_ok sha w (tps_pendingPool (commitStep w s c r))"
  by (simp add: commitStep_def pending_remove_ok)

lemma commit_effect:
  assumes "commit w s c receipts = (s', c')" "distinct (map rcpt_txhash receipts)" "pending_ok sha w (tps_pendingPool s)"
  shows "pending_ok sha w (tps_pendingPool s') \<and>
    pendingMap s' = (\<lambda>h. if h \<in> rcpt_txhash ` set receipts then None else pendingMap s h) \<and>
    (\<forall>r \<in> set receipts. committed_get (tps_committedPool s') (rcpt_txhash r) =
       Some \<lparr>ctx_receipt = r, ctx_blockHeight = cm_blockHeight c, ctx_blockTimestamp = cm_blockTime c\<rparr>) \<and>
    (\<forall>h. h \<notin> rcpt_txhash ` set receipts \<longrightarrow> committed_get (tps_committedPool s') h = committed_get (tps_committedPool s) h) \<and>
    c' = c\<lparr>cm_myReceipts := cm_myReceipts c @ filter (mine s (cm_nodeAddress c)) receipts\<rparr> \<and>
    tps_log s' = tps_log s \<and> tps_blockTracker s' = tps_blockTracker s \<and> tps_handlers s' = tps_handlers s \<and>
    tps_lastHeight s' = tps_lastHeight s"
  using assms
proof (induction receipts arbitrary: s c)
  case (Cons r rs)
  let ?s = "commitStep w s c r"
  let ?c = "if mine s (cm_nodeAddress c) r then c\<lparr>cm_myReceipts := cm_myReceipts c @ [r]\<rparr> else c"
  have d: "rcpt_txhash r \<notin> rcpt_txhash ` set rs" using Cons.prems(2) by simp
  have "filter (mine ?s (cm_nodeAddress c)) rs = filter (mine s (cm_nodeAddress c)) rs"
    using d by (intro filter_cong) (auto simp: mine_def image_iff)
  moreover note Cons.IH [of ?s ?c, OF _ _ commitStep_ok [OF Cons.prems(3)]]
  ultimately show ?case using Cons.prems(1,2) d unfolding commit_Cons
    by (auto simp: fun_eq_iff)
qed auto

text \<open>
  C23. Committing the receipts of the next block succeeds. Each receipt can then be queried with the block's
  height and time, its transaction is no longer pending, all other pending and committed transactions are as
  before, and the handlers are notified, once, of exactly the receipts whose pending transaction had entered
  through this node.
\<close>

theorem CommitTransactionReceipts_commits:
  assumes "pending_ok sha w (tps_pendingPool s)" "distinct (map rcpt_txhash receipts)"
    and "bt_currentHeight (tps_blockTracker s) = tps_lastHeight s" "rbh_blockHeight header = tps_lastHeight s + 1"
  shows "\<exists>s'. CommitTransactionReceipts w s (tps_lastHeight s + 1) header receipts = Ok (s', tps_lastHeight s + 2, tps_lastHeight s + 1) \<and>
    pending_ok sha w (tps_pendingPool s') \<and> bt_currentHeight (tps_blockTracker s') = tps_lastHeight s' \<and>
    (\<forall>r \<in> set receipts. GetCommittedTransactionReceipt s' (rcpt_txhash r) =
       \<lparr>out_transactionReceipt = Some r, out_transactionStatus = STATUS_COMMITTED,
        out_blockHeight = rbh_blockHeight header, out_blockTimestamp = rbh_timestamp header\<rparr>) \<and>
    (\<forall>h. h \<notin> rcpt_txhash ` set receipts \<longrightarrow>
       pending_get (tps_pendingPool s') h = pending_get (tps_pendingPool s) h \<and>
       committed_get (tps_committedPool s') h = committed_get (tps_committedPool s) h) \<and>
    tps_log s' = tps_log s @ [ReportHeight (rbh_blockHeight header)] @
      (let own = filter (\<lambda>r. \<exists>ptx. pendingMap s (rcpt_txhash r) = Some ptx \<and> ptx_gatewayNodeAddress ptx = tps_nodeAddress s) receipts
       in if own = [] then [] else map (\<lambda>handler. HandleTransactionResults handler (rbh_blockHeight header) (rbh_timestamp header) own) (tps_handlers s))"
proof -
  define s1 where "s1 = s\<lparr>tps_lastHeight := rbh_blockHeight header, tps_lastTimestamp := rbh_timestamp header\<rparr>"
  define c where "c = \<lparr>cm_nodeAddress = tps_nodeAddress s, cm_blockHeight = rbh_blockHeight header,
    cm_blockTime = rbh_timestamp header, cm_myReceipts = []\<rparr>"
  obtain s2 c2 where 2: "commit w s1 c receipts = (s2, c2)" by fastforce
  have s1 [simp]: "tps_pendingPool s1 = tps_pendingPool s" "tps_committedPool s1 = tps_committedPool s" "tps_log s1 = tps_log s"
    "tps_blockTracker s1 = tps_blockTracker s" "tps_handlers s1 = tps_handlers s" "tps_lastHeight s1 = rbh_blockHeight header"
    by (simp_all add: s1_def)
  have c [simp]: "cm_nodeAddress c = tps_nodeAddress s" "cm_blockHeight c = rbh_blockHeight header"
    "cm_blockTime c = rbh_timestamp header" "cm_myReceipts c = []" by (simp_all add: c_def)
  have "pending_ok sha w (tps_pendingPool s1)" using assms(1) by simp
  note E = commit_effect [OF 2 assms(2) this]
  define own where "own = filter (\<lambda>r. \<exists>ptx. pendingMap s (rcpt_txhash r) = Some ptx \<and> ptx_gatewayNodeAddress ptx = tps_nodeAddress s) receipts"
  have c2: "c2 = c\<lparr>cm_myReceipts := own\<rparr>"
    using E by (auto simp: own_def mine_def intro!: arg_cong [where f = "\<lambda>x. c\<lparr>cm_myReceipts := x\<rparr>"] filter_cong)
  let ?t = "(tps_blockTracker s)\<lparr>bt_currentHeight := bt_currentHeight (tps_blockTracker s) + 1, bt_latch := Suc (bt_latch (tps_blockTracker s)),
      bt_closed := bt_latch (tps_blockTracker s) # bt_closed (tps_blockTracker s)\<rparr>"
  let ?s = "s2\<lparr>tps_blockTracker := ?t, tps_log := tps_log s2 @ [ReportHeight (rbh_blockHeight header)] @ committer_notify c2 (tps_handlers s2)\<rparr>"
  have inc: "IncrementTo (tps_blockTracker s2) (rbh_blockHeight header) = Ok ?t"
    using E assms(3,4) by (simp add: IncrementTo_def)
  have "CommitTransactionReceipts w s (tps_lastHeight s + 1) header receipts = Ok (?s, tps_lastHeight s + 2, tps_lastHeight s + 1)"
    using 2 inc assms(4)
    by (simp add: CommitTransactionReceipts_def updateBlockHeightAndTimestamp_def s1_def c_def Let_def add.commute)
  moreover have "tps_log ?s = tps_log s @ [ReportHeight (rbh_blockHeight header)] @
      (if own = [] then [] else map (\<lambda>handler. HandleTransactionResults handler (rbh_blockHeight header) (rbh_timestamp header) own) (tps_handlers s))"
  proof -
    have "tps_log s2 = tps_log s" "tps_handlers s2 = tps_handlers s" using E by simp_all
    then show ?thesis by (simp add: c2 committer_notify_def)
  qed
  moreover have "GetCommittedTransactionReceipt ?s (rcpt_txhash r) = \<lparr>out_transactionReceipt = Some r, out_transactionStatus = STATUS_COMMITTED,
        out_blockHeight = rbh_blockHeight header, out_blockTimestamp = rbh_timestamp header\<rparr>" if "r \<in> set receipts" for r
    using E that by (simp add: GetCommittedTransactionReceipt_def pending_get_def)
  moreover have "pending_get (tps_pendingPool ?s) h = pending_get (tps_pendingPool s) h \<and>
       committed_get (tps_committedPool ?s) h = committed_get (tps_committedPool s) h" if "h \<notin> rcpt_txhash ` set receipts" for h
    using E that by (simp add: pending_get_def)
  moreover have "pending_ok sha w (tps_pendingPool ?s) \<and> bt_currentHeight (tps_blockTracker ?s) = tps_lastHeight ?s"
    using E assms(3,4) by simp
  ultimately show ?thesis unfolding own_def Let_def by blast
qed

definition demo_receipt :: TransactionReceipt where
  "demo_receipt = \<lparr>rcpt_txhash = stxHash demo_sha small_wire (demo_stx 5 1), rcpt_executionResult = EXECUTION_RESULT_SUCCESS,
     rcpt_outputArgumentArray = [], rcpt_outputEventsArray = []\<rparr>"

definition demo_results_header :: ResultsBlockHeader where
  "demo_results_header = \<lparr>rbh_protocolVersion = 1, rbh_virtualChainId = 42, rbh_blockHeight = 2, rbh_prevBlockHashPtr = [], rbh_timestamp = 7,
     rbh_receiptsMerkleRootHash = [], rbh_stateDiffHash = [], rbh_transactionsBlockHashPtr = [],
     rbh_preExecutionStateMerkleRootHash = [], rbh_numTransactionReceipts = 1, rbh_numContractStateDiffs = 0, rbh_blockProposerAddress = [9]\<rparr>"

theorem CommitTransactionReceipts_commits_witness:
  "\<exists>s'. CommitTransactionReceipts small_wire demo_service 2 demo_results_header [demo_receipt] = Ok (s', 3, 2) \<and>
     out_transactionReceipt (GetCommittedTransactionReceipt s' (rcpt_txhash demo_receipt)) = Some demo_receipt"
proof -
  have "pending_ok demo_sha small_wire (tps_pendingPool demo_service)" using demo_pool_ok by (simp add: demo_service_def)
  note C = CommitTransactionReceipts_commits [OF this, of "[demo_receipt]" demo_results_header]
  have "tps_lastHeight demo_service = 1" "bt_currentHeight (tps_blockTracker demo_service) = 1" "rbh_blockHeight demo_results_header = 2"
    by (simp_all add: demo_service_def demo_results_header_def NewBlockTracker_def)
  then show ?thesis using C by auto
qed

subsection \<open>Forgetting\<close>

definition committed_ok :: "committedTxPool \<Rightarrow> bool" where
  "committed_ok p \<longleftrightarrow> (\<forall>h tx. committed_get p h = Some tx \<longrightarrow> rcpt_txhash (ctx_receipt tx) = h)"

lemma committedClearLoop_forgets:
  assumes "\<forall>(k, tx) \<in> set es. rcpt_txhash (ctx_receipt tx) = k"
    and "committed_get p h \<noteq> None" "committed_get (committedClearLoop w ts es p) h = None"
  shows "\<exists>tx. (h, tx) \<in> set es \<and> ctx_blockTimestamp tx + cp_futureTimestampGrace p < ts"
  using assms
proof (induction w ts es p rule: committedClearLoop.induct)
  case (2 w ts k tx rest p)
  let ?old = "map_of (cp_transactions p) k \<noteq> None \<and> ctx_blockTimestamp tx + cp_futureTimestampGrace p < ts"
  show ?case
  proof (cases "?old \<and> k = h")
    case False
    then have "committed_get (if ?old then p\<lparr>cp_transactions := AList.delete (rcpt_txhash (ctx_receipt tx)) (cp_transactions p),
               cp_transactionCount := cp_transactionCount p - 1,
               cp_poolSizeInBytes := cp_poolSizeInBytes p - ucast (sizeOfCommittedTransaction w tx)\<rparr> else p) h \<noteq> None"
      using 2(2,3) by (auto simp: committed_get_def delete_conv')
    then show ?thesis using 2(1) 2(2,4) by (auto split: if_splits)
  qed auto
qed simp

lemma ordering_None:
  "ValidateTransactionForOrdering c tx ts = None \<longleftrightarrow>
     validateProtocolVersion tx = None \<and> validateSignatureType tx = None \<and> validateTransactionVirtualChainId c tx = None \<and>
     validateTransactionNotExpired c tx ts = None \<and> validateTransactionNotInFuture c tx ts = None"
  by (cases "validateProtocolVersion tx"; cases "validateSignatureType tx"; cases "validateTransactionVirtualChainId c tx";
      cases "validateTransactionNotExpired c tx ts"; cases "validateTransactionNotInFuture c tx ts")
     (simp_all add: ValidateTransactionForOrdering_def)

text \<open>
  C24. No replay after cleaning: when a tick of the cleaning process drops a committed transaction, that
  transaction is refused for ordering in every block that is not older than the last committed one,
  provided it was valid in the block that committed it and the expiration window fits before the last
  block's time.
\<close>

theorem forgotten_transactions_are_expired:
  assumes "distinct (map fst (cp_transactions (tps_committedPool s)))" "committed_ok (tps_committedPool s)"
    and "committed_get (tps_committedPool s) (stxHash sha w tx) = Some ctx"
    and "committed_get (tps_committedPool (cleanCommittedPool w s)) (stxHash sha w tx) = None"
    and "ValidateTransactionForOrdering (tps_validationContext s) tx (ctx_blockTimestamp ctx) = None"
    and "cp_futureTimestampGrace (tps_committedPool s) = vc_futureTimestampGrace (tps_validationContext s)"
    and "tps_expirationWindow s = vc_expiryWindow (tps_validationContext s)"
    and "tps_expirationWindow s \<le> tps_lastTimestamp s" "tps_lastTimestamp s \<le> proposed"
  shows "ValidateTransactionForOrdering (tps_validationContext s) tx proposed \<noteq> None"
proof -
  let ?c = "tps_validationContext s" and ?es = "cp_transactions (tps_committedPool s)"
  have keys: "\<forall>(k, tx) \<in> set ?es. rcpt_txhash (ctx_receipt tx) = k"
    using assms(1,2) by (auto simp: committed_ok_def committed_get_def)
  obtain ctx' where "(stxHash sha w tx, ctx') \<in> set ?es"
    and old: "ctx_blockTimestamp ctx' + vc_futureTimestampGrace ?c < tps_lastTimestamp s - vc_expiryWindow ?c"
    using committedClearLoop_forgets [OF keys, of "tps_committedPool s" "stxHash sha w tx" w] assms(3,4,6,7)
    by (auto simp: cleanCommittedPool_def committed_clearTransactionsOlderThan_def)
  then have "ctx' = ctx" using assms(1,3) by (simp add: committed_get_def)
  have "tx_timestamp (stx_transaction tx) \<le> ctx_blockTimestamp ctx + vc_futureTimestampGrace ?c"
    using assms(5) by (simp add: ordering_None validateTransactionNotInFuture_def Let_def not_less split: if_splits)
  also have "\<dots> < tps_lastTimestamp s - vc_expiryWindow ?c" using old \<open>ctx' = ctx\<close> by simp
  also have "\<dots> \<le> proposed - vc_expiryWindow ?c"
    using assms(7-9) by (simp add: word_le_nat_alt unat_sub)
  finally show ?thesis by (simp add: ordering_None validateTransactionNotExpired_def)
qed

text \<open>The service after block 2, which committed a transaction at time 7, and block 3 at time 40.\<close>

definition demo_late :: TxPool where
  "demo_late = demo_service\<lparr>tps_lastHeight := 3, tps_lastTimestamp := 40,
     tps_committedPool := committed_add small_wire (NewCommittedPool 10) demo_receipt 2 7\<rparr>"

theorem forgotten_transactions_are_expired_witness:
  "ValidateTransactionForOrdering (tps_validationContext demo_late) (demo_stx 5 1) 41 \<noteq> None"
proof (rule forgotten_transactions_are_expired [where s = demo_late and sha = demo_sha and w = small_wire
      and ctx = "\<lparr>ctx_receipt = demo_receipt, ctx_blockHeight = 2, ctx_blockTimestamp = 7\<rparr>"])
  show "committed_ok (tps_committedPool demo_late)"
    by (simp add: committed_ok_def committed_get_def demo_late_def committed_add_def NewCommittedPool_def Let_def)
qed (code_simp)+

end
