(* ===== verification/Service_Sync.thy ===== *)
theory Service_Sync
  imports Block_Storage_Correct State_Storage_Correct Transaction_Pool_Correct
begin

text \<open>
  Service sync, \<open>services/blockstorage/servicesync\<close>: a service that follows the chain is given the blocks
  block storage holds, in order. The locale \<open>block_committer\<close> is what the loop relies on; the state storage
  and the transaction pool both satisfy it, which connects them to block storage.
\<close>

datatype syncErr = SyncSource storageErr | SyncWait trackerError

type_synonym 's commitBlockPair = "'s \<Rightarrow> BlockPairContainer \<Rightarrow> (syncErr, 's \<times> BlockHeight) result"

text \<open>An error of the committing service ends in a panic, by reading the nil output or in \<open>syncOneBlock\<close>.\<close>

definition syncOneBlock :: "'s commitBlockPair \<Rightarrow> 's \<Rightarrow> BlockPairContainer \<Rightarrow> (syncErr, 's \<times> BlockHeight) result" where
  "syncOneBlock commitBlockPair s block =
     bind_result (bp_rs block) (\<lambda>_. case commitBlockPair s block of Ok r \<Rightarrow> Ok r | _ \<Rightarrow> Panic)"

text \<open>
  The state of the cursor is the service with the committed height; \<open>None\<close> as a whole means that the scan does
  not end.
\<close>

definition syncCursor :: "'s commitBlockPair \<Rightarrow> (syncErr, 's \<times> BlockHeight) result CursorFunc" where
  "syncCursor commitBlockPair h page c =
     (case bind_result c (\<lambda>(s, _). syncOneBlock commitBlockPair s (page ! 0)) of
        Ok (s', requestedHeight) \<Rightarrow> (Ok (s', h), requestedHeight = h + 1)
      | Err e \<Rightarrow> (Err e, False)
      | Panic \<Rightarrow> (Panic, False))"

definition syncToTopBlock ::
  "'s commitBlockPair \<Rightarrow> InMemoryBlockPersistence \<Rightarrow> 's \<Rightarrow> (syncErr, 's \<times> BlockHeight) result option" where
  "syncToTopBlock commitBlockPair source s =
     (case mem_GetLastBlock source of
        Ok (Some topBlock) \<Rightarrow>
          (case syncOneBlock commitBlockPair s topBlock of
             Ok (s, requestedHeight) \<Rightarrow>
               (case bp_tx topBlock of
                  Ok (_, th) \<Rightarrow>
                    if tbh_blockHeight th < requestedHeight then Some (Ok (s, requestedHeight - 1))
                    else (case mem_ScanBlocks source requestedHeight 1 (syncCursor commitBlockPair) (Ok (s, requestedHeight - 1)) of
                            None \<Rightarrow> None
                          | Some (Ok r) \<Rightarrow> Some r
                          | Some (Err e) \<Rightarrow> Some (Err (SyncSource e))
                          | Some Panic \<Rightarrow> Some Panic)
                | Err e \<Rightarrow> Some (Err e)
                | Panic \<Rightarrow> Some Panic)
           | Err e \<Rightarrow> Some (Err e)
           | Panic \<Rightarrow> Some Panic)
      | Ok None \<Rightarrow> Some Panic
      | Err e \<Rightarrow> Some (Err (SyncSource e))
      | Panic \<Rightarrow> Some Panic)"

text \<open>
  The loop of \<open>NewServiceBlockSync\<close>. Each round has the store when it starts to wait, the events of the wait,
  and the store it then reads; the loop ends with an error, or goes on for as long as there are rounds.
\<close>

fun serviceBlockSync ::
  "'s commitBlockPair \<Rightarrow> (InMemoryBlockPersistence \<times> wait_event list \<times> InMemoryBlockPersistence) list \<Rightarrow>
     's \<Rightarrow> BlockHeight \<Rightarrow> (syncErr, 's \<times> BlockHeight) result option" where
  "serviceBlockSync commitBlockPair [] s height = Some (Ok (s, height))"
| "serviceBlockSync commitBlockPair ((p0, es, p) # rounds) s height =
     (case WaitForBlock (imb_tracker p0) es (height + 1) of
        None \<Rightarrow> None
      | Some (Err e) \<Rightarrow> Some (Err (SyncWait e))
      | Some Panic \<Rightarrow> Some Panic
      | Some (Ok _) \<Rightarrow>
          (case syncToTopBlock commitBlockPair p s of
             Some (Ok (s', height')) \<Rightarrow> serviceBlockSync commitBlockPair rounds s' height'
           | r \<Rightarrow> r))"

subsection \<open>The two committers\<close>

text \<open>The blocks that reach the committers have a list of state diffs, possibly empty, and never nil.\<close>

definition stateStorage_commitBlockPair :: "hasher \<Rightarrow> 'p StatePersistence \<Rightarrow> 'p StateStorage commitBlockPair" where
  "stateStorage_commitBlockPair sha ps s block =
     (case bp_resultsBlock block of
        None \<Rightarrow> Panic
      | Some rb \<Rightarrow>
          (case CommitStateDiff sha ps s \<lparr>csdi_resultsBlockHeader = rbc_header rb,
                  csdi_contractStateDiffs = Some (rbc_contractStateDiffs rb)\<rparr> of
             (s', Ok next) \<Rightarrow> Ok (s', next)
           | _ \<Rightarrow> Panic))"

definition transactionPool_commitBlockPair :: "Wire \<Rightarrow> TxPool commitBlockPair" where
  "transactionPool_commitBlockPair w s block =
     bind_result (bp_rs block) (\<lambda>(rb, rh).
       case CommitTransactionReceipts w s (rbh_blockHeight rh) rh (rbc_transactionReceipts rb) of
         Ok (s', next, _) \<Rightarrow> Ok (s', next)
       | _ \<Rightarrow> Panic)"

subsection \<open>The contract\<close>

text \<open>\<open>inv s bs\<close>: the service has committed the blocks \<open>bs\<close>.\<close>

locale block_committer =
  fixes commitPair :: "'s commitBlockPair" and inv :: "'s \<Rightarrow> BlockPairContainer list \<Rightarrow> bool"
  assumes commit_next: "inv s bs \<Longrightarrow> block_at b (of_nat (length bs) + 1) \<Longrightarrow>
      \<exists>s'. commitPair s b = Ok (s', of_nat (length bs) + 2) \<and> inv s' (bs @ [b])"
    and commit_other: "inv s bs \<Longrightarrow> block_at b h \<Longrightarrow> h \<noteq> of_nat (length bs) + 1 \<Longrightarrow>
      commitPair s b = Ok (s, of_nat (length bs) + 1)"
begin

lemma sync_next:
  assumes "inv s bs" "block_at b (of_nat (length bs) + 1)"
  shows "\<exists>s'. syncOneBlock commitPair s b = Ok (s', of_nat (length bs) + 2) \<and> inv s' (bs @ [b])"
proof -
  obtain s' where s': "commitPair s b = Ok (s', of_nat (length bs) + 2)" "inv s' (bs @ [b])" using commit_next [OF assms] by blast
  then have "syncOneBlock commitPair s b = Ok (s', of_nat (length bs) + 2)"
    by (simp add: syncOneBlock_def block_at_simps(2) [OF assms(2)])
  with s'(2) show ?thesis by blast
qed

lemma sync_other:
  assumes "inv s bs" "block_at b h" "h \<noteq> of_nat (length bs) + 1"
  shows "syncOneBlock commitPair s b = Ok (s, of_nat (length bs) + 1)"
  using commit_other [OF assms] by (simp add: syncOneBlock_def block_at_simps(2) [OF assms(2)])

lemma syncCursor_single:
  "syncOneBlock commitPair s b = Ok (s', r) \<Longrightarrow> syncCursor commitPair h [b] (Ok (s, h')) = (Ok (s', h), r = h + 1)"
  by (simp add: syncCursor_def)

lemma scan_commits:
  assumes "inv s bs" "\<And>j. j < length cs \<Longrightarrow> block_at (cs ! j) (of_nat (length bs + j) + 1)"
  shows "\<exists>s'. scanSingles (syncCursor commitPair) (of_nat (length bs) + 1) cs (Ok (s, of_nat (length bs))) =
    Ok (s', of_nat (length bs + length cs)) \<and> inv s' (bs @ cs)"
  using assms
proof (induction cs arbitrary: s bs)
  case (Cons c cs)
  have "block_at c (of_nat (length bs) + 1)" using Cons.prems(2) [of 0] by simp
  then obtain s1 where s1: "syncOneBlock commitPair s c = Ok (s1, of_nat (length bs) + 2)" "inv s1 (bs @ [c])"
    using sync_next Cons.prems(1) by blast
  have at: "block_at (cs ! j) (of_nat (length (bs @ [c]) + j) + 1)" if "j < length cs" for j
    using Cons.prems(2) [of "Suc j"] that by simp
  obtain s' where "scanSingles (syncCursor commitPair) (of_nat (length (bs @ [c])) + 1) cs (Ok (s1, of_nat (length (bs @ [c])))) =
      Ok (s', of_nat (length (bs @ [c]) + length cs))" "inv s' ((bs @ [c]) @ cs)"
    using Cons.IH [OF s1(2) at] by blast
  then show ?case using syncCursor_single [OF s1(1)] by (simp add: add.commute add.left_commute)
qed simp

lemma sync_to_top:
  assumes "mem_ok p" "imb_blocks p \<noteq> []" "inv s bs" "bs = take k (imb_blocks p)" "k \<le> length (imb_blocks p)"
  shows "\<exists>s'. syncToTopBlock commitPair p s = Some (Ok (s', of_nat (length (imb_blocks p)))) \<and> inv s' (imb_blocks p)"
proof -
  let ?n = "length (imb_blocks p)"
  define top where "top = imb_blocks p ! (?n - 1)"
  have at: "block_at (imb_blocks p ! i) (of_nat i + 1)" if "i < ?n" for i
    using assms(1) that by (auto simp: mem_ok_def chain_at_def)
  have n: "0 < ?n" "?n < 2 ^ 63" using assms(1,2) by (auto simp: mem_ok_def chain_at_def)
  have last: "mem_GetLastBlock p = Ok (Some top)" using assms(2) by (simp add: mem_GetLastBlock_def top_def)
  have top: "block_at top (of_nat ?n)" using at [of "?n - 1"] n by (simp add: of_nat_diff top_def)
  note top' = block_at_simps(1-4) [OF top]
  have len: "length bs = k" using assms(4,5) by simp
  consider "k = ?n" | "k + 1 = ?n" | "k + 1 < ?n" using assms(5) by linarith
  then show ?thesis
  proof cases
    case 1
    have "(of_nat ?n :: 64 word) < of_nat (?n + 1)" using height_less [of ?n "?n + 1"] n by simp
    then have "(of_nat ?n :: 64 word) < of_nat ?n + 1" by (simp add: add.commute)
    moreover have "syncOneBlock commitPair s top = Ok (s, of_nat ?n + 1)" using sync_other [OF assms(3) top] 1 len by simp
    ultimately show ?thesis using last 1 assms(3,4) by (simp add: syncToTopBlock_def top')
  next
    case 2
    then have k2: "(of_nat k + 2 :: 64 word) = of_nat (?n + 1)" by (metis (no_types, lifting) add.assoc of_nat_add of_nat_numeral one_add_one)
    have "(of_nat ?n :: 64 word) < of_nat k + 2" unfolding k2 using height_less [of ?n "?n + 1"] n by simp
    moreover have "(of_nat k + 2 - 1 :: 64 word) = of_nat ?n" unfolding k2 by simp
    moreover obtain s' where "syncOneBlock commitPair s top = Ok (s', of_nat k + 2)" "inv s' (bs @ [top])"
      using sync_next [OF assms(3), of top] top 2 len by (metis of_nat_1 of_nat_add)
    moreover have "?n - 1 = k" using 2 by simp
    then have "bs @ [top] = imb_blocks p" using 2 take_Suc_conv_app_nth [of k "imb_blocks p"] assms(4) by (simp add: top_def)
    ultimately show ?thesis using last by (simp add: syncToTopBlock_def top')
  next
    case 3
    have "(of_nat ?n :: 64 word) \<noteq> of_nat (k + 1)" using height_eq [of ?n "k + 1"] n 3 by simp
    then have "syncOneBlock commitPair s top = Ok (s, of_nat k + 1)" using sync_other [OF assms(3) top] len by (simp add: add.commute)
    moreover have le: "\<not> (of_nat ?n :: 64 word) < of_nat k + 1" using height_less [of ?n "k + 1"] n 3 by (simp add: add.commute)
    moreover have "(of_nat k + 1 :: 64 word) \<noteq> 0" using height_eq [of "k + 1" 0] n 3 by (simp add: add.commute)
    moreover have "block_at (drop k (imb_blocks p) ! j) (of_nat (length bs + j) + 1)" if "j < length (drop k (imb_blocks p))" for j
      using at [of "k + j"] that len by simp
    then obtain s' where "scanSingles (syncCursor commitPair) (of_nat k + 1) (drop k (imb_blocks p)) (Ok (s, of_nat k)) =
        Ok (s', of_nat ?n)" "inv s' (bs @ drop k (imb_blocks p))"
      using scan_commits [OF assms(3), of "drop k (imb_blocks p)"] len assms(5) by auto
    ultimately show ?thesis using last assms(4)
      by (simp add: syncToTopBlock_def top' mem_ScanBlocks_def scanLoop_singles [OF n(2) assms(5)])
  qed
qed

end

subsection \<open>State storage follows the chain\<close>

definition block_diffs :: "BlockPairContainer \<Rightarrow> ChainState" where
  "block_diffs b = inflateChainState (rbc_contractStateDiffs (the (bp_resultsBlock b)))"

interpretation state: block_committer "stateStorage_commitBlockPair sha inMemory"
  "\<lambda>s bs. committed sha snapshotNum grace s (map block_diffs bs)" for sha snapshotNum grace
proof
  fix s bs b h
  let ?input = "\<lparr>csdi_resultsBlockHeader = Some (rsHeader b), csdi_contractStateDiffs = Some (rbc_contractStateDiffs (the (bp_resultsBlock b)))\<rparr>"
  assume c: "committed sha snapshotNum grace s (map block_diffs bs)"
  note inv = committed_inv [OF c]
  have ht: "currentHeight (ss_revisions s) = of_nat (length bs)" using service_inv_height [OF inv] by simp
  have unf: "stateStorage_commitBlockPair sha inMemory s b =
      (case CommitStateDiff sha inMemory s ?input of (s', Ok next) \<Rightarrow> Ok (s', next) | _ \<Rightarrow> Panic)" if "block_at b h" for h
    using that by (auto simp: block_at_def stateStorage_commitBlockPair_def rsHeader_def)
  {
    assume b: "block_at b (of_nat (length bs) + 1)"
    note hb = block_at_simps(4) [OF b]
    obtain s' where s': "CommitStateDiff sha inMemory s ?input = (s', Ok (of_nat (length bs) + 2))"
      using CommitStateDiff_next [OF inv, of "rsHeader b" "rbc_contractStateDiffs (the (bp_resultsBlock b))"] hb ht
      by (auto simp: add.assoc)
    then have "committed sha snapshotNum grace s' (map block_diffs (bs @ [b]))"
      using committed.commit [OF c _ s'] hb ht by (simp add: block_diffs_def)
    then show "\<exists>s'. stateStorage_commitBlockPair sha inMemory s b = Ok (s', of_nat (length bs) + 2) \<and>
        committed sha snapshotNum grace s' (map block_diffs (bs @ [b]))" using s' unf [OF b] by auto
  next
    assume b: "block_at b h" and h: "h \<noteq> of_nat (length bs) + 1"
    have "CommitStateDiff sha inMemory s ?input = (s, Ok (of_nat (length bs) + 1))"
      using block_at_simps(4) [OF b] h ht by (auto simp: CommitStateDiff_def Let_def)
    then show "stateStorage_commitBlockPair sha inMemory s b = Ok (s, of_nat (length bs) + 1)" using unf [OF b] by simp
  }
qed

subsection \<open>The transaction pool follows the chain\<close>

definition block_receipts :: "BlockPairContainer \<Rightarrow> TransactionReceipt list" where
  "block_receipts b = rbc_transactionReceipts (the (bp_resultsBlock b))"

text \<open>The pool has followed the chain since it had \<open>k\<close> blocks, and knows the transactions of the later ones.\<close>

definition pool_follows :: "nat \<Rightarrow> TxPool \<Rightarrow> BlockPairContainer list \<Rightarrow> bool" where
  "pool_follows k s bs \<longleftrightarrow> k \<le> length bs \<and> tps_lastHeight s = of_nat (length bs) \<and>
     bt_currentHeight (tps_blockTracker s) = of_nat (length bs) \<and>
     (\<forall>b \<in> set (drop k bs). \<forall>r \<in> set (block_receipts b).
        committed_has (tps_committedPool s) (rcpt_txhash r) \<and> pendingMap s (rcpt_txhash r) = None)"

lemma commit_keeps:
  assumes "commit w s c receipts = (s', c')"
  shows "tps_blockTracker s' = tps_blockTracker s \<and> tps_lastHeight s' = tps_lastHeight s \<and>
    (\<forall>h. committed_has (tps_committedPool s') h \<longleftrightarrow> committed_has (tps_committedPool s) h \<or> h \<in> rcpt_txhash ` set receipts) \<and>
    (\<forall>h. pendingMap s' h = (if h \<in> rcpt_txhash ` set receipts then None else pendingMap s h))"
  using assms
proof (induction receipts arbitrary: s c)
  case (Cons r rs)
  have has: "committed_has (tps_committedPool (commitStep w s c r)) h \<longleftrightarrow> committed_has (tps_committedPool s) h \<or> h = rcpt_txhash r" for h
    by (simp add: commitStep_def committed_has_def committed_add_def update_conv' service_remove_def pending_remove_def
        onTransactionError_def Let_def split: option.splits)
  show ?case using Cons.IH Cons.prems unfolding commit_Cons by (auto simp: has)
qed auto

interpretation pool: block_committer "transactionPool_commitBlockPair w" "pool_follows k" for w k
proof
  fix s bs b h assume inv: "pool_follows k s bs"
  {
    assume b: "block_at b (of_nat (length bs) + 1)"
    note bs = block_at_simps(2,4) [OF b]
    let ?s = "s\<lparr>tps_lastHeight := of_nat (length bs) + 1, tps_lastTimestamp := rbh_timestamp (rsHeader b)\<rparr>"
    let ?c = "\<lparr>cm_nodeAddress = tps_nodeAddress s, cm_blockHeight = of_nat (length bs) + 1, cm_blockTime = rbh_timestamp (rsHeader b), cm_myReceipts = []\<rparr>"
    obtain s1 c1 where s1: "commit w ?s ?c (block_receipts b) = (s1, c1)" by fastforce
    note E = commit_keeps [OF s1]
    show "\<exists>s'. transactionPool_commitBlockPair w s b = Ok (s', of_nat (length bs) + 2) \<and> pool_follows k s' (bs @ [b])"
      using inv E s1
      by (auto simp: transactionPool_commitBlockPair_def bs CommitTransactionReceipts_def updateBlockHeightAndTimestamp_def
          Let_def pool_follows_def IncrementTo_def block_receipts_def add.commute)
  next
    assume b: "block_at b h" and h: "h \<noteq> of_nat (length bs) + 1"
    show "transactionPool_commitBlockPair w s b = Ok (s, of_nat (length bs) + 1)"
      using inv h by (simp add: transactionPool_commitBlockPair_def block_at_simps(2,4) [OF b] CommitTransactionReceipts_def pool_follows_def Let_def)
  }
qed

subsection \<open>Properties\<close>

text \<open>
  C33. Whatever prefix of the chain the state storage has committed, one pass of service sync ends and leaves
  it with the state of the whole chain in block storage: every key of every contract has the value that the
  state diffs of the blocks, applied in order, give it.
\<close>

theorem state_storage_catches_up:
  assumes "mem_ok p" "imb_blocks p \<noteq> []" "k \<le> length (imb_blocks p)"
    and "committed sha snapshotNum grace s (map block_diffs (take k (imb_blocks p)))"
  shows "\<exists>s'. syncToTopBlock (stateStorage_commitBlockPair sha inMemory) p s = Some (Ok (s', of_nat (length (imb_blocks p)))) \<and>
    committed sha snapshotNum grace s' (map block_diffs (imb_blocks p))"
  using state.sync_to_top [OF assms(1,2,4) refl assms(3)] .

theorem state_storage_catches_up_witness:
  "\<exists>s'. syncToTopBlock (stateStorage_commitBlockPair demo_sha inMemory) demo_store demo_start = Some (Ok (s', 2)) \<and>
    committed demo_sha 5 2 s' [[], []]"
  using state_storage_catches_up [OF demo_store_ok(1), of 0 demo_sha 5 2 demo_start] committed_demo_start
  by (simp add: demo_store_ok(2) block_diffs_def demo_block_def inflateChainState_def)

text \<open>
  C34. One pass of service sync ends and leaves the transaction pool at the top of the chain; every
  transaction of the blocks it lacked is committed in the pool and none of them is still pending.
\<close>

theorem transaction_pool_catches_up:
  assumes "mem_ok p" "imb_blocks p \<noteq> []" "k \<le> length (imb_blocks p)"
    and "tps_lastHeight s = of_nat k" "bt_currentHeight (tps_blockTracker s) = of_nat k"
  shows "\<exists>s'. syncToTopBlock (transactionPool_commitBlockPair w) p s = Some (Ok (s', of_nat (length (imb_blocks p)))) \<and>
    tps_lastHeight s' = of_nat (length (imb_blocks p)) \<and>
    (\<forall>b \<in> set (drop k (imb_blocks p)). \<forall>r \<in> set (block_receipts b).
       committed_has (tps_committedPool s') (rcpt_txhash r) \<and> pendingMap s' (rcpt_txhash r) = None)"
proof -
  have "pool_follows k s (take k (imb_blocks p))" using assms(3-5) by (simp add: pool_follows_def)
  from pool.sync_to_top [OF assms(1,2) this refl assms(3), of w] show ?thesis by (auto simp: pool_follows_def)
qed

theorem transaction_pool_catches_up_witness:
  "\<exists>s'. syncToTopBlock (transactionPool_commitBlockPair small_wire) demo_store demo_service = Some (Ok (s', 2)) \<and> tps_lastHeight s' = 2"
  using transaction_pool_catches_up [OF demo_store_ok(1), of 1 demo_service small_wire]
  by (auto simp: demo_store_ok(2) demo_service_def NewBlockTracker_def)

end
