(* ===== verification/Checksum.thy ===== *)
theory Checksum
  imports Byte_Words
begin

text \<open>
  The checksum of block files, the CRC-32 of \<open>hash/crc32\<close> with the Castagnoli polynomial, and why it
  finds every corruption of a single byte.
\<close>

unbundle bit_operations_syntax

definition castagnoli :: "32 word" where
  "castagnoli = 0x82f63b78"

definition crcBit :: "32 word \<Rightarrow> 32 word" where
  "crcBit s = (if bit s 0 then drop_bit 1 s XOR castagnoli else drop_bit 1 s)"

definition crcByte :: "byte \<Rightarrow> 32 word \<Rightarrow> 32 word" where
  "crcByte b s = (crcBit ^^ 8) (s XOR ucast b)"

definition crc32c :: "bytes \<Rightarrow> 32 word" where
  "crc32c bs = NOT (fold crcByte bs (NOT 0))"

lemma bit_castagnoli_31: "bit castagnoli 31"
  by (simp add: castagnoli_def bit_numeral_rec)

lemma bit_crcBit_31: "bit (crcBit s) 31 \<longleftrightarrow> bit s 0"
  using bit_imp_le_length [of s 32] by (auto simp: crcBit_def bit_simps bit_castagnoli_31)

lemma crcBit_inject: "crcBit s = crcBit t \<longleftrightarrow> s = t"
proof
  assume eq: "crcBit s = crcBit t"
  then have low: "bit s 0 = bit t 0" using bit_crcBit_31 by metis
  have "drop_bit 1 s = drop_bit 1 t"
  proof -
    have "(drop_bit 1 s XOR castagnoli) XOR castagnoli = (drop_bit 1 t XOR castagnoli) XOR castagnoli" if "bit s 0"
      using eq that low by (simp add: crcBit_def)
    then show ?thesis using eq low by (cases "bit s 0") (simp_all add: crcBit_def xor.assoc)
  qed
  then have "bit s (Suc n) = bit t (Suc n)" for n by (metis bit_drop_bit_eq plus_1_eq_Suc comp_apply)
  then show "s = t" using low by (intro bit_word_eqI) (metis not0_implies_Suc)
qed simp

lemma crcBit_pow_inject: "(crcBit ^^ n) s = (crcBit ^^ n) t \<longleftrightarrow> s = t"
  by (induction n) (simp_all add: crcBit_inject)

lemma xor_inject: "(a :: 32 word) XOR b = c XOR b \<longleftrightarrow> a = c" "b XOR (a :: 32 word) = b XOR c \<longleftrightarrow> a = c"
proof -
  have "(a XOR b) XOR b = (c XOR b) XOR b \<Longrightarrow> a = c" by (simp add: xor.assoc)
  then show *: "a XOR b = c XOR b \<longleftrightarrow> a = c" by metis
  show "b XOR a = b XOR c \<longleftrightarrow> a = c" using * by (simp add: xor.commute)
qed

lemma crcByte_inject: "crcByte b s = crcByte b t \<longleftrightarrow> s = t"
  by (simp add: crcByte_def crcBit_pow_inject xor_inject)

lemma ucast_8_32_inject: "(ucast (a :: 8 word) :: 32 word) = ucast b \<longleftrightarrow> a = b"
proof
  assume "(ucast a :: 32 word) = ucast b"
  then have "unat (ucast a :: 32 word) = unat (ucast b :: 32 word)" by simp
  then show "a = b" by (simp add: word_unat_eq_iff)
qed simp

lemma crcByte_byte_inject: "crcByte a s = crcByte b s \<longleftrightarrow> a = b"
  by (simp add: crcByte_def crcBit_pow_inject xor_inject ucast_8_32_inject)

lemma fold_crcByte_inject: "fold crcByte bs s = fold crcByte bs t \<longleftrightarrow> s = t"
  by (induction bs arbitrary: s t) (simp_all add: crcByte_inject)

lemma crc32c_single_byte:
  assumes "i < length bs" "bs ! i \<noteq> x" shows "crc32c (bs[i := x]) \<noteq> crc32c bs"
proof
  assume "crc32c (bs[i := x]) = crc32c bs"
  then have "fold crcByte (bs[i := x]) (NOT 0) = fold crcByte bs (NOT 0)"
    unfolding crc32c_def by (metis bit.double_compl)
  moreover have "bs[i := x] = take i bs @ x # drop (Suc i) bs" using assms(1) by (simp add: upd_conv_take_nth_drop)
  moreover have "bs = take i bs @ bs ! i # drop (Suc i) bs" using assms(1) by (simp add: id_take_nth_drop)
  ultimately have "fold crcByte (take i bs @ x # drop (Suc i) bs) (NOT 0) = fold crcByte (take i bs @ bs ! i # drop (Suc i) bs) (NOT 0)"
    by metis
  then show False using assms(2) by (simp add: fold_crcByte_inject crcByte_byte_inject)
qed

end
