(* ===== verification/Block_Codec.thy ===== *)
theory Block_Codec
  imports Checksum Block_Storage
begin

text \<open>
  The format of the blocks file, \<open>adapter/filesystem/codec.go\<close>. A reader is the bytes it has left, a
  writer the bytes written to it. The readers of messages are generated code and a parameter, beside the
  encodings in \<open>Wire\<close>. An \<open>int\<close> of the code that counts bytes is a natural number here: it is at most a
  few times $2^{32}$ and never negative.
\<close>

subsection \<open>Reading\<close>

datatype codecErr =
    IoEOF | IoUnexpectedEOF
  | BadBlockMagic | BadBlockVersion
  | BadHeaderChecksum | BadFileMagic | BadFileVersion | HeaderChecksumUnreadable
  | BlockTooLarge | BadElementCount | ChunkExceedsLimit | BlockSizeMismatch | BadBlockChecksum

text \<open>\<open>io.ReadFull\<close>, which tells an end at the first byte from one in the middle.\<close>

definition readFull :: "nat \<Rightarrow> bytes \<Rightarrow> (codecErr, bytes \<times> bytes) result" where
  "readFull n r =
     (if n \<le> length r then Ok (take n r, drop n r) else Err (if r = [] then IoEOF else IoUnexpectedEOF))"

definition readUint32 :: "bytes \<Rightarrow> (codecErr, 32 word \<times> bytes) result" where
  "readUint32 r = bind_result (readFull 4 r) (\<lambda>(bs, r). Ok (load32 bs, r))"

definition loadWords :: "nat \<Rightarrow> bytes \<Rightarrow> 32 word list" where
  "loadWords n bs = map (\<lambda>i. load32 (drop (4 * i) bs)) [0..<n]"

subsection \<open>Headers\<close>

definition blockHeaderSize :: nat where "blockHeaderSize = 24"
definition checksumSize :: nat where "checksumSize = 4"
definition chunkLengthSize :: nat where "chunkLengthSize = 4"
definition orbsFormatMagic :: "32 word" where "orbsFormatMagic = 0x5342524f"
definition orbsFormatVersion :: "32 word" where "orbsFormatVersion = 0"
definition blockMagic :: "32 word" where "blockMagic = 0x6b4f4c42"
definition blockVersion :: "32 word" where "blockVersion = 0"

record codec =
  maxBlockSize :: nat

definition newCodec :: "32 word \<Rightarrow> codec" where
  "newCodec maxSize = \<lparr>maxBlockSize = unat maxSize\<rparr>"

record blocksFileHeader =
  bfh_magic :: "32 word"
  bfh_fileVersion :: "32 word"
  bfh_networkType :: "32 word"
  bfh_chainId :: "32 word"

record blockHeader =
  bh_magic :: "32 word"
  bh_version :: "32 word"
  bh_fixedSize :: "32 word"
  bh_receiptsSize :: "32 word"
  bh_diffsSize :: "32 word"
  bh_txsSize :: "32 word"

definition diskChunkSize :: "bytes \<Rightarrow> 32 word" where
  "diskChunkSize bs = of_nat chunkLengthSize + of_nat (length bs)"

definition newBlockHeader :: blockHeader where
  "newBlockHeader = \<lparr>bh_magic = blockMagic, bh_version = blockVersion, bh_fixedSize = 0, bh_receiptsSize = 0,
     bh_diffsSize = 0, bh_txsSize = 0\<rparr>"

definition addFixed :: "bytes \<Rightarrow> blockHeader \<Rightarrow> blockHeader" where
  "addFixed m bh = bh\<lparr>bh_fixedSize := bh_fixedSize bh + diskChunkSize m\<rparr>"

definition addReceipt :: "bytes \<Rightarrow> blockHeader \<Rightarrow> blockHeader" where
  "addReceipt m bh = bh\<lparr>bh_receiptsSize := bh_receiptsSize bh + diskChunkSize m\<rparr>"

definition addDiff :: "bytes \<Rightarrow> blockHeader \<Rightarrow> blockHeader" where
  "addDiff m bh = bh\<lparr>bh_diffsSize := bh_diffsSize bh + diskChunkSize m\<rparr>"

definition addTx :: "bytes \<Rightarrow> blockHeader \<Rightarrow> blockHeader" where
  "addTx m bh = bh\<lparr>bh_txsSize := bh_txsSize bh + diskChunkSize m\<rparr>"

definition totalSize :: "blockHeader \<Rightarrow> nat" where
  "totalSize bh = unat (bh_fixedSize bh + bh_diffsSize bh + bh_receiptsSize bh + bh_txsSize bh)"

definition blockHeader_write :: "blockHeader \<Rightarrow> bytes" where
  "blockHeader_write bh =
     concat (map store32 [bh_magic bh, bh_version bh, bh_fixedSize bh, bh_receiptsSize bh, bh_diffsSize bh, bh_txsSize bh])"

definition loadBlockHeader :: "bytes \<Rightarrow> blockHeader" where
  "loadBlockHeader bs =
     (let v = loadWords 6 bs
      in \<lparr>bh_magic = v ! 0, bh_version = v ! 1, bh_fixedSize = v ! 2, bh_receiptsSize = v ! 3, bh_diffsSize = v ! 4, bh_txsSize = v ! 5\<rparr>)"

definition blockHeader_read :: "bytes \<Rightarrow> (codecErr, blockHeader \<times> bytes) result" where
  "blockHeader_read r =
     bind_result (readFull blockHeaderSize r) (\<lambda>(bs, r).
       let bh = loadBlockHeader bs
       in if bh_magic bh \<noteq> blockMagic then Err BadBlockMagic
          else if bh_version bh \<noteq> blockVersion then Err BadBlockVersion
          else Ok (bh, r))"

definition newBlocksFileHeader :: "32 word \<Rightarrow> 32 word \<Rightarrow> blocksFileHeader" where
  "newBlocksFileHeader networkType vchainId =
     \<lparr>bfh_magic = orbsFormatMagic, bfh_fileVersion = orbsFormatVersion, bfh_networkType = networkType, bfh_chainId = vchainId\<rparr>"

definition blocksFileHeader_read :: "bytes \<Rightarrow> (codecErr, blocksFileHeader \<times> bytes) result" where
  "blocksFileHeader_read r =
     bind_result (readFull 16 r) (\<lambda>(bs, r).
       let v = loadWords 4 bs;
           bfh = \<lparr>bfh_magic = v ! 0, bfh_fileVersion = v ! 1, bfh_networkType = v ! 2, bfh_chainId = v ! 3\<rparr>
       in case readUint32 r of
            Ok (sum32, r) \<Rightarrow>
              if sum32 \<noteq> crc32c bs then Err BadHeaderChecksum
              else if bfh_magic bfh \<noteq> orbsFormatMagic then Err BadFileMagic
              else if bfh_fileVersion bfh \<noteq> orbsFormatVersion then Err BadFileVersion
              else Ok (bfh, r)
          | Err _ \<Rightarrow> Err HeaderChecksumUnreadable
          | Panic \<Rightarrow> Panic)"

definition blocksFileHeader_write :: "blocksFileHeader \<Rightarrow> bytes" where
  "blocksFileHeader_write bfh =
     (let bs = concat (map store32 [bfh_magic bfh, bfh_fileVersion bfh, bfh_networkType bfh, bfh_chainId bfh])
      in bs @ store32 (crc32c bs))"

subsection \<open>Encoding\<close>

definition writeMessage :: "bytes \<Rightarrow> bytes" where
  "writeMessage raw = store32 (of_nat (length raw)) @ raw"

definition transactionReceiptsToMessages :: "Wire \<Rightarrow> TransactionReceipt list \<Rightarrow> bytes list" where
  "transactionReceiptsToMessages w receipts = map (raw_receipt w) receipts"

definition diffsToMessages :: "Wire \<Rightarrow> ContractStateDiff list \<Rightarrow> bytes list" where
  "diffsToMessages w diffs = map (raw_contractStateDiff w) diffs"

definition transactionsToMessages :: "Wire \<Rightarrow> SignedTransaction list \<Rightarrow> bytes list" where
  "transactionsToMessages w txs = map (raw_signedTransaction w) txs"

definition writeDynamicBlockSectionWithChecksum :: "bytes list \<Rightarrow> bytes" where
  "writeDynamicBlockSectionWithChecksum messages =
     (let bs = concat (map writeMessage messages) in bs @ store32 (crc32c bs))"

definition writeFixedBlockSectionWithChecksum ::
  "Wire \<Rightarrow> TransactionsBlockContainer \<Rightarrow> TransactionsBlockHeader \<Rightarrow> ResultsBlockContainer \<Rightarrow> ResultsBlockHeader \<Rightarrow> bytes" where
  "writeFixedBlockSectionWithChecksum w tb th rb rh =
     (let bs = writeMessage (raw_transactionsBlockHeader w th) @ writeMessage (tbc_metadata tb) @ writeMessage (tbc_blockProof tb)
           @ writeMessage (raw_resultsBlockHeader w rh) @ writeMessage (rbc_blockProof rb)
      in bs @ store32 (crc32c bs))"

definition blockHeaderOf ::
  "Wire \<Rightarrow> TransactionsBlockContainer \<Rightarrow> TransactionsBlockHeader \<Rightarrow> ResultsBlockContainer \<Rightarrow> ResultsBlockHeader \<Rightarrow> blockHeader" where
  "blockHeaderOf w tb th rb rh =
     (let bh = addFixed (rbc_blockProof rb) (addFixed (raw_resultsBlockHeader w rh) (addFixed (tbc_blockProof tb)
                 (addFixed (tbc_metadata tb) (addFixed (raw_transactionsBlockHeader w th) newBlockHeader))));
          bh = fold (addReceipt \<circ> raw_receipt w) (rbc_transactionReceipts rb) bh;
          bh = fold (addDiff \<circ> raw_contractStateDiff w) (rbc_contractStateDiffs rb) bh
      in fold (addTx \<circ> raw_signedTransaction w) (tbc_signedTransactions tb) bh)"

text \<open>
  The bytes that have reached the writer when \<open>encode\<close> returns, and what it returns. A block over the limit
  has then been written all but for its checksum.
\<close>

definition encode :: "codec \<Rightarrow> Wire \<Rightarrow> BlockPairContainer \<Rightarrow> bytes \<times> (codecErr, nat) result" where
  "encode c w block =
     (case (bp_tx block :: (codecErr, _) result, bp_rs block :: (codecErr, _) result) of
        (Ok (tb, th), Ok (rb, rh)) \<Rightarrow>
          let bh = blockHeaderOf w tb th rb rh;
              bs = blockHeader_write bh
                @ writeFixedBlockSectionWithChecksum w tb th rb rh
                @ writeDynamicBlockSectionWithChecksum (transactionReceiptsToMessages w (rbc_transactionReceipts rb))
                @ writeDynamicBlockSectionWithChecksum (diffsToMessages w (rbc_contractStateDiffs rb))
                @ writeDynamicBlockSectionWithChecksum (transactionsToMessages w (tbc_signedTransactions tb))
          in if length bs > maxBlockSize c then (bs, Err BlockTooLarge)
             else (bs @ store32 (crc32c bs), Ok (blockHeaderSize + totalSize bh + checksumSize * 5))
      | _ \<Rightarrow> ([], Panic))"

subsection \<open>Decoding\<close>

text \<open>The readers of the messages; metadata and block proofs are kept as their encodings.\<close>

record Readers =
  rd_transactionsBlockHeader :: "bytes \<Rightarrow> TransactionsBlockHeader"
  rd_resultsBlockHeader :: "bytes \<Rightarrow> ResultsBlockHeader"
  rd_receipt :: "bytes \<Rightarrow> TransactionReceipt"
  rd_contractStateDiff :: "bytes \<Rightarrow> ContractStateDiff"
  rd_signedTransaction :: "bytes \<Rightarrow> SignedTransaction"

record readingBudget =
  rb_limit :: nat
  rb_bytesRead :: nat

definition newReadingBudget :: "nat \<Rightarrow> nat \<Rightarrow> readingBudget" where
  "newReadingBudget limit bytesRead = \<lparr>rb_limit = limit, rb_bytesRead = bytesRead\<rparr>"

definition readChunk :: "bytes \<Rightarrow> readingBudget \<Rightarrow> (codecErr, bytes \<times> bytes \<times> readingBudget) result" where
  "readChunk r budget =
     bind_result (readUint32 r) (\<lambda>(chunkLength, r).
       let budget = budget\<lparr>rb_bytesRead := rb_bytesRead budget + chunkLengthSize\<rparr> in
       if rb_limit budget < rb_bytesRead budget + unat chunkLength then Err ChunkExceedsLimit
       else bind_result (readFull (unat chunkLength) r) (\<lambda>(chunk, r).
         Ok (chunk, r, budget\<lparr>rb_bytesRead := rb_bytesRead budget + length chunk\<rparr>)))"

fun readChunks :: "nat \<Rightarrow> bytes \<Rightarrow> readingBudget \<Rightarrow> (codecErr, bytes list \<times> bytes \<times> readingBudget) result" where
  "readChunks 0 r budget = Ok ([], r, budget)"
| "readChunks (Suc n) r budget =
     bind_result (readChunk r budget) (\<lambda>(chunk, r, budget).
       bind_result (readChunks n r budget) (\<lambda>(chunks, r, budget). Ok (chunk # chunks, r, budget)))"

definition readDynamicBlockSection :: "bytes \<Rightarrow> readingBudget \<Rightarrow> 32 word \<Rightarrow> (codecErr, bytes list \<times> bytes \<times> readingBudget) result" where
  "readDynamicBlockSection r budget elements =
     (if of_nat (rb_limit budget) < elements then Err BadElementCount
      else bind_result (readChunks (unat elements) r budget) (\<lambda>(chunks, r, budget).
        bind_result (readUint32 r) (\<lambda>(_, r). Ok (chunks, r, budget))))"

record fixedSizeBlockSection =
  fs_transactionsBlockHeader :: TransactionsBlockHeader
  fs_transactionsBlockMetadata :: bytes
  fs_transactionsBlockProof :: bytes
  fs_resultsBlockHeader :: ResultsBlockHeader
  fs_resultsBlockProof :: bytes

definition readFixedSection ::
  "Readers \<Rightarrow> bytes \<Rightarrow> readingBudget \<Rightarrow> (codecErr, fixedSizeBlockSection \<times> bytes \<times> readingBudget) result" where
  "readFixedSection rd r budget =
     bind_result (readChunk r budget) (\<lambda>(tbHeaderChunk, r, budget).
     bind_result (readChunk r budget) (\<lambda>(tbMetadataChunk, r, budget).
     bind_result (readChunk r budget) (\<lambda>(tbBlockProofChunk, r, budget).
     bind_result (readChunk r budget) (\<lambda>(rbHeaderChunk, r, budget).
     bind_result (readChunk r budget) (\<lambda>(rbBlockProofChunk, r, budget).
     bind_result (readUint32 r) (\<lambda>(_, r).
       Ok (\<lparr>fs_transactionsBlockHeader = rd_transactionsBlockHeader rd tbHeaderChunk,
             fs_transactionsBlockMetadata = tbMetadataChunk,
             fs_transactionsBlockProof = tbBlockProofChunk,
             fs_resultsBlockHeader = rd_resultsBlockHeader rd rbHeaderChunk,
             fs_resultsBlockProof = rbBlockProofChunk\<rparr>, r, budget)))))))"

definition readReceiptsSection where
  "readReceiptsSection rd r budget elements =
     bind_result (readDynamicBlockSection r budget elements) (\<lambda>(chunks, r, budget). Ok (map (rd_receipt rd) chunks, r, budget))"

definition readStateDiffsSection where
  "readStateDiffsSection rd r budget elements =
     bind_result (readDynamicBlockSection r budget elements) (\<lambda>(chunks, r, budget). Ok (map (rd_contractStateDiff rd) chunks, r, budget))"

definition readTransactionsSection where
  "readTransactionsSection rd r budget elements =
     bind_result (readDynamicBlockSection r budget elements) (\<lambda>(chunks, r, budget). Ok (map (rd_signedTransaction rd) chunks, r, budget))"

text \<open>
  The sections between the header and the final checksum. The checksum is computed over all the bytes that
  were read until then, and is the last to be checked.
\<close>

definition readSections ::
  "Readers \<Rightarrow> bytes \<Rightarrow> readingBudget \<Rightarrow> (codecErr, BlockPairContainer \<times> bytes \<times> readingBudget) result" where
  "readSections rd r budget =
     bind_result (readFixedSection rd r budget) (\<lambda>(fixed, r, budget).
     bind_result (readReceiptsSection rd r budget (rbh_numTransactionReceipts (fs_resultsBlockHeader fixed))) (\<lambda>(receipts, r, budget).
     bind_result (readStateDiffsSection rd r budget (rbh_numContractStateDiffs (fs_resultsBlockHeader fixed))) (\<lambda>(stateDiffs, r, budget).
     bind_result (readTransactionsSection rd r budget (tbh_numSignedTransactions (fs_transactionsBlockHeader fixed))) (\<lambda>(txs, r, budget).
       Ok (\<lparr>bp_transactionsBlock = Some \<lparr>tbc_header = Some (fs_transactionsBlockHeader fixed),
               tbc_metadata = fs_transactionsBlockMetadata fixed, tbc_signedTransactions = txs,
               tbc_blockProof = fs_transactionsBlockProof fixed\<rparr>,
             bp_resultsBlock = Some \<lparr>rbc_header = Some (fs_resultsBlockHeader fixed),
               rbc_transactionReceipts = receipts, rbc_contractStateDiffs = stateDiffs,
               rbc_blockProof = fs_resultsBlockProof fixed\<rparr>\<rparr>, r, budget)))))"

definition decode :: "codec \<Rightarrow> Readers \<Rightarrow> bytes \<Rightarrow> (codecErr, BlockPairContainer \<times> nat \<times> bytes) result" where
  "decode c rd r0 =
     bind_result (blockHeader_read r0) (\<lambda>(serializationHeader, r).
       let budget = newReadingBudget (totalSize serializationHeader + blockHeaderSize) blockHeaderSize in
       if rb_limit budget > maxBlockSize c then Err BlockTooLarge
       else bind_result (readSections rd r budget) (\<lambda>(blockPair, r, budget).
         if rb_bytesRead budget \<noteq> rb_limit budget then Err BlockSizeMismatch
         else bind_result (readUint32 r) (\<lambda>(checksum, r').
           if checksum \<noteq> crc32c (take (length r0 - length r) r0) then Err BadBlockChecksum
           else Ok (blockPair, rb_bytesRead budget + checksumSize * 5, r'))))"

end
