(* ===== verification/Block_Codec_Correct.thy ===== *)
theory Block_Codec_Correct
  imports Block_Codec Block_Storage_Correct
begin

text \<open>
  Correctness of the format of the blocks file: what is written is read back, a truncated block is never
  accepted, and a corrupted byte is always noticed.
\<close>

subsection \<open>Reading back what was written\<close>

definition chunkSizes :: "bytes list \<Rightarrow> nat" where
  "chunkSizes ms = sum_list (map (\<lambda>m. 4 + length m) ms)"

lemma chunkSizes_simps [simp]:
  "chunkSizes [] = 0" "chunkSizes (m # ms) = 4 + length m + chunkSizes ms" "chunkSizes (ms @ ns) = chunkSizes ms + chunkSizes ns"
  by (simp_all add: chunkSizes_def)

lemma readFull_append: "length bs = n \<Longrightarrow> readFull n (bs @ r) = Ok (bs, r)"
  by (simp add: readFull_def)

lemma readUint32_store [simp]: "readUint32 (store32 v @ r) = Ok (v, r)"
  by (simp add: readUint32_def readFull_append)

lemma length_writeMessage [simp]: "length (writeMessage m) = 4 + length m"
  by (simp add: writeMessage_def)

lemma length_writeMessages [simp]: "length (concat (map writeMessage ms)) = chunkSizes ms"
  by (induction ms) auto

lemma readChunk_write:
  assumes "rb_bytesRead bd + 4 + length m \<le> rb_limit bd" "rb_limit bd < 2 ^ 32"
  shows "readChunk (writeMessage m @ r) bd = Ok (m, r, bd\<lparr>rb_bytesRead := rb_bytesRead bd + (4 + length m)\<rparr>)"
proof -
  have "unat (of_nat (length m) :: 32 word) = length m" using assms by (intro unat_of_nat_small) simp
  then show ?thesis using assms
    by (simp add: readChunk_def writeMessage_def chunkLengthSize_def Let_def readFull_append algebra_simps)
qed

lemma readChunks_write:
  assumes "rb_bytesRead bd + chunkSizes ms \<le> rb_limit bd" "rb_limit bd < 2 ^ 32"
  shows "readChunks (length ms) (concat (map writeMessage ms) @ r) bd = Ok (ms, r, bd\<lparr>rb_bytesRead := rb_bytesRead bd + chunkSizes ms\<rparr>)"
  using assms
proof (induction ms arbitrary: bd)
  case (Cons m ms)
  let ?bd = "bd\<lparr>rb_bytesRead := rb_bytesRead bd + (4 + length m)\<rparr>"
  have "readChunk (writeMessage m @ concat (map writeMessage ms) @ r) bd = Ok (m, concat (map writeMessage ms) @ r, ?bd)"
    using Cons.prems by (intro readChunk_write) auto
  then show ?case using Cons.IH [of ?bd] Cons.prems by (simp add: algebra_simps)
qed simp

lemma readDynamic_write:
  assumes "rb_bytesRead bd + chunkSizes ms \<le> rb_limit bd" "rb_limit bd < 2 ^ 32" "unat n = length ms"
  shows "readDynamicBlockSection (writeDynamicBlockSectionWithChecksum ms @ r) bd n =
    Ok (ms, r, bd\<lparr>rb_bytesRead := rb_bytesRead bd + chunkSizes ms\<rparr>)"
proof -
  have "length ms \<le> chunkSizes ms" by (induction ms) auto
  then have "\<not> of_nat (rb_limit bd) < n" using assms by (simp add: word_less_nat_alt unat_of_nat_small)
  then show ?thesis using readChunks_write [OF assms(1,2)] assms(3)
    by (simp add: readDynamicBlockSection_def writeDynamicBlockSectionWithChecksum_def Let_def)
qed

lemma loadBlockHeader_write: "loadBlockHeader (blockHeader_write bh) = bh"
proof -
  have d: "drop (4 + n) (store32 v @ r) = drop n r" for n v r by (simp add: add.commute)
  from d [of 0] d [of 4] d [of 8] d [of 12] d [of 16] have
    "drop 4 (store32 v @ r) = r" "drop 8 (store32 v @ r) = drop 4 r" "drop 12 (store32 v @ r) = drop 8 r"
    "drop 16 (store32 v @ r) = drop 12 r" "drop 20 (store32 v @ r) = drop 16 r" for v r by simp_all
  then show ?thesis by (simp add: loadBlockHeader_def loadWords_def blockHeader_write_def Let_def upt_rec)
qed

lemma length_blockHeader_write [simp]: "length (blockHeader_write bh) = 24"
  by (simp add: blockHeader_write_def)

lemma blockHeader_read_write:
  "bh_magic bh = blockMagic \<Longrightarrow> bh_version bh = blockVersion \<Longrightarrow> blockHeader_read (blockHeader_write bh @ r) = Ok (bh, r)"
  by (simp add: blockHeader_read_def blockHeaderSize_def readFull_append loadBlockHeader_write)

subsection \<open>Sizes\<close>

lemma diskChunkSize_eq: "diskChunkSize m = of_nat (4 + length m)"
  by (simp add: diskChunkSize_def chunkLengthSize_def)

lemma fold_addReceipt:
  "fold (addReceipt \<circ> f) rs bh = bh\<lparr>bh_receiptsSize := bh_receiptsSize bh + of_nat (chunkSizes (map f rs))\<rparr>"
  by (induction rs arbitrary: bh) (auto simp: addReceipt_def diskChunkSize_eq add.assoc)

lemma fold_addDiff:
  "fold (addDiff \<circ> f) ds bh = bh\<lparr>bh_diffsSize := bh_diffsSize bh + of_nat (chunkSizes (map f ds))\<rparr>"
  by (induction ds arbitrary: bh) (auto simp: addDiff_def diskChunkSize_eq add.assoc)

lemma fold_addTx:
  "fold (addTx \<circ> f) ts bh = bh\<lparr>bh_txsSize := bh_txsSize bh + of_nat (chunkSizes (map f ts))\<rparr>"
  by (induction ts arbitrary: bh) (auto simp: addTx_def diskChunkSize_eq add.assoc)

definition fixedMessages ::
  "Wire \<Rightarrow> TransactionsBlockContainer \<Rightarrow> TransactionsBlockHeader \<Rightarrow> ResultsBlockContainer \<Rightarrow> ResultsBlockHeader \<Rightarrow> bytes list" where
  "fixedMessages w tb th rb rh =
     [raw_transactionsBlockHeader w th, tbc_metadata tb, tbc_blockProof tb, raw_resultsBlockHeader w rh, rbc_blockProof rb]"

definition blockBytes :: "Wire \<Rightarrow> BlockPairContainer \<Rightarrow> nat" where
  "blockBytes w b = (case (bp_transactionsBlock b, bp_resultsBlock b) of
     (Some tb, Some rb) \<Rightarrow> chunkSizes (fixedMessages w tb (the (tbc_header tb)) rb (the (rbc_header rb)))
        + chunkSizes (transactionReceiptsToMessages w (rbc_transactionReceipts rb))
        + chunkSizes (diffsToMessages w (rbc_contractStateDiffs rb))
        + chunkSizes (transactionsToMessages w (tbc_signedTransactions tb))
   | _ \<Rightarrow> 0)"

lemma writeFixed_eq: "writeFixedBlockSectionWithChecksum w tb th rb rh = writeDynamicBlockSectionWithChecksum (fixedMessages w tb th rb rh)"
  by (simp add: writeFixedBlockSectionWithChecksum_def writeDynamicBlockSectionWithChecksum_def fixedMessages_def)

lemma length_writeDynamic [simp]: "length (writeDynamicBlockSectionWithChecksum ms) = chunkSizes ms + 4"
  by (simp add: writeDynamicBlockSectionWithChecksum_def Let_def)

lemma blockHeaderOf_sizes:
  "blockHeaderOf w tb th rb rh = \<lparr>bh_magic = blockMagic, bh_version = blockVersion,
     bh_fixedSize = of_nat (chunkSizes (fixedMessages w tb th rb rh)),
     bh_receiptsSize = of_nat (chunkSizes (transactionReceiptsToMessages w (rbc_transactionReceipts rb))),
     bh_diffsSize = of_nat (chunkSizes (diffsToMessages w (rbc_contractStateDiffs rb))),
     bh_txsSize = of_nat (chunkSizes (transactionsToMessages w (tbc_signedTransactions tb)))\<rparr>"
  by (simp add: blockHeaderOf_def newBlockHeader_def addFixed_def diskChunkSize_eq fixedMessages_def fold_addReceipt
      fold_addDiff fold_addTx transactionReceiptsToMessages_def diffsToMessages_def transactionsToMessages_def Let_def algebra_simps)

text \<open>The bytes of a block before its checksum: the header and the sections.\<close>

definition blockBody :: "Wire \<Rightarrow> BlockPairContainer \<Rightarrow> bytes" where
  "blockBody w b = (case (bp_transactionsBlock b, bp_resultsBlock b) of
     (Some tb, Some rb) \<Rightarrow>
       writeDynamicBlockSectionWithChecksum (fixedMessages w tb (the (tbc_header tb)) rb (the (rbc_header rb)))
       @ writeDynamicBlockSectionWithChecksum (transactionReceiptsToMessages w (rbc_transactionReceipts rb))
       @ writeDynamicBlockSectionWithChecksum (diffsToMessages w (rbc_contractStateDiffs rb))
       @ writeDynamicBlockSectionWithChecksum (transactionsToMessages w (tbc_signedTransactions tb))
   | _ \<Rightarrow> [])"

definition headerOf :: "Wire \<Rightarrow> BlockPairContainer \<Rightarrow> blockHeader" where
  "headerOf w b = blockHeaderOf w (the (bp_transactionsBlock b)) (txHeader b) (the (bp_resultsBlock b)) (rsHeader b)"

definition blockPrefix :: "Wire \<Rightarrow> BlockPairContainer \<Rightarrow> bytes" where
  "blockPrefix w b = blockHeader_write (headerOf w b) @ blockBody w b"

lemma encode_eq:
  assumes "block_at b h"
  shows "encode c w b = (if length (blockPrefix w b) > maxBlockSize c then (blockPrefix w b, Err BlockTooLarge)
    else (blockPrefix w b @ store32 (crc32c (blockPrefix w b)), Ok (44 + totalSize (headerOf w b))))"
  using assms by (auto simp: block_at_def encode_def tx_header_def rx_header_def blockPrefix_def headerOf_def txHeader_def rsHeader_def
      blockBody_def writeFixed_eq Let_def blockHeaderSize_def checksumSize_def)

lemma length_blockPrefix:
  assumes "block_at b h" shows "length (blockPrefix w b) = 40 + blockBytes w b"
  using assms by (auto simp: block_at_def blockPrefix_def blockBody_def blockBytes_def)

lemma totalSize_headerOf:
  assumes "block_at b h" "blockBytes w b < 2 ^ 32"
  shows "totalSize (headerOf w b) = blockBytes w b"
proof -
  have "bh_fixedSize (headerOf w b) + bh_diffsSize (headerOf w b) + bh_receiptsSize (headerOf w b) + bh_txsSize (headerOf w b) =
      of_nat (blockBytes w b)"
    using assms(1) by (auto simp: block_at_def headerOf_def blockHeaderOf_sizes blockBytes_def txHeader_def rsHeader_def)
  then show ?thesis using assms(2) by (simp add: totalSize_def unat_of_nat_small)
qed

subsection \<open>Round trip\<close>

text \<open>
  The readers give back the messages of the block, and its headers hold the numbers of its receipts, state
  diffs and transactions, which is how \<open>decode\<close> knows how many to read.
\<close>

definition readsBack :: "Readers \<Rightarrow> Wire \<Rightarrow> BlockPairContainer \<Rightarrow> bool" where
  "readsBack rd w b \<longleftrightarrow> rd_transactionsBlockHeader rd (raw_transactionsBlockHeader w (txHeader b)) = txHeader b \<and>
     rd_resultsBlockHeader rd (raw_resultsBlockHeader w (rsHeader b)) = rsHeader b \<and>
     (\<forall>r \<in> set (rbc_transactionReceipts (the (bp_resultsBlock b))). rd_receipt rd (raw_receipt w r) = r) \<and>
     (\<forall>d \<in> set (rbc_contractStateDiffs (the (bp_resultsBlock b))). rd_contractStateDiff rd (raw_contractStateDiff w d) = d) \<and>
     (\<forall>t \<in> set (tbc_signedTransactions (the (bp_transactionsBlock b))). rd_signedTransaction rd (raw_signedTransaction w t) = t)"

definition countsMatch :: "BlockPairContainer \<Rightarrow> bool" where
  "countsMatch b \<longleftrightarrow> unat (rbh_numTransactionReceipts (rsHeader b)) = length (rbc_transactionReceipts (the (bp_resultsBlock b))) \<and>
     unat (rbh_numContractStateDiffs (rsHeader b)) = length (rbc_contractStateDiffs (the (bp_resultsBlock b))) \<and>
     unat (tbh_numSignedTransactions (txHeader b)) = length (tbc_signedTransactions (the (bp_transactionsBlock b)))"

lemma readFixed_write:
  assumes "rb_bytesRead bd + chunkSizes (fixedMessages w tb th rb rh) \<le> rb_limit bd" "rb_limit bd < 2 ^ 32"
  shows "readFixedSection rd (writeDynamicBlockSectionWithChecksum (fixedMessages w tb th rb rh) @ r) bd =
    Ok (\<lparr>fs_transactionsBlockHeader = rd_transactionsBlockHeader rd (raw_transactionsBlockHeader w th),
         fs_transactionsBlockMetadata = tbc_metadata tb, fs_transactionsBlockProof = tbc_blockProof tb,
         fs_resultsBlockHeader = rd_resultsBlockHeader rd (raw_resultsBlockHeader w rh),
         fs_resultsBlockProof = rbc_blockProof rb\<rparr>, r,
        bd\<lparr>rb_bytesRead := rb_bytesRead bd + chunkSizes (fixedMessages w tb th rb rh)\<rparr>)"
  using assms
  by (simp add: readFixedSection_def writeDynamicBlockSectionWithChecksum_def fixedMessages_def Let_def readChunk_write algebra_simps)

lemma readSections_write:
  assumes "block_at b h" "readsBack rd w b" "countsMatch b"
    and "rb_bytesRead bd + blockBytes w b \<le> rb_limit bd" "rb_limit bd < 2 ^ 32"
  shows "readSections rd (blockBody w b @ r) bd = Ok (b, r, bd\<lparr>rb_bytesRead := rb_bytesRead bd + blockBytes w b\<rparr>)"
proof -
  obtain tb th rb rh where b: "bp_transactionsBlock b = Some tb" "tbc_header tb = Some th" "bp_resultsBlock b = Some rb" "rbc_header rb = Some rh"
    using assms(1) by (auto simp: block_at_def)
  have hd: "txHeader b = th" "rsHeader b = rh" using b by (simp_all add: txHeader_def rsHeader_def)
  note rd = assms(2,3) [unfolded readsBack_def countsMatch_def hd b option.sel]
  have maps: "map (rd_receipt rd) (transactionReceiptsToMessages w (rbc_transactionReceipts rb)) = rbc_transactionReceipts rb"
    "map (rd_contractStateDiff rd) (diffsToMessages w (rbc_contractStateDiffs rb)) = rbc_contractStateDiffs rb"
    "map (rd_signedTransaction rd) (transactionsToMessages w (tbc_signedTransactions tb)) = tbc_signedTransactions tb"
    using rd by (simp_all add: transactionReceiptsToMessages_def diffsToMessages_def transactionsToMessages_def map_idI)
  have len: "length (transactionReceiptsToMessages w (rbc_transactionReceipts rb)) = length (rbc_transactionReceipts rb)"
    "length (diffsToMessages w (rbc_contractStateDiffs rb)) = length (rbc_contractStateDiffs rb)"
    "length (transactionsToMessages w (tbc_signedTransactions tb)) = length (tbc_signedTransactions tb)"
    by (simp_all add: transactionReceiptsToMessages_def diffsToMessages_def transactionsToMessages_def)
  have "b = \<lparr>bp_transactionsBlock = Some \<lparr>tbc_header = Some th, tbc_metadata = tbc_metadata tb, tbc_signedTransactions = tbc_signedTransactions tb,
        tbc_blockProof = tbc_blockProof tb\<rparr>, bp_resultsBlock = Some \<lparr>rbc_header = Some rh, rbc_transactionReceipts = rbc_transactionReceipts rb,
        rbc_contractStateDiffs = rbc_contractStateDiffs rb, rbc_blockProof = rbc_blockProof rb\<rparr>\<rparr>"
    using b by (cases b; cases tb; cases rb) simp
  then show ?thesis using assms(4,5) rd
    by (simp add: readSections_def blockBody_def b blockBytes_def readFixed_write readReceiptsSection_def readStateDiffsSection_def
        readTransactionsSection_def readDynamic_write len maps algebra_simps)
qed

lemma decode_encode:
  assumes "block_at b h" "readsBack rd w b" "countsMatch b" "encode c w b = (bs, Ok n)" "maxBlockSize c < 2 ^ 32"
  shows "n = length bs \<and> decode c rd (bs @ r) = Ok (b, length bs, r)"
proof -
  have bs: "bs = blockPrefix w b @ store32 (crc32c (blockPrefix w b))" and n: "n = 44 + totalSize (headerOf w b)"
    and le: "length (blockPrefix w b) \<le> maxBlockSize c"
    using assms(4) by (auto simp: encode_eq [OF assms(1)] split: if_splits)
  have size: "40 + blockBytes w b \<le> maxBlockSize c" using le length_blockPrefix [OF assms(1)] by simp
  have total: "totalSize (headerOf w b) = blockBytes w b" using totalSize_headerOf [OF assms(1)] size assms(5) by simp
  let ?bd = "newReadingBudget (blockBytes w b + 24) 24"
  have "readSections rd (blockBody w b @ store32 (crc32c (blockPrefix w b)) @ r) ?bd =
      Ok (b, store32 (crc32c (blockPrefix w b)) @ r, ?bd\<lparr>rb_bytesRead := 24 + blockBytes w b\<rparr>)"
    using readSections_write [OF assms(1-3), of ?bd] size assms(5) by (simp add: newReadingBudget_def)
  moreover have "blockHeader_read (blockPrefix w b @ x) = Ok (headerOf w b, blockBody w b @ x)" for x
    using blockHeader_read_write [of "headerOf w b"] by (simp add: blockPrefix_def headerOf_def blockHeaderOf_sizes)
  ultimately show ?thesis using size total length_blockPrefix [OF assms(1), of w]
    by (simp add: decode_def bs n blockHeaderSize_def checksumSize_def newReadingBudget_def)
qed

subsection \<open>What a reader consumes\<close>

text \<open>
  A reader of part of a block is \<open>regular\<close> when its success depends only on the bytes it takes: it counts all
  of them but for \<open>e\<close> bytes of checksums, more bytes behind them change nothing, and neither does a larger limit.
\<close>

definition regular :: "nat \<Rightarrow> (bytes \<Rightarrow> readingBudget \<Rightarrow> (codecErr, 'a \<times> bytes \<times> readingBudget) result) \<Rightarrow> bool" where
  "regular e f \<longleftrightarrow> (\<forall>r bd x r' bd'. f r bd = Ok (x, r', bd') \<longrightarrow>
     (\<exists>k. k + e \<le> length r \<and> r' = drop (k + e) r \<and> bd' = bd\<lparr>rb_bytesRead := rb_bytesRead bd + k\<rparr> \<and>
       (\<forall>s L. rb_limit bd \<le> L \<and> L < 2 ^ 32 \<longrightarrow>
          f (r @ s) (bd\<lparr>rb_limit := L\<rparr>) = Ok (x, r' @ s, bd'\<lparr>rb_limit := L\<rparr>))))"

lemma regularD:
  assumes "regular e f" "f r bd = Ok (x, r', bd')"
  obtains k where "k + e \<le> length r" "r' = drop (k + e) r" "bd' = bd\<lparr>rb_bytesRead := rb_bytesRead bd + k\<rparr>"
    "\<And>s L. rb_limit bd \<le> L \<Longrightarrow> L < 2 ^ 32 \<Longrightarrow> f (r @ s) (bd\<lparr>rb_limit := L\<rparr>) = Ok (x, r' @ s, bd'\<lparr>rb_limit := L\<rparr>)"
  using assms unfolding regular_def by blast

lemma regular_consumes:
  assumes "regular e f" "f r bd = Ok (x, r', bd')"
  obtains k where "k + e \<le> length r" "r' = drop (k + e) r" "bd' = bd\<lparr>rb_bytesRead := rb_bytesRead bd + k\<rparr>"
proof -
  from regularD [OF assms] show thesis using that .
qed

lemma regular_extend:
  assumes "regular e f" "f r bd = Ok (x, r', bd')" "rb_limit bd \<le> L" "L < 2 ^ 32"
  shows "f (r @ s) (bd\<lparr>rb_limit := L\<rparr>) = Ok (x, r' @ s, bd'\<lparr>rb_limit := L\<rparr>)"
proof -
  from regularD [OF assms(1,2)] show ?thesis using assms(3,4) by metis
qed

lemma regular_return: "regular 0 (\<lambda>r bd. Ok (x, r, bd))"
  by (auto simp: regular_def intro!: exI [of _ 0])

lemma regular_bind:
  assumes f: "regular e1 f" and g: "\<And>x. regular e2 (g x)" and e: "e = e1 + e2"
  shows "regular e (\<lambda>r bd. bind_result (f r bd) (\<lambda>(x, r, bd). g x r bd))"
  unfolding regular_def e
proof (intro allI impI)
  fix r bd y r'' bd''
  assume "bind_result (f r bd) (\<lambda>(x, r, bd). g x r bd) = Ok (y, r'', bd'')"
  then obtain x r' bd' where f1: "f r bd = Ok (x, r', bd')" and g1: "g x r' bd' = Ok (y, r'', bd'')" by auto
  obtain k where k: "k + e1 \<le> length r" "r' = drop (k + e1) r" "bd' = bd\<lparr>rb_bytesRead := rb_bytesRead bd + k\<rparr>"
    "\<And>s L. rb_limit bd \<le> L \<Longrightarrow> L < 2 ^ 32 \<Longrightarrow> f (r @ s) (bd\<lparr>rb_limit := L\<rparr>) = Ok (x, r' @ s, bd'\<lparr>rb_limit := L\<rparr>)"
    using regularD [OF f f1] by blast
  obtain j where j: "j + e2 \<le> length r'" "r'' = drop (j + e2) r'" "bd'' = bd'\<lparr>rb_bytesRead := rb_bytesRead bd' + j\<rparr>"
    "\<And>s L. rb_limit bd' \<le> L \<Longrightarrow> L < 2 ^ 32 \<Longrightarrow> g x (r' @ s) (bd'\<lparr>rb_limit := L\<rparr>) = Ok (y, r'' @ s, bd''\<lparr>rb_limit := L\<rparr>)"
    using regularD [OF g g1] by blast
  show "\<exists>k. k + (e1 + e2) \<le> length r \<and> r'' = drop (k + (e1 + e2)) r \<and> bd'' = bd\<lparr>rb_bytesRead := rb_bytesRead bd + k\<rparr> \<and>
      (\<forall>s L. rb_limit bd \<le> L \<and> L < 2 ^ 32 \<longrightarrow>
        bind_result (f (r @ s) (bd\<lparr>rb_limit := L\<rparr>)) (\<lambda>(x, r, bd). g x r bd) = Ok (y, r'' @ s, bd''\<lparr>rb_limit := L\<rparr>))"
  proof (intro exI [of _ "k + j"] conjI allI impI)
    fix s L assume "rb_limit bd \<le> L \<and> L < 2 ^ 32"
    then show "bind_result (f (r @ s) (bd\<lparr>rb_limit := L\<rparr>)) (\<lambda>(x, r, bd). g x r bd) = Ok (y, r'' @ s, bd''\<lparr>rb_limit := L\<rparr>)"
      using k(4) j(4) k(3) by simp
  qed (use k(1-3) j(1-3) in \<open>auto simp: ac_simps\<close>)
qed

lemma readFull_Ok: "readFull n r = Ok (bs, r') \<longleftrightarrow> n \<le> length r \<and> bs = take n r \<and> r' = drop n r"
  by (auto simp: readFull_def)

lemma regular_checksum:
  assumes "\<And>v. regular e (g v)"
  shows "regular (4 + e) (\<lambda>r bd. bind_result (readUint32 r) (\<lambda>(v, r). g v r bd))"
proof -
  have "regular 4 (\<lambda>r bd. bind_result (readUint32 r) (\<lambda>(v, r). Ok (v, r, bd)))"
    by (auto simp: regular_def readUint32_def readFull_Ok intro!: exI [of _ 0])
  from regular_bind [OF this, of e g] assms
  have "regular (4 + e) (\<lambda>r bd. bind_result (bind_result (readUint32 r) (\<lambda>(v, r). Ok (v, r, bd))) (\<lambda>(x, r, bd). g x r bd))" by simp
  moreover have "bind_result (bind_result (readUint32 r) (\<lambda>(v, r). Ok (v, r, bd))) (\<lambda>(x, r, bd). g x r bd) =
      bind_result (readUint32 r) (\<lambda>(v, r). g v r bd)" for r bd
    by (cases "readUint32 r") auto
  ultimately show ?thesis by simp
qed

lemma regular_readChunk: "regular 0 readChunk"
  unfolding regular_def
proof (intro allI impI)
  fix r bd x r' bd' assume "readChunk r bd = Ok (x, r', bd')"
  then obtain n where n: "n = unat (load32 (take 4 r))" "4 + n \<le> length r" "x = take n (drop 4 r)" "r' = drop (4 + n) r"
    "bd' = bd\<lparr>rb_bytesRead := rb_bytesRead bd + (4 + n)\<rparr>" "rb_bytesRead bd + 4 + n \<le> rb_limit bd"
    by (auto simp: readChunk_def readUint32_def readFull_Ok chunkLengthSize_def Let_def add.commute split: if_splits)
  then have "readChunk (r @ s) (bd\<lparr>rb_limit := L\<rparr>) = Ok (x, r' @ s, bd'\<lparr>rb_limit := L\<rparr>)" if "rb_limit bd \<le> L" for s L
    using that by (auto simp: readChunk_def readUint32_def readFull_def chunkLengthSize_def Let_def add.commute)
  then show "\<exists>k. k + 0 \<le> length r \<and> r' = drop (k + 0) r \<and> bd' = bd\<lparr>rb_bytesRead := rb_bytesRead bd + k\<rparr> \<and>
      (\<forall>s L. rb_limit bd \<le> L \<and> L < 2 ^ 32 \<longrightarrow> readChunk (r @ s) (bd\<lparr>rb_limit := L\<rparr>) = Ok (x, r' @ s, bd'\<lparr>rb_limit := L\<rparr>))"
    using n by (intro exI [of _ "4 + n"]) simp
qed

lemma regular_readChunks: "regular 0 (readChunks n)"
proof (induction n)
  case 0
  show ?case using regular_return [of "[]"] by (simp add: readChunks.simps [abs_def])
next
  case (Suc n)
  have "regular 0 (\<lambda>r bd. bind_result (readChunks n r bd) (\<lambda>(cs, r, bd). Ok (c # cs, r, bd)))" for c
    by (rule regular_bind [OF Suc regular_return]) simp
  from regular_bind [OF regular_readChunk this, of 0] show ?case by (simp add: readChunks.simps [abs_def])
qed

lemma regular_readDynamic: "regular 4 (\<lambda>r bd. readDynamicBlockSection r bd n)"
proof -
  have "regular (4 + 0) (\<lambda>r bd. bind_result (readUint32 r) (\<lambda>(v, r). Ok (cs, r, bd)))" for cs :: "bytes list"
    by (rule regular_checksum [OF regular_return])
  from regular_bind [OF regular_readChunks this, of 4 "unat n"]
  have body: "regular 4 (\<lambda>r bd. bind_result (readChunks (unat n) r bd) (\<lambda>(cs, r, bd).
      bind_result (readUint32 r) (\<lambda>(_, r). Ok (cs, r, bd))))" by simp
  have mono: "\<not> of_nat L < n" if "\<not> of_nat l < n" "l \<le> L" "L < 2 ^ 32" for l L
    using that by (simp add: word_less_nat_alt unat_of_nat_small)
  show ?thesis unfolding regular_def
  proof (intro allI impI)
    fix r bd x r' bd' assume r: "readDynamicBlockSection r bd n = Ok (x, r', bd')"
    then have lim: "\<not> of_nat (rb_limit bd) < n" by (auto simp: readDynamicBlockSection_def split: if_splits)
    show "\<exists>k. k + 4 \<le> length r \<and> r' = drop (k + 4) r \<and> bd' = bd\<lparr>rb_bytesRead := rb_bytesRead bd + k\<rparr> \<and>
        (\<forall>s L. rb_limit bd \<le> L \<and> L < 2 ^ 32 \<longrightarrow>
          readDynamicBlockSection (r @ s) (bd\<lparr>rb_limit := L\<rparr>) n = Ok (x, r' @ s, bd'\<lparr>rb_limit := L\<rparr>))"
      using r lim mono [OF lim] body by (simp add: readDynamicBlockSection_def regular_def)
  qed
qed

lemma regular_map:
  assumes "regular e f" shows "regular e (\<lambda>r bd. bind_result (f r bd) (\<lambda>(x, r, bd). Ok (h x, r, bd)))"
  using regular_bind [OF assms regular_return, of e] by simp

lemma regular_readFixed: "regular 4 (readFixedSection rd)"
  unfolding readFixedSection_def [abs_def]
  by (rule regular_bind [OF regular_readChunk] regular_checksum [of 0, simplified] regular_return | simp)+

lemma regular_readSections: "regular 16 (readSections rd)"
  unfolding readSections_def [abs_def] readReceiptsSection_def readStateDiffsSection_def readTransactionsSection_def
  by (rule regular_bind [OF regular_readFixed] regular_bind [OF regular_map [OF regular_readDynamic]] regular_return | simp)+

subsection \<open>Blocks that are read\<close>

lemma decode_Ok:
  assumes "decode c rd r = Ok (b, n, r')"
  defines "bh \<equiv> loadBlockHeader (take 24 r)"
  shows "n = totalSize bh + 44" "n \<le> length r" "r' = drop n r" "bh_magic bh = blockMagic" "bh_version bh = blockVersion"
    "totalSize bh + 24 \<le> maxBlockSize c" "crc32c (take (n - 4) r) = load32 (take 4 (drop (n - 4) r))"
    "\<exists>bd. readSections rd (drop 24 r) (newReadingBudget (totalSize bh + 24) 24) = Ok (b, drop (n - 4) r, bd) \<and> rb_bytesRead bd = totalSize bh + 24"
proof -
  let ?bd = "newReadingBudget (totalSize bh + 24) 24"
  obtain r1 bd where d: "24 \<le> length r" "bh_magic bh = blockMagic" "bh_version bh = blockVersion" "totalSize bh + 24 \<le> maxBlockSize c"
    "readSections rd (drop 24 r) ?bd = Ok (b, r1, bd)" "rb_bytesRead bd = rb_limit bd" "4 \<le> length r1"
    "load32 (take 4 r1) = crc32c (take (length r - length r1) r)" "n = rb_bytesRead bd + 20" "r' = drop 4 r1"
    using assms(1) unfolding bh_def
    by (auto simp: decode_def blockHeader_read_def readFull_Ok readUint32_def blockHeaderSize_def checksumSize_def Let_def
        newReadingBudget_def split: if_splits)
  obtain k where k: "k + 16 \<le> length (drop 24 r)" "r1 = drop (k + 16) (drop 24 r)" "bd = ?bd\<lparr>rb_bytesRead := rb_bytesRead ?bd + k\<rparr>"
    using regular_consumes [OF regular_readSections d(5)] .
  have "k = totalSize bh" using d(6) k(3) by (simp add: newReadingBudget_def)
  have n: "n = totalSize bh + 44" using d(9) k(3) \<open>k = totalSize bh\<close> by (simp add: newReadingBudget_def)
  have r1: "r1 = drop (n - 4) r" unfolding k(2) n \<open>k = totalSize bh\<close> by (simp add: add.commute)
  show "n = totalSize bh + 44" "bh_magic bh = blockMagic" "bh_version bh = blockVersion" "totalSize bh + 24 \<le> maxBlockSize c" by fact+
  show le: "n \<le> length r" using n r1 d(7) by simp
  show "r' = drop n r" unfolding d(10) r1 using n by (simp add: add.commute)
  show "crc32c (take (n - 4) r) = load32 (take 4 (drop (n - 4) r))" using d(8) le unfolding r1 by simp
  show "\<exists>bd. readSections rd (drop 24 r) ?bd = Ok (b, drop (n - 4) r, bd) \<and> rb_bytesRead bd = totalSize bh + 24"
    using d(5) k(3) \<open>k = totalSize bh\<close> unfolding r1 [symmetric] by (simp add: newReadingBudget_def)
qed

lemma decode_append:
  assumes "decode c rd r = Ok (b, n, r')" "maxBlockSize c < 2 ^ 32"
  shows "decode c rd (r @ s) = Ok (b, n, r' @ s)"
proof -
  note D = decode_Ok [OF assms(1)]
  let ?bh = "loadBlockHeader (take 24 r)" and ?bd = "newReadingBudget (totalSize (loadBlockHeader (take 24 r)) + 24) 24"
  obtain bd where bd: "readSections rd (drop 24 r) ?bd = Ok (b, drop (n - 4) r, bd)" "rb_bytesRead bd = totalSize ?bh + 24" using D(8) by blast
  obtain k where k: "bd = ?bd\<lparr>rb_bytesRead := rb_bytesRead ?bd + k\<rparr>"
    using regular_consumes [OF regular_readSections bd(1)] .
  have "readSections rd (drop 24 r @ s) ?bd = Ok (b, drop (n - 4) r @ s, bd)"
    using regular_extend [OF regular_readSections bd(1), of "rb_limit ?bd" s] k D(6) assms(2) by (simp add: newReadingBudget_def)
  moreover have "24 \<le> length r" "take 24 (r @ s) = take 24 r" "drop 24 (r @ s) = drop 24 r @ s" using D(1,2) by simp_all
  moreover have "take 4 (drop (n - 4) r @ s) = take 4 (drop (n - 4) r)" "take (n - 4) (r @ s) = take (n - 4) r"
    "drop 4 (drop (n - 4) r) = drop n r" using D(1,2) by (simp_all add: add.commute)
  ultimately show ?thesis using D(1-7) bd(2) k
    by (simp add: decode_def blockHeader_read_def readFull_def readUint32_def blockHeaderSize_def checksumSize_def newReadingBudget_def Let_def)
qed

lemma load32_take: "load32 (take 4 bs) = load32 bs"
  by (simp add: load32_def)

lemma load32_drop_update:
  assumes "i < 4 * n" "4 * n \<le> length bs" "j < n" "bs ! i \<noteq> x"
  shows "load32 (drop (4 * j) (bs[i := x])) = load32 (drop (4 * j) bs) \<longleftrightarrow> j \<noteq> i div 4"
proof (cases "j = i div 4")
  case False
  then have "take 4 (drop (4 * j) (bs[i := x])) = take 4 (drop (4 * j) bs)"
    by (intro nth_equalityI) (auto simp: nth_list_update)
  then show ?thesis using False load32_take by metis
next
  case True
  then have i: "i = 4 * j + i mod 4" "i mod 4 < 4" by auto
  have len: "length (take 4 (drop (4 * j) (bs[i := x]))) = 4" "length (take 4 (drop (4 * j) bs)) = 4" using assms(2,3) by auto
  have "take 4 (drop (4 * j) (bs[i := x])) ! (i mod 4) \<noteq> take 4 (drop (4 * j) bs) ! (i mod 4)"
    using i assms by (simp add: nth_list_update)
  then have "take 4 (drop (4 * j) (bs[i := x])) \<noteq> take 4 (drop (4 * j) bs)" by metis
  then have "load32 (take 4 (drop (4 * j) (bs[i := x]))) \<noteq> load32 (take 4 (drop (4 * j) bs))" using load32_inject len by blast
  then show ?thesis using True by (simp add: load32_take)
qed

text \<open>Changing one byte of a block header changes its magic, its version or its total size.\<close>

lemma header_corruption:
  assumes "i < 24" "length bs = 24" "bs ! i \<noteq> x"
  defines "h \<equiv> loadBlockHeader bs" and "h' \<equiv> loadBlockHeader (bs[i := x])"
  shows "bh_magic h \<noteq> bh_magic h' \<or> bh_version h \<noteq> bh_version h' \<or> totalSize h \<noteq> totalSize h'"
proof -
  have eq: "load32 (drop (4 * j) (bs[i := x])) = load32 (drop (4 * j) bs) \<longleftrightarrow> j \<noteq> i div 4" if "j < 6" for j
    using load32_drop_update [of i 6 bs j x] assms that by simp
  note words = eq [of 0] eq [of 1] eq [of 2] eq [of 3] eq [of 4] eq [of 5]
  have "i div 4 < 6" using assms(1) by simp
  then consider "i div 4 = 0" | "i div 4 = 1" | "i div 4 = 2" | "i div 4 = 3" | "i div 4 = 4" | "i div 4 = 5" by linarith
  then show ?thesis
    by cases (use words in \<open>auto simp: h_def h'_def loadBlockHeader_def loadWords_def totalSize_def Let_def upt_rec word_unat_eq_iff [symmetric]\<close>)
qed

subsection \<open>Counts\<close>

lemma readChunks_length: "readChunks n r bd = Ok (cs, r', bd') \<Longrightarrow> length cs = n"
  by (induction n arbitrary: r bd cs) auto

lemma readDynamic_length: "readDynamicBlockSection r bd n = Ok (cs, r', bd') \<Longrightarrow> length cs = unat n"
  by (auto simp: readDynamicBlockSection_def dest: readChunks_length split: if_splits)

lemma readSections_countsMatch: "readSections rd r bd = Ok (b, r', bd') \<Longrightarrow> countsMatch b"
  by (auto simp: readSections_def readReceiptsSection_def readStateDiffsSection_def readTransactionsSection_def
      countsMatch_def txHeader_def rsHeader_def dest!: readDynamic_length)

lemma decode_truncated:
  assumes "block_at b h" "readsBack rd w b" "countsMatch b" "encode c w b = (bs, Ok n)" "maxBlockSize c < 2 ^ 32" "k < length bs"
  shows "decode c rd (take k bs) \<noteq> Ok x"
proof
  obtain b' n' r' where x: "x = (b', n', r')" by (cases x) auto
  assume "decode c rd (take k bs) = Ok x"
  then have "decode c rd (take k bs @ drop k bs) = Ok (b', n', r' @ drop k bs)" unfolding x by (rule decode_append [OF _ assms(5)])
  moreover have "decode c rd (bs @ []) = Ok (b, length bs, [])" using decode_encode [OF assms(1-5)] by blast
  ultimately show False using assms(6) by simp
qed

subsection \<open>Corrupted bytes\<close>

lemma decode_limits_agree:
  assumes "readSections rd r (newReadingBudget l 24) = Ok (b, r1, bd1)" "rb_bytesRead bd1 = l"
    and "readSections rd r (newReadingBudget m 24) = Ok (c, r2, bd2)" "rb_bytesRead bd2 = m" "l < 2 ^ 32" "m < 2 ^ 32"
  shows "l = m"
proof -
  have *: "readSections rd r (newReadingBudget L 24) = Ok (b, r1, bd1\<lparr>rb_limit := L\<rparr>)"
    if "readSections rd r (newReadingBudget l 24) = Ok (b, r1, bd1)" "l \<le> L" "L < 2 ^ 32" for l b r1 bd1 L
    using regular_extend [OF regular_readSections that(1), of L "[]"] that(2,3) by (simp add: newReadingBudget_def)
  have "bd1\<lparr>rb_limit := max l m\<rparr> = bd2\<lparr>rb_limit := max l m\<rparr>"
    using * [OF assms(1), of "max l m"] * [OF assms(3), of "max l m"] assms(5,6) by simp
  then have "rb_bytesRead (bd1\<lparr>rb_limit := max l m\<rparr>) = rb_bytesRead (bd2\<lparr>rb_limit := max l m\<rparr>)" by simp
  then show ?thesis using assms(2,4) by simp
qed

lemma decode_corrupted:
  assumes "decode c rd r = Ok (b, n, r')" "i < n" "r ! i \<noteq> x" "maxBlockSize c < 2 ^ 32"
  shows "decode c rd (r[i := x]) \<noteq> Ok y"
proof
  let ?s = "r[i := x]"
  obtain b' n' r'' where y: "y = (b', n', r'')" by (cases y) auto
  assume "decode c rd ?s = Ok y"
  note D = decode_Ok [OF assms(1)] and E = decode_Ok [OF this [unfolded y]]
  let ?h = "loadBlockHeader (take 24 r)" and ?h' = "loadBlockHeader (take 24 ?s)"
  have ir: "i < length r" using D(2) assms(2) by simp
  have total: "totalSize ?h' = totalSize ?h"
  proof (cases "i < 24")
    case True
    then have same: "drop 24 ?s = drop 24 r" by simp
    obtain bd bd' where "readSections rd (drop 24 r) (newReadingBudget (totalSize ?h + 24) 24) = Ok (b, drop (n - 4) r, bd)"
      "rb_bytesRead bd = totalSize ?h + 24"
      "readSections rd (drop 24 r) (newReadingBudget (totalSize ?h' + 24) 24) = Ok (b', drop (n' - 4) ?s, bd')"
      "rb_bytesRead bd' = totalSize ?h' + 24"
      using D(8) E(8) unfolding same by blast
    from decode_limits_agree [OF this] D(6) E(6) assms(4) show ?thesis by simp
  qed simp
  then have n: "n' = n" using D(1) E(1) by simp
  show False
  proof (cases "i < 24")
    case True
    have "take 24 ?s = (take 24 r)[i := x]" "length (take 24 r) = 24" "take 24 r ! i \<noteq> x"
      using True assms(3) D(1,2) by (simp_all add: take_update_swap)
    then show False using header_corruption [OF True, of "take 24 r" x] D(4,5) E(4,5) total by simp
  next
    case False
    show False
    proof (cases "i < n - 4")
      case True
      have "crc32c ((take (n - 4) r)[i := x]) = crc32c (take (n - 4) r)"
        using D(7) E(7) True unfolding n by (simp add: take_update_swap)
      then show False using crc32c_single_byte [of i "take (n - 4) r" x] True ir assms(3) D(1,2) by simp
    next
      case 2: False
      let ?sum = "take 4 (drop (n - 4) r)"
      have "load32 (take 4 (drop (n - 4) ?s)) = load32 ?sum" using D(7) E(7) 2 unfolding n by simp
      then have "take 4 (drop (n - 4) ?s) = ?sum" using D(1,2) by (intro load32_inject) simp_all
      then have "take 4 (drop (n - 4) ?s) ! (i - (n - 4)) = ?sum ! (i - (n - 4))" by simp
      then show False using 2 assms(2,3) ir D(1) by simp
    qed
  qed
qed

subsection \<open>A concrete block\<close>

definition demo_readers :: Readers where
  "demo_readers = \<lparr>rd_transactionsBlockHeader = (\<lambda>bs. txHeader (demo_block (ucast (hd bs)))),
     rd_resultsBlockHeader = (\<lambda>bs. rsHeader (demo_block (ucast (hd bs)))),
     rd_receipt = (\<lambda>bs. \<lparr>rcpt_txhash = bs, rcpt_executionResult = EXECUTION_RESULT_SUCCESS, rcpt_outputArgumentArray = [], rcpt_outputEventsArray = []\<rparr>),
     rd_contractStateDiff = (\<lambda>bs. \<lparr>csd_contractName = bs, csd_stateDiffs = []\<rparr>),
     rd_signedTransaction = (\<lambda>bs. \<lparr>stx_transaction = \<lparr>tx_protocolVersion = 1, tx_virtualChainId = 42, tx_timestamp = ucast (hd bs), tx_signer = NoSigner,
        tx_contractName = tl bs, tx_methodName = [], tx_inputArgumentArray = []\<rparr>, stx_signature = []\<rparr>)\<rparr>"

lemma demo_readsBack: "(ucast (ucast h :: 8 word) :: 64 word) = h \<Longrightarrow> readsBack demo_readers demo_wire (demo_block h)"
  by (simp add: readsBack_def demo_readers_def demo_wire_def demo_block_def txHeader_def rsHeader_def)

lemma demo_countsMatch: "countsMatch (demo_block h)"
  by (simp add: countsMatch_def demo_block_def txHeader_def rsHeader_def)

lemma demo_blockBytes: "blockBytes demo_wire (demo_block h) = 22"
  by (simp add: blockBytes_def demo_block_def demo_wire_def fixedMessages_def transactionReceiptsToMessages_def diffsToMessages_def
      transactionsToMessages_def)

definition demo_bytes :: "BlockHeight \<Rightarrow> bytes" where
  "demo_bytes h = blockPrefix demo_wire (demo_block h) @ store32 (crc32c (blockPrefix demo_wire (demo_block h)))"

lemma demo_encode: "encode (newCodec 1000) demo_wire (demo_block h) = (demo_bytes h, Ok 66)" "length (demo_bytes h) = 66"
  using length_blockPrefix [OF demo_block_at, of demo_wire h] totalSize_headerOf [OF demo_block_at, of demo_wire h]
  by (simp_all add: encode_eq [OF demo_block_at] demo_bytes_def demo_blockBytes newCodec_def)

subsection \<open>Properties\<close>

text \<open>
  C35. Decoding gives back the block that was encoded, reports as many bytes as encoding did, and leaves what
  follows in the file, for a block whose headers hold the right counts.
\<close>

theorem decode_encode_roundtrip:
  assumes "block_at b h" "readsBack rd w b" "countsMatch b" "encode (newCodec m) w b = (bs, Ok n)"
  shows "n = length bs \<and> decode (newCodec m) rd (bs @ rest) = Ok (b, n, rest)"
proof -
  have "maxBlockSize (newCodec m) < 2 ^ 32" using unsigned_less [of m] by (simp add: newCodec_def)
  from decode_encode [OF assms this] show ?thesis by auto
qed

theorem decode_encode_roundtrip_witness:
  "decode (newCodec 1000) demo_readers (demo_bytes 1 @ [9]) = Ok (demo_block 1, 66, [9])"
  using decode_encode_roundtrip [OF demo_block_at demo_readsBack demo_countsMatch demo_encode(1), of 1 "[9]"] by simp

text \<open>
  C36. A change of any one byte of an encoded block is found: the block is no longer decoded, whatever follows
  it in the file.
\<close>

theorem single_byte_corruption_detected:
  assumes "block_at b h" "readsBack rd w b" "countsMatch b" "encode (newCodec m) w b = (bs, Ok n)"
    and "i < length bs" "bs ! i \<noteq> x"
  shows "decode (newCodec m) rd (bs[i := x] @ rest) \<noteq> Ok y"
proof -
  have m: "maxBlockSize (newCodec m) < 2 ^ 32" using unsigned_less [of m] by (simp add: newCodec_def)
  have "decode (newCodec m) rd (bs @ rest) = Ok (b, length bs, rest)" using decode_encode [OF assms(1-4) m] by blast
  from decode_corrupted [OF this _ _ m, of i x] assms(5,6) show ?thesis by (simp add: nth_append list_update_append)
qed

theorem single_byte_corruption_detected_witness:
  "decode (newCodec 1000) demo_readers ((demo_bytes 1)[30 := demo_bytes 1 ! 30 + 1] @ [9]) \<noteq> Ok (demo_block 1, 66, [9])"
  using single_byte_corruption_detected [OF demo_block_at demo_readsBack demo_countsMatch demo_encode(1), of 1 30] by (simp add: demo_encode(2))

text \<open>
  The counts in the headers are not checked by consensus, and neither when a block is written. A block
  with a wrong count is written without an error and cannot be read back.
\<close>

lemma miscounted_block_unreadable:
  assumes "block_at b h" "\<not> countsMatch b" "length (blockPrefix w b) \<le> maxBlockSize c"
  shows "\<exists>bs n. encode c w b = (bs, Ok n) \<and> (\<forall>rest k r. decode c rd (bs @ rest) \<noteq> Ok (b, k, r))"
proof -
  have "decode c rd r0 \<noteq> Ok (b, k, r)" for r0 k r
    using decode_Ok(8) [of c rd r0 b k r] readSections_countsMatch assms(2) by blast
  then show ?thesis using encode_eq [OF assms(1)] assms(3) by auto
qed

end
