(* ===== verification/File_Persistence.thy ===== *)
theory File_Persistence
  imports Block_Codec_Correct
begin

text \<open>
  The persistence of blocks in a file, \<open>adapter/filesystem\<close>: the index of heights, opening the file, writing
  the next block and scanning. The file is its bytes with the position of the writer. The operating system
  takes as many bytes of a write as \<open>dk_room\<close> says, all when it is \<open>None\<close>.
\<close>

subsection \<open>The index\<close>

record blockHeightIndex =
  bhi_heightOffset :: "BlockHeight \<rightharpoonup> nat"
  bhi_firstBlockInTsBucket :: "32 word \<rightharpoonup> BlockHeight"
  bhi_topBlock :: "BlockPairContainer option"
  bhi_topBlockHeight :: BlockHeight

definition newBlockHeightIndex :: "nat \<Rightarrow> blockHeightIndex" where
  "newBlockHeightIndex firstBlockOffset =
     \<lparr>bhi_heightOffset = [1 \<mapsto> firstBlockOffset], bhi_firstBlockInTsBucket = Map.empty, bhi_topBlock = None, bhi_topBlockHeight = 0\<rparr>"

definition fetchTopOffset :: "blockHeightIndex \<Rightarrow> (storageErr, nat) result" where
  "fetchTopOffset i = (case bhi_heightOffset i (bhi_topBlockHeight i + 1) of None \<Rightarrow> Panic | Some offset \<Rightarrow> Ok offset)"

definition fetchBlockOffset :: "blockHeightIndex \<Rightarrow> BlockHeight \<Rightarrow> (storageErr, nat) result" where
  "fetchBlockOffset i height = (case bhi_heightOffset i height of None \<Rightarrow> Panic | Some offset \<Rightarrow> Ok offset)"

definition minuteToNanoRatio :: "64 word" where
  "minuteToNanoRatio = 60 * 1000 * 1000 * 1000"

definition blockTsBucketKey :: "TimestampNano \<Rightarrow> 32 word" where
  "blockTsBucketKey nano = ucast (nano div minuteToNanoRatio)"

text \<open>The loop over the buckets counts in 32 bits; it would not end if the last bucket were the largest number.\<close>

partial_function (option) bucketLoop :: "(32 word \<rightharpoonup> BlockHeight) \<Rightarrow> 32 word \<Rightarrow> 32 word \<Rightarrow> BlockHeight option option" where
  "bucketLoop m toBucket b =
     (if b \<le> toBucket
      then (case m b of Some h \<Rightarrow> Some (Some h) | None \<Rightarrow> bucketLoop m toBucket (b + 1))
      else Some None)"

definition getEarliestTxBlockInBucketForTsRange :: "blockHeightIndex \<Rightarrow> TimestampNano \<Rightarrow> TimestampNano \<Rightarrow> BlockHeight option option" where
  "getEarliestTxBlockInBucketForTsRange i rangeStart rangeEnd =
     bucketLoop (bhi_firstBlockInTsBucket i) (blockTsBucketKey rangeEnd) (blockTsBucketKey rangeStart)"

definition appendBlock :: "blockHeightIndex \<Rightarrow> nat \<Rightarrow> nat \<Rightarrow> BlockPairContainer \<Rightarrow> (storageErr, blockHeightIndex) result" where
  "appendBlock i prevTopOffset newTopOffset newBlock =
     bind_result (bp_rs newBlock) (\<lambda>(_, rh).
       let newBlockHeight = rbh_blockHeight rh;
           numTxReceipts = rbh_numTransactionReceipts rh;
           blockTs = rbh_timestamp rh
       in case bhi_heightOffset i (bhi_topBlockHeight i + 1) of
            None \<Rightarrow> Err ErrIO
          | Some currentTopOffset \<Rightarrow>
              if currentTopOffset \<noteq> prevTopOffset then Err ErrIO
              else let i = i\<lparr>bhi_topBlock := Some newBlock, bhi_topBlockHeight := newBlockHeight,
                             bhi_heightOffset := (bhi_heightOffset i)(newBlockHeight + 1 \<mapsto> newTopOffset)\<rparr>
                   in Ok (if numTxReceipts > 0 \<and> bhi_firstBlockInTsBucket i (blockTsBucketKey blockTs) = None
                          then i\<lparr>bhi_firstBlockInTsBucket := (bhi_firstBlockInTsBucket i)(blockTsBucketKey blockTs \<mapsto> newBlockHeight)\<rparr>
                          else i))"

subsection \<open>Opening the file\<close>

record FilePersistence =
  fp_codec :: codec
  fp_index :: blockHeightIndex
  fp_tracker :: BlockTracker
  fp_file :: bytes
  fp_pos :: nat
  fp_sizeOnDisk :: int

datatype openErr = OpenHeader codecErr | OpenNetworkType | OpenChainId | OpenIndex storageErr

record FileConfig =
  fc_maxBlockSize :: "32 word"
  fc_networkType :: "32 word"
  fc_virtualChainId :: "32 word"

text \<open>An empty file gets a header first; the offset of the first block is where reading the header ends.\<close>

definition writeNewFileHeader :: "FileConfig \<Rightarrow> bytes" where
  "writeNewFileHeader conf = blocksFileHeader_write (newBlocksFileHeader (fc_networkType conf) (fc_virtualChainId conf))"

definition validateFileHeader :: "FileConfig \<Rightarrow> bytes \<Rightarrow> (openErr, bytes \<times> nat) result" where
  "validateFileHeader conf file0 =
     (let file = (if length file0 = 0 then writeNewFileHeader conf else file0)
      in case blocksFileHeader_read file of
           Ok (header, rest) \<Rightarrow>
             if bfh_networkType header \<noteq> fc_networkType conf then Err OpenNetworkType
             else if bfh_chainId header \<noteq> fc_virtualChainId conf then Err OpenChainId
             else Ok (file, length file - length rest)
         | Err e \<Rightarrow> Err (OpenHeader e)
         | Panic \<Rightarrow> Panic)"

lemma decode_shorter: "decode c rd r = Ok (b, n, r') \<Longrightarrow> length r' < length r"
  using decode_Ok(1-3) [of c rd r b n r'] by simp

text \<open>The index covers the file up to its end or to the first record that is not a block.\<close>

function buildIndexLoop :: "codec \<Rightarrow> Readers \<Rightarrow> bytes \<Rightarrow> nat \<Rightarrow> blockHeightIndex \<Rightarrow> (storageErr, blockHeightIndex) result" where
  "buildIndexLoop c rd r offset bhIndex =
     (case decode c rd r of
        Ok (aBlock, blockSize, r') \<Rightarrow>
          bind_result (appendBlock bhIndex offset (offset + blockSize) aBlock) (buildIndexLoop c rd r' (offset + blockSize))
      | Err _ \<Rightarrow> Ok bhIndex
      | Panic \<Rightarrow> Panic)"
  by pat_completeness auto
termination
  by (relation "measure (\<lambda>(_, _, r, _, _). length r)") (auto dest: decode_shorter)

declare buildIndexLoop.simps [simp del]

definition buildIndex :: "codec \<Rightarrow> Readers \<Rightarrow> bytes \<Rightarrow> nat \<Rightarrow> (storageErr, blockHeightIndex) result" where
  "buildIndex c rd r firstBlockOffset = buildIndexLoop c rd r firstBlockOffset (newBlockHeightIndex firstBlockOffset)"

definition NewFileBlockPersistence :: "FileConfig \<Rightarrow> Readers \<Rightarrow> bytes \<Rightarrow> (openErr, FilePersistence) result" where
  "NewFileBlockPersistence conf rd file0 =
     (let c = newCodec (fc_maxBlockSize conf) in
      bind_result (validateFileHeader conf file0) (\<lambda>(file, blocksOffset).
        case buildIndex c rd (drop blocksOffset file) blocksOffset of
          Ok bhIndex \<Rightarrow>
            (case fetchTopOffset bhIndex of
               Ok nextBlockOffset \<Rightarrow>
                 Ok \<lparr>fp_codec = c, fp_index = bhIndex, fp_tracker = NewBlockTracker (bhi_topBlockHeight bhIndex) 5,
                     fp_file = file, fp_pos = nextBlockOffset, fp_sizeOnDisk = int (length file)\<rparr>
             | Err e \<Rightarrow> Err (OpenIndex e)
             | Panic \<Rightarrow> Panic)
        | Err e \<Rightarrow> Err (OpenIndex e)
        | Panic \<Rightarrow> Panic))"

subsection \<open>Writing\<close>

definition writeAt :: "bytes \<Rightarrow> nat \<Rightarrow> bytes \<Rightarrow> bytes" where
  "writeAt file pos bs = take pos (file @ replicate (pos - length file) 0) @ bs @ drop (pos + length bs) file"

record Disk =
  dk_room :: "nat option"
  dk_syncOk :: bool

definition goodDisk :: Disk where
  "goodDisk = \<lparr>dk_room = None, dk_syncOk = True\<rparr>"

definition writeBlock :: "Wire \<Rightarrow> Disk \<Rightarrow> FilePersistence \<Rightarrow> BlockPairContainer \<Rightarrow> FilePersistence \<times> (storageErr, nat) result" where
  "writeBlock w disk f blockPair =
     (let (bs, r) = encode (fp_codec f) w blockPair;
          n = (case dk_room disk of None \<Rightarrow> length bs | Some k \<Rightarrow> min k (length bs));
          f = f\<lparr>fp_file := writeAt (fp_file f) (fp_pos f) (take n bs), fp_pos := fp_pos f + n\<rparr>
      in if n < length bs then (f, Err ErrIO)
         else case r of
                Ok written \<Rightarrow> (f, if dk_syncOk disk then Ok written else Err ErrIO)
              | Err _ \<Rightarrow> (f, Err ErrIO)
              | Panic \<Rightarrow> (f, Panic))"

definition fs_WriteNextBlock ::
  "Wire \<Rightarrow> Disk \<Rightarrow> FilePersistence \<Rightarrow> BlockPairContainer \<Rightarrow> FilePersistence \<times> (storageErr, bool \<times> BlockHeight) result" where
  "fs_WriteNextBlock w disk f blockPair =
     (case bp_rs blockPair :: (storageErr, _) result of
        Ok (_, rh) \<Rightarrow>
          let bh = rbh_blockHeight rh;
              currentTop = bhi_topBlockHeight (fp_index f)
          in if bh \<noteq> currentTop + 1 then (f, Ok (False, currentTop))
             else (case writeBlock w disk f blockPair of
                     (f, Ok n) \<Rightarrow>
                       (case bind_result (fetchBlockOffset (fp_index f) bh) (\<lambda>startPos.
                               appendBlock (fp_index f) startPos (startPos + n) blockPair) of
                          Ok bhIndex \<Rightarrow>
                            let f = f\<lparr>fp_index := bhIndex\<rparr> in
                            (case IncrementTo (fp_tracker f) bh of
                               Ok t \<Rightarrow> (f\<lparr>fp_tracker := t, fp_sizeOnDisk := fp_sizeOnDisk f + int n\<rparr>, Ok (True, bh))
                             | _ \<Rightarrow> (f, Panic))
                        | Err e \<Rightarrow> (f, Err e)
                        | Panic \<Rightarrow> (f, Panic))
                   | (f, Err e) \<Rightarrow> (f, Err e)
                   | (f, Panic) \<Rightarrow> (f, Panic))
      | _ \<Rightarrow> (f, Panic))"

subsection \<open>Reading\<close>

text \<open>One page: the blocks read, what is left, and whether the file ended.\<close>

fun readPage :: "codec \<Rightarrow> Readers \<Rightarrow> nat \<Rightarrow> bytes \<Rightarrow> (storageErr, BlockPairContainer list \<times> bytes \<times> bool) result" where
  "readPage c rd 0 r = Ok ([], r, False)"
| "readPage c rd (Suc n) r =
     (case decode c rd r of
        Ok (aBlock, _, r') \<Rightarrow> bind_result (readPage c rd n r') (\<lambda>(page, r'', eof). Ok (aBlock # page, r'', eof))
      | Err IoEOF \<Rightarrow> Ok ([], r, True)
      | Err IoUnexpectedEOF \<Rightarrow> Ok ([], r, True)
      | Err _ \<Rightarrow> Err ErrIO
      | Panic \<Rightarrow> Panic)"

text \<open>The scan goes on to the end of the file and not to the top block. With an empty page size it does not end.\<close>

partial_function (option) fs_scanLoop ::
  "'c CursorFunc \<Rightarrow> codec \<Rightarrow> Readers \<Rightarrow> nat \<Rightarrow> bytes \<Rightarrow> 'c \<Rightarrow> (storageErr, 'c) result option" where
  "fs_scanLoop f c rd pageSize r s =
     (case readPage c rd pageSize r of
        Ok (page, r', eof) \<Rightarrow>
          if page \<noteq> []
          then (case bp_rs (page ! 0) :: (storageErr, _) result of
                  Ok (_, rh) \<Rightarrow>
                    let (s', wantNext) = f (rbh_blockHeight rh) page s
                    in if wantNext \<and> \<not> eof then fs_scanLoop f c rd pageSize r' s' else Some (Ok s')
                | _ \<Rightarrow> Some Panic)
          else if \<not> eof then fs_scanLoop f c rd pageSize r' s else Some (Ok s)
      | Err e \<Rightarrow> Some (Err e)
      | Panic \<Rightarrow> Some Panic)"

definition fs_ScanBlocks ::
  "Readers \<Rightarrow> FilePersistence \<Rightarrow> BlockHeight \<Rightarrow> 8 word \<Rightarrow> 'c CursorFunc \<Rightarrow> 'c \<Rightarrow> (storageErr, 'c) result option" where
  "fs_ScanBlocks rd f from pageSize cursor s =
     (if bhi_topBlockHeight (fp_index f) < from then Some (Err ErrUnknownHeight)
      else case fetchBlockOffset (fp_index f) from of
             Ok initialOffset \<Rightarrow> fs_scanLoop cursor (fp_codec f) rd (unat pageSize) (drop initialOffset (fp_file f)) s
           | Err e \<Rightarrow> Some (Err e)
           | Panic \<Rightarrow> Some Panic)"

definition fs_GetLastBlockHeight :: "FilePersistence \<Rightarrow> BlockHeight" where
  "fs_GetLastBlockHeight f = bhi_topBlockHeight (fp_index f)"

definition fs_GetLastBlock :: "FilePersistence \<Rightarrow> (storageErr, BlockPairContainer option) result" where
  "fs_GetLastBlock f = Ok (bhi_topBlock (fp_index f))"

definition getBlockAtHeight :: "Readers \<Rightarrow> FilePersistence \<Rightarrow> BlockHeight \<Rightarrow> (storageErr, BlockPairContainer option) result option" where
  "getBlockAtHeight rd f height = fs_ScanBlocks rd f height 1 (\<lambda>h page bpc. (Some (page ! 0), False)) None"

text \<open>A scan by single blocks always ends, so the case \<open>None\<close> below does not arise.\<close>

definition ended :: "('e, 'a) result option \<Rightarrow> ('e, 'a) result" where
  "ended r = (case r of Some x \<Rightarrow> x | None \<Rightarrow> Panic)"

definition fs_GetTransactionsBlock :: "Readers \<Rightarrow> FilePersistence \<Rightarrow> BlockHeight \<Rightarrow> (storageErr, TransactionsBlockContainer option) result" where
  "fs_GetTransactionsBlock rd f height =
     bind_result (ended (getBlockAtHeight rd f height)) (\<lambda>bpc. case bpc of None \<Rightarrow> Panic | Some b \<Rightarrow> Ok (bp_transactionsBlock b))"

definition fs_GetResultsBlock :: "Readers \<Rightarrow> FilePersistence \<Rightarrow> BlockHeight \<Rightarrow> (storageErr, ResultsBlockContainer option) result" where
  "fs_GetResultsBlock rd f height =
     bind_result (ended (getBlockAtHeight rd f height)) (\<lambda>bpc. case bpc of None \<Rightarrow> Panic | Some b \<Rightarrow> Ok (bp_resultsBlock b))"

definition byTxCursor :: "Sha256 \<Rightarrow> TimestampNano \<Rightarrow> TimestampNano \<Rightarrow> (BlockPairContainer \<times> nat) option CursorFunc" where
  "byTxCursor txHash minBlockTs maxBlockTs h page found =
     (let b = page ! 0;
          ts = rbh_timestamp (rsHeader b) in
      if ts > maxBlockTs then (found, False)
      else if ts < minBlockTs then (found, True)
      else case findReceipt txHash 0 (rbc_transactionReceipts (the (bp_resultsBlock b))) of
             Some i \<Rightarrow> (Some (b, i), False)
           | None \<Rightarrow> (found, True))"

definition fs_GetBlockByTx ::
  "Readers \<Rightarrow> FilePersistence \<Rightarrow> Sha256 \<Rightarrow> TimestampNano \<Rightarrow> TimestampNano \<Rightarrow> (storageErr, (BlockPairContainer \<times> nat) option) result" where
  "fs_GetBlockByTx rd f txHash minBlockTs maxBlockTs =
     (case getEarliestTxBlockInBucketForTsRange (fp_index f) minBlockTs maxBlockTs of
        Some (Some scanFrom) \<Rightarrow> ended (fs_ScanBlocks rd f scanFrom 1 (byTxCursor txHash minBlockTs maxBlockTs) None)
      | Some None \<Rightarrow> Ok None
      | None \<Rightarrow> Panic)"

text \<open>The operations the service uses. An error of a write loses what the write has done, which is another state.\<close>

definition filePersistence :: "Wire \<Rightarrow> Readers \<Rightarrow> FilePersistence BlockPersistence" where
  "filePersistence w rd =
     \<lparr>bpp_WriteNextBlock = (\<lambda>f b. case fs_WriteNextBlock w goodDisk f b of
          (f', Ok (added, h)) \<Rightarrow> Ok (f', added, h) | (_, Err e) \<Rightarrow> Err e | (_, Panic) \<Rightarrow> Panic),
      bpp_GetLastBlock = fs_GetLastBlock, bpp_GetTransactionsBlock = fs_GetTransactionsBlock rd,
      bpp_GetResultsBlock = fs_GetResultsBlock rd, bpp_GetBlockByTx = fs_GetBlockByTx rd, bpp_GetBlockTracker = fp_tracker\<rparr>"

end
