(* ===== verification/File_Persistence_Correct.thy ===== *)
theory File_Persistence_Correct
  imports File_Persistence
begin

text \<open>
  The file persistence implements the contract of a persistence, and opening a file recovers every block that
  was written whole, also after a crash in the middle of a write.
\<close>

subsection \<open>The file of a chain\<close>

definition blockFile :: "Wire \<Rightarrow> BlockPairContainer \<Rightarrow> bytes" where
  "blockFile w b = blockPrefix w b @ store32 (crc32c (blockPrefix w b))"

definition chainFile :: "Wire \<Rightarrow> BlockPairContainer list \<Rightarrow> bytes" where
  "chainFile w bs = concat (map (blockFile w) bs)"

lemma chainFile_simps [simp]:
  "chainFile w [] = []" "chainFile w (b # bs) = blockFile w b @ chainFile w bs" "chainFile w (bs @ cs) = chainFile w bs @ chainFile w cs"
  by (simp_all add: chainFile_def)

definition storable :: "codec \<Rightarrow> Readers \<Rightarrow> Wire \<Rightarrow> BlockPairContainer \<Rightarrow> bool" where
  "storable c rd w b \<longleftrightarrow> readsBack rd w b \<and> countsMatch b \<and> length (blockPrefix w b) \<le> maxBlockSize c"

lemma encode_storable:
  assumes "block_at b h" "storable c rd w b"
  shows "encode c w b = (blockFile w b, Ok (44 + totalSize (headerOf w b)))"
  using assms by (simp add: encode_eq [OF assms(1)] storable_def blockFile_def)

lemma decode_blockFile:
  assumes "block_at b h" "storable c rd w b" "maxBlockSize c < 2 ^ 32"
  shows "decode c rd (blockFile w b @ r) = Ok (b, length (blockFile w b), r)" "44 + totalSize (headerOf w b) = length (blockFile w b)"
  using decode_encode [OF assms(1) _ _ encode_storable [OF assms(1,2)] assms(3)] assms(2) by (auto simp: storable_def)

subsection \<open>The index of a chain\<close>

definition indexes :: "Wire \<Rightarrow> nat \<Rightarrow> blockHeightIndex \<Rightarrow> BlockPairContainer list \<Rightarrow> bool" where
  "indexes w start i bs \<longleftrightarrow>
     (\<forall>k \<le> length bs. bhi_heightOffset i (of_nat k + 1) = Some (start + length (chainFile w (take k bs)))) \<and>
     bhi_topBlock i = (if bs = [] then None else Some (last bs)) \<and> bhi_topBlockHeight i = of_nat (length bs)"

lemma indexes_new: "indexes w start (newBlockHeightIndex start) []"
  by (simp add: indexes_def newBlockHeightIndex_def)

lemma indexes_append:
  assumes "indexes w start i bs" "block_at b (of_nat (length bs) + 1)" "length bs + 1 < 2 ^ 63"
  shows "\<exists>i'. appendBlock i (start + length (chainFile w bs)) (start + length (chainFile w bs) + length (blockFile w b)) b = Ok i' \<and>
    indexes w start i' (bs @ [b])"
proof -
  let ?o = "start + length (chainFile w bs)"
  note b = block_at_simps(2,4) [OF assms(2)]
  have top: "bhi_heightOffset i (bhi_topBlockHeight i + 1) = Some ?o" using assms(1) by (simp add: indexes_def)
  obtain i' where i': "appendBlock i ?o (?o + length (blockFile w b)) b = Ok i'"
    "bhi_heightOffset i' = (bhi_heightOffset i)(of_nat (length bs) + 1 + 1 \<mapsto> ?o + length (blockFile w b))"
    "bhi_topBlock i' = Some b" "bhi_topBlockHeight i' = of_nat (length bs) + 1"
    using top by (auto simp: appendBlock_def b Let_def)
  have "bhi_heightOffset i' (of_nat k + 1) = Some (start + length (chainFile w (take k (bs @ [b]))))" if "k \<le> Suc (length bs)" for k
  proof (cases "k = Suc (length bs)")
    case True
    then show ?thesis using i'(2) by (simp add: add.commute)
  next
    case False
    then have k: "k \<le> length bs" using that by simp
    have "(of_nat (k + 1) :: 64 word) \<noteq> of_nat (length bs + 2)" using height_eq [of "k + 1" "length bs + 2"] k assms(3) by simp
    then have "(of_nat k + 1 :: 64 word) \<noteq> of_nat (length bs) + 1 + 1" by (simp add: add.commute)
    then show ?thesis using i'(2) k assms(1) by (simp add: indexes_def)
  qed
  then have "indexes w start i' (bs @ [b])" using i'(3,4) by (simp add: indexes_def add.commute)
  then show ?thesis using i'(1) by blast
qed

lemma buildIndexLoop_chain:
  assumes "indexes w start i bs" "chain_at (bs @ cs)" "\<And>b. b \<in> set cs \<Longrightarrow> storable c rd w b" "maxBlockSize c < 2 ^ 32"
    and "\<And>x. decode c rd r \<noteq> Ok x" "decode c rd r \<noteq> Panic"
  shows "\<exists>i'. buildIndexLoop c rd (chainFile w cs @ r) (start + length (chainFile w bs)) i = Ok i' \<and> indexes w start i' (bs @ cs)"
  using assms(1-3)
proof (induction cs arbitrary: i bs)
  case Nil
  then show ?case using assms(5,6) by (subst buildIndexLoop.simps) (auto split: result.splits)
next
  case (Cons b cs)
  have at: "block_at b (of_nat (length bs) + 1)" and len: "length bs + 1 < 2 ^ 63"
    using Cons.prems(2) by (auto simp: chain_at_def nth_append dest: spec [of _ "length bs"])
  obtain i' where i': "appendBlock i (start + length (chainFile w bs)) (start + length (chainFile w bs) + length (blockFile w b)) b = Ok i'"
    "indexes w start i' (bs @ [b])" using indexes_append [OF Cons.prems(1) at len] by blast
  have d: "decode c rd (blockFile w b @ chainFile w cs @ r) = Ok (b, length (blockFile w b), chainFile w cs @ r)"
    using decode_blockFile(1) [OF at _ assms(4)] Cons.prems(3) by simp
  have "\<exists>i''. buildIndexLoop c rd (chainFile w cs @ r) (start + length (chainFile w (bs @ [b]))) i' = Ok i'' \<and> indexes w start i'' ((bs @ [b]) @ cs)"
    using Cons.prems by (intro Cons.IH [OF i'(2)]) auto
  then show ?case using d i'(1) by (subst buildIndexLoop.simps) (simp add: add.assoc)
qed

subsection \<open>The persistence\<close>

definition fs_repr :: "FileConfig \<Rightarrow> Wire \<Rightarrow> Readers \<Rightarrow> FilePersistence \<Rightarrow> BlockPairContainer list \<Rightarrow> bool" where
  "fs_repr conf w rd p bs \<longleftrightarrow> chain_at bs \<and> fp_codec p = newCodec (fc_maxBlockSize conf) \<and> (\<forall>b \<in> set bs. storable (fp_codec p) rd w b) \<and>
     (\<exists>junk. fp_file p = writeNewFileHeader conf @ chainFile w bs @ junk) \<and> fp_pos p = 20 + length (chainFile w bs) \<and>
     indexes w 20 (fp_index p) bs \<and> bt_currentHeight (fp_tracker p) = of_nat (length bs)"

lemma maxBlockSize_newCodec: "maxBlockSize (newCodec m) < 2 ^ 32"
  using unsigned_less [of m] by (simp add: newCodec_def)

lemma length_writeNewFileHeader [simp]: "length (writeNewFileHeader conf) = 20"
  by (simp add: writeNewFileHeader_def blocksFileHeader_write_def Let_def)

lemma fs_write_next:
  assumes "fs_repr conf w rd p bs" "storable (fp_codec p) rd w b" "block_at b (of_nat (length bs) + 1)" "length bs + 1 < 2 ^ 63"
  shows "\<exists>p'. fs_WriteNextBlock w goodDisk p b = (p', Ok (True, of_nat (length bs) + 1)) \<and> fs_repr conf w rd p' (bs @ [b])"
proof -
  note b = block_at_simps(2,4) [OF assms(3)]
  let ?head = "writeNewFileHeader conf"
  obtain junk where p: "fp_file p = ?head @ chainFile w bs @ junk" "fp_pos p = 20 + length (chainFile w bs)"
    "indexes w 20 (fp_index p) bs" and max: "maxBlockSize (fp_codec p) < 2 ^ 32"
    using assms(1) maxBlockSize_newCodec by (auto simp: fs_repr_def)
  let ?o = "20 + length (chainFile w bs)"
  obtain i' where i': "appendBlock (fp_index p) ?o (?o + length (blockFile w b)) b = Ok i'" "indexes w 20 i' (bs @ [b])"
    using indexes_append [OF p(3) assms(3,4)] by blast
  have top: "bhi_topBlockHeight (fp_index p) = of_nat (length bs)" "bhi_heightOffset (fp_index p) (of_nat (length bs) + 1) = Some ?o"
    using p(3) by (auto simp: indexes_def)
  obtain t where t: "IncrementTo (fp_tracker p) (of_nat (length bs) + 1) = Ok t" "bt_currentHeight t = of_nat (length bs) + 1"
    using assms(1) by (auto simp: IncrementTo_def fs_repr_def)
  let ?file = "?head @ chainFile w (bs @ [b]) @ drop (length (blockFile w b)) junk"
  let ?p = "p\<lparr>fp_file := ?file, fp_pos := ?o + length (blockFile w b)\<rparr>"
  have "writeAt (fp_file p) ?o (blockFile w b) = ?file" by (simp add: writeAt_def p(1))
  then have "writeBlock w goodDisk p b = (?p, Ok (length (blockFile w b)))"
    using encode_storable [OF assms(3,2)] decode_blockFile(2) [OF assms(3,2) max] p(2) by (simp add: writeBlock_def goodDisk_def)
  then have "fs_WriteNextBlock w goodDisk p b =
      (?p\<lparr>fp_index := i', fp_tracker := t, fp_sizeOnDisk := fp_sizeOnDisk p + int (length (blockFile w b))\<rparr>, Ok (True, of_nat (length bs) + 1))"
    using i'(1) t(1) top by (simp add: fs_WriteNextBlock_def b fetchBlockOffset_def)
  moreover have "chain_at (bs @ [b])" using assms(1,3,4) by (auto simp: fs_repr_def intro: chain_at_snoc)
  ultimately show ?thesis using assms(1,2) i'(2) t(2) by (fastforce simp: fs_repr_def add.commute)
qed

lemma fs_scan_first:
  assumes "fs_repr conf w rd p bs" "i < length bs"
  shows "getBlockAtHeight rd p (of_nat i + 1) = Some (Ok (Some (bs ! i)))"
proof -
  obtain junk where p: "fp_file p = writeNewFileHeader conf @ chainFile w bs @ junk" "indexes w 20 (fp_index p) bs"
    and max: "maxBlockSize (fp_codec p) < 2 ^ 32" and at: "block_at (bs ! i) (of_nat i + 1)" and len: "length bs < 2 ^ 63"
    and st: "storable (fp_codec p) rd w (bs ! i)"
    using assms maxBlockSize_newCodec by (auto simp: fs_repr_def chain_at_def)
  note b = block_at_simps(2) [OF at]
  have split: "chainFile w bs = chainFile w (take i bs) @ blockFile w (bs ! i) @ chainFile w (drop (Suc i) bs)"
    using id_take_nth_drop [OF assms(2)] by (metis chainFile_simps(2,3))
  let ?o = "20 + length (chainFile w (take i bs))"
  have off: "bhi_heightOffset (fp_index p) (of_nat i + 1) = Some ?o" using p(2) assms(2) by (simp add: indexes_def)
  have "drop ?o (fp_file p) = blockFile w (bs ! i) @ chainFile w (drop (Suc i) bs) @ junk" by (simp add: p(1) split)
  then have d: "decode (fp_codec p) rd (drop ?o (fp_file p)) = Ok (bs ! i, length (blockFile w (bs ! i)), chainFile w (drop (Suc i) bs) @ junk)"
    using decode_blockFile(1) [OF at st max] by simp
  have "\<not> (of_nat (length bs) :: 64 word) < of_nat i + 1" using height_less [of "length bs" "i + 1"] assms(2) len by (simp add: add.commute)
  then show ?thesis using off d p(2)
    by (simp add: getBlockAtHeight_def fs_ScanBlocks_def fetchBlockOffset_def indexes_def, subst fs_scanLoop.simps) (simp add: b)
qed

interpretation fs: block_persistence "filePersistence w rd" "fs_repr conf w rd" "\<lambda>p b. storable (fp_codec p) rd w b" for conf w rd
proof
  fix p bs b assume repr: "fs_repr conf w rd p bs"
  show "chain_at bs" using repr by (simp add: fs_repr_def)
  obtain start where ix: "indexes w start (fp_index p) bs" using repr by (auto simp: fs_repr_def)
  show "bpp_GetLastBlock (filePersistence w rd) p = Ok (if bs = [] then None else Some (last bs))"
    using ix by (simp add: filePersistence_def fs_GetLastBlock_def indexes_def)
  show "bpp_GetTransactionsBlock (filePersistence w rd) p (of_nat i + 1) = Ok (bp_transactionsBlock (bs ! i))"
    "bpp_GetResultsBlock (filePersistence w rd) p (of_nat i + 1) = Ok (bp_resultsBlock (bs ! i))" if "i < length bs" for i
    using fs_scan_first [OF repr that]
    by (simp_all add: filePersistence_def fs_GetTransactionsBlock_def fs_GetResultsBlock_def ended_def)
  show "bpp_WriteNextBlock (filePersistence w rd) p b = Ok (p, False, of_nat (length bs))"
    if "block_at b h" "h \<noteq> of_nat (length bs) + 1" for h
    using that(2) ix by (simp add: filePersistence_def fs_WriteNextBlock_def block_at_simps(2,4) [OF that(1)] indexes_def)
  show "\<exists>p'. bpp_WriteNextBlock (filePersistence w rd) p b = Ok (p', True, of_nat (length bs) + 1) \<and> fs_repr conf w rd p' (bs @ [b])"
    if "storable (fp_codec p) rd w b" "block_at b (of_nat (length bs) + 1)" "length bs + 1 < 2 ^ 63"
    using fs_write_next [OF repr that] by (auto simp: filePersistence_def)
qed

subsection \<open>Opening\<close>

lemma bind_result_Panic_iff: "bind_result r f = Panic \<longleftrightarrow> r = Panic \<or> (\<exists>x. r = Ok x \<and> f x = Panic)"
  by (cases r) auto

lemma readChunk_not_Panic: "readUint32 r \<noteq> Panic" "readChunk r bd \<noteq> Panic"
  by (auto simp: readUint32_def readFull_def readChunk_def Let_def)

lemma readChunks_not_Panic: "readChunks n r bd \<noteq> Panic"
  by (induction n arbitrary: r bd) (auto simp: bind_result_Panic_iff readChunk_not_Panic)

lemma readDynamic_not_Panic: "readDynamicBlockSection r bd n \<noteq> Panic"
  by (auto simp: readDynamicBlockSection_def bind_result_Panic_iff readChunks_not_Panic readChunk_not_Panic)

lemma readSections_not_Panic: "readSections rd r bd \<noteq> Panic"
  by (auto simp: readSections_def readFixedSection_def readReceiptsSection_def readStateDiffsSection_def readTransactionsSection_def
      bind_result_Panic_iff readDynamic_not_Panic readChunk_not_Panic)

lemma decode_not_Panic: "decode c rd r \<noteq> Panic"
  by (auto simp: decode_def blockHeader_read_def readFull_def Let_def bind_result_Panic_iff readSections_not_Panic readChunk_not_Panic
      split: if_splits)

lemma file_header_read:
  "blocksFileHeader_read (writeNewFileHeader conf @ r) = Ok (newBlocksFileHeader (fc_networkType conf) (fc_virtualChainId conf), r)"
proof -
  let ?h = "newBlocksFileHeader (fc_networkType conf) (fc_virtualChainId conf)"
  let ?bs = "concat (map store32 [bfh_magic ?h, bfh_fileVersion ?h, bfh_networkType ?h, bfh_chainId ?h])"
  have d: "drop (4 + n) (store32 v @ r) = drop n r" for n v r by (simp add: add.commute)
  from d [of 0] d [of 4] d [of 8] have
    "drop 4 (store32 v @ r) = r" "drop 8 (store32 v @ r) = drop 4 r" "drop 12 (store32 v @ r) = drop 8 r" for v r by simp_all
  then have "loadWords 4 ?bs = [bfh_magic ?h, bfh_fileVersion ?h, bfh_networkType ?h, bfh_chainId ?h]"
    by (simp add: loadWords_def upt_rec)
  moreover have "writeNewFileHeader conf @ r = ?bs @ store32 (crc32c ?bs) @ r"
    by (simp add: writeNewFileHeader_def blocksFileHeader_write_def Let_def)
  moreover have "readFull 16 (?bs @ store32 (crc32c ?bs) @ r) = Ok (?bs, store32 (crc32c ?bs) @ r)" by (rule readFull_append) simp
  ultimately show ?thesis
    by (simp add: blocksFileHeader_read_def Let_def newBlocksFileHeader_def del: concat.simps list.map)
qed

lemma open_chain:
  assumes "chain_at bs" "\<And>b. b \<in> set bs \<Longrightarrow> storable (newCodec (fc_maxBlockSize conf)) rd w b"
    and "\<And>x. decode (newCodec (fc_maxBlockSize conf)) rd r \<noteq> Ok x"
  shows "\<exists>p. NewFileBlockPersistence conf rd (writeNewFileHeader conf @ chainFile w bs @ r) = Ok p \<and> fs_repr conf w rd p bs"
proof -
  let ?file = "writeNewFileHeader conf @ chainFile w bs @ r" and ?c = "newCodec (fc_maxBlockSize conf)"
  have ne: "writeNewFileHeader conf \<noteq> []" using length_writeNewFileHeader [of conf] by fastforce
  have v: "validateFileHeader conf ?file = Ok (?file, 20)"
    using file_header_read [of conf "chainFile w bs @ r"] ne by (simp add: validateFileHeader_def newBlocksFileHeader_def Let_def)
  obtain i where i: "buildIndexLoop ?c rd (chainFile w bs @ r) (20 + length (chainFile w [])) (newBlockHeightIndex 20) = Ok i" "indexes w 20 i ([] @ bs)"
    using buildIndexLoop_chain [OF indexes_new, of bs ?c rd w r 20] assms decode_not_Panic maxBlockSize_newCodec by auto
  have "fetchTopOffset i = Ok (20 + length (chainFile w bs))" using i(2) by (simp add: fetchTopOffset_def indexes_def)
  then show ?thesis using v i assms(1,2)
    by (simp add: NewFileBlockPersistence_def buildIndex_def fs_repr_def NewBlockTracker_def indexes_def Let_def)
qed

subsection \<open>A concrete file\<close>

definition demo_conf :: FileConfig where
  "demo_conf = \<lparr>fc_maxBlockSize = 80, fc_networkType = 7, fc_virtualChainId = 42\<rparr>"

lemma demo_storable:
  "(ucast (ucast h :: 8 word) :: 64 word) = h \<Longrightarrow> storable (newCodec (fc_maxBlockSize demo_conf)) demo_readers demo_wire (demo_block h)"
  using length_blockPrefix [OF demo_block_at, of demo_wire h]
  by (simp add: storable_def demo_readsBack demo_countsMatch demo_blockBytes newCodec_def demo_conf_def)

lemma demo_chain_at: "chain_at [demo_block 1, demo_block 2]"
  using demo_block_at [of 1] demo_block_at [of 2] by (auto simp: chain_at_def less_Suc_eq)

lemma demo_open:
  "\<exists>p. NewFileBlockPersistence demo_conf demo_readers (writeNewFileHeader demo_conf @ chainFile demo_wire [demo_block 1, demo_block 2]) = Ok p \<and>
    fs_repr demo_conf demo_wire demo_readers p [demo_block 1, demo_block 2]"
proof -
  have st: "storable (newCodec (fc_maxBlockSize demo_conf)) demo_readers demo_wire b" if "b \<in> set [demo_block 1, demo_block 2]" for b
    using that demo_storable [of 1] demo_storable [of 2] by auto
  have "decode c demo_readers [] \<noteq> Ok x" for c x by (auto simp: decode_def blockHeader_read_def readFull_def blockHeaderSize_def)
  from open_chain [OF demo_chain_at st this] show ?thesis by simp
qed

subsection \<open>Properties\<close>

text \<open>
  C38. A node that crashed while it was writing a block, after any number of its bytes, opens its file with
  exactly the blocks before it, ready to write the next one in its place.
\<close>

theorem crash_recovery:
  assumes "chain_at bs" "\<And>b. b \<in> set bs \<Longrightarrow> storable (newCodec (fc_maxBlockSize conf)) rd w b"
    and "block_at b h" "storable (newCodec (fc_maxBlockSize conf)) rd w b" "k < length (blockFile w b)"
  shows "\<exists>p. NewFileBlockPersistence conf rd (writeNewFileHeader conf @ chainFile w bs @ take k (blockFile w b)) = Ok p \<and>
    fs_repr conf w rd p bs"
proof (rule open_chain [OF assms(1,2)])
  show "decode (newCodec (fc_maxBlockSize conf)) rd (take k (blockFile w b)) \<noteq> Ok x" for x
    using decode_truncated [OF assms(3) _ _ encode_storable [OF assms(3,4)] maxBlockSize_newCodec assms(5)] assms(4)
    by (simp add: storable_def)
qed

theorem crash_recovery_witness:
  "\<exists>p. NewFileBlockPersistence demo_conf demo_readers
      (writeNewFileHeader demo_conf @ chainFile demo_wire [demo_block 1, demo_block 2] @ take 50 (blockFile demo_wire (demo_block 3))) = Ok p \<and>
    fs_repr demo_conf demo_wire demo_readers p [demo_block 1, demo_block 2]"
proof (rule crash_recovery [OF demo_chain_at _ demo_block_at])
  show "50 < length (blockFile demo_wire (demo_block 3))"
    using length_blockPrefix [OF demo_block_at, of demo_wire 3] by (simp add: blockFile_def demo_blockBytes)
qed (use demo_storable in auto)

text \<open>
  C39. When a block is refused because it is too large, its bytes stay in the file and the next block is
  written behind them. The node reports that block as written, yet it can neither read it back nor find it when
  the file is opened again.
\<close>

theorem block_after_failed_write_lost:
  assumes "fs_repr conf w rd p bs" "length bs + 1 < 2 ^ 63"
    and "block_at big (of_nat (length bs) + 1)" "blockBytes w big < 2 ^ 32" "maxBlockSize (fp_codec p) < blockBytes w big + 24"
    and "block_at b (of_nat (length bs) + 1)" "storable (fp_codec p) rd w b"
  shows "\<exists>p1 p2 p3. fs_WriteNextBlock w goodDisk p big = (p1, Err ErrIO) \<and>
    fs_WriteNextBlock w goodDisk p1 b = (p2, Ok (True, of_nat (length bs) + 1)) \<and>
    fs_GetTransactionsBlock rd p2 (of_nat (length bs) + 1) = Err ErrIO \<and>
    NewFileBlockPersistence conf rd (fp_file p2) = Ok p3 \<and> fs_repr conf w rd p3 bs"
proof -
  let ?o = "20 + length (chainFile w bs)" and ?big = "blockPrefix w big" and ?c = "fp_codec p" and ?h = "of_nat (length bs) + 1 :: 64 word"
  obtain junk where p: "fp_file p = writeNewFileHeader conf @ chainFile w bs @ junk" "fp_pos p = ?o" "indexes w 20 (fp_index p) bs"
    "?c = newCodec (fc_maxBlockSize conf)" "chain_at bs" "\<And>b. b \<in> set bs \<Longrightarrow> storable ?c rd w b" "bt_currentHeight (fp_tracker p) = of_nat (length bs)"
    using assms(1) by (auto simp: fs_repr_def)
  note B = block_at_simps(2,4) [OF assms(3)] and b = block_at_simps(2,4) [OF assms(6)]
  have top: "bhi_topBlockHeight (fp_index p) = of_nat (length bs)" "bhi_heightOffset (fp_index p) ?h = Some ?o"
    using p(3) by (auto simp: indexes_def)
  have lenB: "length ?big = 40 + blockBytes w big" by (rule length_blockPrefix [OF assms(3)])
  let ?p1 = "p\<lparr>fp_file := writeNewFileHeader conf @ chainFile w bs @ ?big @ drop (length ?big) junk, fp_pos := ?o + length ?big\<rparr>"
  have "encode ?c w big = (?big, Err BlockTooLarge)" using lenB assms(5) by (simp add: encode_eq [OF assms(3)])
  then have w1: "fs_WriteNextBlock w goodDisk p big = (?p1, Err ErrIO)"
    by (simp add: fs_WriteNextBlock_def B top writeBlock_def goodDisk_def writeAt_def p(1,2) Let_def)
  let ?rest = "blockFile w b @ drop (length (blockFile w b)) (drop (length ?big) junk)"
  let ?file = "writeNewFileHeader conf @ chainFile w bs @ ?big @ ?rest"
  obtain i' where i': "appendBlock (fp_index p) ?o (?o + length (blockFile w b)) b = Ok i'" "indexes w 20 i' (bs @ [b])"
    using indexes_append [OF p(3) assms(6,2)] by blast
  obtain t where t: "IncrementTo (fp_tracker p) ?h = Ok t" using p(7) by (auto simp: IncrementTo_def)
  obtain p2 where w2: "fs_WriteNextBlock w goodDisk ?p1 b = (p2, Ok (True, ?h))" "fp_file p2 = ?file" "fp_index p2 = i'" "fp_codec p2 = ?c"
    using encode_storable [OF assms(6,7)] decode_blockFile(2) [OF assms(6,7)] i'(1) t top maxBlockSize_newCodec p(4)
    by (simp add: fs_WriteNextBlock_def b writeBlock_def goodDisk_def writeAt_def fetchBlockOffset_def add.assoc Let_def)
  have total: "totalSize (headerOf w big) = blockBytes w big" by (rule totalSize_headerOf [OF assms(3,4)])
  have d: "decode ?c rd (?big @ x) = Err BlockTooLarge" for x
    using blockHeader_read_write [of "headerOf w big"] total assms(5)
    by (simp add: decode_def blockPrefix_def headerOf_def blockHeaderOf_sizes blockHeaderSize_def newReadingBudget_def Let_def)
  have off: "bhi_heightOffset i' ?h = Some ?o" "\<not> bhi_topBlockHeight i' < ?h"
    using i'(2) by (auto simp: indexes_def add.commute dest: spec [of _ "length bs"])
  have "drop ?o ?file = ?big @ ?rest" by simp
  then have "getBlockAtHeight rd p2 ?h = Some (Err ErrIO)"
    using off d [of ?rest] w2(2-4) by (simp add: getBlockAtHeight_def fs_ScanBlocks_def fetchBlockOffset_def, subst fs_scanLoop.simps) simp
  then have "fs_GetTransactionsBlock rd p2 ?h = Err ErrIO" by (simp add: fs_GetTransactionsBlock_def ended_def)
  moreover have "\<exists>p3. NewFileBlockPersistence conf rd (fp_file p2) = Ok p3 \<and> fs_repr conf w rd p3 bs"
    unfolding w2(2) using d p(4-6) by (intro open_chain) auto
  ultimately show ?thesis using w1 w2(1) by blast
qed

definition demo_big :: BlockPairContainer where
  "demo_big = (demo_block 3)\<lparr>bp_transactionsBlock := Some ((the (bp_transactionsBlock (demo_block 3)))\<lparr>tbc_metadata := replicate 60 0\<rparr>)\<rparr>"

theorem block_after_failed_write_lost_witness:
  "\<exists>p p1 p2. fs_repr demo_conf demo_wire demo_readers p [demo_block 1, demo_block 2] \<and>
    fs_WriteNextBlock demo_wire goodDisk p demo_big = (p1, Err ErrIO) \<and>
    fs_WriteNextBlock demo_wire goodDisk p1 (demo_block 3) = (p2, Ok (True, 3)) \<and>
    fs_GetTransactionsBlock demo_readers p2 3 = Err ErrIO"
proof -
  obtain p where p: "fs_repr demo_conf demo_wire demo_readers p [demo_block 1, demo_block 2]" using demo_open by blast
  then have c: "fp_codec p = newCodec (fc_maxBlockSize demo_conf)" by (simp add: fs_repr_def)
  have at: "block_at demo_big (of_nat (length [demo_block 1, demo_block 2]) + 1)"
    by (simp add: block_at_def demo_big_def demo_block_def)
  have big: "blockBytes demo_wire demo_big = 82"
    by (simp add: blockBytes_def demo_big_def demo_block_def demo_wire_def fixedMessages_def transactionReceiptsToMessages_def
        diffsToMessages_def transactionsToMessages_def)
  have "block_at (demo_block 3) (of_nat (length [demo_block 1, demo_block 2]) + 1)" using demo_block_at [of 3] by simp
  from block_after_failed_write_lost [OF p _ at _ _ this] big c demo_storable [of 3] show ?thesis
    using p by (auto simp: newCodec_def demo_conf_def)
qed

text \<open>
  C40. Over a file, committing a block that the file format can hold does what it does in memory: from stores
  that hold the same chain, both give the same error, or both succeed with the same state of the service and
  stores that again hold the same chain.
\<close>

theorem file_storage_simulates_memory:
  assumes "fs_repr conf w rd f bs" "mem_repr m bs" "storable (fp_codec f) rd w b"
    and "block_at b (of_nat i + 1)" "i + 1 < 2 ^ 63" "validateProtocolVersion_blocks b = Ok ()"
  shows "(\<exists>s' f' m' cs. commitBlock w (filePersistence w rd) s f b notify receiver = Ok (s', f') \<and>
      commitBlock w (memPersistence w) s m b notify receiver = Ok (s', m') \<and> fs_repr conf w rd f' cs \<and> mem_repr m' cs) \<or>
    (\<exists>e. commitBlock w (filePersistence w rd) s f b notify receiver = Err e \<and>
      commitBlock w (memPersistence w) s m b notify receiver = Err e)"
proof -
  consider "i = length bs" | "i < length bs" | "length bs < i" by linarith
  then show ?thesis
  proof cases
    case 1
    then have at: "block_at b (of_nat (length bs) + 1)" "length bs + 1 < 2 ^ 63" using assms(4,5) by simp_all
    show ?thesis
      using fs.commit_next [OF assms(1,3) at assms(6), of w s notify receiver]
        mem.commit_next [OF assms(2) TrueI at assms(6), of w w s notify receiver] by blast
  next
    case 2
    show ?thesis unfolding fs.commit_known [OF assms(1) 2 assms(4,6)] mem.commit_known [OF assms(2) 2 assms(4,6)]
      using assms(1,2) by auto
  next
    case 3
    then show ?thesis using fs.commit_future [OF assms(1) 3 _ assms(4,6)] mem.commit_future [OF assms(2) 3 _ assms(4,6)] assms(5) by simp
  qed
qed

theorem file_storage_simulates_memory_witness:
  "\<exists>f s' f' m' cs. fs_repr demo_conf demo_wire demo_readers f [demo_block 1, demo_block 2] \<and>
     (commitBlock demo_wire (filePersistence demo_wire demo_readers) \<lparr>bs_blockHeight = 2, bs_lastCommittedTime = 0, bs_notified = 0\<rparr>
        f (demo_block 3) True True = Ok (s', f') \<and>
      commitBlock demo_wire (memPersistence demo_wire) \<lparr>bs_blockHeight = 2, bs_lastCommittedTime = 0, bs_notified = 0\<rparr>
        demo_store (demo_block 3) True True = Ok (s', m') \<and> fs_repr demo_conf demo_wire demo_readers f' cs \<and> mem_repr m' cs)"
proof -
  obtain f where f: "fs_repr demo_conf demo_wire demo_readers f [demo_block 1, demo_block 2]" using demo_open by blast
  have m: "mem_repr demo_store [demo_block 1, demo_block 2]" using demo_store_ok by (simp add: mem_repr_def)
  have st: "storable (fp_codec f) demo_readers demo_wire (demo_block 3)" using f demo_storable [of 3] by (simp add: fs_repr_def)
  have at: "block_at (demo_block 3) (of_nat 2 + 1)" using demo_block_at [of 3] by simp
  have ne: "commitBlock demo_wire (memPersistence demo_wire) s demo_store (demo_block 3) True True \<noteq> Err e" for s e
    using mem.commit_next [OF m TrueI _ _ demo_block_version, of 3 demo_wire demo_wire s True True] demo_block_at [of 3] by auto
  show ?thesis
    using file_storage_simulates_memory [OF f m st at _ demo_block_version,
        of "\<lparr>bs_blockHeight = 2, bs_lastCommittedTime = 0, bs_notified = 0\<rparr>" True True] f ne by fastforce
qed

end
