(* ===== verification/Virtual_Machine.thy ===== *)
theory Virtual_Machine
  imports State_Storage Digest "HOL-Library.Monad_Syntax"
begin

text \<open>
  The virtual machine, \<open>services/virtualmachine\<close>. A contract, run by one of the processors, is the calls it
  makes on the SDK and what it does with their answers: the type \<open>contractCode\<close>. Contracts call each other,
  so an execution need not end; it is given a bound on the depth of calls, and \<open>None\<close> means that the bound was
  exceeded. The processors, the Ethereum connector and the encodings are parameters, in the record \<open>VM\<close>.
\<close>

subsection \<open>Transient state\<close>

record keyValuePair =
  kvp_key :: bytes
  kvp_value :: bytes
  kvp_isDirty :: bool

record contractTransientState =
  cts_pairs :: "bytes \<rightharpoonup> keyValuePair"
  cts_keySortOrder :: "bytes list"

record transientState =
  ts_contracts :: "ContractName \<rightharpoonup> contractTransientState"
  ts_contractSortOrder :: "ContractName list"

definition newTransientState :: transientState where
  "newTransientState = \<lparr>ts_contracts = Map.empty, ts_contractSortOrder = []\<rparr>"

definition ts_getValue :: "transientState \<Rightarrow> ContractName \<Rightarrow> bytes \<Rightarrow> bytes option" where
  "ts_getValue t contract key =
     (case ts_contracts t contract of
        None \<Rightarrow> None
      | Some c \<Rightarrow> (case cts_pairs c key of Some pair \<Rightarrow> Some (kvp_value pair) | None \<Rightarrow> None))"

definition ts_setValue :: "transientState \<Rightarrow> ContractName \<Rightarrow> bytes \<Rightarrow> bytes \<Rightarrow> bool \<Rightarrow> transientState" where
  "ts_setValue t contract key value isDirty =
     (let (c, t) = (case ts_contracts t contract of
            Some c \<Rightarrow> (c, t)
          | None \<Rightarrow> (\<lparr>cts_pairs = Map.empty, cts_keySortOrder = []\<rparr>,
                     t\<lparr>ts_contractSortOrder := ts_contractSortOrder t @ [contract]\<rparr>));
          c = (case cts_pairs c key of
            Some pair \<Rightarrow> c\<lparr>cts_pairs := (cts_pairs c)(key \<mapsto> pair\<lparr>kvp_value := value, kvp_isDirty := isDirty\<rparr>)\<rparr>
          | None \<Rightarrow> c\<lparr>cts_pairs := (cts_pairs c)(key \<mapsto> \<lparr>kvp_key = key, kvp_value = value, kvp_isDirty = isDirty\<rparr>),
                      cts_keySortOrder := cts_keySortOrder c @ [key]\<rparr>)
      in t\<lparr>ts_contracts := (ts_contracts t)(contract \<mapsto> c)\<rparr>)"

text \<open>\<open>forDirty\<close> as the list of what the callback is given; a key of the order always has a pair.\<close>

definition forDirty :: "transientState \<Rightarrow> ContractName \<Rightarrow> (bytes \<times> bytes) list" where
  "forDirty t contract =
     (case ts_contracts t contract of
        None \<Rightarrow> []
      | Some c \<Rightarrow> concat (map (\<lambda>key. case cts_pairs c key of
            Some pair \<Rightarrow> if kvp_isDirty pair then [(kvp_key pair, kvp_value pair)] else []
          | None \<Rightarrow> []) (cts_keySortOrder c)))"

definition mergeIntoTransientState :: "transientState \<Rightarrow> transientState \<Rightarrow> transientState" where
  "mergeIntoTransientState t master =
     fold (\<lambda>contractName m. fold (\<lambda>(key, value) m. ts_setValue m contractName key value True) (forDirty t contractName) m)
       (ts_contractSortOrder t) master"

subsection \<open>Calls\<close>

datatype ExecutionAccessScope = ACCESS_SCOPE_READ_ONLY | ACCESS_SCOPE_READ_WRITE
datatype ExecutionPermissionScope = PERMISSION_SCOPE_SYSTEM | PERMISSION_SCOPE_SERVICE

datatype Argument =
    IsTypeUint32Value: Uint32Value (arg_uint32: "32 word")
  | IsTypeUint64Value: Uint64Value (arg_uint64: "64 word")
  | IsTypeStringValue: StringValue (arg_string: bytes)
  | IsTypeBytesValue: BytesValue (arg_bytes: bytes)
  | IsTypeBytesArrayValue: BytesArrayValue (arg_bytesArray: "bytes list")
  | OtherValue bytes

datatype vmErr =
    ErrUnknownOperation | ErrUnknownMethod | ErrInvalidArgs | ErrNoWriteAccess | ErrStateRead storageError | ErrNoValue
  | ErrNotDeployed | ErrCorruptOutput | ErrUnknownProcessor | ErrNoWriteContext | ErrNoContractInfo | ErrContract bytes
  | ErrNoTransactionOrQuery | ErrNotSigned | ErrAddress digestError | ErrCallResult ExecutionResult | ErrConnector bytes
  | ErrInvalidContext | ErrHistoricQuery

record ProcessCallInput =
  pci_contractName :: ContractName
  pci_methodName :: MethodName
  pci_inputArgumentArray :: "Argument list"
  pci_accessScope :: ExecutionAccessScope
  pci_callingPermissionScope :: ExecutionPermissionScope

record ProcessCallOutput =
  pco_outputArgumentArray :: "Argument list option"
  pco_callResult :: ExecutionResult

datatype contractCode =
    Finish ProcessCallOutput "vmErr option"
  | SdkCall string string "Argument list" ExecutionPermissionScope "(vmErr, Argument list) result \<Rightarrow> contractCode"

type_synonym Processor = "ProcessCallInput \<Rightarrow> contractCode"

record Event =
  ev_contractName :: ContractName
  ev_eventName :: bytes
  ev_outputArgumentArray :: bytes

record TransactionOrQuery =
  tq_contractName :: ContractName
  tq_methodName :: MethodName
  tq_rawInputArgumentArray :: bytes
  tq_signer :: Signer

text \<open>The connector to Ethereum; each call is at the time of the block.\<close>

record EthereumConnector =
  eth_CallContract :: "TimestampNano \<Rightarrow> 64 word \<Rightarrow> bytes \<Rightarrow> bytes \<Rightarrow> bytes \<Rightarrow> bytes \<Rightarrow> (vmErr, bytes) result"
  eth_GetTransactionLogs :: "TimestampNano \<Rightarrow> bytes \<Rightarrow> bytes \<Rightarrow> bytes \<Rightarrow> bytes \<Rightarrow> (vmErr, bytes list \<times> 64 word \<times> 32 word) result"
  eth_GetBlockNumber :: "TimestampNano \<Rightarrow> (vmErr, 64 word) result"
  eth_GetBlockNumberByTime :: "TimestampNano \<Rightarrow> TimestampNano \<Rightarrow> (vmErr, 64 word) result"
  eth_GetBlockTime :: "TimestampNano \<Rightarrow> (vmErr, 64 word) result"
  eth_GetBlockTimeByNumber :: "TimestampNano \<Rightarrow> 64 word \<Rightarrow> (vmErr, 64 word) result"

record VM =
  vm_sha :: hasher
  vm_wire :: Wire
  vm_readArguments :: "bytes \<Rightarrow> Argument list"
  vm_rawArgumentArray :: "Argument list \<Rightarrow> bytes"
  vm_rawArguments :: "Argument list \<Rightarrow> bytes"
  vm_rawInputArgumentArrayWithHeader :: "bytes \<Rightarrow> bytes"
  vm_rawEvents :: "Event list \<Rightarrow> bytes"
  vm_eddsaPublicKey :: "Signer \<Rightarrow> (digestError, bytes) result"
  vm_verifyEd25519 :: "bytes \<Rightarrow> bytes \<Rightarrow> bytes \<Rightarrow> bool"
  vm_nativeType :: "32 word"
  vm_native :: Processor
  vm_otherProcessors :: "32 word \<rightharpoonup> Processor"
  vm_hasContractInfo :: "ContractName \<Rightarrow> bool"
  vm_ethereum :: EthereumConnector
  vm_committee :: "64 word \<Rightarrow> NodeAddress list"
  vm_readKeys :: "BlockHeight \<Rightarrow> ContractName \<Rightarrow> bytes list \<Rightarrow> (storageError, (bytes \<times> bytes) list) result"
  vm_lastCommittedBlockInfo :: "storageError + (BlockHeight \<times> TimestampNano \<times> NodeAddress)"

subsection \<open>The execution context\<close>

text \<open>The two layers of transient state are the extension \<open>vmContext\<close>; the rest of the code does not touch them.\<close>

record executionContext =
  ec_contextId :: bytes
  ec_lastCommittedBlockHeight :: BlockHeight
  ec_currentBlockHeight :: BlockHeight
  ec_currentBlockTimestamp :: TimestampNano
  ec_currentBlockProposerAddress :: NodeAddress
  ec_serviceStack :: "ContractName list"
  ec_accessScope :: ExecutionAccessScope
  ec_transactionOrQuery :: "TransactionOrQuery option"
  ec_eventList :: "Event list"

record vmContext = executionContext +
  vc_transientState :: transientState
  vc_batchTransientState :: "transientState option"

definition serviceStackTop :: "'a executionContext_scheme \<Rightarrow> ContractName" where
  "serviceStackTop c = (if length (ec_serviceStack c) = 0 then [] else ec_serviceStack c ! (length (ec_serviceStack c) - 1))"

definition serviceStackPush :: "ContractName \<Rightarrow> 'a executionContext_scheme \<Rightarrow> 'a executionContext_scheme" where
  "serviceStackPush service c = c\<lparr>ec_serviceStack := ec_serviceStack c @ [service]\<rparr>"

definition serviceStackPop :: "'a executionContext_scheme \<Rightarrow> 'a executionContext_scheme" where
  "serviceStackPop c = (if length (ec_serviceStack c) = 0 then c
     else c\<lparr>ec_serviceStack := take (length (ec_serviceStack c) - 1) (ec_serviceStack c)\<rparr>)"

definition serviceStackDepth :: "'a executionContext_scheme \<Rightarrow> nat" where
  "serviceStackDepth c = length (ec_serviceStack c)"

definition serviceStackPeekCurrent :: "'a executionContext_scheme \<Rightarrow> ContractName" where
  "serviceStackPeekCurrent c = (if length (ec_serviceStack c) = 0 then [] else ec_serviceStack c ! (length (ec_serviceStack c) - 1))"

definition serviceStackPeekCaller :: "'a executionContext_scheme \<Rightarrow> ContractName" where
  "serviceStackPeekCaller c = (if length (ec_serviceStack c) \<le> 1 then [] else ec_serviceStack c ! (length (ec_serviceStack c) - 2))"

definition eventListAdd :: "bytes \<Rightarrow> bytes \<Rightarrow> 'a executionContext_scheme \<Rightarrow> 'a executionContext_scheme" where
  "eventListAdd eventName opaqueArgumentArray c =
     c\<lparr>ec_eventList := ec_eventList c @ [\<lparr>ev_contractName = serviceStackPeekCurrent c, ev_eventName = eventName,
         ev_outputArgumentArray = opaqueArgumentArray\<rparr>]\<rparr>"

text \<open>\<open>big.Int.Bytes\<close>: big-endian without leading zeros.\<close>

fun bigBytes :: "nat \<Rightarrow> bytes" where
  "bigBytes n = (if n = 0 then [] else bigBytes (n div 256) @ [of_nat (n mod 256)])"

declare bigBytes.simps [simp del]

record 'c executionContextProvider =
  cp_activeContexts :: "bytes \<rightharpoonup> 'c"
  cp_lastContextIdCounter :: nat
  cp_contextIdSalt :: nat

definition newExecutionContextProvider :: "nat \<Rightarrow> 'c executionContextProvider" where
  "newExecutionContextProvider salt = \<lparr>cp_activeContexts = Map.empty, cp_lastContextIdCounter = 0, cp_contextIdSalt = salt\<rparr>"

definition allocateExecutionContext ::
  "hasher \<Rightarrow> vmContext executionContextProvider \<Rightarrow> BlockHeight \<Rightarrow> BlockHeight \<Rightarrow> TimestampNano \<Rightarrow> NodeAddress \<Rightarrow>
     ExecutionAccessScope \<Rightarrow> TransactionOrQuery option \<Rightarrow> vmContext executionContextProvider \<times> vmContext" where
  "allocateExecutionContext sha cp lastCommittedBlockHeight currentBlockHeight currentBlockTimestamp proposer accessScope transactionOrQuery =
     (let counter = cp_lastContextIdCounter cp + 1;
          newContextId = CalcSha256 sha [bigBytes (cp_contextIdSalt cp), bigBytes counter];
          newContext = \<lparr>ec_contextId = newContextId, ec_lastCommittedBlockHeight = lastCommittedBlockHeight,
            ec_currentBlockHeight = currentBlockHeight, ec_currentBlockTimestamp = currentBlockTimestamp,
            ec_currentBlockProposerAddress = proposer, ec_serviceStack = [], ec_accessScope = accessScope,
            ec_transactionOrQuery = transactionOrQuery, ec_eventList = [],
            vc_transientState = newTransientState, vc_batchTransientState = None\<rparr>
      in (cp\<lparr>cp_lastContextIdCounter := counter, cp_activeContexts := (cp_activeContexts cp)(newContextId \<mapsto> newContext)\<rparr>, newContext))"

definition destroyExecutionContext :: "'c executionContextProvider \<Rightarrow> bytes \<Rightarrow> 'c executionContextProvider" where
  "destroyExecutionContext cp executionContextId = cp\<lparr>cp_activeContexts := (cp_activeContexts cp)(executionContextId := None)\<rparr>"

definition loadExecutionContext :: "'c executionContextProvider \<Rightarrow> bytes \<Rightarrow> 'c option" where
  "loadExecutionContext cp executionContextId = cp_activeContexts cp executionContextId"

subsection \<open>State\<close>

definition handleSdkStateRead :: "VM \<Rightarrow> Argument list \<Rightarrow> vmContext \<Rightarrow> vmContext \<times> (vmErr, bytes) result" where
  "handleSdkStateRead vm args c =
     (if length args \<noteq> 1 \<or> \<not> IsTypeBytesValue (args ! 0) then (c, Err ErrInvalidArgs)
      else let key = arg_bytes (args ! 0);
               currentService = serviceStackTop c in
          (case ts_getValue (vc_transientState c) currentService key of
             Some value \<Rightarrow> (c, Ok value)
           | None \<Rightarrow>
               (case (case vc_batchTransientState c of None \<Rightarrow> None | Some b \<Rightarrow> ts_getValue b currentService key) of
                  Some value \<Rightarrow> (c, Ok value)
                | None \<Rightarrow>
                    (case vm_readKeys vm (ec_lastCommittedBlockHeight c) currentService [key] of
                       Ok stateRecords \<Rightarrow>
                         if length stateRecords = 0 then (c, Err ErrNoValue)
                         else let value = snd (stateRecords ! 0)
                              in (c\<lparr>vc_transientState := ts_setValue (vc_transientState c) currentService key value False\<rparr>, Ok value)
                     | Err e \<Rightarrow> (c, Err (ErrStateRead e))
                     | Panic \<Rightarrow> (c, Panic)))))"

definition handleSdkStateWrite :: "Argument list \<Rightarrow> vmContext \<Rightarrow> vmContext \<times> (vmErr, unit) result" where
  "handleSdkStateWrite args c =
     (if ec_accessScope c \<noteq> ACCESS_SCOPE_READ_WRITE then (c, Err ErrNoWriteAccess)
      else if length args \<noteq> 2 \<or> \<not> IsTypeBytesValue (args ! 0) \<or> \<not> IsTypeBytesValue (args ! 1) then (c, Err ErrInvalidArgs)
      else (c\<lparr>vc_transientState := ts_setValue (vc_transientState c) (serviceStackTop c) (arg_bytes (args ! 0)) (arg_bytes (args ! 1)) True\<rparr>, Ok ()))"

type_synonym 'c stateCall = "string \<Rightarrow> Argument list \<Rightarrow> 'c \<Rightarrow> 'c \<times> (vmErr, Argument list) result"

definition handleSdkStateCall :: "VM \<Rightarrow> vmContext stateCall" where
  "handleSdkStateCall vm methodName args c =
     (if methodName = ''read''
      then (case handleSdkStateRead vm args c of (c, r) \<Rightarrow> (c, bind_result r (\<lambda>value. Ok [BytesValue value])))
      else if methodName = ''write''
      then (case handleSdkStateWrite args c of (c, r) \<Rightarrow> (c, bind_result r (\<lambda>_. Ok [])))
      else (c, Err ErrUnknownMethod))"

subsection \<open>Deployment\<close>

type_synonym ('c, 'r) vmAction = "'c \<Rightarrow> ('c \<times> (vmErr, 'r) result) option"
type_synonym 'c callProcessor = "Processor \<Rightarrow> ProcessCallInput \<Rightarrow> 'c \<Rightarrow> ('c \<times> ProcessCallOutput \<times> vmErr option) option"

definition DEPLOYMENTS_CONTRACT_NAME :: ContractName where "DEPLOYMENTS_CONTRACT_NAME = str ''_Deployments''"
definition METHOD_GET_INFO :: MethodName where "METHOD_GET_INFO = str ''getInfo''"
definition METHOD_DEPLOY_SERVICE :: MethodName where "METHOD_DEPLOY_SERVICE = str ''deployService''"
definition GLOBAL_PRE_ORDER_CONTRACT_NAME :: ContractName where "GLOBAL_PRE_ORDER_CONTRACT_NAME = str ''_GlobalPreOrder''"
definition METHOD_APPROVE :: MethodName where "METHOD_APPROVE = str ''approve''"
definition ELECTIONS_CONTRACT_NAME :: ContractName where "ELECTIONS_CONTRACT_NAME = str ''_Elections''"
definition METHOD_GET_ELECTED_VALIDATORS :: MethodName where "METHOD_GET_ELECTED_VALIDATORS = str ''getElectedValidatorsOrbsAddress''"

text \<open>A call of a processor between pushing the callee on the service stack and the deferred pop.\<close>

definition callOnStack ::
  "'a executionContext_scheme callProcessor \<Rightarrow> Processor \<Rightarrow> ProcessCallInput \<Rightarrow> 'a executionContext_scheme
     \<Rightarrow> ('a executionContext_scheme \<times> ProcessCallOutput \<times> vmErr option) option" where
  "callOnStack call processor input c =
     do {
       (c, output, err) \<leftarrow> call processor input (serviceStackPush (pci_contractName input) c);
       Some (serviceStackPop c, output, err)
     }"

definition callGetInfoOfDeploymentSystemContract ::
  "VM \<Rightarrow> 'a executionContext_scheme callProcessor \<Rightarrow> ContractName \<Rightarrow> ('a executionContext_scheme, 32 word) vmAction" where
  "callGetInfoOfDeploymentSystemContract vm call serviceName c =
     do {
       (c, output, err) \<leftarrow> callOnStack call (vm_native vm)
         \<lparr>pci_contractName = DEPLOYMENTS_CONTRACT_NAME, pci_methodName = METHOD_GET_INFO,
          pci_inputArgumentArray = [StringValue serviceName], pci_accessScope = ec_accessScope c,
          pci_callingPermissionScope = PERMISSION_SCOPE_SERVICE\<rparr> c;
       Some (c, case err of
         Some e \<Rightarrow> Err e
       | None \<Rightarrow> (case pco_outputArgumentArray output of
           None \<Rightarrow> Panic
         | Some out \<Rightarrow> if length out = 0 \<or> \<not> IsTypeUint32Value (out ! 0) then Err ErrCorruptOutput else Ok (arg_uint32 (out ! 0))))
     }"

definition callDeployServiceOfDeploymentSystemContract ::
  "VM \<Rightarrow> 'a executionContext_scheme callProcessor \<Rightarrow> ContractName \<Rightarrow> ('a executionContext_scheme, unit) vmAction" where
  "callDeployServiceOfDeploymentSystemContract vm call serviceName c =
     do {
       (c, output, err) \<leftarrow> callOnStack call (vm_native vm)
         \<lparr>pci_contractName = DEPLOYMENTS_CONTRACT_NAME, pci_methodName = METHOD_DEPLOY_SERVICE,
          pci_inputArgumentArray = [StringValue serviceName, Uint32Value (vm_nativeType vm), BytesValue []],
          pci_accessScope = ec_accessScope c, pci_callingPermissionScope = PERMISSION_SCOPE_SERVICE\<rparr> c;
       Some (c, case err of Some e \<Rightarrow> Err e | None \<Rightarrow> Ok ())
     }"

definition hasDeployableCode :: "VM \<Rightarrow> ContractName \<Rightarrow> (vmErr, unit) result" where
  "hasDeployableCode vm serviceName = (if vm_hasContractInfo vm serviceName then Ok () else Err ErrNoContractInfo)"

definition attemptToAutoDeployPreBuiltNativeContract ::
  "VM \<Rightarrow> 'a executionContext_scheme callProcessor \<Rightarrow> ContractName \<Rightarrow> ('a executionContext_scheme, 32 word) vmAction" where
  "attemptToAutoDeployPreBuiltNativeContract vm call serviceName c =
     (if ec_accessScope c \<noteq> ACCESS_SCOPE_READ_WRITE then Some (c, Err ErrNoWriteContext)
      else case hasDeployableCode vm serviceName of
             Ok _ \<Rightarrow> do {
               (c, r) \<leftarrow> callDeployServiceOfDeploymentSystemContract vm call serviceName c;
               Some (c, bind_result r (\<lambda>_. Ok (vm_nativeType vm)))
             }
           | Err e \<Rightarrow> Some (c, Err e)
           | Panic \<Rightarrow> Some (c, Panic))"

definition vm_processor :: "VM \<Rightarrow> 32 word \<Rightarrow> (vmErr, Processor) result" where
  "vm_processor vm processorType =
     (if processorType = vm_nativeType vm then Ok (vm_native vm)
      else case vm_otherProcessors vm processorType of None \<Rightarrow> Err ErrUnknownProcessor | Some p \<Rightarrow> Ok p)"

definition getServiceDeployment ::
  "VM \<Rightarrow> 'a executionContext_scheme callProcessor \<Rightarrow> ContractName \<Rightarrow> ('a executionContext_scheme, Processor) vmAction" where
  "getServiceDeployment vm call serviceName c =
     do {
       (c, r) \<leftarrow> callGetInfoOfDeploymentSystemContract vm call serviceName c;
       (case r of
          Ok processorType \<Rightarrow> Some (c, vm_processor vm processorType)
        | Panic \<Rightarrow> Some (c, Panic)
        | Err getInfoErr \<Rightarrow>
            if ec_accessScope c \<noteq> ACCESS_SCOPE_READ_WRITE then Some (c, Err getInfoErr)
            else (case hasDeployableCode vm serviceName of
                    Ok _ \<Rightarrow> do {
                      (c, r) \<leftarrow> attemptToAutoDeployPreBuiltNativeContract vm call serviceName c;
                      Some (c, case r of Ok processorType \<Rightarrow> vm_processor vm processorType | Err _ \<Rightarrow> Err getInfoErr | Panic \<Rightarrow> Panic)
                    }
                  | _ \<Rightarrow> Some (c, Err getInfoErr)))
     }"

subsection \<open>The other calls of the SDK\<close>

definition handleSdkServiceCallMethod ::
  "VM \<Rightarrow> 'a executionContext_scheme callProcessor \<Rightarrow> Argument list \<Rightarrow> ExecutionPermissionScope \<Rightarrow> ('a executionContext_scheme, bytes) vmAction" where
  "handleSdkServiceCallMethod vm call args permissionScope c =
     (if length args \<noteq> 3 \<or> \<not> IsTypeStringValue (args ! 0) \<or> \<not> IsTypeStringValue (args ! 1) \<or> \<not> IsTypeBytesValue (args ! 2)
      then Some (c, Err ErrInvalidArgs)
      else let serviceName = arg_string (args ! 0); methodName = arg_string (args ! 1);
               inputArgumentArray = vm_readArguments vm (arg_bytes (args ! 2))
           in do {
            (c, r) \<leftarrow> getServiceDeployment vm call serviceName c;
            (case r of
               Ok processor \<Rightarrow> do {
                 (c, output, err) \<leftarrow> callOnStack call processor
                   \<lparr>pci_contractName = serviceName, pci_methodName = methodName, pci_inputArgumentArray = inputArgumentArray,
                    pci_accessScope = ec_accessScope c, pci_callingPermissionScope = permissionScope\<rparr> c;
                 Some (c, case err of
                   Some e \<Rightarrow> Err e
                 | None \<Rightarrow> (case pco_outputArgumentArray output of None \<Rightarrow> Panic | Some out \<Rightarrow> Ok (vm_rawArgumentArray vm out)))
               }
             | Err e \<Rightarrow> Some (c, Err e)
             | Panic \<Rightarrow> Some (c, Panic))
          })"

definition handleSdkServiceCall ::
  "VM \<Rightarrow> 'a executionContext_scheme callProcessor \<Rightarrow> string \<Rightarrow> Argument list \<Rightarrow> ExecutionPermissionScope \<Rightarrow> ('a executionContext_scheme, Argument list) vmAction" where
  "handleSdkServiceCall vm call methodName args permissionScope c =
     (if methodName = ''callMethod''
      then do {
        (c, r) \<leftarrow> handleSdkServiceCallMethod vm call args permissionScope c;
        Some (c, bind_result r (\<lambda>out. Ok [BytesValue out]))
      }
      else Some (c, Err ErrUnknownMethod))"

definition handleSdkEventsEmitEvent :: "VM \<Rightarrow> Argument list \<Rightarrow> 'a executionContext_scheme \<Rightarrow> 'a executionContext_scheme \<times> (vmErr, unit) result" where
  "handleSdkEventsEmitEvent vm args c =
     (if length args \<noteq> 2 \<or> \<not> IsTypeStringValue (args ! 0) \<or> \<not> IsTypeBytesValue (args ! 1) then (c, Err ErrInvalidArgs)
      else (eventListAdd (arg_string (args ! 0)) (vm_rawArguments vm (vm_readArguments vm (arg_bytes (args ! 1)))) c, Ok ()))"

definition handleSdkEventsCall :: "VM \<Rightarrow> string \<Rightarrow> Argument list \<Rightarrow> 'a executionContext_scheme \<Rightarrow> 'a executionContext_scheme \<times> (vmErr, Argument list) result" where
  "handleSdkEventsCall vm methodName args c =
     (if methodName = ''emitEvent''
      then (case handleSdkEventsEmitEvent vm args c of (c, r) \<Rightarrow> (c, bind_result r (\<lambda>_. Ok [])))
      else (c, Err ErrUnknownMethod))"

definition EmptySignerAddress :: bytes where
  "EmptySignerAddress = replicate 20 0"

definition liftAddress :: "(digestError, bytes) result \<Rightarrow> (vmErr, bytes) result" where
  "liftAddress r = (case r of Ok a \<Rightarrow> Ok a | Err e \<Rightarrow> Err (ErrAddress e) | Panic \<Rightarrow> Panic)"

definition getSignerAddress :: "VM \<Rightarrow> Signer \<Rightarrow> (vmErr, bytes) result" where
  "getSignerAddress vm signer =
     (case signer of
        NoSigner \<Rightarrow> Ok EmptySignerAddress
      | EddsaSigner _ \<Rightarrow> liftAddress (CalcClientAddressOfEd25519Signer (vm_sha vm) (vm_eddsaPublicKey vm) signer)
      | OtherSigner _ \<Rightarrow> Err ErrNotSigned)"

definition handleSdkAddressGetSignerAddress :: "VM \<Rightarrow> Argument list \<Rightarrow> 'a executionContext_scheme \<Rightarrow> (vmErr, bytes) result" where
  "handleSdkAddressGetSignerAddress vm args c =
     (if length args \<noteq> 0 then Err ErrInvalidArgs
      else case ec_transactionOrQuery c of None \<Rightarrow> Err ErrNoTransactionOrQuery | Some tq \<Rightarrow> getSignerAddress vm (tq_signer tq))"

definition handleSdkAddressGetCallerAddress :: "VM \<Rightarrow> Argument list \<Rightarrow> 'a executionContext_scheme \<Rightarrow> (vmErr, bytes) result" where
  "handleSdkAddressGetCallerAddress vm args c =
     (if length args \<noteq> 0 then Err ErrInvalidArgs
      else if serviceStackDepth c = 1 then handleSdkAddressGetSignerAddress vm args c
      else liftAddress (CalcClientAddressOfContract (vm_sha vm) (serviceStackPeekCaller c)))"

definition handleSdkAddressGetOwnAddress :: "VM \<Rightarrow> Argument list \<Rightarrow> 'a executionContext_scheme \<Rightarrow> (vmErr, bytes) result" where
  "handleSdkAddressGetOwnAddress vm args c =
     (if length args \<noteq> 0 then Err ErrInvalidArgs
      else liftAddress (CalcClientAddressOfContract (vm_sha vm) (serviceStackPeekCurrent c)))"

definition handleSdkAddressCall :: "VM \<Rightarrow> string \<Rightarrow> Argument list \<Rightarrow> 'a executionContext_scheme \<Rightarrow> (vmErr, Argument list) result" where
  "handleSdkAddressCall vm methodName args c =
     (let value = (\<lambda>r. bind_result r (\<lambda>v. Ok [BytesValue v])) in
      if methodName = ''getSignerAddress'' then value (handleSdkAddressGetSignerAddress vm args c)
      else if methodName = ''getCallerAddress'' then value (handleSdkAddressGetCallerAddress vm args c)
      else if methodName = ''getOwnAddress'' then value (handleSdkAddressGetOwnAddress vm args c)
      else Err ErrUnknownMethod)"


definition callElectionsSystemContract ::
  "VM \<Rightarrow> 'a executionContext_scheme callProcessor \<Rightarrow> ('a executionContext_scheme, NodeAddress list) vmAction" where
  "callElectionsSystemContract vm call c =
     do {
       (c, output, err) \<leftarrow> callOnStack call (vm_native vm)
         \<lparr>pci_contractName = ELECTIONS_CONTRACT_NAME, pci_methodName = METHOD_GET_ELECTED_VALIDATORS, pci_inputArgumentArray = [],
          pci_accessScope = ACCESS_SCOPE_READ_ONLY, pci_callingPermissionScope = PERMISSION_SCOPE_SERVICE\<rparr> c;
       Some (c, case err of
         Some e \<Rightarrow> Err e
       | None \<Rightarrow>
           if pco_callResult output \<noteq> EXECUTION_RESULT_SUCCESS then Err (ErrCallResult (pco_callResult output))
           else (case pco_outputArgumentArray output of
               None \<Rightarrow> Panic
             | Some out \<Rightarrow>
                 if length out = 0 \<or> \<not> IsTypeBytesValue (out ! 0) then Err ErrCorruptOutput
                 else let joinedAddresses = arg_bytes (out ! 0) in
                   Ok (map (\<lambda>i. take 20 (drop (20 * i) joinedAddresses)) [0..<length joinedAddresses div NODE_ADDRESS_SIZE_BYTES])))
     }"

definition handleSdkEnvGetBlockHeight :: "Argument list \<Rightarrow> 'a executionContext_scheme \<Rightarrow> (vmErr, 64 word) result" where
  "handleSdkEnvGetBlockHeight args c = (if length args \<noteq> 0 then Err ErrInvalidArgs else Ok (ec_currentBlockHeight c))"

definition handleSdkEnvGetBlockTimestamp :: "Argument list \<Rightarrow> 'a executionContext_scheme \<Rightarrow> (vmErr, 64 word) result" where
  "handleSdkEnvGetBlockTimestamp args c = (if length args \<noteq> 0 then Err ErrInvalidArgs else Ok (ec_currentBlockTimestamp c))"

definition handleSdkEnvGetBlockProposerAddress :: "Argument list \<Rightarrow> 'a executionContext_scheme \<Rightarrow> (vmErr, bytes) result" where
  "handleSdkEnvGetBlockProposerAddress args c =
     (if length args \<noteq> 0 then Err ErrInvalidArgs else Ok (ec_currentBlockProposerAddress c))"

text \<open>
  The error of the call to the elections contract is returned beside the committee, which the caller then drops:
  only an empty answer of the contract gives the committee of the provider.
\<close>

definition handleSdkEnvGetBlockCommittee ::
  "VM \<Rightarrow> 'a executionContext_scheme callProcessor \<Rightarrow> Argument list \<Rightarrow> 'a executionContext_scheme
     \<Rightarrow> ('a executionContext_scheme \<times> (bytes list \<times> vmErr option) option) option" where
  "handleSdkEnvGetBlockCommittee vm call args c =
     (if length args \<noteq> 0 then Some (c, Some ([], Some ErrInvalidArgs))
      else do {
        (c, r) \<leftarrow> callElectionsSystemContract vm call c;
        Some (c, case r of
          Ok addresses \<Rightarrow> Some (if length addresses = 0 then vm_committee vm (ec_currentBlockHeight c) else addresses, None)
        | Err e \<Rightarrow> Some (vm_committee vm (ec_currentBlockHeight c), Some e)
        | Panic \<Rightarrow> None)
      })"

definition handleSdkEnvCall ::
  "VM \<Rightarrow> 'a executionContext_scheme callProcessor \<Rightarrow> string \<Rightarrow> Argument list \<Rightarrow> ('a executionContext_scheme, Argument list) vmAction" where
  "handleSdkEnvCall vm call methodName args c =
     (if methodName = ''getBlockHeight''
      then Some (c, bind_result (handleSdkEnvGetBlockHeight args c) (\<lambda>v. Ok [Uint64Value v]))
      else if methodName = ''getBlockTimestamp''
      then Some (c, bind_result (handleSdkEnvGetBlockTimestamp args c) (\<lambda>v. Ok [Uint64Value v]))
      else if methodName = ''getBlockProposerAddress''
      then Some (c, bind_result (handleSdkEnvGetBlockProposerAddress args c) (\<lambda>v. Ok [BytesValue v]))
      else if methodName = ''getBlockCommittee''
      then do {
        (c, r) \<leftarrow> handleSdkEnvGetBlockCommittee vm call args c;
        Some (c, case r of None \<Rightarrow> Panic | Some (committee, err) \<Rightarrow>
          (case err of Some e \<Rightarrow> Err e | None \<Rightarrow> Ok [BytesArrayValue committee]))
      }
      else Some (c, Err ErrUnknownMethod))"

definition handleSdkEthereumCallMethod :: "VM \<Rightarrow> Argument list \<Rightarrow> 'a executionContext_scheme \<Rightarrow> (vmErr, bytes) result" where
  "handleSdkEthereumCallMethod vm args c =
     (if length args \<noteq> 5 \<or> \<not> IsTypeStringValue (args ! 0) \<or> \<not> IsTypeStringValue (args ! 1) \<or> \<not> IsTypeUint64Value (args ! 2) \<or>
         \<not> IsTypeStringValue (args ! 3) \<or> \<not> IsTypeBytesValue (args ! 4)
      then Err ErrInvalidArgs
      else let ethContractAddress = arg_string (args ! 0); jsonAbi = arg_string (args ! 1); ethBlockNumber = arg_uint64 (args ! 2);
               methodName = arg_string (args ! 3); ethereumPackedInputArguments = arg_bytes (args ! 4) in
        eth_CallContract (vm_ethereum vm) (ec_currentBlockTimestamp c) ethBlockNumber ethContractAddress methodName jsonAbi
          ethereumPackedInputArguments)"

text \<open>With no log in the answer the code reports it and then indexes it, a panic.\<close>

definition handleSdkEthereumGetTransactionLog ::
  "VM \<Rightarrow> Argument list \<Rightarrow> 'a executionContext_scheme \<Rightarrow> (vmErr, bytes \<times> 64 word \<times> 32 word) result" where
  "handleSdkEthereumGetTransactionLog vm args c =
     (if length args \<noteq> 4 \<or> \<not> IsTypeStringValue (args ! 0) \<or> \<not> IsTypeStringValue (args ! 1) \<or> \<not> IsTypeStringValue (args ! 2) \<or>
         \<not> IsTypeStringValue (args ! 3)
      then Err ErrInvalidArgs
      else let ethContractAddress = arg_string (args ! 0); jsonAbi = arg_string (args ! 1); ethTxHash = arg_string (args ! 2);
               eventName = arg_string (args ! 3) in
          bind_result (eth_GetTransactionLogs (vm_ethereum vm) (ec_currentBlockTimestamp c) ethContractAddress eventName jsonAbi ethTxHash)
            (\<lambda>(packedOutputs, blockNumber, txindex).
               if length packedOutputs = 0 then Panic else Ok (packedOutputs ! 0, blockNumber, txindex)))"

definition handleSdkEthereumGetBlockNumber :: "VM \<Rightarrow> Argument list \<Rightarrow> 'a executionContext_scheme \<Rightarrow> (vmErr, 64 word) result" where
  "handleSdkEthereumGetBlockNumber vm args c =
     (if length args \<noteq> 0 then Err ErrInvalidArgs else eth_GetBlockNumber (vm_ethereum vm) (ec_currentBlockTimestamp c))"

definition handleSdkEthereumGetBlockNumberByTime :: "VM \<Rightarrow> Argument list \<Rightarrow> 'a executionContext_scheme \<Rightarrow> (vmErr, 64 word) result" where
  "handleSdkEthereumGetBlockNumberByTime vm args c =
     (if length args \<noteq> 1 \<or> \<not> IsTypeUint64Value (args ! 0) then Err ErrInvalidArgs
      else eth_GetBlockNumberByTime (vm_ethereum vm) (ec_currentBlockTimestamp c) (arg_uint64 (args ! 0)))"

definition handleSdkEthereumGetBlockTime :: "VM \<Rightarrow> Argument list \<Rightarrow> 'a executionContext_scheme \<Rightarrow> (vmErr, 64 word) result" where
  "handleSdkEthereumGetBlockTime vm args c =
     (if length args \<noteq> 0 then Err ErrInvalidArgs else eth_GetBlockTime (vm_ethereum vm) (ec_currentBlockTimestamp c))"

definition handleSdkEthereumGetBlockTimeByNumber :: "VM \<Rightarrow> Argument list \<Rightarrow> 'a executionContext_scheme \<Rightarrow> (vmErr, 64 word) result" where
  "handleSdkEthereumGetBlockTimeByNumber vm args c =
     (if length args \<noteq> 1 \<or> \<not> IsTypeUint64Value (args ! 0) then Err ErrInvalidArgs
      else eth_GetBlockTimeByNumber (vm_ethereum vm) (ec_currentBlockTimestamp c) (arg_uint64 (args ! 0)))"

definition handleSdkEthereumCall :: "VM \<Rightarrow> string \<Rightarrow> Argument list \<Rightarrow> 'a executionContext_scheme \<Rightarrow> (vmErr, Argument list) result" where
  "handleSdkEthereumCall vm methodName args c =
     (let number = (\<lambda>r. bind_result r (\<lambda>v. Ok [Uint64Value v])) in
      if methodName = ''callMethod''
      then bind_result (handleSdkEthereumCallMethod vm args c) (\<lambda>v. Ok [BytesValue v])
      else if methodName = ''getTransactionLog''
      then bind_result (handleSdkEthereumGetTransactionLog vm args c) (\<lambda>(out, n, i). Ok [BytesValue out, Uint64Value n, Uint32Value i])
      else if methodName = ''getBlockNumber'' then number (handleSdkEthereumGetBlockNumber vm args c)
      else if methodName = ''getBlockNumberByTime'' then number (handleSdkEthereumGetBlockNumberByTime vm args c)
      else if methodName = ''getBlockTime'' then number (handleSdkEthereumGetBlockTime vm args c)
      else if methodName = ''getBlockTimeByNumber'' then number (handleSdkEthereumGetBlockTimeByNumber vm args c)
      else Err ErrUnknownMethod)"

subsection \<open>Running contracts\<close>

text \<open>
  \<open>HandleSdkCall\<close> takes the context that \<open>loadExecutionContext\<close> finds, and the calls on the state as a
  parameter, so that it can also be run on the plain state of the specification.
\<close>

definition HandleSdkCall ::
  "VM \<Rightarrow> 'a executionContext_scheme stateCall \<Rightarrow> 'a executionContext_scheme callProcessor \<Rightarrow> string \<Rightarrow> string \<Rightarrow> Argument list
     \<Rightarrow> ExecutionPermissionScope \<Rightarrow> 'a executionContext_scheme option \<Rightarrow> ('a executionContext_scheme option \<times> (vmErr, Argument list) result) option" where
  "HandleSdkCall vm stateCall call operationName methodName args permissionScope loaded =
     (case loaded of
        None \<Rightarrow> Some (None, Err ErrInvalidContext)
      | Some c \<Rightarrow> do {
          (c, r) \<leftarrow>
            (if operationName = ''Sdk.State'' then Some (stateCall methodName args c)
             else if operationName = ''Sdk.Service'' then handleSdkServiceCall vm call methodName args permissionScope c
             else if operationName = ''Sdk.Events'' then Some (handleSdkEventsCall vm methodName args c)
             else if operationName = ''Sdk.Ethereum'' then Some (c, handleSdkEthereumCall vm methodName args c)
             else if operationName = ''Sdk.Address'' then Some (c, handleSdkAddressCall vm methodName args c)
             else if operationName = ''Sdk.Env'' then handleSdkEnvCall vm call methodName args c
             else Some (c, Err ErrUnknownOperation));
          Some (Some c, r)
        })"

text \<open>A contract runs on the context of its id, which stays in the provider until the outermost call returns.\<close>

primrec runCode ::
  "(string \<Rightarrow> string \<Rightarrow> Argument list \<Rightarrow> ExecutionPermissionScope \<Rightarrow> 'c option \<Rightarrow> ('c option \<times> (vmErr, Argument list) result) option)
     \<Rightarrow> contractCode \<Rightarrow> 'c \<Rightarrow> ('c \<times> ProcessCallOutput \<times> vmErr option) option" where
  "runCode handle (Finish output err) c = Some (c, output, err)"
| "runCode handle (SdkCall operationName methodName args permissionScope k) c =
     do {
       (c, r) \<leftarrow> handle operationName methodName args permissionScope (Some c);
       (case c of Some c \<Rightarrow> runCode handle (k r) c | None \<Rightarrow> None)
     }"

fun processCall :: "VM \<Rightarrow> 'a executionContext_scheme stateCall \<Rightarrow> nat \<Rightarrow> 'a executionContext_scheme callProcessor" where
  "processCall vm stateCall 0 processor input c = None"
| "processCall vm stateCall (Suc n) processor input c =
     runCode (HandleSdkCall vm stateCall (processCall vm stateCall n)) (processor input) c"


text \<open>What the callers of a method get: its result, output arguments, events and error. \<open>Panic\<close> when the virtual machine itself panics.\<close>

type_synonym methodOutput = "ExecutionResult \<times> Argument list option \<times> Event list option \<times> vmErr option"

definition runMethod ::
  "VM \<Rightarrow> nat \<Rightarrow> vmContext executionContextProvider \<Rightarrow> BlockHeight \<Rightarrow> BlockHeight \<Rightarrow> TimestampNano \<Rightarrow> NodeAddress \<Rightarrow> TransactionOrQuery
     \<Rightarrow> ExecutionAccessScope \<Rightarrow> transientState option
     \<Rightarrow> (vmContext executionContextProvider \<times> transientState option \<times> (vmErr, methodOutput) result) option" where
  "runMethod vm n cp lastCommittedBlockHeight currentBlockHeight currentBlockTimestamp proposer transactionOrQuery accessScope batch =
     (let (cp, c) = allocateExecutionContext (vm_sha vm) cp lastCommittedBlockHeight currentBlockHeight currentBlockTimestamp proposer
            accessScope (Some transactionOrQuery);
          executionContextId = ec_contextId c;
          call = processCall vm (handleSdkStateCall vm) n
      in do {
        (c, r) \<leftarrow> getServiceDeployment vm call (tq_contractName transactionOrQuery) (c\<lparr>vc_batchTransientState := batch\<rparr>);
        (case r of
           Err e \<Rightarrow> Some (destroyExecutionContext cp executionContextId, batch,
             Ok (EXECUTION_RESULT_ERROR_CONTRACT_NOT_DEPLOYED, None, None, Some e))
         | Panic \<Rightarrow> Some (destroyExecutionContext cp executionContextId, batch, Panic)
         | Ok processor \<Rightarrow> do {
             (c, output, err) \<leftarrow> callOnStack call processor
               \<lparr>pci_contractName = tq_contractName transactionOrQuery, pci_methodName = tq_methodName transactionOrQuery,
                pci_inputArgumentArray = vm_readArguments vm (tq_rawInputArgumentArray transactionOrQuery),
                pci_accessScope = accessScope, pci_callingPermissionScope = PERMISSION_SCOPE_SERVICE\<rparr> c;
             let batch = (case batch of
                   Some b \<Rightarrow> Some (if pco_callResult output = EXECUTION_RESULT_SUCCESS
                                  then mergeIntoTransientState (vc_transientState c) b else b)
                 | None \<Rightarrow> None);
             Some (destroyExecutionContext cp executionContextId, batch,
               Ok (pco_callResult output, pco_outputArgumentArray output, Some (ec_eventList c), err))
           })
      })"

definition transactionAsTransactionOrQuery :: "VM \<Rightarrow> Transaction \<Rightarrow> TransactionOrQuery" where
  "transactionAsTransactionOrQuery vm t =
     \<lparr>tq_contractName = tx_contractName t, tq_methodName = tx_methodName t,
      tq_rawInputArgumentArray = vm_rawInputArgumentArrayWithHeader vm (tx_inputArgumentArray t), tq_signer = tx_signer t\<rparr>"

definition encodeTransactionReceipt :: "VM \<Rightarrow> Transaction \<Rightarrow> ExecutionResult \<Rightarrow> Argument list \<Rightarrow> Event list \<Rightarrow> TransactionReceipt" where
  "encodeTransactionReceipt vm transaction result outputArgs outputEvents =
     \<lparr>rcpt_txhash = CalcTxHash (vm_sha vm) (vm_wire vm) transaction, rcpt_executionResult = result,
      rcpt_outputArgumentArray = vm_rawArguments vm outputArgs, rcpt_outputEventsArray = vm_rawEvents vm outputEvents\<rparr>"

definition encodeBatchTransientStateToStateDiffs :: "transientState \<Rightarrow> ContractStateDiff list" where
  "encodeBatchTransientStateToStateDiffs batch =
     concat (map (\<lambda>contractName.
       let stateDiffs = forDirty batch contractName in
       if length stateDiffs > 0 then [\<lparr>csd_contractName = contractName, csd_stateDiffs = stateDiffs\<rparr>] else [])
       (ts_contractSortOrder batch))"

definition orEmpty :: "'a list option \<Rightarrow> 'a list" where
  "orEmpty x = (case x of None \<Rightarrow> [] | Some l \<Rightarrow> l)"

fun processTransactions ::
  "VM \<Rightarrow> nat \<Rightarrow> vmContext executionContextProvider \<Rightarrow> BlockHeight \<Rightarrow> TimestampNano \<Rightarrow> NodeAddress \<Rightarrow> SignedTransaction list \<Rightarrow> transientState option
     \<Rightarrow> (vmContext executionContextProvider \<times> (vmErr, TransactionReceipt list \<times> transientState option) result) option" where
  "processTransactions vm n cp height timestamp proposer [] batch = Some (cp, Ok ([], batch))"
| "processTransactions vm n cp height timestamp proposer (stx # stxs) batch =
     do {
       (cp, batch, r) \<leftarrow> runMethod vm n cp (height - 1) height timestamp proposer
         (transactionAsTransactionOrQuery vm (stx_transaction stx)) ACCESS_SCOPE_READ_WRITE batch;
       (case r of
          Ok (callResult, outputArgs, outputEvents, _) \<Rightarrow> do {
            (cp, r) \<leftarrow> processTransactions vm n cp height timestamp proposer stxs batch;
            Some (cp, bind_result r (\<lambda>(receipts, batch).
              Ok (encodeTransactionReceipt vm (stx_transaction stx) callResult (orEmpty outputArgs) (orEmpty outputEvents) # receipts, batch)))
          }
        | Err e \<Rightarrow> Some (cp, Err e)
        | Panic \<Rightarrow> Some (cp, Panic))
     }"

definition processTransactionSet ::
  "VM \<Rightarrow> nat \<Rightarrow> vmContext executionContextProvider \<Rightarrow> BlockHeight \<Rightarrow> TimestampNano \<Rightarrow> NodeAddress \<Rightarrow> SignedTransaction list
     \<Rightarrow> (vmContext executionContextProvider \<times> (vmErr, TransactionReceipt list \<times> ContractStateDiff list) result) option" where
  "processTransactionSet vm n cp height timestamp proposer stxs =
     do {
       (cp, r) \<leftarrow> processTransactions vm n cp height timestamp proposer stxs (Some newTransientState);
       Some (cp, bind_result r (\<lambda>(receipts, batch).
         Ok (receipts, case batch of Some b \<Rightarrow> encodeBatchTransientStateToStateDiffs b | None \<Rightarrow> [])))
     }"

record ProcessTransactionSetInput =
  pti_currentBlockHeight :: BlockHeight
  pti_currentBlockTimestamp :: TimestampNano
  pti_blockProposerAddress :: NodeAddress
  pti_signedTransactions :: "SignedTransaction list"

definition ProcessTransactionSet ::
  "VM \<Rightarrow> nat \<Rightarrow> vmContext executionContextProvider \<Rightarrow> ProcessTransactionSetInput
     \<Rightarrow> (vmContext executionContextProvider \<times> (vmErr, TransactionReceipt list \<times> ContractStateDiff list) result) option" where
  "ProcessTransactionSet vm n cp input =
     processTransactionSet vm n cp (pti_currentBlockHeight input) (pti_currentBlockTimestamp input) (pti_blockProposerAddress input)
       (pti_signedTransactions input)"

subsection \<open>Queries and system calls\<close>

record ProcessQueryOutput =
  pqo_callResult :: ExecutionResult
  pqo_outputEventsArray :: bytes
  pqo_outputArgumentArray :: bytes
  pqo_referenceBlockHeight :: BlockHeight
  pqo_referenceBlockTimestamp :: TimestampNano

definition getRecentCommittedBlockInfo :: "VM \<Rightarrow> (BlockHeight \<times> TimestampNano \<times> NodeAddress) \<times> vmErr option" where
  "getRecentCommittedBlockInfo vm =
     (case vm_lastCommittedBlockInfo vm of
        Inr info \<Rightarrow> (info, None)
      | Inl e \<Rightarrow> ((0, 0, []), Some (ErrStateRead e)))"

definition ProcessQuery ::
  "VM \<Rightarrow> nat \<Rightarrow> vmContext executionContextProvider \<Rightarrow> BlockHeight \<Rightarrow> TransactionOrQuery
     \<Rightarrow> (vmContext executionContextProvider \<times> (vmErr, ProcessQueryOutput \<times> vmErr option) result) option" where
  "ProcessQuery vm n cp blockHeight query =
     (case getRecentCommittedBlockInfo vm of
        ((height, timestamp, proposer), Some e) \<Rightarrow>
          Some (cp, Ok (\<lparr>pqo_callResult = EXECUTION_RESULT_ERROR_UNEXPECTED, pqo_outputEventsArray = [],
            pqo_outputArgumentArray = vm_rawArgumentArray vm [], pqo_referenceBlockHeight = height, pqo_referenceBlockTimestamp = timestamp\<rparr>, Some e))
      | ((height, timestamp, proposer), None) \<Rightarrow>
          if blockHeight \<noteq> 0
          then Some (cp, Ok (\<lparr>pqo_callResult = EXECUTION_RESULT_ERROR_INPUT, pqo_outputEventsArray = [],
            pqo_outputArgumentArray = vm_rawArgumentArray vm [], pqo_referenceBlockHeight = height, pqo_referenceBlockTimestamp = timestamp\<rparr>,
            Some ErrHistoricQuery))
          else do {
            (cp, _, r) \<leftarrow> runMethod vm n cp height height timestamp proposer query ACCESS_SCOPE_READ_ONLY None;
            Some (cp, bind_result r (\<lambda>(callResult, outputArgs, outputEvents, err).
              Ok (\<lparr>pqo_callResult = callResult, pqo_outputEventsArray = vm_rawEvents vm (orEmpty outputEvents),
                pqo_outputArgumentArray = vm_rawArguments vm (orEmpty outputArgs), pqo_referenceBlockHeight = height,
                pqo_referenceBlockTimestamp = timestamp\<rparr>, err)))
          })"

text \<open>A call of a method of a native contract on a context of its own, read-only and with no transaction.\<close>

definition callNative ::
  "VM \<Rightarrow> nat \<Rightarrow> vmContext executionContextProvider \<Rightarrow> BlockHeight \<Rightarrow> TimestampNano \<Rightarrow> ContractName \<Rightarrow> MethodName \<Rightarrow> Argument list
     \<Rightarrow> (vmContext executionContextProvider \<times> ProcessCallOutput \<times> vmErr option) option" where
  "callNative vm n cp currentBlockHeight timestamp contractName methodName inputArgs =
     (let (cp, c) = allocateExecutionContext (vm_sha vm) cp (currentBlockHeight - 1) currentBlockHeight timestamp [] ACCESS_SCOPE_READ_ONLY None
      in do {
        (c, output, err) \<leftarrow> callOnStack (processCall vm (handleSdkStateCall vm) n) (vm_native vm)
          \<lparr>pci_contractName = contractName, pci_methodName = methodName, pci_inputArgumentArray = inputArgs,
           pci_accessScope = ACCESS_SCOPE_READ_ONLY, pci_callingPermissionScope = PERMISSION_SCOPE_SERVICE\<rparr> c;
        Some (destroyExecutionContext cp (ec_contextId c), output, err)
      })"

definition callSystemContract ::
  "VM \<Rightarrow> nat \<Rightarrow> vmContext executionContextProvider \<Rightarrow> BlockHeight \<Rightarrow> TimestampNano \<Rightarrow> ContractName \<Rightarrow> MethodName \<Rightarrow> Argument list
     \<Rightarrow> (vmContext executionContextProvider \<times> ExecutionResult \<times> Argument list option \<times> vmErr option) option" where
  "callSystemContract vm n cp currentBlockHeight blockTimestamp systemContractName systemMethodName inputArgs =
     do {
       (cp, output, err) \<leftarrow> callNative vm n cp currentBlockHeight blockTimestamp systemContractName systemMethodName inputArgs;
       Some (cp, pco_callResult output, pco_outputArgumentArray output, err)
     }"

definition CallSystemContract ::
  "VM \<Rightarrow> nat \<Rightarrow> vmContext executionContextProvider \<Rightarrow> BlockHeight \<Rightarrow> TimestampNano \<Rightarrow> ContractName \<Rightarrow> MethodName \<Rightarrow> Argument list
     \<Rightarrow> (vmContext executionContextProvider \<times> ExecutionResult \<times> Argument list \<times> vmErr option) option" where
  "CallSystemContract vm n cp blockHeight blockTimestamp contractName methodName inputArgs =
     do {
       (cp, callResult, outputArgs, err) \<leftarrow> callSystemContract vm n cp blockHeight blockTimestamp contractName methodName inputArgs;
       Some (cp, callResult, orEmpty outputArgs, err)
     }"

subsection \<open>Pre-order checks\<close>

definition callGlobalPreOrderSystemContract ::
  "VM \<Rightarrow> nat \<Rightarrow> vmContext executionContextProvider \<Rightarrow> BlockHeight \<Rightarrow> TimestampNano
     \<Rightarrow> (vmContext executionContextProvider \<times> vmErr option) option" where
  "callGlobalPreOrderSystemContract vm n cp currentBlockHeight currentBlockTimestamp =
     do {
       (cp, _, err) \<leftarrow> callNative vm n cp currentBlockHeight currentBlockTimestamp GLOBAL_PRE_ORDER_CONTRACT_NAME METHOD_APPROVE [];
       Some (cp, err)
     }"

definition VerifyEd25519 :: "VM \<Rightarrow> bytes \<Rightarrow> bytes \<Rightarrow> bytes \<Rightarrow> bool" where
  "VerifyEd25519 vm publicKey data sig =
     (if length publicKey \<noteq> ED25519_PUBLIC_KEY_SIZE_BYTES then False else vm_verifyEd25519 vm publicKey data sig)"

definition verifyEd25519Signer :: "VM \<Rightarrow> bytes \<Rightarrow> SignedTransaction \<Rightarrow> bool" where
  "verifyEd25519Signer vm signerPublicKey signedTransaction =
     VerifyEd25519 vm signerPublicKey (CalcTxHash (vm_sha vm) (vm_wire vm) (stx_transaction signedTransaction)) (stx_signature signedTransaction)"

definition verifyTransactionSignatures :: "VM \<Rightarrow> SignedTransaction list \<Rightarrow> TransactionStatus list \<Rightarrow> TransactionStatus list" where
  "verifyTransactionSignatures vm signedTransactions resultStatuses =
     map2 (\<lambda>signedTransaction status.
       if status \<noteq> STATUS_RESERVED then status
       else case tx_signer (stx_transaction signedTransaction) of
              EddsaSigner signerPublicKey \<Rightarrow>
                if verifyEd25519Signer vm signerPublicKey signedTransaction then STATUS_PRE_ORDER_VALID else STATUS_REJECTED_SIGNATURE_MISMATCH
            | _ \<Rightarrow> STATUS_REJECTED_UNKNOWN_SIGNER_SCHEME)
       signedTransactions resultStatuses"

definition TransactionSetPreOrder ::
  "VM \<Rightarrow> nat \<Rightarrow> vmContext executionContextProvider \<Rightarrow> BlockHeight \<Rightarrow> TimestampNano \<Rightarrow> SignedTransaction list
     \<Rightarrow> (vmContext executionContextProvider \<times> TransactionStatus list) option" where
  "TransactionSetPreOrder vm n cp currentBlockHeight currentBlockTimestamp signedTransactions =
     do {
       (cp, err) \<leftarrow> callGlobalPreOrderSystemContract vm n cp currentBlockHeight currentBlockTimestamp;
       let statuses = (case err of
             None \<Rightarrow> replicate (length signedTransactions) STATUS_RESERVED
           | Some _ \<Rightarrow> map (\<lambda>signedTransaction.
               if tx_contractName (stx_transaction signedTransaction) \<noteq> GLOBAL_PRE_ORDER_CONTRACT_NAME
               then STATUS_REJECTED_GLOBAL_PRE_ORDER else STATUS_RESERVED) signedTransactions);
       Some (cp, verifyTransactionSignatures vm signedTransactions statuses)
     }"

end
