(* ===== verification/Virtual_Machine_Correct.thy ===== *)
theory Virtual_Machine_Correct
  imports Virtual_Machine State_Storage_Correct
begin

text \<open>
  The virtual machine keeps what a transaction writes in two layers, of the transaction and of the block, over
  the stored state. The specification runs the same contracts on one plain state, which a failed transaction
  leaves as it was. The layers implement the plain state, and the state diffs of a block are the difference
  between the state before and after it.
\<close>

subsection \<open>Layers of state\<close>

type_synonym flatState = "ContractName \<Rightarrow> bytes \<Rightarrow> (vmErr, bytes) result"

definition flatUpdate :: "flatState \<Rightarrow> ContractName \<Rightarrow> bytes \<Rightarrow> bytes \<Rightarrow> flatState" where
  "flatUpdate \<sigma> contract key value = \<sigma>(contract := (\<sigma> contract)(key := Ok value))"

definition ts_pair :: "transientState \<Rightarrow> ContractName \<Rightarrow> bytes \<Rightarrow> keyValuePair option" where
  "ts_pair t contract key = (case ts_contracts t contract of None \<Rightarrow> None | Some c \<Rightarrow> cts_pairs c key)"

definition overlay :: "transientState \<Rightarrow> flatState \<Rightarrow> flatState" where
  "overlay t \<sigma> contract key = (case ts_pair t contract key of Some pair \<Rightarrow> Ok (kvp_value pair) | None \<Rightarrow> \<sigma> contract key)"

definition dirtyOverlay :: "transientState \<Rightarrow> flatState \<Rightarrow> flatState" where
  "dirtyOverlay t \<sigma> contract key =
     (case ts_pair t contract key of
        Some pair \<Rightarrow> if kvp_isDirty pair then Ok (kvp_value pair) else \<sigma> contract key
      | None \<Rightarrow> \<sigma> contract key)"

definition cts_wf :: "contractTransientState \<Rightarrow> bool" where
  "cts_wf c \<longleftrightarrow> distinct (cts_keySortOrder c) \<and> dom (cts_pairs c) = set (cts_keySortOrder c) \<and>
     (\<forall>key pair. cts_pairs c key = Some pair \<longrightarrow> kvp_key pair = key)"

definition ts_wf :: "transientState \<Rightarrow> bool" where
  "ts_wf t \<longleftrightarrow> distinct (ts_contractSortOrder t) \<and> dom (ts_contracts t) = set (ts_contractSortOrder t) \<and>
     (\<forall>contract c. ts_contracts t contract = Some c \<longrightarrow> cts_wf c)"

text \<open>The clean pairs of a layer are cached reads of the state below it.\<close>

definition coherent :: "transientState \<Rightarrow> flatState \<Rightarrow> bool" where
  "coherent t \<sigma> \<longleftrightarrow> (\<forall>contract key pair. ts_pair t contract key = Some pair \<and> \<not> kvp_isDirty pair \<longrightarrow> \<sigma> contract key = Ok (kvp_value pair))"

definition allDirty :: "transientState \<Rightarrow> bool" where
  "allDirty t \<longleftrightarrow> (\<forall>contract key pair. ts_pair t contract key = Some pair \<longrightarrow> kvp_isDirty pair)"

lemma ts_getValue_pair: "ts_getValue t contract key = map_option kvp_value (ts_pair t contract key)"
  by (auto simp: ts_getValue_def ts_pair_def split: option.splits)

lemma ts_pair_new [simp]: "ts_pair newTransientState contract key = None"
  by (simp add: ts_pair_def newTransientState_def)

lemma ts_pair_setValue:
  assumes "ts_wf t"
  shows "ts_pair (ts_setValue t contract key value d) contract' key' =
    (if contract' = contract \<and> key' = key then Some \<lparr>kvp_key = key, kvp_value = value, kvp_isDirty = d\<rparr> else ts_pair t contract' key')"
proof (cases "ts_contracts t contract")
  case None
  then show ?thesis
    by (simp add: ts_setValue_def ts_pair_def)
next
  case (Some c)
  with assms have "kvp_key pair = key" if "cts_pairs c key = Some pair" for pair
    using that by (simp add: ts_wf_def cts_wf_def)
  with Some show ?thesis
    by (cases "cts_pairs c key") (auto simp: ts_setValue_def ts_pair_def)
qed

lemma ts_wf_new [simp]: "ts_wf newTransientState"
  by (simp add: ts_wf_def newTransientState_def)

lemma cts_wf_update:
  "cts_wf c \<Longrightarrow> cts_pairs c key = Some pair \<Longrightarrow> cts_wf (c\<lparr>cts_pairs := (cts_pairs c)(key \<mapsto> pair\<lparr>kvp_value := value, kvp_isDirty := d\<rparr>)\<rparr>)"
  by (auto simp: cts_wf_def)

lemma cts_wf_insert:
  assumes "cts_wf c" "cts_pairs c key = None"
  shows "cts_wf (c\<lparr>cts_pairs := (cts_pairs c)(key \<mapsto> \<lparr>kvp_key = key, kvp_value = value, kvp_isDirty = d\<rparr>),
    cts_keySortOrder := cts_keySortOrder c @ [key]\<rparr>)"
proof -
  have "key \<notin> set (cts_keySortOrder c)"
    using assms by (auto simp: cts_wf_def)
  with assms show ?thesis
    by (simp add: cts_wf_def)
qed

lemma cts_wf_empty: "cts_wf \<lparr>cts_pairs = Map.empty, cts_keySortOrder = []\<rparr>"
  by (simp add: cts_wf_def)

lemma ts_wf_update:
  "ts_wf t \<Longrightarrow> ts_contracts t contract = Some c \<Longrightarrow> cts_wf c' \<Longrightarrow> ts_wf (t\<lparr>ts_contracts := (ts_contracts t)(contract \<mapsto> c')\<rparr>)"
  by (auto simp: ts_wf_def)

lemma ts_wf_insert:
  assumes "ts_wf t" "ts_contracts t contract = None" "cts_wf c"
  shows "ts_wf (t\<lparr>ts_contractSortOrder := ts_contractSortOrder t @ [contract], ts_contracts := (ts_contracts t)(contract \<mapsto> c)\<rparr>)"
proof -
  have "contract \<notin> set (ts_contractSortOrder t)"
    using assms by (auto simp: ts_wf_def)
  with assms show ?thesis
    by (simp add: ts_wf_def)
qed

lemma ts_wf_setValue:
  assumes "ts_wf t"
  shows "ts_wf (ts_setValue t contract key value d)"
proof (cases "ts_contracts t contract")
  case None
  then show ?thesis
    using ts_wf_insert[OF assms None cts_wf_insert[OF cts_wf_empty, of key "value" d]] by (simp add: ts_setValue_def)
next
  case (Some c)
  with assms have "cts_wf c"
    by (simp add: ts_wf_def)
  with Some assms show ?thesis
    by (auto simp: ts_setValue_def Let_def cts_wf_update cts_wf_insert intro!: ts_wf_update split: option.splits)
qed

lemma overlay_setValue:
  assumes "ts_wf t"
  shows "overlay (ts_setValue t contract key value d) \<sigma> = flatUpdate (overlay t \<sigma>) contract key value"
  by (intro ext) (auto simp: overlay_def flatUpdate_def ts_pair_setValue[OF assms])

lemma overlay_new [simp]: "overlay newTransientState \<sigma> = \<sigma>"
  by (rule ext)+ (simp add: overlay_def)

lemma overlay_dirtyOverlay: "coherent t \<sigma> \<Longrightarrow> overlay t \<sigma> = dirtyOverlay t \<sigma>"
  by (rule ext)+ (auto simp: overlay_def dirtyOverlay_def coherent_def split: option.splits)

lemma allDirty_coherent: "allDirty t \<Longrightarrow> coherent t \<sigma>"
  by (auto simp: allDirty_def coherent_def)

lemma allDirty_new [simp]: "allDirty newTransientState"
  by (simp add: allDirty_def)

lemma coherent_new [simp]: "coherent newTransientState \<sigma>"
  by (simp add: coherent_def)

lemma allDirty_setValue: "ts_wf t \<Longrightarrow> allDirty t \<Longrightarrow> allDirty (ts_setValue t contract key value True)"
  by (auto simp: allDirty_def ts_pair_setValue split: if_splits)

lemma coherent_setValue_dirty: "ts_wf t \<Longrightarrow> coherent t \<sigma> \<Longrightarrow> coherent (ts_setValue t contract key value True) \<sigma>"
  unfolding coherent_def by (simp add: ts_pair_setValue)

lemma coherent_setValue_cached:
  "ts_wf t \<Longrightarrow> coherent t \<sigma> \<Longrightarrow> \<sigma> contract key = Ok value \<Longrightarrow> coherent (ts_setValue t contract key value False) \<sigma>"
  unfolding coherent_def by (simp add: ts_pair_setValue)

subsection \<open>Dirty pairs as updates\<close>

definition dirtyWrites :: "transientState \<Rightarrow> (ContractName \<times> bytes \<times> bytes) list" where
  "dirtyWrites t = concat (map (\<lambda>contract. map (Pair contract) (forDirty t contract)) (ts_contractSortOrder t))"

definition applyWrites :: "(ContractName \<times> bytes \<times> bytes) list \<Rightarrow> flatState \<Rightarrow> flatState" where
  "applyWrites ws \<sigma> = fold (\<lambda>(contract, key, value) \<sigma>. flatUpdate \<sigma> contract key value) ws \<sigma>"

lemma applyWrites_snoc:
  "applyWrites (ws @ [(c, k, v)]) \<sigma> contract key = (if contract = c \<and> key = k then Ok v else applyWrites ws \<sigma> contract key)"
  by (simp add: applyWrites_def flatUpdate_def)

lemma applyWrites_at:
  "applyWrites ws \<sigma> contract key =
    (case filter (\<lambda>(c, k, v). c = contract \<and> k = key) (rev ws) of [] \<Rightarrow> \<sigma> contract key | (_, _, v) # _ \<Rightarrow> Ok v)"
proof (induction ws rule: rev_induct)
  case Nil
  then show ?case
    by (simp add: applyWrites_def)
next
  case (snoc w ws)
  then show ?case
    by (cases w) (simp add: applyWrites_snoc)
qed

lemma applyWrites_same:
  assumes "(contract, key, value) \<in> set ws" "\<And>v. (contract, key, v) \<in> set ws \<Longrightarrow> v = value"
  shows "applyWrites ws \<sigma> contract key = Ok value"
proof (cases "filter (\<lambda>(c, k, v). c = contract \<and> k = key) (rev ws)")
  case Nil
  have "(contract, key, value) \<in> set (filter (\<lambda>(c, k, v). c = contract \<and> k = key) (rev ws))"
    using assms(1) by simp
  with Nil show ?thesis
    by simp
next
  case (Cons w ws')
  obtain c k v where w: "w = (c, k, v)"
    by (cases w)
  have "w \<in> set (filter (\<lambda>(c, k, v). c = contract \<and> k = key) (rev ws))"
    unfolding Cons by simp
  then have "(contract, key, v) \<in> set ws"
    by (auto simp: w)
  from assms(2)[OF this] Cons w show ?thesis
    by (simp add: applyWrites_at)
qed

lemma applyWrites_other:
  assumes "\<And>v. (contract, key, v) \<notin> set ws"
  shows "applyWrites ws \<sigma> contract key = \<sigma> contract key"
proof -
  have "filter (\<lambda>(c, k, v). c = contract \<and> k = key) (rev ws) = []"
    using assms by (auto simp: filter_empty_conv)
  then show ?thesis
    by (simp add: applyWrites_at)
qed

lemma set_forDirty:
  assumes "ts_contracts t contract = Some c" "cts_wf c"
  shows "(key, value) \<in> set (forDirty t contract) \<longleftrightarrow>
    (\<exists>pair. cts_pairs c key = Some pair \<and> kvp_isDirty pair \<and> kvp_value pair = value)"
proof -
  have key: "kvp_key pair = k" if "cts_pairs c k = Some pair" for k pair
    using assms(2) that by (simp add: cts_wf_def)
  have "(key, value) \<in> set (case cts_pairs c k of Some pair \<Rightarrow> if kvp_isDirty pair then [(kvp_key pair, kvp_value pair)] else [] | None \<Rightarrow> [])
    \<longleftrightarrow> k = key \<and> (\<exists>pair. cts_pairs c key = Some pair \<and> kvp_isDirty pair \<and> kvp_value pair = value)" for k
    by (cases "cts_pairs c k") (auto simp: key)
  moreover have "set (cts_keySortOrder c) = dom (cts_pairs c)"
    using assms(2) by (simp add: cts_wf_def)
  ultimately show ?thesis
    using assms(1) by (auto simp: forDirty_def)
qed

lemma set_dirtyWrites:
  assumes "ts_wf t"
  shows "(contract, key, value) \<in> set (dirtyWrites t) \<longleftrightarrow>
    (\<exists>pair. ts_pair t contract key = Some pair \<and> kvp_isDirty pair \<and> kvp_value pair = value)"
proof -
  have "(contract, key, value) \<in> set (dirtyWrites t) \<longleftrightarrow> contract \<in> dom (ts_contracts t) \<and> (key, value) \<in> set (forDirty t contract)"
    using assms by (auto simp: dirtyWrites_def ts_wf_def)
  also have "\<dots> \<longleftrightarrow> (\<exists>pair. ts_pair t contract key = Some pair \<and> kvp_isDirty pair \<and> kvp_value pair = value)"
  proof (cases "ts_contracts t contract")
    case (Some c)
    then have "cts_wf c"
      using assms by (simp add: ts_wf_def)
    with Some show ?thesis
      by (simp add: set_forDirty ts_pair_def dom_def)
  qed (simp add: ts_pair_def dom_def)
  finally show ?thesis .
qed

lemma applyWrites_dirty:
  assumes "ts_wf t"
  shows "applyWrites (dirtyWrites t) \<sigma> = dirtyOverlay t \<sigma>"
proof (intro ext)
  fix contract key
  note writes = set_dirtyWrites[OF assms, of contract key]
  show "applyWrites (dirtyWrites t) \<sigma> contract key = dirtyOverlay t \<sigma> contract key"
  proof (cases "\<exists>pair. ts_pair t contract key = Some pair \<and> kvp_isDirty pair")
    case True
    then obtain pair where pair: "ts_pair t contract key = Some pair" "kvp_isDirty pair"
      by blast
    then have "applyWrites (dirtyWrites t) \<sigma> contract key = Ok (kvp_value pair)"
      by (intro applyWrites_same) (simp_all add: writes)
    with pair show ?thesis
      by (simp add: dirtyOverlay_def)
  next
    case False
    then have "applyWrites (dirtyWrites t) \<sigma> contract key = \<sigma> contract key"
      by (intro applyWrites_other) (simp add: writes, blast)
    with False show ?thesis
      by (cases "ts_pair t contract key") (simp_all add: dirtyOverlay_def)
  qed
qed

lemma mergeIntoTransientState_writes:
  "mergeIntoTransientState t b = fold (\<lambda>(contract, key, value) m. ts_setValue m contract key value True) (dirtyWrites t) b"
proof -
  have "fold (\<lambda>contract m. fold (\<lambda>(key, value) m. ts_setValue m contract key value True) (forDirty t contract) m) cs b =
    fold (\<lambda>(contract, key, value) m. ts_setValue m contract key value True)
      (concat (map (\<lambda>contract. map (Pair contract) (forDirty t contract)) cs)) b" for cs
    by (induction cs arbitrary: b) (simp_all add: fold_map comp_def)
  then show ?thesis
    by (simp add: mergeIntoTransientState_def dirtyWrites_def)
qed

lemma merge_writes:
  assumes "ts_wf b" "allDirty b"
  shows "ts_wf (fold (\<lambda>(contract, key, value) m. ts_setValue m contract key value True) ws b) \<and>
    allDirty (fold (\<lambda>(contract, key, value) m. ts_setValue m contract key value True) ws b) \<and>
    overlay (fold (\<lambda>(contract, key, value) m. ts_setValue m contract key value True) ws b) \<sigma> = applyWrites ws (overlay b \<sigma>)"
  using assms
proof (induction ws arbitrary: b)
  case (Cons w ws)
  obtain c k v where w: "w = (c, k, v)"
    by (cases w)
  from Cons.IH[OF ts_wf_setValue[OF Cons.prems(1)] allDirty_setValue[OF Cons.prems], of c k v] show ?case
    by (simp add: w applyWrites_def overlay_setValue[OF Cons.prems(1)])
qed (simp add: applyWrites_def)

lemma merge_correct:
  assumes "ts_wf b" "allDirty b"
  shows "ts_wf (mergeIntoTransientState t b)" "allDirty (mergeIntoTransientState t b)"
    and "ts_wf t \<Longrightarrow> overlay (mergeIntoTransientState t b) \<sigma> = dirtyOverlay t (overlay b \<sigma>)"
  using merge_writes[OF assms, of "dirtyWrites t"] by (simp_all add: mergeIntoTransientState_writes applyWrites_dirty)

definition applyDiffs :: "ContractStateDiff list \<Rightarrow> flatState \<Rightarrow> flatState" where
  "applyDiffs diffs \<sigma> = fold (\<lambda>d. fold (\<lambda>(key, value) \<sigma>. flatUpdate \<sigma> (csd_contractName d) key value) (csd_stateDiffs d)) diffs \<sigma>"

lemma applyDiffs_encode:
  assumes "ts_wf b"
  shows "applyDiffs (encodeBatchTransientStateToStateDiffs b) \<sigma> = dirtyOverlay b \<sigma>"
proof -
  have "applyDiffs (concat (map (\<lambda>contract. let stateDiffs = forDirty b contract in
      if length stateDiffs > 0 then [\<lparr>csd_contractName = contract, csd_stateDiffs = stateDiffs\<rparr>] else []) cs)) \<sigma> =
    applyWrites (concat (map (\<lambda>contract. map (Pair contract) (forDirty b contract)) cs)) \<sigma>" for cs
    unfolding applyDiffs_def applyWrites_def
    by (induction cs arbitrary: \<sigma>) (simp_all add: Let_def fold_map comp_def)
  then show ?thesis
    using applyWrites_dirty[OF assms] by (simp add: encodeBatchTransientStateToStateDiffs_def dirtyWrites_def)
qed

subsection \<open>Two kinds of state behind the same contracts\<close>

definition sameEnvironment :: "'a executionContext_scheme \<Rightarrow> 'b executionContext_scheme \<Rightarrow> bool" where
  "sameEnvironment c f \<longleftrightarrow>
     ec_lastCommittedBlockHeight c = ec_lastCommittedBlockHeight f \<and> ec_currentBlockHeight c = ec_currentBlockHeight f \<and>
     ec_currentBlockTimestamp c = ec_currentBlockTimestamp f \<and> ec_currentBlockProposerAddress c = ec_currentBlockProposerAddress f \<and>
     ec_serviceStack c = ec_serviceStack f \<and> ec_accessScope c = ec_accessScope f \<and>
     ec_transactionOrQuery c = ec_transactionOrQuery f \<and> ec_eventList c = ec_eventList f"

lemma rel_option_bind:
  assumes "rel_option (rel_prod R (=)) m m'" "\<And>c f r. R c f \<Longrightarrow> rel_option S (k (c, r)) (k' (f, r))"
  shows "rel_option S (Option.bind m k) (Option.bind m' k')"
  using assms by (cases m; cases m') auto

definition relatedCalls ::
  "('a \<Rightarrow> 'b \<Rightarrow> bool) \<Rightarrow> 'a callProcessor \<Rightarrow> 'b callProcessor \<Rightarrow> bool" where
  "relatedCalls R call call' \<longleftrightarrow>
     (\<forall>processor input c f. R c f \<longrightarrow> rel_option (rel_prod R (=)) (call processor input c) (call' processor input f))"

text \<open>
  The contract of a state behind the SDK: what a contract can see of two executions is the same when the calls
  on the state are, and the rest of the context is the same.
\<close>

locale context_simulation =
  fixes vm :: VM
    and stateCall :: "'a executionContext_scheme stateCall"
    and stateCall' :: "'b executionContext_scheme stateCall"
    and R :: "'a executionContext_scheme \<Rightarrow> 'b executionContext_scheme \<Rightarrow> bool"
  assumes environment: "R c f \<Longrightarrow> sameEnvironment c f"
    and stack: "R c f \<Longrightarrow> R (c\<lparr>ec_serviceStack := s\<rparr>) (f\<lparr>ec_serviceStack := s\<rparr>)"
    and events: "R c f \<Longrightarrow> R (c\<lparr>ec_eventList := es\<rparr>) (f\<lparr>ec_eventList := es\<rparr>)"
    and state: "R c f \<Longrightarrow> rel_prod R (=) (stateCall m args c) (stateCall' m args f)"
begin

lemma env_eq:
  assumes "R c f"
  shows "ec_lastCommittedBlockHeight c = ec_lastCommittedBlockHeight f" "ec_currentBlockHeight c = ec_currentBlockHeight f"
    "ec_currentBlockTimestamp c = ec_currentBlockTimestamp f" "ec_currentBlockProposerAddress c = ec_currentBlockProposerAddress f"
    "ec_serviceStack c = ec_serviceStack f" "ec_accessScope c = ec_accessScope f"
    "ec_transactionOrQuery c = ec_transactionOrQuery f" "ec_eventList c = ec_eventList f"
  using environment[OF assms] by (simp_all add: sameEnvironment_def)

lemma push: "R c f \<Longrightarrow> R (serviceStackPush service c) (serviceStackPush service f)"
  using env_eq(5)[of c f] by (simp add: serviceStackPush_def stack)

lemma pop: "R c f \<Longrightarrow> R (serviceStackPop c) (serviceStackPop f)"
  using env_eq(5)[of c f] by (simp add: serviceStackPop_def stack)

lemma callOnStack_sim:
  assumes "relatedCalls R call call'" "R c f"
  shows "rel_option (rel_prod R (=)) (callOnStack call processor input c) (callOnStack call' processor input f)"
  unfolding callOnStack_def
  by (rule rel_option_bind[where R = R]) (use assms push in \<open>auto simp: relatedCalls_def pop split: prod.splits\<close>)

lemma getInfo_sim:
  assumes "relatedCalls R call call'" "R c f"
  shows "rel_option (rel_prod R (=)) (callGetInfoOfDeploymentSystemContract vm call serviceName c)
    (callGetInfoOfDeploymentSystemContract vm call' serviceName f)"
  unfolding callGetInfoOfDeploymentSystemContract_def env_eq(6)[OF assms(2)]
  by (rule rel_option_bind[OF callOnStack_sim[OF assms]]) (simp split: prod.splits)

lemma deployService_sim:
  assumes "relatedCalls R call call'" "R c f"
  shows "rel_option (rel_prod R (=)) (callDeployServiceOfDeploymentSystemContract vm call serviceName c)
    (callDeployServiceOfDeploymentSystemContract vm call' serviceName f)"
  unfolding callDeployServiceOfDeploymentSystemContract_def env_eq(6)[OF assms(2)]
  by (rule rel_option_bind[OF callOnStack_sim[OF assms]]) (simp split: prod.splits)

lemma autoDeploy_sim:
  assumes "relatedCalls R call call'" "R c f"
  shows "rel_option (rel_prod R (=)) (attemptToAutoDeployPreBuiltNativeContract vm call serviceName c)
    (attemptToAutoDeployPreBuiltNativeContract vm call' serviceName f)"
  unfolding attemptToAutoDeployPreBuiltNativeContract_def env_eq(6)[OF assms(2)]
  using assms(2) by (auto split: result.splits intro!: rel_option_bind[OF deployService_sim[OF assms]])

lemma getServiceDeployment_sim:
  assumes "relatedCalls R call call'" "R c f"
  shows "rel_option (rel_prod R (=)) (getServiceDeployment vm call serviceName c) (getServiceDeployment vm call' serviceName f)"
  unfolding getServiceDeployment_def
  by (rule rel_option_bind[OF getInfo_sim[OF assms]])
    (use env_eq(6) in \<open>auto split: result.splits intro!: rel_option_bind[OF autoDeploy_sim[OF assms(1)]]\<close>)

lemma serviceCallMethod_sim:
  assumes "relatedCalls R call call'" "R c f"
  shows "rel_option (rel_prod R (=)) (handleSdkServiceCallMethod vm call args scope c) (handleSdkServiceCallMethod vm call' args scope f)"
proof -
  have "rel_option (rel_prod R (=)) (getServiceDeployment vm call (arg_string (args ! 0)) c) (getServiceDeployment vm call' (arg_string (args ! 0)) f)"
    by (rule getServiceDeployment_sim[OF assms])
  then show ?thesis
    using assms(2) unfolding handleSdkServiceCallMethod_def Let_def
    by (auto simp: env_eq(6) split: result.splits intro!: rel_option_bind[where R = R] callOnStack_sim[OF assms(1)])
qed

lemma committee_sim:
  assumes "relatedCalls R call call'" "R c f"
  shows "rel_option (rel_prod R (=)) (handleSdkEnvGetBlockCommittee vm call args c) (handleSdkEnvGetBlockCommittee vm call' args f)"
proof -
  have "rel_option (rel_prod R (=)) (callElectionsSystemContract vm call c) (callElectionsSystemContract vm call' f)"
    unfolding callElectionsSystemContract_def
    by (rule rel_option_bind[OF callOnStack_sim[OF assms]]) (simp split: prod.splits)
  then show ?thesis
    using assms(2) unfolding handleSdkEnvGetBlockCommittee_def
    by (auto simp: env_eq(2) split: result.splits intro!: rel_option_bind[where R = R])
qed

lemma env_sim:
  assumes "relatedCalls R call call'" "R c f"
  shows "rel_option (rel_prod R (=)) (handleSdkEnvCall vm call m args c) (handleSdkEnvCall vm call' m args f)"
  using assms(2) unfolding handleSdkEnvCall_def
  by (auto simp: env_eq[OF assms(2)] handleSdkEnvGetBlockHeight_def handleSdkEnvGetBlockTimestamp_def handleSdkEnvGetBlockProposerAddress_def
      intro!: rel_option_bind[OF committee_sim[OF assms]])

lemma address_sim: "R c f \<Longrightarrow> handleSdkAddressCall vm m args c = handleSdkAddressCall vm m args f"
  by (simp add: handleSdkAddressCall_def handleSdkAddressGetSignerAddress_def handleSdkAddressGetCallerAddress_def
      handleSdkAddressGetOwnAddress_def serviceStackDepth_def serviceStackPeekCaller_def serviceStackPeekCurrent_def env_eq[of c f])

lemma ethereum_sim: "R c f \<Longrightarrow> handleSdkEthereumCall vm m args c = handleSdkEthereumCall vm m args f"
  by (simp add: handleSdkEthereumCall_def handleSdkEthereumCallMethod_def handleSdkEthereumGetTransactionLog_def
      handleSdkEthereumGetBlockNumber_def handleSdkEthereumGetBlockNumberByTime_def handleSdkEthereumGetBlockTime_def
      handleSdkEthereumGetBlockTimeByNumber_def env_eq[of c f])

lemma events_sim: "R c f \<Longrightarrow> rel_prod R (=) (handleSdkEventsCall vm m args c) (handleSdkEventsCall vm m args f)"
  by (auto simp: handleSdkEventsCall_def handleSdkEventsEmitEvent_def eventListAdd_def serviceStackPeekCurrent_def env_eq[of c f] events)

lemma HandleSdkCall_sim:
  assumes "relatedCalls R call call'" "R c f"
  shows "rel_option (rel_prod (rel_option R) (=)) (HandleSdkCall vm stateCall call op m args scope (Some c))
    (HandleSdkCall vm stateCall' call' op m args scope (Some f))"
proof -
  have service: "rel_option (rel_prod R (=)) (handleSdkServiceCall vm call m args scope c) (handleSdkServiceCall vm call' m args scope f)"
    using assms(2) unfolding handleSdkServiceCall_def
    by (auto intro!: rel_option_bind[OF serviceCallMethod_sim[OF assms]])
  show ?thesis
    unfolding HandleSdkCall_def option.case
    by (rule rel_option_bind[where R = R])
      (use assms(2) service env_sim[OF assms] events_sim[OF assms(2)] state[OF assms(2)] address_sim ethereum_sim in auto)
qed

lemma runCode_sim:
  assumes "relatedCalls R call call'" "R c f"
  shows "rel_option (rel_prod R (=)) (runCode (HandleSdkCall vm stateCall call) code c) (runCode (HandleSdkCall vm stateCall' call') code f)"
  using assms(2)
proof (induction code arbitrary: c f)
  case (SdkCall op m args scope k)
  show ?case
    unfolding runCode.simps
    by (rule rel_option_bind[OF HandleSdkCall_sim[OF assms(1) SdkCall.prems]]) (auto elim!: option.rel_cases intro: SdkCall.IH[OF rangeI])
qed simp

lemma processCall_sim: "relatedCalls R (processCall vm stateCall n) (processCall vm stateCall' n)"
  by (induction n) (simp_all add: relatedCalls_def runCode_sim)

end

subsection \<open>The layers implement a plain state\<close>

record flatContext = executionContext +
  fc_state :: flatState

definition flatStateCall :: "flatContext stateCall" where
  "flatStateCall methodName args f =
     (if methodName = ''read''
      then (f, if length args \<noteq> 1 \<or> \<not> IsTypeBytesValue (args ! 0) then Err ErrInvalidArgs
               else bind_result (fc_state f (serviceStackTop f) (arg_bytes (args ! 0))) (\<lambda>value. Ok [BytesValue value]))
      else if methodName = ''write''
      then if ec_accessScope f \<noteq> ACCESS_SCOPE_READ_WRITE then (f, Err ErrNoWriteAccess)
           else if length args \<noteq> 2 \<or> \<not> IsTypeBytesValue (args ! 0) \<or> \<not> IsTypeBytesValue (args ! 1) then (f, Err ErrInvalidArgs)
           else (f\<lparr>fc_state := flatUpdate (fc_state f) (serviceStackTop f) (arg_bytes (args ! 0)) (arg_bytes (args ! 1))\<rparr>, Ok [])
      else (f, Err ErrUnknownMethod))"

definition storedState :: "VM \<Rightarrow> BlockHeight \<Rightarrow> flatState" where
  "storedState vm height contract key =
     (case vm_readKeys vm height contract [key] of
        Ok [] \<Rightarrow> Err ErrNoValue
      | Ok (record # _) \<Rightarrow> Ok (snd record)
      | Err e \<Rightarrow> Err (ErrStateRead e)
      | Panic \<Rightarrow> Panic)"

definition belowTransaction :: "VM \<Rightarrow> BlockHeight \<Rightarrow> transientState option \<Rightarrow> flatState" where
  "belowTransaction vm height batch = (case batch of None \<Rightarrow> storedState vm height | Some b \<Rightarrow> overlay b (storedState vm height))"

definition implements :: "VM \<Rightarrow> BlockHeight \<Rightarrow> transientState option \<Rightarrow> vmContext \<Rightarrow> flatContext \<Rightarrow> bool" where
  "implements vm height batch c f \<longleftrightarrow> sameEnvironment c f \<and> ec_lastCommittedBlockHeight c = height \<and> vc_batchTransientState c = batch \<and>
     ts_wf (vc_transientState c) \<and> coherent (vc_transientState c) (belowTransaction vm height batch) \<and>
     fc_state f = overlay (vc_transientState c) (belowTransaction vm height batch)"

lemma sameEnvironment_top: "sameEnvironment c f \<Longrightarrow> serviceStackTop c = serviceStackTop f"
  by (simp add: sameEnvironment_def serviceStackTop_def)

lemma storedState_cases:
  "vm_readKeys vm h contract [key] = Ok [] \<Longrightarrow> storedState vm h contract key = Err ErrNoValue"
  "vm_readKeys vm h contract [key] = Ok (r # rs) \<Longrightarrow> storedState vm h contract key = Ok (snd r)"
  "vm_readKeys vm h contract [key] = Err e \<Longrightarrow> storedState vm h contract key = Err (ErrStateRead e)"
  "vm_readKeys vm h contract [key] = Panic \<Longrightarrow> storedState vm h contract key = Panic"
  by (simp_all add: storedState_def)

lemma sameEnvironment_update [simp]:
  "sameEnvironment (c\<lparr>vc_transientState := t\<rparr>) f = sameEnvironment c f"
  "sameEnvironment c' (f'\<lparr>fc_state := \<sigma>\<rparr>) = sameEnvironment c' f'"
  by (simp_all add: sameEnvironment_def)

lemma flatUpdate_same: "\<sigma> contract key = Ok value \<Longrightarrow> flatUpdate \<sigma> contract key value = \<sigma>"
  by (auto simp: flatUpdate_def fun_eq_iff)

text \<open>A read finds the value in the first layer that has it, and caches a value read from the storage.\<close>

lemma read_layers:
  assumes "implements vm height batch c f"
  shows "snd (handleSdkStateRead vm [BytesValue key] c) = fc_state f (serviceStackTop f) key \<and>
    implements vm height batch (fst (handleSdkStateRead vm [BytesValue key] c)) f"
proof -
  let ?top = "serviceStackTop f" and ?t = "vc_transientState c"
  have top: "serviceStackTop c = ?top" and st: "fc_state f = overlay ?t (belowTransaction vm height batch)" and wf: "ts_wf ?t"
    and coh: "coherent ?t (belowTransaction vm height batch)" and env: "sameEnvironment c f"
      "ec_lastCommittedBlockHeight c = height" "vc_batchTransientState c = batch"
    using assms sameEnvironment_top by (auto simp: implements_def)
  show ?thesis
  proof (cases "ts_pair ?t ?top key")
    case (Some pair)
    then show ?thesis
      using assms top st by (simp add: handleSdkStateRead_def ts_getValue_pair overlay_def)
  next
    case None
    then have below: "fc_state f ?top key = belowTransaction vm height batch ?top key" and unset: "ts_getValue ?t ?top key = None"
      by (simp_all add: st overlay_def ts_getValue_pair)
    show ?thesis
    proof (cases "case batch of None \<Rightarrow> None | Some b \<Rightarrow> ts_getValue b ?top key")
      case (Some v)
      then have "belowTransaction vm height batch ?top key = Ok v"
        by (auto simp: belowTransaction_def overlay_def ts_getValue_pair Let_def split: option.splits)
      with Some unset below assms top env show ?thesis
        by (simp add: handleSdkStateRead_def)
    next
      case unwritten: None
      then have stored: "belowTransaction vm height batch ?top key = storedState vm (height) ?top key"
        by (auto simp: belowTransaction_def overlay_def ts_getValue_pair Let_def split: option.splits)
      show ?thesis
      proof (cases "\<exists>r rs. vm_readKeys vm (height) ?top [key] = Ok (r # rs)")
        case True
        then obtain r rs where read: "vm_readKeys vm (height) ?top [key] = Ok (r # rs)"
          by blast
        have val: "belowTransaction vm height batch ?top key = Ok (snd r)" "fc_state f ?top key = Ok (snd r)"
          using stored below storedState_cases(2)[OF read] by simp_all
        have "implements vm height batch (c\<lparr>vc_transientState := ts_setValue ?t ?top key (snd r) False\<rparr>) f"
          using env wf coh st val by (simp add: implements_def ts_wf_setValue coherent_setValue_cached overlay_setValue flatUpdate_same)
        with read unset unwritten top env val show ?thesis
          by (simp add: handleSdkStateRead_def Let_def)
      next
        case False
        with unset unwritten assms top env below stored show ?thesis
          by (cases "vm_readKeys vm (height) ?top [key]")
            (auto simp: handleSdkStateRead_def storedState_def neq_Nil_conv)
      qed
    qed
  qed
qed

lemma write_layers:
  assumes "implements vm height batch c f"
  shows "rel_prod (implements vm height batch) (=) (handleSdkStateCall vm ''write'' args c) (flatStateCall ''write'' args f)"
proof -
  have "ec_accessScope c = ec_accessScope f" "serviceStackTop c = serviceStackTop f"
    using assms sameEnvironment_top by (auto simp: implements_def sameEnvironment_def)
  with assms show ?thesis
    by (simp add: handleSdkStateCall_def handleSdkStateWrite_def flatStateCall_def)
      (simp add: implements_def ts_wf_setValue coherent_setValue_dirty overlay_setValue)
qed

lemma stateCall_layers:
  assumes "implements vm height batch c f"
  shows "rel_prod (implements vm height batch) (=) (handleSdkStateCall vm m args c) (flatStateCall m args f)"
proof (cases "m = ''read''")
  case True
  show ?thesis
  proof (cases "length args \<noteq> 1 \<or> \<not> IsTypeBytesValue (args ! 0)")
    case False
    then obtain key where "args = [BytesValue key]"
      by (cases args; cases "hd args") auto
    then show ?thesis
      using read_layers[OF assms, of key] True by (auto simp: handleSdkStateCall_def flatStateCall_def split: prod.splits)
  qed (use True assms in \<open>auto simp: handleSdkStateCall_def handleSdkStateRead_def flatStateCall_def\<close>)
next
  case False
  then show ?thesis
    using write_layers[OF assms, of args] assms by (cases "m = ''write''") (auto simp: handleSdkStateCall_def flatStateCall_def)
qed

interpretation layers: context_simulation vm "handleSdkStateCall vm" flatStateCall "implements vm height batch" for vm height batch
proof
  show "implements vm height batch c f \<Longrightarrow> sameEnvironment c f" for c f
    by (simp add: implements_def)
  show "implements vm height batch c f \<Longrightarrow> implements vm height batch (c\<lparr>ec_serviceStack := s\<rparr>) (f\<lparr>ec_serviceStack := s\<rparr>)" for c f s
    by (auto simp: implements_def sameEnvironment_def)
  show "implements vm height batch c f \<Longrightarrow> implements vm height batch (c\<lparr>ec_eventList := es\<rparr>) (f\<lparr>ec_eventList := es\<rparr>)" for c f es
    by (auto simp: implements_def sameEnvironment_def)
qed (rule stateCall_layers)

subsection \<open>Execution on the plain state\<close>

definition flatRunMethod ::
  "VM \<Rightarrow> nat \<Rightarrow> BlockHeight \<Rightarrow> BlockHeight \<Rightarrow> TimestampNano \<Rightarrow> NodeAddress \<Rightarrow> TransactionOrQuery \<Rightarrow> ExecutionAccessScope \<Rightarrow> flatState
     \<Rightarrow> (flatState \<times> (vmErr, methodOutput) result) option" where
  "flatRunMethod vm n lastHeight height timestamp proposer tq scope \<sigma> =
     (let call = processCall vm flatStateCall n;
          f = \<lparr>ec_contextId = [], ec_lastCommittedBlockHeight = lastHeight, ec_currentBlockHeight = height, ec_currentBlockTimestamp = timestamp,
            ec_currentBlockProposerAddress = proposer, ec_serviceStack = [], ec_accessScope = scope, ec_transactionOrQuery = Some tq,
            ec_eventList = [], fc_state = \<sigma>\<rparr>
      in do {
        (f, r) \<leftarrow> getServiceDeployment vm call (tq_contractName tq) f;
        (case r of
           Err e \<Rightarrow> Some (\<sigma>, Ok (EXECUTION_RESULT_ERROR_CONTRACT_NOT_DEPLOYED, None, None, Some e))
         | Panic \<Rightarrow> Some (\<sigma>, Panic)
         | Ok processor \<Rightarrow> do {
             (f, output, err) \<leftarrow> callOnStack call processor
               \<lparr>pci_contractName = tq_contractName tq, pci_methodName = tq_methodName tq,
                pci_inputArgumentArray = vm_readArguments vm (tq_rawInputArgumentArray tq),
                pci_accessScope = scope, pci_callingPermissionScope = PERMISSION_SCOPE_SERVICE\<rparr> f;
             Some (if pco_callResult output = EXECUTION_RESULT_SUCCESS then fc_state f else \<sigma>,
               Ok (pco_callResult output, pco_outputArgumentArray output, Some (ec_eventList f), err))
           })
      })"

fun flatTransactions ::
  "VM \<Rightarrow> nat \<Rightarrow> BlockHeight \<Rightarrow> TimestampNano \<Rightarrow> NodeAddress \<Rightarrow> SignedTransaction list \<Rightarrow> flatState
     \<Rightarrow> (vmErr, TransactionReceipt list \<times> flatState) result option" where
  "flatTransactions vm n height timestamp proposer [] \<sigma> = Some (Ok ([], \<sigma>))"
| "flatTransactions vm n height timestamp proposer (stx # stxs) \<sigma> =
     do {
       (\<sigma>, r) \<leftarrow> flatRunMethod vm n (height - 1) height timestamp proposer
         (transactionAsTransactionOrQuery vm (stx_transaction stx)) ACCESS_SCOPE_READ_WRITE \<sigma>;
       (case r of
          Ok (callResult, outputArgs, outputEvents, _) \<Rightarrow> do {
            r \<leftarrow> flatTransactions vm n height timestamp proposer stxs \<sigma>;
            Some (bind_result r (\<lambda>(receipts, \<sigma>).
              Ok (encodeTransactionReceipt vm (stx_transaction stx) callResult (orEmpty outputArgs) (orEmpty outputEvents) # receipts, \<sigma>)))
          }
        | Err e \<Rightarrow> Some (Err e)
        | Panic \<Rightarrow> Some Panic)
     }"

text \<open>A block's layer and the plain state it stands for.\<close>

definition batchImplements :: "VM \<Rightarrow> BlockHeight \<Rightarrow> transientState option \<Rightarrow> flatState \<Rightarrow> bool" where
  "batchImplements vm lastHeight batch \<sigma> \<longleftrightarrow>
     (\<exists>b. batch = Some b \<and> ts_wf b \<and> allDirty b \<and> \<sigma> = overlay b (storedState vm lastHeight))"

lemma merge_implements:
  assumes "implements vm height (Some b) c f" "ts_wf b" "allDirty b"
  shows "batchImplements vm height (Some (mergeIntoTransientState (vc_transientState c) b)) (fc_state f)"
  using assms by (simp add: batchImplements_def implements_def belowTransaction_def merge_correct overlay_dirtyOverlay)

lemma runMethod_refines:
  assumes "batchImplements vm lastHeight batch \<sigma>"
  shows "rel_option (\<lambda>(cp', batch', r) (\<sigma>', r'). batchImplements vm lastHeight batch' \<sigma>' \<and> r = r')
    (runMethod vm n cp lastHeight height timestamp proposer tq scope batch)
    (flatRunMethod vm n lastHeight height timestamp proposer tq scope \<sigma>)"
proof -
  obtain b where b: "batch = Some b" "ts_wf b" "allDirty b" "\<sigma> = overlay b (storedState vm lastHeight)"
    using assms by (auto simp: batchImplements_def)
  let ?R = "implements vm lastHeight batch"
  have calls: "relatedCalls ?R (processCall vm (handleSdkStateCall vm) n) (processCall vm flatStateCall n)"
    by (rule layers.processCall_sim)
  show ?thesis
    unfolding runMethod_def flatRunMethod_def allocateExecutionContext_def Let_def prod.case
  proof (rule rel_option_bind[where R = ?R], rule layers.getServiceDeployment_sim[OF calls], goal_cases)
    case 1
    then show ?case
      by (simp add: implements_def sameEnvironment_def b belowTransaction_def)
  next
    case (2 c f r)
    then show ?case
      using b assms
      by (auto split: result.splits prod.splits intro!: rel_option_bind[OF layers.callOnStack_sim[OF calls]] merge_implements
          dest: layers.env_eq(8))
  qed
qed

lemma rel_option_bind_any:
  assumes "rel_option R m m'" "\<And>x y. R x y \<Longrightarrow> rel_option S (k x) (k' y)"
  shows "rel_option S (Option.bind m k) (Option.bind m' k')"
  using assms by (cases m; cases m') auto

definition resultsAgree :: "VM \<Rightarrow> BlockHeight \<Rightarrow> 'c \<times> (vmErr, TransactionReceipt list \<times> transientState option) result
    \<Rightarrow> (vmErr, TransactionReceipt list \<times> flatState) result \<Rightarrow> bool" where
  "resultsAgree vm lastHeight x y =
     (case (snd x, y) of
        (Ok (receipts, batch), Ok (receipts', \<sigma>)) \<Rightarrow> receipts = receipts' \<and> batchImplements vm lastHeight batch \<sigma>
      | (Err e, Err e') \<Rightarrow> e = e'
      | (Panic, Panic) \<Rightarrow> True
      | _ \<Rightarrow> False)"

lemma resultsAgree_cons:
  assumes "resultsAgree vm lastHeight x y"
  shows "resultsAgree vm lastHeight (fst x, bind_result (snd x) (\<lambda>(receipts, batch). Ok (receipt # receipts, batch)))
    (bind_result y (\<lambda>(receipts, \<sigma>). Ok (receipt # receipts, \<sigma>)))"
  using assms by (cases "snd x"; cases y) (auto simp: resultsAgree_def)

lemma processTransactions_refines:
  assumes "batchImplements vm (height - 1) batch \<sigma>"
  shows "rel_option (resultsAgree vm (height - 1)) (processTransactions vm n cp height timestamp proposer stxs batch)
    (flatTransactions vm n height timestamp proposer stxs \<sigma>)"
  using assms
proof (induction stxs arbitrary: cp batch \<sigma>)
  case (Cons stx stxs)
  note run = runMethod_refines[OF Cons.prems]
  show ?case
    unfolding processTransactions.simps flatTransactions.simps
  proof (rule rel_option_bind_any[OF run], goal_cases)
    case (1 x y)
    obtain cp' batch' r \<sigma>' where x: "x = (cp', batch', r)" "y = (\<sigma>', r)" "batchImplements vm (height - 1) batch' \<sigma>'"
      using 1 by (cases x; cases y) auto
    show ?case
    proof (cases r)
      case (Ok out)
      obtain callResult outputArgs outputEvents err where out: "out = (callResult, outputArgs, outputEvents, err)"
        by (cases out)
      show ?thesis
        unfolding x Ok out prod.case result.case
        by (rule rel_option_bind_any[OF Cons.IH[OF x(3)]]) (auto dest: resultsAgree_cons)
    qed (simp_all add: x resultsAgree_def)
  qed
qed (simp add: resultsAgree_def)

lemma resultsAgree_diffs:
  assumes "resultsAgree vm lastHeight x y"
  shows "y = bind_result (bind_result (snd x) (\<lambda>(receipts, batch).
      Ok (receipts, case batch of Some b \<Rightarrow> encodeBatchTransientStateToStateDiffs b | None \<Rightarrow> [])))
    (\<lambda>(receipts, diffs). Ok (receipts, applyDiffs diffs (storedState vm lastHeight)))"
  using assms by (cases "snd x"; cases y)
    (auto simp: resultsAgree_def batchImplements_def applyDiffs_encode overlay_dirtyOverlay allDirty_coherent)

lemma processTransactionSet_plain:
  "flatTransactions vm n height timestamp proposer stxs (storedState vm (height - 1)) =
     map_option (\<lambda>(cp', r). bind_result r (\<lambda>(receipts, diffs). Ok (receipts, applyDiffs diffs (storedState vm (height - 1)))))
       (processTransactionSet vm n cp height timestamp proposer stxs)"
proof -
  have "batchImplements vm (height - 1) (Some newTransientState) (storedState vm (height - 1))"
    by (simp add: batchImplements_def)
  note processTransactions_refines[OF this, of n cp timestamp proposer stxs]
  then show ?thesis
    unfolding processTransactionSet_def by (auto elim!: option.rel_cases dest!: resultsAgree_diffs)
qed

text \<open>
  C15. Executing a block of transactions on the layered transient state is the same as executing it on one plain
  state that starts as the stored state of the previous block, where a transaction whose result is not success
  leaves the state as it was. The receipts are those of the plain execution, and its final state is the stored
  state with the state diffs of the block applied. This holds for all contracts and processors, to any depth of
  calls between contracts, and also says when the execution panics or exceeds the depth.
\<close>

theorem processTransactionSet_refines_plain_state:
  "flatTransactions vm n height timestamp proposer stxs (storedState vm (height - 1)) =
     map_option (\<lambda>(cp', r). bind_result r (\<lambda>(receipts, diffs). Ok (receipts, applyDiffs diffs (storedState vm (height - 1)))))
       (processTransactionSet vm n cp height timestamp proposer stxs)"
  by (rule processTransactionSet_plain)

subsection \<open>Executing a block and committing it\<close>

definition plainState :: "ChainState list \<Rightarrow> flatState" where
  "plainState ds contract key = (if contract = [] then Err (ErrStateRead storageError.MissingContractName) else Ok (state_of ds contract key))"

lemma applyDiffs_flat_writes:
  "applyDiffs diffs \<sigma> contract key = (case map_of (rev (flat_writes diffs)) (contract, key) of Some v \<Rightarrow> Ok v | None \<Rightarrow> \<sigma> contract key)"
proof (induction diffs rule: rev_induct)
  case Nil
  then show ?case
    by (simp add: applyDiffs_def flat_writes_def)
next
  case (snoc d diffs)
  have "fold (\<lambda>(key, value) \<sigma>. flatUpdate \<sigma> c key value) kvs \<tau> contract key =
    (case map_of (rev (map (\<lambda>(k, v). ((c, k), v)) kvs)) (contract, key) of Some v \<Rightarrow> Ok v | None \<Rightarrow> \<tau> contract key)" for c kvs \<tau>
  proof (induction kvs rule: rev_induct)
    case (snoc kv kvs)
    then show ?case
      by (cases kv) (auto simp: flatUpdate_def split: option.splits)
  qed simp
  with snoc show ?case
    by (auto simp: applyDiffs_def flat_writes_def map_add_def split: option.splits)
qed

lemma ReadKeys_top:
  assumes "committed sha snapshotNum grace s ds" "length ds < 2 ^ 63" "0 < unat snapshotNum" "contract \<noteq> []"
  shows "ReadKeys inMemory s [] s (of_nat (length ds)) contract [key] = Some (Ok [(key, state_of ds contract key)])"
proof -
  have "WaitForBlock (ss_blockTracker s) [] (of_nat (length ds)) = Some (Ok ())"
    using assms(2) by (intro committed_wait[OF assms(1)]) simp_all
  from ReadKeys_history[OF assms(1,2) order_refl this assms(4), of "[key]"] assms(3) show ?thesis
    by simp
qed

lemma storedState_plain:
  assumes "committed sha snapshotNum grace s ds" "length ds < 2 ^ 63" "0 < unat snapshotNum"
    and "\<And>contract keys. Some (vm_readKeys vm (of_nat (length ds)) contract keys) = ReadKeys inMemory s [] s (of_nat (length ds)) contract keys"
  shows "storedState vm (of_nat (length ds)) = plainState ds"
proof (intro ext)
  fix contract key
  have "ReadKeys inMemory s [] s (of_nat (length ds)) contract [key] =
    Some (if contract = [] then Err storageError.MissingContractName else Ok [(key, state_of ds contract key)])"
  proof (cases "contract = []")
    case False
    then show ?thesis
      using ReadKeys_top[OF assms(1-3)] by simp
  qed (simp add: ReadKeys_def)
  then have "vm_readKeys vm (of_nat (length ds)) contract [key] =
      (if contract = [] then Err storageError.MissingContractName else Ok [(key, state_of ds contract key)])"
    using assms(4)[of contract "[key]"] by simp
  then show "storedState vm (of_nat (length ds)) contract key = plainState ds contract key"
    by (simp add: storedState_def plainState_def)
qed

text \<open>
  C17. Executing a block and committing its state diffs gives the state the contracts produced. Let the state
  storage be at some height with a history of diffs, and the virtual machine read from it. When the execution of
  the next block gives receipts and diffs, the same block run on the plain state of that history gives the same
  receipts and a final state; the storage accepts the diffs, and from then on reads, for every contract and key,
  the value in that final state.
\<close>

theorem block_execution_commits_plain_state:
  assumes "committed sha snapshotNum grace s ds" "length ds + 1 < 2 ^ 63" "0 < unat snapshotNum"
    and "\<And>contract keys. Some (vm_readKeys vm (of_nat (length ds)) contract keys) = ReadKeys inMemory s [] s (of_nat (length ds)) contract keys"
    and "processTransactionSet vm n cp (of_nat (length ds) + 1) timestamp proposer stxs = Some (cp', Ok (receipts, diffs))"
    and "rbh_blockHeight header = of_nat (length ds) + 1"
  shows "\<exists>s' \<sigma>. CommitStateDiff sha inMemory s \<lparr>csdi_resultsBlockHeader = Some header, csdi_contractStateDiffs = Some diffs\<rparr>
        = (s', Ok (of_nat (length ds) + 2)) \<and>
      flatTransactions vm n (of_nat (length ds) + 1) timestamp proposer stxs (plainState ds) = Some (Ok (receipts, \<sigma>)) \<and>
      (\<forall>contract key. contract \<noteq> [] \<longrightarrow> (\<exists>v. \<sigma> contract key = Ok v \<and>
        ReadKeys inMemory s' [] s' (of_nat (length ds) + 1) contract [key] = Some (Ok [(key, v)])))"
proof -
  let ?ds = "ds @ [inflateChainState diffs]" and ?\<sigma> = "applyDiffs diffs (plainState ds)"
  have height: "rbh_blockHeight header = currentHeight (ss_revisions s) + 1"
    using service_inv_height[OF committed_inv[OF assms(1)]] assms(6) by simp
  obtain s' where s': "CommitStateDiff sha inMemory s \<lparr>csdi_resultsBlockHeader = Some header, csdi_contractStateDiffs = Some diffs\<rparr>
      = (s', Ok (of_nat (length ds) + 2))"
    using CommitStateDiff_next[OF committed_inv[OF assms(1)] height, of diffs] assms(6) by auto
  have com: "committed sha snapshotNum grace s' ?ds"
    by (rule committed.commit[OF assms(1) height s'])
  have "storedState vm (of_nat (length ds)) = plainState ds"
    using assms(2) by (intro storedState_plain[OF assms(1) _ assms(3,4)]) simp
  then have flat: "flatTransactions vm n (of_nat (length ds) + 1) timestamp proposer stxs (plainState ds) = Some (Ok (receipts, ?\<sigma>))"
    using processTransactionSet_plain[of vm n "of_nat (length ds) + 1" timestamp proposer stxs cp] assms(5) by simp
  have "\<exists>v. ?\<sigma> contract key = Ok v \<and> ReadKeys inMemory s' [] s' (of_nat (length ?ds)) contract [key] = Some (Ok [(key, v)])"
    if "contract \<noteq> []" for contract key
    using ReadKeys_top[OF com _ assms(3) that, of key] that assms(2)
    by (auto simp: applyDiffs_flat_writes plainState_def state_of_snoc state_apply_def cs_get_inflateChainState split: option.splits)
  with s' flat show ?thesis
    by (auto simp: add.commute)
qed

text \<open>A contract that adds a byte to the value of one key, on a processor where every contract is deployed.\<close>

definition demo_output :: "Argument list \<Rightarrow> ProcessCallOutput" where
  "demo_output args = \<lparr>pco_outputArgumentArray = Some args, pco_callResult = EXECUTION_RESULT_SUCCESS\<rparr>"

definition demo_native :: Processor where
  "demo_native input =
     (if pci_contractName input = DEPLOYMENTS_CONTRACT_NAME then Finish (demo_output [Uint32Value 1]) None
      else SdkCall ''Sdk.State'' ''read'' [BytesValue [66]] PERMISSION_SCOPE_SERVICE (\<lambda>r.
        case r of
          Ok [BytesValue v] \<Rightarrow>
            SdkCall ''Sdk.State'' ''write'' [BytesValue [66], BytesValue (1 # v)] PERMISSION_SCOPE_SERVICE (\<lambda>_. Finish (demo_output []) None)
        | _ \<Rightarrow> Finish (demo_output []) (Some ErrNoValue)))"

definition demo_vm :: "InMemoryStatePersistence StateStorage \<Rightarrow> VM" where
  "demo_vm s =
     \<lparr>vm_sha = demo_sha, vm_wire = demo_wire, vm_readArguments = (\<lambda>_. []), vm_rawArgumentArray = (\<lambda>_. []), vm_rawArguments = (\<lambda>_. []),
      vm_rawInputArgumentArrayWithHeader = (\<lambda>b. b), vm_rawEvents = (\<lambda>_. []), vm_eddsaPublicKey = (\<lambda>_. Err InvalidSigner),
      vm_verifyEd25519 = (\<lambda>_ _ _. True), vm_nativeType = 1, vm_native = demo_native, vm_otherProcessors = Map.empty,
      vm_hasContractInfo = (\<lambda>_. True),
      vm_ethereum = \<lparr>eth_CallContract = (\<lambda>_ _ _ _ _ _. Panic), eth_GetTransactionLogs = (\<lambda>_ _ _ _ _. Panic), eth_GetBlockNumber = (\<lambda>_. Panic),
        eth_GetBlockNumberByTime = (\<lambda>_ _. Panic), eth_GetBlockTime = (\<lambda>_. Panic), eth_GetBlockTimeByNumber = (\<lambda>_ _. Panic)\<rparr>,
      vm_committee = (\<lambda>_. []),
      vm_readKeys = (\<lambda>h contract keys. case ReadKeys inMemory s [] s h contract keys of Some r \<Rightarrow> r | None \<Rightarrow> Panic),
      vm_lastCommittedBlockInfo = Inr (GetLastCommittedBlockInfo s)\<rparr>"

definition demo_call_stx :: SignedTransaction where
  "demo_call_stx = \<lparr>stx_transaction = \<lparr>tx_protocolVersion = 1, tx_virtualChainId = 42, tx_timestamp = 3, tx_signer = EddsaSigner (replicate 32 7),
     tx_contractName = [65], tx_methodName = [], tx_inputArgumentArray = []\<rparr>, stx_signature = []\<rparr>"

lemma demo_vm_simps:
  "vm_sha (demo_vm s) = demo_sha" "vm_native (demo_vm s) = demo_native" "vm_nativeType (demo_vm s) = 1"
  "vm_readArguments (demo_vm s) raw = []" "vm_rawInputArgumentArrayWithHeader (demo_vm s) raw = raw"
  by (simp_all add: demo_vm_def)

lemmas demo_run_simps = Let_def demo_vm_simps demo_native_def demo_output_def demo_call_stx_def transactionAsTransactionOrQuery_def
  runMethod_def allocateExecutionContext_def getServiceDeployment_def callGetInfoOfDeploymentSystemContract_def callOnStack_def
  vm_processor_def HandleSdkCall_def handleSdkStateCall_def handleSdkStateRead_def handleSdkStateWrite_def
  serviceStackTop_def serviceStackPush_def serviceStackPop_def ts_getValue_def ts_setValue_def newTransientState_def
  mergeIntoTransientState_def forDirty_def encodeBatchTransientStateToStateDiffs_def DEPLOYMENTS_CONTRACT_NAME_def str_def

lemma demo_vm_run:
  assumes "vm_readKeys (demo_vm s) (height - 1) [65] [[66]] = Ok [([66], v)]"
  shows "\<exists>cp' receipts. processTransactionSet (demo_vm s) 1 cp height timestamp proposer [demo_call_stx, demo_call_stx] =
    Some (cp', Ok (receipts, [\<lparr>csd_contractName = [65], csd_stateDiffs = [([66], 1 # 1 # v)]\<rparr>]))"
  using assms by (simp add: processTransactionSet_def demo_run_simps)

lemma demo_vm_reads:
  assumes "committed sha snapshotNum grace s ds" "length ds < 2 ^ 63"
  shows "Some (vm_readKeys (demo_vm s) (of_nat (length ds)) contract keys) = ReadKeys inMemory s [] s (of_nat (length ds)) contract keys"
proof -
  have "WaitForBlock (ss_blockTracker s) [] (of_nat (length ds)) = Some (Ok ())"
    using assms(2) by (intro committed_wait[OF assms(1)]) simp_all
  then have "ReadKeys inMemory s [] s (of_nat (length ds)) contract keys \<noteq> None"
    by (simp add: ReadKeys_def)
  then show ?thesis
    by (auto simp: demo_vm_def)
qed

theorem block_execution_commits_plain_state_witness:
  "\<exists>cp' receipts s' \<sigma>.
     processTransactionSet (demo_vm (demo_commit demo_start [9])) 1 (newExecutionContextProvider 0) 2 5 [7] [demo_call_stx, demo_call_stx] =
       Some (cp', Ok (receipts, [\<lparr>csd_contractName = [65], csd_stateDiffs = [([66], [1, 1, 9])]\<rparr>])) \<and>
     CommitStateDiff demo_sha inMemory (demo_commit demo_start [9]) \<lparr>csdi_resultsBlockHeader = Some (demo_header 2),
       csdi_contractStateDiffs = Some [\<lparr>csd_contractName = [65], csd_stateDiffs = [([66], [1, 1, 9])]\<rparr>]\<rparr> = (s', Ok 3) \<and>
     flatTransactions (demo_vm (demo_commit demo_start [9])) 1 2 5 [7] [demo_call_stx, demo_call_stx] (plainState [inflateChainState (demo_diffs [9])]) =
       Some (Ok (receipts, \<sigma>)) \<and>
     (\<forall>contract key. contract \<noteq> [] \<longrightarrow> (\<exists>v. \<sigma> contract key = Ok v \<and> ReadKeys inMemory s' [] s' 2 contract [key] = Some (Ok [(key, v)])))"
proof -
  let ?s = "demo_commit demo_start [9]" and ?ds = "[inflateChainState (demo_diffs [9])]"
  let ?diffs = "[\<lparr>csd_contractName = [65], csd_stateDiffs = [([66], [1, 1, 9])]\<rparr>] :: ContractStateDiff list"
  have com: "committed demo_sha 5 2 ?s ?ds"
    by (rule committed_demo)
  have reads: "Some (vm_readKeys (demo_vm ?s) (of_nat (length ?ds)) contract keys) = ReadKeys inMemory ?s [] ?s (of_nat (length ?ds)) contract keys"
    for contract keys
    by (rule demo_vm_reads[OF com]) simp
  have "ReadKeys inMemory ?s [] ?s (of_nat (length ?ds)) [65] [[66]] = Some (Ok [([66], [9])])"
    using ReadKeys_top[OF com, of "[65]" "[66]"] by (simp add: state_of_def state_apply_def cs_get_demo)
  then have "vm_readKeys (demo_vm ?s) (2 - 1) [65] [[66]] = Ok [([66], [9])]"
    using reads[of "[65]" "[[66]]"] by simp
  from demo_vm_run[OF this] obtain cp' receipts where
    run: "processTransactionSet (demo_vm ?s) 1 (newExecutionContextProvider 0) 2 5 [7] [demo_call_stx, demo_call_stx] = Some (cp', Ok (receipts, ?diffs))"
    by blast
  then have run': "processTransactionSet (demo_vm ?s) 1 (newExecutionContextProvider 0) (of_nat (length ?ds) + 1) 5 [7] [demo_call_stx, demo_call_stx] =
      Some (cp', Ok (receipts, ?diffs))"
    by simp
  have header: "rbh_blockHeight (demo_header 2) = of_nat (length ?ds) + 1"
    by (simp add: demo_header_def)
  from block_execution_commits_plain_state[OF com _ _ reads run' header] run show ?thesis
    by simp
qed

subsection \<open>Pre-order checks\<close>

text \<open>
  C18. The checks before ordering give one status per transaction, and each is final. A transaction is valid exactly
  when the subscription is approved, or it calls the pre-order contract itself, and its signer is an Ed25519 key whose
  signature of the transaction's hash verifies. It is rejected by the global pre-order exactly when the subscription
  is not approved and it calls another contract, whatever its signature.
\<close>

theorem TransactionSetPreOrder_statuses:
  assumes "TransactionSetPreOrder vm n cp height timestamp stxs = Some (cp', statuses)"
  shows "\<exists>err. callGlobalPreOrderSystemContract vm n cp height timestamp = Some (cp', err) \<and> length statuses = length stxs \<and>
    (\<forall>i < length stxs.
       let t = stx_transaction (stxs ! i); approved = (err = None \<or> tx_contractName t = GLOBAL_PRE_ORDER_CONTRACT_NAME) in
       statuses ! i \<noteq> STATUS_RESERVED \<and>
       (statuses ! i = STATUS_REJECTED_GLOBAL_PRE_ORDER \<longleftrightarrow> \<not> approved) \<and>
       (statuses ! i = STATUS_PRE_ORDER_VALID \<longleftrightarrow> approved \<and>
          (\<exists>key. tx_signer t = EddsaSigner key \<and> length key = ED25519_PUBLIC_KEY_SIZE_BYTES \<and>
             vm_verifyEd25519 vm key (CalcTxHash (vm_sha vm) (vm_wire vm) t) (stx_signature (stxs ! i)))))"
proof -
  obtain cp'' err where call: "callGlobalPreOrderSystemContract vm n cp height timestamp = Some (cp'', err)"
    using assms unfolding TransactionSetPreOrder_def by (cases "callGlobalPreOrderSystemContract vm n cp height timestamp") auto
  define initial where "initial = (case err of
      None \<Rightarrow> replicate (length stxs) STATUS_RESERVED
    | Some _ \<Rightarrow> map (\<lambda>stx. if tx_contractName (stx_transaction stx) \<noteq> GLOBAL_PRE_ORDER_CONTRACT_NAME
        then STATUS_REJECTED_GLOBAL_PRE_ORDER else STATUS_RESERVED) stxs)"
  have statuses: "statuses = verifyTransactionSignatures vm stxs initial" "cp'' = cp'"
    using assms call by (auto simp: TransactionSetPreOrder_def initial_def Let_def)
  have len: "length initial = length stxs"
    by (simp add: initial_def split: option.splits)
  have "initial ! i = (if err = None \<or> tx_contractName (stx_transaction (stxs ! i)) = GLOBAL_PRE_ORDER_CONTRACT_NAME
      then STATUS_RESERVED else STATUS_REJECTED_GLOBAL_PRE_ORDER)" if "i < length stxs" for i
    using that by (auto simp: initial_def split: option.splits)
  with len have "\<forall>i < length stxs. let t = stx_transaction (stxs ! i); approved = (err = None \<or> tx_contractName t = GLOBAL_PRE_ORDER_CONTRACT_NAME) in
       statuses ! i \<noteq> STATUS_RESERVED \<and>
       (statuses ! i = STATUS_REJECTED_GLOBAL_PRE_ORDER \<longleftrightarrow> \<not> approved) \<and>
       (statuses ! i = STATUS_PRE_ORDER_VALID \<longleftrightarrow> approved \<and>
          (\<exists>key. tx_signer t = EddsaSigner key \<and> length key = ED25519_PUBLIC_KEY_SIZE_BYTES \<and>
             vm_verifyEd25519 vm key (CalcTxHash (vm_sha vm) (vm_wire vm) t) (stx_signature (stxs ! i))))"
    by (auto simp: statuses(1) verifyTransactionSignatures_def verifyEd25519Signer_def VerifyEd25519_def Let_def split: Signer.splits)
  with call statuses len show ?thesis
    by (auto simp: verifyTransactionSignatures_def)
qed

definition demo_refusing_vm :: VM where
  "demo_refusing_vm = demo_vm demo_start \<lparr>vm_native := \<lambda>_. Finish (demo_output []) (Some (ErrContract []))\<rparr>"

theorem TransactionSetPreOrder_statuses_witness:
  "\<exists>cp' statuses err.
     TransactionSetPreOrder demo_refusing_vm 1 (newExecutionContextProvider 0) 1 5 [demo_call_stx] = Some (cp', statuses) \<and>
     callGlobalPreOrderSystemContract demo_refusing_vm 1 (newExecutionContextProvider 0) 1 5 = Some (cp', err) \<and>
     statuses ! 0 = STATUS_REJECTED_GLOBAL_PRE_ORDER"
proof -
  have call: "\<exists>cp'. callGlobalPreOrderSystemContract demo_refusing_vm 1 (newExecutionContextProvider 0) 1 5 = Some (cp', Some (ErrContract []))"
    by (simp add: callGlobalPreOrderSystemContract_def callNative_def allocateExecutionContext_def callOnStack_def demo_refusing_vm_def
        Let_def)
  then obtain cp' statuses where run: "TransactionSetPreOrder demo_refusing_vm 1 (newExecutionContextProvider 0) 1 5 [demo_call_stx] = Some (cp', statuses)"
    by (auto simp: TransactionSetPreOrder_def)
  from TransactionSetPreOrder_statuses[OF run] call show ?thesis
    using run by (auto simp: Let_def demo_call_stx_def GLOBAL_PRE_ORDER_CONTRACT_NAME_def str_def)
qed

end
