(* ===== verification/Timestamp_Finder.thy ===== *)
theory Timestamp_Finder
  imports Prelude "HOL-Library.Signed_Division"
begin

text \<open>
  The search for the Ethereum block of a timestamp, \<open>services/crosschainconnector/ethereum/timestampfinder\<close>, and the
  choice of a finality-safe block, \<open>finality.go\<close>. Block numbers are 64-bit signed integers, \<open>int64\<close> is their
  wrap-around. The getter of block times is a parameter. The first steps of the search guess a block by a
  floating-point interpolation; the guess is a parameter too, since the code clamps it into the range.
\<close>

definition int64 :: "int \<Rightarrow> int" where
  "int64 x = (x + 2 ^ 63) mod 2 ^ 64 - 2 ^ 63"

record BlockNumberAndTime =
  bnt_number :: int
  bnt_time :: TimestampNano

datatype finderErr =
    ErrGetter bytes | ErrNilLatest | ErrNilCursor | ErrNotNewer | ErrFirstNewer | ErrUnableToExtend
  | ErrBelowOne | ErrTooClose | ErrBelowAfter | ErrAboveBefore | ErrCanceled | ErrMaxSteps | ErrNotEnoughBlocks | ErrUnsafe
  | ErrNoEvent | ErrLogCount | ErrOtherContract

text \<open>A getter returns a block or nil.\<close>

record BlockTimeGetter =
  GetTimestampForBlockNumber :: "int \<Rightarrow> (finderErr, BlockNumberAndTime option) result"
  GetTimestampForLatestBlock :: "(finderErr, BlockNumberAndTime option) result"

definition TIMESTAMP_FINDER_PROBABLE_RANGE_EFFICIENT :: int where "TIMESTAMP_FINDER_PROBABLE_RANGE_EFFICIENT = 1000"
definition TIMESTAMP_FINDER_PROBABLE_RANGE_INEFFICIENT :: int where "TIMESTAMP_FINDER_PROBABLE_RANGE_INEFFICIENT = 10000"
definition TIMESTAMP_FINDER_MAX_STEPS :: nat where "TIMESTAMP_FINDER_MAX_STEPS = 1000"
definition TIMESTAMP_FINDER_ALLOWED_HEURISTIC_STEPS :: nat where "TIMESTAMP_FINDER_ALLOWED_HEURISTIC_STEPS = 10"

text \<open>The getter over the headers of an Ethereum node, which gives the latest header for no number.\<close>

record HeaderTime =
  hdr_number :: int
  hdr_timeInSeconds :: "64 word"

definition secondsToNano :: "64 word \<Rightarrow> TimestampNano" where
  "secondsToNano seconds = seconds * 1000000000"

definition headerTime :: "(int option \<Rightarrow> (finderErr, HeaderTime option) result) \<Rightarrow> int option \<Rightarrow> (finderErr, BlockNumberAndTime option) result" where
  "headerTime headerByNumber blockNumber =
     bind_result (headerByNumber blockNumber) (\<lambda>header.
       case header of
         None \<Rightarrow> Ok None
       | Some header \<Rightarrow> Ok (Some \<lparr>bnt_number = hdr_number header, bnt_time = secondsToNano (hdr_timeInSeconds header)\<rparr>))"

definition NewEthereumBasedBlockTimeGetter :: "(int option \<Rightarrow> (finderErr, HeaderTime option) result) \<Rightarrow> BlockTimeGetter" where
  "NewEthereumBasedBlockTimeGetter headerByNumber =
     \<lparr>GetTimestampForBlockNumber = (\<lambda>blockNumber. headerTime headerByNumber (Some blockNumber)),
      GetTimestampForLatestBlock = headerTime headerByNumber None\<rparr>"

subsection \<open>The steps of the search\<close>

definition algoDidReachResult :: "TimestampNano \<Rightarrow> BlockNumberAndTime \<Rightarrow> BlockNumberAndTime \<Rightarrow> bool" where
  "algoDidReachResult reference below above' =
     (if int64 (bnt_number below + 1) \<noteq> bnt_number above' then False
      else 1 \<le> bnt_number below \<and> bnt_time below \<le> reference \<and> reference < bnt_time above')"

definition algoVerifyResultInsideRange :: "TimestampNano \<Rightarrow> BlockNumberAndTime \<Rightarrow> BlockNumberAndTime \<Rightarrow> (finderErr, unit) result" where
  "algoVerifyResultInsideRange reference below above' =
     (if bnt_number below < 1 then Err ErrBelowOne
      else if \<not> int64 (bnt_number below + 1) < bnt_number above' then Err ErrTooClose
      else if reference < bnt_time below then Err ErrBelowAfter
      else if bnt_time above' \<le> reference then Err ErrAboveBefore
      else Ok ())"

definition algoExtendAbove :: "TimestampNano \<Rightarrow> BlockTimeGetter \<Rightarrow> (finderErr, BlockNumberAndTime) result" where
  "algoExtendAbove reference btg =
     bind_result (GetTimestampForLatestBlock btg) (\<lambda>latest.
       case latest of
         None \<Rightarrow> Err ErrNilLatest
       | Some latest \<Rightarrow> if bnt_time latest \<le> reference then Err ErrNotNewer else Ok latest)"

fun extendBelowLoop :: "TimestampNano \<Rightarrow> BlockTimeGetter \<Rightarrow> int list \<Rightarrow> (finderErr, BlockNumberAndTime) result" where
  "extendBelowLoop reference btg [] = Err ErrUnableToExtend"
| "extendBelowLoop reference btg (cursorBlockNumber # attempts) =
     (if 1 \<le> cursorBlockNumber
      then bind_result (GetTimestampForBlockNumber btg cursorBlockNumber) (\<lambda>cursor.
        case cursor of
          None \<Rightarrow> Err ErrNilCursor
        | Some cursor \<Rightarrow>
            if 1 \<le> bnt_number cursor \<and> bnt_time cursor \<le> reference then Ok cursor
            else if bnt_number cursor = 1 then Err ErrFirstNewer
            else extendBelowLoop reference btg attempts)
      else extendBelowLoop reference btg attempts)"

definition algoExtendBelow :: "TimestampNano \<Rightarrow> int \<Rightarrow> int \<Rightarrow> BlockTimeGetter \<Rightarrow> (finderErr, BlockNumberAndTime) result" where
  "algoExtendBelow reference belowBlockNumber aboveBlockNumber btg =
     (let startBlockNumber = (if belowBlockNumber < 1 then aboveBlockNumber else belowBlockNumber) in
      extendBelowLoop reference btg
        [int64 (startBlockNumber - TIMESTAMP_FINDER_PROBABLE_RANGE_EFFICIENT),
         int64 (startBlockNumber - TIMESTAMP_FINDER_PROBABLE_RANGE_INEFFICIENT), 1])"

text \<open>
  \<open>guess a b c\<close> stands for \<open>int64(math.Round(float64(a) / float64(b) * float64(c)))\<close>.
\<close>

type_synonym interpolation = "64 word \<Rightarrow> 64 word \<Rightarrow> int \<Rightarrow> int"

definition algoGetCursorWithHeuristics :: "interpolation \<Rightarrow> TimestampNano \<Rightarrow> BlockNumberAndTime \<Rightarrow> BlockNumberAndTime \<Rightarrow> int" where
  "algoGetCursorWithHeuristics guess reference below above' =
     (let distInBlocks = int64 (bnt_number above' - bnt_number below);
          distInNano = bnt_time above' - bnt_time below in
      if distInNano = 0 then int64 (bnt_number above' - 1)
      else let distToReference = reference - bnt_time below;
               res = int64 (bnt_number below + guess distToReference distInNano distInBlocks) in
           if res \<le> bnt_number below then int64 (bnt_number below + 1)
           else if bnt_number above' \<le> res then int64 (bnt_number above' - 1)
           else res)"

definition algoGetCursorWithBinarySearch :: "BlockNumberAndTime \<Rightarrow> BlockNumberAndTime \<Rightarrow> int" where
  "algoGetCursorWithBinarySearch below above' =
     (let distInBlocks = int64 (bnt_number above' - bnt_number below) in int64 (bnt_number below + distInBlocks sdiv 2))"

definition algoReduceRange ::
  "interpolation \<Rightarrow> TimestampNano \<Rightarrow> BlockNumberAndTime \<Rightarrow> BlockNumberAndTime \<Rightarrow> BlockTimeGetter \<Rightarrow> nat
     \<Rightarrow> (finderErr, BlockNumberAndTime \<times> BlockNumberAndTime) result" where
  "algoReduceRange guess reference below above' btg step =
     (let allowedHeuristics = (step \<le> TIMESTAMP_FINDER_ALLOWED_HEURISTIC_STEPS);
          cursorBlockNumber = (if allowedHeuristics then algoGetCursorWithHeuristics guess reference below above'
                               else algoGetCursorWithBinarySearch below above')
      in bind_result (GetTimestampForBlockNumber btg cursorBlockNumber) (\<lambda>cursor.
           case cursor of
             None \<Rightarrow> Err ErrNilCursor
           | Some cursor \<Rightarrow> Ok (if reference < bnt_time cursor then (below, cursor) else (cursor, above'))))"

subsection \<open>The finder\<close>

record finder =
  fd_below :: "BlockNumberAndTime option"
  fd_above :: "BlockNumberAndTime option"

definition NewTimestampFinder :: finder where
  "NewTimestampFinder = \<lparr>fd_below = None, fd_above = None\<rparr>"

definition getLastResultCache :: "finder \<Rightarrow> BlockNumberAndTime \<times> BlockNumberAndTime" where
  "getLastResultCache f =
     (let zero = \<lparr>bnt_number = 0, bnt_time = 0\<rparr> in
      (case fd_below f of Some b \<Rightarrow> b | None \<Rightarrow> zero, case fd_above f of Some a \<Rightarrow> a | None \<Rightarrow> zero))"

definition setLastResultCache :: "BlockNumberAndTime \<Rightarrow> BlockNumberAndTime \<Rightarrow> finder \<Rightarrow> finder" where
  "setLastResultCache below above' f = f\<lparr>fd_below := Some below, fd_above := Some above'\<rparr>"

definition returnConfirmedResult :: "BlockNumberAndTime \<Rightarrow> BlockNumberAndTime \<Rightarrow> finder \<Rightarrow> finder \<times> (finderErr, BlockNumberAndTime) result" where
  "returnConfirmedResult below above' f = (setLastResultCache below above' f, Ok below)"

text \<open>
  The loop of \<open>FindBlockByTimestamp\<close> from a step on, with the number of steps left before the maximum. The step at
  which the caller cancels its context, if it does, is given by \<open>canceled\<close>.
\<close>

fun findLoop ::
  "interpolation \<Rightarrow> (nat \<Rightarrow> bool) \<Rightarrow> BlockTimeGetter \<Rightarrow> TimestampNano \<Rightarrow> finder \<Rightarrow> nat \<Rightarrow> nat \<Rightarrow> BlockNumberAndTime \<Rightarrow> BlockNumberAndTime
     \<Rightarrow> finder \<times> (finderErr, BlockNumberAndTime) result" where
  "findLoop guess canceled btg reference f steps 0 below above' = (f, Err ErrMaxSteps)"
| "findLoop guess canceled btg reference f steps (Suc left) below above' =
     (if canceled steps then (f, Err ErrCanceled)
      else if algoDidReachResult reference below above' then returnConfirmedResult below above' f
      else case algoVerifyResultInsideRange reference below above' of
             Ok _ \<Rightarrow>
               (case algoReduceRange guess reference below above' btg steps of
                  Ok (below, above') \<Rightarrow> findLoop guess canceled btg reference f (steps + 1) left below above'
                | Err e \<Rightarrow> (f, Err e)
                | Panic \<Rightarrow> (f, Panic))
           | Err e \<Rightarrow> (f, Err e)
           | Panic \<Rightarrow> (f, Panic))"

definition FindBlockByTimestamp ::
  "interpolation \<Rightarrow> (nat \<Rightarrow> bool) \<Rightarrow> BlockTimeGetter \<Rightarrow> TimestampNano \<Rightarrow> finder \<Rightarrow> finder \<times> (finderErr, BlockNumberAndTime) result" where
  "FindBlockByTimestamp guess canceled btg reference f =
     (let (below, above') = getLastResultCache f in
      if algoDidReachResult reference below above' then returnConfirmedResult below above' f
      else
        case (if \<not> reference < bnt_time above' then algoExtendAbove reference btg else Ok above') of
          Err e \<Rightarrow> (f, Err e)
        | Panic \<Rightarrow> (f, Panic)
        | Ok above' \<Rightarrow>
            (case (if \<not> (1 \<le> bnt_number below \<and> bnt_time below \<le> reference)
                   then algoExtendBelow reference (bnt_number below) (bnt_number above') btg else Ok below) of
               Err e \<Rightarrow> (f, Err e)
             | Panic \<Rightarrow> (f, Panic)
             | Ok below \<Rightarrow> findLoop guess canceled btg reference f 1 (TIMESTAMP_FINDER_MAX_STEPS - 1) below above'))"

subsection \<open>Finality\<close>

record EthereumConfig =
  eth_finalityTimeComponent :: "64 word"
  eth_finalityBlocksComponent :: "32 word"

definition getFinalitySafeBlockNumber ::
  "EthereumConfig \<Rightarrow> (TimestampNano \<Rightarrow> finder \<Rightarrow> finder \<times> (finderErr, BlockNumberAndTime) result) \<Rightarrow> BlockTimeGetter \<Rightarrow> TimestampNano \<Rightarrow> finder
     \<Rightarrow> finder \<times> (finderErr, BlockNumberAndTime option) result" where
  "getFinalitySafeBlockNumber config timestampFinder btg referenceTimestamp f =
     (case timestampFinder (referenceTimestamp - eth_finalityTimeComponent config) f of
        (f, Err e) \<Rightarrow> (f, Err e)
      | (f, Panic) \<Rightarrow> (f, Panic)
      | (f, Ok blockNumberAndTime) \<Rightarrow>
          let resultBlock = int64 (bnt_number blockNumberAndTime - uint (eth_finalityBlocksComponent config)) in
          if resultBlock < 1 then (f, Err ErrNotEnoughBlocks)
          else (f, GetTimestampForBlockNumber btg resultBlock))"

definition verifyBlockNumberIsFinalitySafe ::
  "EthereumConfig \<Rightarrow> (TimestampNano \<Rightarrow> finder \<Rightarrow> finder \<times> (finderErr, BlockNumberAndTime) result) \<Rightarrow> BlockTimeGetter \<Rightarrow> 64 word \<Rightarrow> TimestampNano
     \<Rightarrow> finder \<Rightarrow> finder \<times> (finderErr, unit) result" where
  "verifyBlockNumberIsFinalitySafe config timestampFinder btg blockNumber referenceTimestamp f =
     (case getFinalitySafeBlockNumber config timestampFinder btg referenceTimestamp f of
        (f, Err e) \<Rightarrow> (f, Err e)
      | (f, Panic) \<Rightarrow> (f, Panic)
      | (f, Ok None) \<Rightarrow> (f, Panic)
      | (f, Ok (Some safeBlockNumber)) \<Rightarrow>
          (f, if word_of_int (bnt_number safeBlockNumber) < blockNumber then Err ErrUnsafe else Ok ()))"

subsection \<open>The search finds the block\<close>

text \<open>
  A getter that answers from one chain of \<open>latest\<close> blocks, whose times do not go backwards.
\<close>

definition honestGetter :: "BlockTimeGetter \<Rightarrow> (int \<Rightarrow> TimestampNano) \<Rightarrow> int \<Rightarrow> bool" where
  "honestGetter btg time latest \<longleftrightarrow> 1 \<le> latest \<and> latest < 2 ^ 62 \<and>
     (\<forall>n. 1 \<le> n \<and> n \<le> latest \<longrightarrow> GetTimestampForBlockNumber btg n = Ok (Some \<lparr>bnt_number = n, bnt_time = time n\<rparr>)) \<and>
     GetTimestampForLatestBlock btg = Ok (Some \<lparr>bnt_number = latest, bnt_time = time latest\<rparr>) \<and>
     (\<forall>m n. 1 \<le> m \<and> m \<le> n \<and> n \<le> latest \<longrightarrow> time m \<le> time n)"

definition cacheOk :: "(int \<Rightarrow> TimestampNano) \<Rightarrow> int \<Rightarrow> finder \<Rightarrow> bool" where
  "cacheOk time latest f \<longleftrightarrow> f = NewTimestampFinder \<or>
     (\<exists>b. 1 \<le> b \<and> b < latest \<and> f = \<lparr>fd_below = Some \<lparr>bnt_number = b, bnt_time = time b\<rparr>, fd_above = Some \<lparr>bnt_number = b + 1, bnt_time = time (b + 1)\<rparr>\<rparr>)"

lemma int64_id: "- (2 ^ 63) \<le> x \<Longrightarrow> x < 2 ^ 63 \<Longrightarrow> int64 x = x"
  by (simp add: int64_def)

lemma sdiv2: "0 \<le> d \<Longrightarrow> (d :: int) sdiv 2 = d div 2"
  by (simp add: signed_divide_int_def sgn_if)

lemma heuristics_inside:
  assumes "1 \<le> nb" "nb + 1 < na" "na < 2 ^ 62"
  shows "let c = algoGetCursorWithHeuristics guess reference \<lparr>bnt_number = nb, bnt_time = tb\<rparr> \<lparr>bnt_number = na, bnt_time = ta\<rparr> in nb < c \<and> c < na"
  using assms by (simp add: algoGetCursorWithHeuristics_def Let_def int64_id)

lemma binary_inside:
  assumes "1 \<le> nb" "nb + 1 < na" "na < 2 ^ 62"
  shows "algoGetCursorWithBinarySearch \<lparr>bnt_number = nb, bnt_time = tb\<rparr> \<lparr>bnt_number = na, bnt_time = ta\<rparr> = nb + (na - nb) div 2"
  using assms by (simp add: algoGetCursorWithBinarySearch_def Let_def int64_id sdiv2)

lemma findLoop_finds:
  assumes "honestGetter btg time latest" "\<And>s. \<not> canceled s"
    and "1 \<le> nb" "nb < na" "na \<le> latest" "time nb \<le> reference" "reference < time na"
    and "na - nb \<le> 2 ^ k" "k + 1 + (11 - steps) \<le> left"
  shows "\<exists>b. 1 \<le> b \<and> b < latest \<and> time b \<le> reference \<and> reference < time (b + 1) \<and>
    findLoop guess canceled btg reference f steps left \<lparr>bnt_number = nb, bnt_time = time nb\<rparr> \<lparr>bnt_number = na, bnt_time = time na\<rparr> =
      returnConfirmedResult \<lparr>bnt_number = b, bnt_time = time b\<rparr> \<lparr>bnt_number = b + 1, bnt_time = time (b + 1)\<rparr> f"
  using assms(3-9)
proof (induction left arbitrary: nb na k steps)
  case (Suc left)
  have latest: "latest < 2 ^ 62" and get: "\<And>n. 1 \<le> n \<Longrightarrow> n \<le> latest \<Longrightarrow> GetTimestampForBlockNumber btg n = Ok (Some \<lparr>bnt_number = n, bnt_time = time n\<rparr>)"
    using assms(1) by (auto simp: honestGetter_def)
  have next_nb: "int64 (nb + 1) = nb + 1"
    using Suc.prems latest by (intro int64_id) simp_all
  show ?case
  proof (cases "nb + 1 = na")
    case True
    then show ?thesis
      using Suc.prems assms(2) next_nb by (auto simp: algoDidReachResult_def)
  next
    case False
    let ?b = "\<lparr>bnt_number = nb, bnt_time = time nb\<rparr>" and ?a = "\<lparr>bnt_number = na, bnt_time = time na\<rparr>"
    have gap: "nb + 1 < na" "na < 2 ^ 62"
      using False Suc.prems latest by simp_all
    define c where "c = (if steps \<le> 10 then algoGetCursorWithHeuristics guess reference ?b ?a else algoGetCursorWithBinarySearch ?b ?a)"
    define k' where "k' = (if steps \<le> 10 then k else k - 1)"
    have c: "nb < c" "c < na"
      using heuristics_inside[OF Suc.prems(1) gap, of guess reference] binary_inside[OF Suc.prems(1) gap] gap by (auto simp: c_def Let_def)
    have k: "0 < k"
      using gap Suc.prems(6) by (cases k) auto
    have half: "(2 :: int) ^ k = 2 * 2 ^ (k - 1)"
      using k by (cases k) simp_all
    have dist: "c - nb \<le> 2 ^ k'" "na - c \<le> 2 ^ k'"
      using c Suc.prems(6) binary_inside[OF Suc.prems(1) gap] half by (auto simp: c_def k'_def split: if_splits)
    have fuel: "k' + 1 + (11 - (steps + 1)) \<le> left"
      using Suc.prems(7) k by (auto simp: k'_def)
    have inside: "\<not> reference < time nb" "\<not> time na \<le> reference"
      using Suc.prems by (simp_all add: not_less not_le)
    have step: "findLoop guess canceled btg reference f steps (Suc left) ?b ?a =
      (if reference < time c then findLoop guess canceled btg reference f (steps + 1) left ?b \<lparr>bnt_number = c, bnt_time = time c\<rparr>
       else findLoop guess canceled btg reference f (steps + 1) left \<lparr>bnt_number = c, bnt_time = time c\<rparr> ?a)"
      using assms(2) False next_nb gap Suc.prems(1,3) get[of c] c inside
      by (simp add: algoDidReachResult_def algoVerifyResultInsideRange_def algoReduceRange_def Let_def c_def[symmetric]
          TIMESTAMP_FINDER_ALLOWED_HEURISTIC_STEPS_def)
    show ?thesis
      unfolding step
      using Suc.IH[of nb c k' "steps + 1"] Suc.IH[of c na k' "steps + 1"] Suc.prems c dist fuel by auto
  qed
qed simp

lemma extendBelow_attempts:
  assumes "honestGetter btg time latest" "1 \<le> start" "start \<le> latest" "start = (if n < 1 then na else n)"
  shows "algoExtendBelow reference n na btg = extendBelowLoop reference btg [start - 1000, start - 10000, 1]"
proof -
  have "int64 (start - 1000) = start - 1000" "int64 (start - 10000) = start - 10000"
    using assms(1-3) by (auto simp: honestGetter_def intro!: int64_id)
  then show ?thesis
    by (simp add: algoExtendBelow_def assms(4)[symmetric] TIMESTAMP_FINDER_PROBABLE_RANGE_EFFICIENT_def
        TIMESTAMP_FINDER_PROBABLE_RANGE_INEFFICIENT_def del: extendBelowLoop.simps)
qed

lemma extendBelow_finds:
  assumes "honestGetter btg time latest" "1 \<le> start" "start \<le> latest" "start = (if n < 1 then na else n)" "time 1 \<le> reference"
  shows "\<exists>b. 1 \<le> b \<and> b \<le> latest \<and> time b \<le> reference \<and> algoExtendBelow reference n na btg = Ok \<lparr>bnt_number = b, bnt_time = time b\<rparr>"
proof -
  have "1 \<le> latest" and get: "\<And>n. 1 \<le> n \<Longrightarrow> n \<le> latest \<Longrightarrow> GetTimestampForBlockNumber btg n = Ok (Some \<lparr>bnt_number = n, bnt_time = time n\<rparr>)"
    using assms(1) by (auto simp: honestGetter_def)
  then show ?thesis
    unfolding extendBelow_attempts[OF assms(1-4)]
    using get[of "start - 1000"] get[of "start - 10000"] get[of 1] assms(2,3,5) by auto
qed

lemma extendBelow_first_newer:
  assumes "honestGetter btg time latest" "1 \<le> start" "start \<le> latest" "start = (if n < 1 then na else n)" "reference < time 1"
  shows "algoExtendBelow reference n na btg = Err ErrFirstNewer"
proof -
  have "1 \<le> latest" and get: "\<And>n. 1 \<le> n \<Longrightarrow> n \<le> latest \<Longrightarrow> GetTimestampForBlockNumber btg n = Ok (Some \<lparr>bnt_number = n, bnt_time = time n\<rparr>)"
    and mono: "\<And>n. 1 \<le> n \<Longrightarrow> n \<le> latest \<Longrightarrow> time 1 \<le> time n"
    using assms(1) by (auto simp: honestGetter_def)
  moreover have "\<not> time n \<le> reference" if "1 \<le> n" "n \<le> latest" for n
    using mono[OF that] assms(5) by (simp add: not_le)
  ultimately show ?thesis
    unfolding extendBelow_attempts[OF assms(1-4)]
    using get[of "start - 1000"] get[of "start - 10000"] get[of 1] assms(2,3) by auto
qed

lemma FindBlockByTimestamp_finds:
  assumes "honestGetter btg time latest" "cacheOk time latest f" "\<And>step. \<not> canceled step"
  shows "\<exists>f' r. FindBlockByTimestamp guess canceled btg reference f = (f', r) \<and> cacheOk time latest f' \<and>
    (if time latest \<le> reference then r = Err ErrNotNewer
     else if reference < time 1 then r = Err ErrFirstNewer
     else \<exists>b. r = Ok \<lparr>bnt_number = b, bnt_time = time b\<rparr> \<and> 1 \<le> b \<and> b < latest \<and> time b \<le> reference \<and> reference < time (b + 1))"
proof -
  have one: "1 \<le> latest" "latest < 2 ^ 62" and newest: "GetTimestampForLatestBlock btg = Ok (Some \<lparr>bnt_number = latest, bnt_time = time latest\<rparr>)"
    and mono: "\<And>m n. 1 \<le> m \<Longrightarrow> m \<le> n \<Longrightarrow> n \<le> latest \<Longrightarrow> time m \<le> time n"
    using assms(1) by (auto simp: honestGetter_def)
  obtain nb na tb ta where cache: "getLastResultCache f = (\<lparr>bnt_number = nb, bnt_time = tb\<rparr>, \<lparr>bnt_number = na, bnt_time = ta\<rparr>)"
    and cases: "nb = 0 \<and> na = 0 \<and> tb = 0 \<and> ta = 0 \<or> 1 \<le> nb \<and> nb < latest \<and> na = nb + 1 \<and> tb = time nb \<and> ta = time na"
    using assms(2) by (auto simp: cacheOk_def getLastResultCache_def NewTimestampFinder_def Let_def)
  have reach: "algoDidReachResult reference \<lparr>bnt_number = nb, bnt_time = tb\<rparr> \<lparr>bnt_number = na, bnt_time = ta\<rparr> \<longleftrightarrow> 1 \<le> nb \<and> tb \<le> reference \<and> reference < ta"
    using cases one by (auto simp: algoDidReachResult_def int64_id)
  show ?thesis
  proof (cases "time latest \<le> reference")
    case True
    have "\<not> reference < ta"
      using cases mono[of na latest] True by (auto simp: not_less)
    then show ?thesis
      using assms(2) cache reach newest True by (simp add: FindBlockByTimestamp_def algoExtendAbove_def)
  next
    case newer: False
    define na' where "na' = (if reference < ta then na else latest)"
    have above': "(if \<not> reference < ta then algoExtendAbove reference btg else Ok \<lparr>bnt_number = na, bnt_time = ta\<rparr>) =
        Ok \<lparr>bnt_number = na', bnt_time = time na'\<rparr>" and na': "1 \<le> na'" "na' \<le> latest" "reference < time na'"
      using cases newest newer one by (auto simp: na'_def algoExtendAbove_def not_le)
    have start: "1 \<le> (if nb < 1 then na' else nb)" "(if nb < 1 then na' else nb) \<le> latest"
      using cases na' by auto
    show ?thesis
    proof (cases "reference < time 1")
      case True
      have "\<not> (1 \<le> nb \<and> tb \<le> reference)"
        using cases mono[of 1 nb] True by (auto simp: not_le)
      then show ?thesis
        using extendBelow_first_newer[OF assms(1) start refl True] assms(2) cache reach above' True newer
        by (auto simp: FindBlockByTimestamp_def)
    next
      case False
      then have first: "time 1 \<le> reference"
        by (simp add: not_less)
      obtain nb' where nb': "1 \<le> nb'" "nb' \<le> latest" "time nb' \<le> reference"
        and below: "(if \<not> (1 \<le> nb \<and> tb \<le> reference) then algoExtendBelow reference nb na' btg else Ok \<lparr>bnt_number = nb, bnt_time = tb\<rparr>) =
          Ok \<lparr>bnt_number = nb', bnt_time = time nb'\<rparr>"
        using extendBelow_finds[OF assms(1) start refl first] cases by (cases "1 \<le> nb \<and> tb \<le> reference") auto
      have "nb' < na'"
        using mono[of na' nb'] na' nb' by (meson leD le_less_trans not_le_imp_less)
      then obtain b where b: "1 \<le> b" "b < latest" "time b \<le> reference" "reference < time (b + 1)"
        "findLoop guess canceled btg reference f 1 999 \<lparr>bnt_number = nb', bnt_time = time nb'\<rparr> \<lparr>bnt_number = na', bnt_time = time na'\<rparr> =
          returnConfirmedResult \<lparr>bnt_number = b, bnt_time = time b\<rparr> \<lparr>bnt_number = b + 1, bnt_time = time (b + 1)\<rparr> f"
        using findLoop_finds[where k = 62 and steps = 1 and left = 999 and canceled = canceled and guess = guess and f = f, OF assms(1,3) nb'(1)]
          na' nb' one by (auto simp del: findLoop.simps)
      show ?thesis
      proof (cases "1 \<le> nb \<and> tb \<le> reference \<and> reference < ta")
        case True
        then show ?thesis
          using cache reach cases newer False
          by (auto simp: FindBlockByTimestamp_def returnConfirmedResult_def setLastResultCache_def cacheOk_def)
      next
        case unreached: False
        have "FindBlockByTimestamp guess canceled btg reference f =
          returnConfirmedResult \<lparr>bnt_number = b, bnt_time = time b\<rparr> \<lparr>bnt_number = b + 1, bnt_time = time (b + 1)\<rparr> f"
          unfolding FindBlockByTimestamp_def cache Let_def prod.case reach if_not_P[OF unreached] BlockNumberAndTime.select_convs above' result.case below
          using b(5) by (simp add: TIMESTAMP_FINDER_MAX_STEPS_def)
        then show ?thesis
          using b newer False by (auto simp: returnConfirmedResult_def setLastResultCache_def cacheOk_def)
      qed
    qed
  qed
qed

text \<open>
  C14. The finder returns the block of a timestamp. Let the getter answer from a chain of blocks whose times do not go
  backwards, and the cache hold nothing or an earlier result on that chain. If the latest block is not newer than the
  timestamp, or the first block is, the search fails with the error that says so. Otherwise it returns the last
  block at or before the timestamp that has a newer successor, within the allowed number of steps and whatever the
  floating-point interpolation proposes, and caches it.
\<close>

theorem FindBlockByTimestamp_finds_block:
  assumes "honestGetter btg time latest" "cacheOk time latest f" "\<And>step. \<not> canceled step"
  shows "\<exists>f' r. FindBlockByTimestamp guess canceled btg reference f = (f', r) \<and> cacheOk time latest f' \<and>
    (if time latest \<le> reference then r = Err ErrNotNewer
     else if reference < time 1 then r = Err ErrFirstNewer
     else \<exists>b. r = Ok \<lparr>bnt_number = b, bnt_time = time b\<rparr> \<and> 1 \<le> b \<and> b < latest \<and> time b \<le> reference \<and> reference < time (b + 1))"
  using assms by (rule FindBlockByTimestamp_finds)

text \<open>Three headers, ten seconds apart.\<close>

definition demo_headers :: "int option \<Rightarrow> (finderErr, HeaderTime option) result" where
  "demo_headers n =
     (let block = (case n of None \<Rightarrow> 3 | Some n \<Rightarrow> n) in
      if 1 \<le> block \<and> block \<le> 3 then Ok (Some \<lparr>hdr_number = block, hdr_timeInSeconds = 10 * word_of_int block\<rparr>) else Ok None)"

lemma demo_headers_honest:
  "honestGetter (NewEthereumBasedBlockTimeGetter demo_headers) (\<lambda>n. secondsToNano (10 * word_of_int n)) 3"
proof -
  have "secondsToNano (10 * word_of_int m) \<le> secondsToNano (10 * word_of_int n)" if "1 \<le> m" "m \<le> n" "n \<le> 3" for m n :: int
  proof -
    have "n = 1 \<or> n = 2 \<or> n = 3" "m = 1 \<or> m = 2 \<or> m = 3"
      using that by presburger+
    then show ?thesis
      using that by (elim disjE) (simp_all add: secondsToNano_def)
  qed
  then show ?thesis
    by (auto simp: honestGetter_def NewEthereumBasedBlockTimeGetter_def headerTime_def demo_headers_def Let_def)
qed

theorem FindBlockByTimestamp_finds_block_witness:
  "\<exists>f'. FindBlockByTimestamp (\<lambda>_ _ _. 0) (\<lambda>_. False) (NewEthereumBasedBlockTimeGetter demo_headers) 25000000000 NewTimestampFinder =
    (f', Ok \<lparr>bnt_number = 2, bnt_time = 20000000000\<rparr>)"
proof -
  have cache: "cacheOk (\<lambda>n. secondsToNano (10 * word_of_int n)) 3 NewTimestampFinder"
    by (simp add: cacheOk_def)
  from FindBlockByTimestamp_finds_block[OF demo_headers_honest cache, of "\<lambda>_. False" "\<lambda>_ _ _. 0" 25000000000] obtain f' b where
    run: "FindBlockByTimestamp (\<lambda>_ _ _. 0) (\<lambda>_. False) (NewEthereumBasedBlockTimeGetter demo_headers) 25000000000 NewTimestampFinder =
      (f', Ok \<lparr>bnt_number = b, bnt_time = secondsToNano (10 * word_of_int b)\<rparr>)"
    and b: "1 \<le> b" "b < 3" "25000000000 < secondsToNano (10 * word_of_int (b + 1))"
    by (auto simp: secondsToNano_def)
  have "b = 2"
    using b by (cases "b = 1") (auto simp: secondsToNano_def)
  with run show ?thesis
    by (simp add: secondsToNano_def)
qed

end
