(* ===== verification/Ethereum_Connector.thy ===== *)
theory Ethereum_Connector
  imports Timestamp_Finder
begin

text \<open>
  The connector to Ethereum, \<open>services/crosschainconnector/ethereum\<close>: calls of Ethereum contracts, logs of Ethereum
  transactions and times of Ethereum blocks, all restricted to blocks that are safe from reorganisation. The
  connection to the Ethereum node and the library for its binary interface, the ABI, are parameters.
\<close>

record AbiArgument =
  arg_type :: bytes
  arg_indexed :: bool

record AbiEvent =
  event_id :: bytes
  event_anonymous :: bool
  event_inputs :: "AbiArgument list"

text \<open>Values are of the library's own type, here a parameter \<open>'v\<close>.\<close>

record 'v Abi =
  abi_JSON :: "bytes \<Rightarrow> (finderErr, bytes \<rightharpoonup> AbiEvent) result"
  abi_UnpackValues :: "AbiArgument list \<Rightarrow> bytes \<Rightarrow> (finderErr, 'v list) result"
  abi_Pack :: "AbiArgument list \<Rightarrow> 'v list \<Rightarrow> (finderErr, bytes) result"
  abi_hexDecode :: "bytes \<Rightarrow> (finderErr, bytes) result"

record TransactionLog =
  tl_contractAddress :: bytes
  tl_packedTopics :: "bytes list"
  tl_data :: bytes
  tl_blockNumber :: "64 word"
  tl_txIndex :: "32 word"

record EthereumConnection =
  conn_HeaderByNumber :: "int option \<Rightarrow> (finderErr, HeaderTime option) result"
  conn_CallContract :: "bytes \<Rightarrow> bytes \<Rightarrow> int option \<Rightarrow> (finderErr, bytes) result"
  conn_GetTransactionLogs :: "bytes \<Rightarrow> bytes \<Rightarrow> (finderErr, TransactionLog list) result"

text \<open>What does not change in a connector: its configuration, connection and libraries, and how a search interpolates and is canceled.\<close>

record 'v Connector =
  cn_config :: EthereumConfig
  cn_connection :: EthereumConnection
  cn_abi :: "'v Abi"
  cn_guess :: interpolation
  cn_canceled :: "nat \<Rightarrow> bool"

definition cn_blockTimeGetter :: "'v Connector \<Rightarrow> BlockTimeGetter" where
  "cn_blockTimeGetter s = NewEthereumBasedBlockTimeGetter (conn_HeaderByNumber (cn_connection s))"

definition cn_timestampFinder :: "'v Connector \<Rightarrow> TimestampNano \<Rightarrow> finder \<Rightarrow> finder \<times> (finderErr, BlockNumberAndTime) result" where
  "cn_timestampFinder s = FindBlockByTimestamp (cn_guess s) (cn_canceled s) (cn_blockTimeGetter s)"

definition safeBlock :: "'v Connector \<Rightarrow> TimestampNano \<Rightarrow> finder \<Rightarrow> finder \<times> (finderErr, BlockNumberAndTime option) result" where
  "safeBlock s = getFinalitySafeBlockNumber (cn_config s) (cn_timestampFinder s) (cn_blockTimeGetter s)"

definition verifySafe :: "'v Connector \<Rightarrow> 64 word \<Rightarrow> TimestampNano \<Rightarrow> finder \<Rightarrow> finder \<times> (finderErr, unit) result" where
  "verifySafe s = verifyBlockNumberIsFinalitySafe (cn_config s) (cn_timestampFinder s) (cn_blockTimeGetter s)"

text \<open>Go on with the value of an action on the cache of the finder.\<close>

definition bindF :: "finder \<times> ('e, 'a) result \<Rightarrow> ('a \<Rightarrow> finder \<Rightarrow> finder \<times> ('e, 'b) result) \<Rightarrow> finder \<times> ('e, 'b) result" where
  "bindF x k = (case x of (f, Ok a) \<Rightarrow> k a f | (f, Err e) \<Rightarrow> (f, Err e) | (f, Panic) \<Rightarrow> (f, Panic))"

definition int64_of_word :: "64 word \<Rightarrow> int" where
  "int64_of_word w = int64 (uint w)"

definition EthereumCallContract ::
  "'v Connector \<Rightarrow> TimestampNano \<Rightarrow> 64 word \<Rightarrow> bytes \<Rightarrow> bytes \<Rightarrow> finder \<Rightarrow> finder \<times> (finderErr, bytes) result" where
  "EthereumCallContract s referenceTimestamp requestedBlockNumber contractAddress packedInput f =
     bindF
       (if requestedBlockNumber = 0
        then bindF (safeBlock s referenceTimestamp f) (\<lambda>b f. (f, Ok (case b of Some b \<Rightarrow> bnt_number b | None \<Rightarrow> 0)))
        else bindF (verifySafe s requestedBlockNumber referenceTimestamp f) (\<lambda>_ f. (f, Ok (int64_of_word requestedBlockNumber))))
       (\<lambda>ethereumBlockNumber f.
          (f, bind_result (abi_hexDecode (cn_abi s) contractAddress) (\<lambda>ethereumContractAddress.
             conn_CallContract (cn_connection s) ethereumContractAddress packedInput
               (if ethereumBlockNumber \<noteq> 0 then Some ethereumBlockNumber else None))))"

fun unpackIndexed :: "'v Abi \<Rightarrow> AbiArgument list \<Rightarrow> bytes list \<Rightarrow> nat \<Rightarrow> (finderErr, 'v list) result" where
  "unpackIndexed abi [] topics topicIndex = Ok []"
| "unpackIndexed abi (arg # args) topics topicIndex =
     (if arg_indexed arg
      then if topicIndex < length topics
           then bind_result (abi_UnpackValues abi [arg\<lparr>arg_indexed := False\<rparr>] (topics ! topicIndex)) (\<lambda>v.
                  if v = [] then Panic
                  else bind_result (unpackIndexed abi args topics (topicIndex + 1)) (\<lambda>vs. Ok (hd v # vs)))
           else Panic
      else unpackIndexed abi args topics topicIndex)"

definition repackEventABIWithTopics :: "'v Abi \<Rightarrow> AbiEvent \<Rightarrow> TransactionLog \<Rightarrow> (finderErr, bytes) result" where
  "repackEventABIWithTopics abi eventABI log =
     (let topicIndex = (if event_anonymous eventABI then 0 else 1) in
      bind_result (abi_UnpackValues abi (filter (\<lambda>a. \<not> arg_indexed a) (event_inputs eventABI)) (tl_data log)) (\<lambda>nonIndexedData.
      bind_result (unpackIndexed abi (event_inputs eventABI) (tl_packedTopics log) topicIndex) (\<lambda>unpacked.
        abi_Pack abi (event_inputs eventABI) (unpacked @ nonIndexedData))))"

definition fetchLog :: "'v Connector \<Rightarrow> bytes \<Rightarrow> bytes \<Rightarrow> bytes \<Rightarrow> bytes \<Rightarrow> (finderErr, AbiEvent \<times> TransactionLog) result" where
  "fetchLog s contractAddress eventName jsonAbi txHash =
     bind_result (abi_hexDecode (cn_abi s) txHash) (\<lambda>ethereumTxHash.
     bind_result (abi_hexDecode (cn_abi s) contractAddress) (\<lambda>ethereumContractAddress.
     bind_result (abi_JSON (cn_abi s) jsonAbi) (\<lambda>events.
       case events eventName of
         None \<Rightarrow> Err ErrNoEvent
       | Some eventABI \<Rightarrow>
           bind_result (conn_GetTransactionLogs (cn_connection s) ethereumTxHash (event_id eventABI)) (\<lambda>logs.
             if length logs \<noteq> 1 then Err ErrLogCount
             else if ethereumContractAddress \<noteq> tl_contractAddress (logs ! 0) then Err ErrOtherContract
             else Ok (eventABI, logs ! 0)))))"

definition EthereumGetTransactionLogs ::
  "'v Connector \<Rightarrow> TimestampNano \<Rightarrow> bytes \<Rightarrow> bytes \<Rightarrow> bytes \<Rightarrow> bytes \<Rightarrow> finder \<Rightarrow> finder \<times> (finderErr, bytes list \<times> 64 word \<times> 32 word) result" where
  "EthereumGetTransactionLogs s referenceTimestamp contractAddress eventName jsonAbi txHash f =
     bindF (f, fetchLog s contractAddress eventName jsonAbi txHash) (\<lambda>(eventABI, log) f.
       bindF (verifySafe s (tl_blockNumber log) referenceTimestamp f) (\<lambda>_ f.
         (f, bind_result (repackEventABIWithTopics (cn_abi s) eventABI log) (\<lambda>output.
            Ok ([output], tl_blockNumber log, tl_txIndex log)))))"

definition EthereumGetBlockNumber :: "'v Connector \<Rightarrow> TimestampNano \<Rightarrow> finder \<Rightarrow> finder \<times> (finderErr, 64 word) result" where
  "EthereumGetBlockNumber s referenceTimestamp f =
     bindF (safeBlock s referenceTimestamp f) (\<lambda>b f. (f, case b of None \<Rightarrow> Panic | Some b \<Rightarrow> Ok (word_of_int (bnt_number b))))"

definition EthereumGetBlockNumberByTime :: "'v Connector \<Rightarrow> TimestampNano \<Rightarrow> TimestampNano \<Rightarrow> finder \<Rightarrow> finder \<times> (finderErr, 64 word) result" where
  "EthereumGetBlockNumberByTime s referenceTimestamp ethereumTimestamp f =
     bindF (cn_timestampFinder s ethereumTimestamp f) (\<lambda>b f.
       bindF (verifySafe s (word_of_int (bnt_number b)) referenceTimestamp f) (\<lambda>_ f. (f, Ok (word_of_int (bnt_number b)))))"

definition EthereumGetBlockTime :: "'v Connector \<Rightarrow> TimestampNano \<Rightarrow> finder \<Rightarrow> finder \<times> (finderErr, TimestampNano) result" where
  "EthereumGetBlockTime s referenceTimestamp f =
     bindF (safeBlock s referenceTimestamp f) (\<lambda>b f. (f, case b of None \<Rightarrow> Panic | Some b \<Rightarrow> Ok (bnt_time b)))"

definition EthereumGetBlockTimeByNumber :: "'v Connector \<Rightarrow> TimestampNano \<Rightarrow> 64 word \<Rightarrow> finder \<Rightarrow> finder \<times> (finderErr, TimestampNano) result" where
  "EthereumGetBlockTimeByNumber s referenceTimestamp ethereumBlockNumber f =
     (case GetTimestampForBlockNumber (cn_blockTimeGetter s) (int64_of_word ethereumBlockNumber) of
        Err e \<Rightarrow> (f, Err e)
      | Panic \<Rightarrow> (f, Panic)
      | Ok None \<Rightarrow> (f, Panic)
      | Ok (Some b) \<Rightarrow> bindF (verifySafe s (word_of_int (bnt_number b)) referenceTimestamp f) (\<lambda>_ f. (f, Ok (bnt_time b))))"

subsection \<open>Answers are final\<close>

text \<open>
  A block is safe for a reference time when the configured number of blocks follows it, up to a block that is at
  least the configured time older than the reference. Nothing wraps around here.
\<close>

definition finalitySafe :: "EthereumConfig \<Rightarrow> (int \<Rightarrow> TimestampNano) \<Rightarrow> int \<Rightarrow> TimestampNano \<Rightarrow> int \<Rightarrow> bool" where
  "finalitySafe config time latest reference n \<longleftrightarrow> 0 \<le> n \<and>
     n + uint (eth_finalityBlocksComponent config) < latest \<and>
     uint (time (n + uint (eth_finalityBlocksComponent config))) + uint (eth_finalityTimeComponent config) \<le> uint reference"

text \<open>
  An Ethereum node with the blocks 0 to \<open>latest\<close>, whose times do not go backwards and end before the year 2262: it
  answers with blocks of its chain, and with the block asked for where it has it. The time component is not negative.
\<close>

definition ethereumNode :: "'v Connector \<Rightarrow> (int \<Rightarrow> TimestampNano) \<Rightarrow> int \<Rightarrow> bool" where
  "ethereumNode s time latest \<longleftrightarrow> honestGetter (cn_blockTimeGetter s) time latest \<and> time 0 \<le> time 1 \<and>
     time latest < 2 ^ 63 \<and> eth_finalityTimeComponent (cn_config s) < 2 ^ 63 \<and>
     (\<forall>n b. GetTimestampForBlockNumber (cn_blockTimeGetter s) n = Ok (Some b) \<longrightarrow>
        (\<exists>m. 0 \<le> m \<and> m \<le> latest \<and> b = \<lparr>bnt_number = m, bnt_time = time m\<rparr> \<and> (0 \<le> n \<and> n \<le> latest \<longrightarrow> m = n)))"

lemma ethereumNode_honest: "ethereumNode s time latest \<Longrightarrow> honestGetter (cn_blockTimeGetter s) time latest"
  by (simp add: ethereumNode_def)

lemma ethereumNode_mono:
  assumes "ethereumNode s time latest" "0 \<le> m" "m \<le> n" "n \<le> latest"
  shows "time m \<le> time n"
proof (cases "m = 0 \<and> n \<noteq> 0")
  case True
  then have "time 0 \<le> time 1" "time 1 \<le> time n" using assms by (auto simp: ethereumNode_def honestGetter_def)
  then show ?thesis using True by (auto intro: order_trans)
next
  case False
  then show ?thesis using assms by (cases "m = 0") (auto simp: ethereumNode_def honestGetter_def)
qed

lemma finalitySafe_range:
  assumes "finalitySafe config time latest reference n"
  shows "0 \<le> n" "n \<le> latest"
  using assms uint_ge_0[of "eth_finalityBlocksComponent config"] unfolding finalitySafe_def by linarith+

lemma finalitySafe_mono:
  assumes "ethereumNode s time latest" "finalitySafe config time latest reference n" "0 \<le> m" "m \<le> n"
  shows "finalitySafe config time latest reference m"
proof -
  define k where "k = uint (eth_finalityBlocksComponent config)"
  have "0 \<le> k"
    unfolding k_def by simp
  then have "time (m + k) \<le> time (n + k)"
    using assms(2-4) unfolding finalitySafe_def k_def[symmetric] by (intro ethereumNode_mono[OF assms(1)]) auto
  then have "uint (time (m + k)) \<le> uint (time (n + k))"
    by (simp add: word_le_def)
  with assms(2-4) show ?thesis
    unfolding finalitySafe_def k_def[symmetric] by auto
qed

lemma wrapped_difference:
  fixes r c :: int
  assumes "0 \<le> r" "r < c" "c < 2 ^ 63"
  shows "(r - c) mod 2 ^ 64 \<ge> 2 ^ 63"
proof -
  have "(r - c) mod 2 ^ 64 = (r - c + 2 ^ 64) mod 2 ^ 64" by simp
  also have "\<dots> = r - c + 2 ^ 64" using assms by (intro mod_pos_pos_trivial) simp_all
  finally show ?thesis using assms by simp
qed

text \<open>Where the subtraction of the time component wraps around, the search finds no newer block and fails.\<close>

lemma augmented_reference:
  assumes "ethereumNode s time latest" "\<not> time latest \<le> reference - eth_finalityTimeComponent (cn_config s)"
  shows "uint (reference - eth_finalityTimeComponent (cn_config s)) + uint (eth_finalityTimeComponent (cn_config s)) = uint reference"
proof -
  let ?c = "eth_finalityTimeComponent (cn_config s)"
  have small: "uint (time latest) < 2 ^ 63" "uint ?c < 2 ^ 63"
    using assms(1) by (simp_all add: ethereumNode_def word_less_def)
  have less: "uint (reference - ?c) < uint (time latest)"
    using assms(2) by (simp add: word_le_def)
  have diff: "uint (reference - ?c) = (uint reference - uint ?c) mod 2 ^ 64"
    by (simp add: uint_word_ariths)
  moreover have nonneg: "0 \<le> uint reference - uint ?c"
  proof (rule ccontr)
    assume neg: "\<not> 0 \<le> uint reference - uint ?c"
    then have "(uint reference - uint ?c) mod 2 ^ 64 \<ge> 2 ^ 63"
      by (intro wrapped_difference small(2) uint_ge_0) simp
    then show False
      using less small(1) diff by linarith
  qed
  moreover have "uint reference - uint ?c < 2 ^ 64"
    by (rule le_less_trans[of _ "uint reference"]) (use uint_bounded[of reference] in simp_all)
  ultimately have "uint (reference - ?c) = uint reference - uint ?c"
    using mod_pos_pos_trivial[OF nonneg] by simp
  then show ?thesis by simp
qed

lemma safeBlock_final:
  assumes node: "ethereumNode s time latest" and cache: "cacheOk time latest f" and "\<And>step. \<not> cn_canceled s step"
    and run: "safeBlock s reference f = (f', r)"
  shows "cacheOk time latest f' \<and> r \<noteq> Panic \<and>
    (\<forall>b. r = Ok b \<longrightarrow> (\<exists>n. b = Some \<lparr>bnt_number = n, bnt_time = time n\<rparr> \<and> 1 \<le> n \<and> finalitySafe (cn_config s) time latest reference n))"
proof -
  let ?ref = "reference - eth_finalityTimeComponent (cn_config s)" and ?k = "uint (eth_finalityBlocksComponent (cn_config s))"
  note honest = ethereumNode_honest[OF node]
  obtain f1 r1 where find: "cn_timestampFinder s ?ref f = (f1, r1)" "cacheOk time latest f1"
    and r1: "if time latest \<le> ?ref then r1 = Err ErrNotNewer
     else if ?ref < time 1 then r1 = Err ErrFirstNewer
     else \<exists>b. r1 = Ok \<lparr>bnt_number = b, bnt_time = time b\<rparr> \<and> 1 \<le> b \<and> b < latest \<and> time b \<le> ?ref \<and> ?ref < time (b + 1)"
    using FindBlockByTimestamp_finds[OF honest cache, where canceled = "cn_canceled s" and guess = "cn_guess s" and reference = ?ref] assms(3) unfolding cn_timestampFinder_def by auto
  have k: "0 \<le> ?k" "?k < 2 ^ 32"
    using uint_bounded[of "eth_finalityBlocksComponent (cn_config s)"] by simp_all
  have get: "\<And>n. 1 \<le> n \<Longrightarrow> n \<le> latest \<Longrightarrow> GetTimestampForBlockNumber (cn_blockTimeGetter s) n = Ok (Some \<lparr>bnt_number = n, bnt_time = time n\<rparr>)"
    and latest: "latest < 2 ^ 62"
    using honest by (auto simp: honestGetter_def)
  show ?thesis
  proof (cases r1)
    case (Ok blk)
    then obtain b where b: "blk = \<lparr>bnt_number = b, bnt_time = time b\<rparr>" "1 \<le> b" "b < latest" "time b \<le> ?ref" "\<not> time latest \<le> ?ref"
      using r1 by (auto split: if_splits)
    have "uint (time b) + uint (eth_finalityTimeComponent (cn_config s)) \<le> uint reference"
      using augmented_reference[OF node b(5)] b(4) by (simp add: word_le_def)
    moreover have "int64 (b - j) = b - j" "b - j \<le> latest" if "0 \<le> j" "j < 2 ^ 32" for j
      using that b latest by (simp_all add: int64_id)
    note this[OF k]
    ultimately show ?thesis
      using run find Ok b get[of "b - ?k"] by (auto simp: safeBlock_def getFinalitySafeBlockNumber_def Let_def finalitySafe_def split: if_splits)
  qed (use run find r1 in \<open>auto simp: safeBlock_def getFinalitySafeBlockNumber_def split: if_splits\<close>)
qed

lemma node_number_range:
  assumes "ethereumNode s time latest" "0 \<le> n" "n \<le> latest"
  shows "uint (word_of_int n :: 64 word) = n"
  using assms by (simp add: ethereumNode_def honestGetter_def uint_word_of_int)

lemma int64_of_word_id: "uint n < 2 ^ 62 \<Longrightarrow> int64_of_word n = uint n"
  unfolding int64_of_word_def by (intro int64_id order_trans[OF _ uint_ge_0]) simp_all

lemma verifySafe_final:
  assumes "ethereumNode s time latest" "cacheOk time latest f" "\<And>step. \<not> cn_canceled s step"
    and "verifySafe s n reference f = (f', r)"
  shows "cacheOk time latest f' \<and> (r = Ok () \<longrightarrow> finalitySafe (cn_config s) time latest reference (uint n))"
proof -
  obtain f1 r1 where safe: "safeBlock s reference f = (f1, r1)"
    by (cases "safeBlock s reference f")
  note final = safeBlock_final[OF assms(1-3) safe]
  show ?thesis
  proof (cases r1)
    case (Ok b)
    then obtain m where b: "b = Some \<lparr>bnt_number = m, bnt_time = time m\<rparr>" and m: "finalitySafe (cn_config s) time latest reference m"
      using final by blast
    have "uint (word_of_int m :: 64 word) = m"
      by (rule node_number_range[OF assms(1) finalitySafe_range[OF m]])
    then have "n \<le> word_of_int m \<longleftrightarrow> uint n \<le> m"
      by (simp add: word_le_def)
    then show ?thesis
      using assms(4) safe Ok b final finalitySafe_mono[OF assms(1) m, of "uint n"]
      by (auto simp: verifySafe_def verifyBlockNumberIsFinalitySafe_def safeBlock_def not_less split: if_splits)
  qed (use assms(4) safe final in \<open>auto simp: verifySafe_def verifyBlockNumberIsFinalitySafe_def safeBlock_def\<close>)
qed

lemma bindF_Ok: "bindF x k = (f', Ok v) \<longleftrightarrow> (\<exists>f a. x = (f, Ok a) \<and> k a f = (f', Ok v))"
  by (cases x; cases "snd x") (auto simp: bindF_def split: result.splits)

lemma number_final:
  assumes "ethereumNode s time latest" "cacheOk time latest f" "\<And>step. \<not> cn_canceled s step"
    and "EthereumGetBlockNumber s reference f = (f', Ok n)"
  shows "finalitySafe (cn_config s) time latest reference (uint n)"
proof -
  obtain f1 b where b: "safeBlock s reference f = (f1, Ok (Some b))" "n = word_of_int (bnt_number b)"
    using assms(4) by (auto simp: EthereumGetBlockNumber_def bindF_Ok split: option.splits)
  with safeBlock_final[OF assms(1-3) b(1)] show ?thesis
    using node_number_range[OF assms(1) finalitySafe_range] by auto
qed

lemma number_by_time_final:
  assumes "ethereumNode s time latest" "cacheOk time latest f" "\<And>step. \<not> cn_canceled s step"
    and "EthereumGetBlockNumberByTime s reference t f = (f', Ok n)"
  shows "finalitySafe (cn_config s) time latest reference (uint n)"
proof -
  obtain f1 f2 b where b: "cn_timestampFinder s t f = (f1, Ok b)" "verifySafe s n reference f1 = (f2, Ok ())" "n = word_of_int (bnt_number b)"
    using assms(4) by (auto simp: EthereumGetBlockNumberByTime_def bindF_Ok)
  have f1: "cacheOk time latest f1"
    using FindBlockByTimestamp_finds[OF ethereumNode_honest[OF assms(1)] assms(2), where canceled = "cn_canceled s" and guess = "cn_guess s" and reference = t] assms(3) b(1)
    by (auto simp: cn_timestampFinder_def split: if_splits)
  show ?thesis
    using verifySafe_final[OF assms(1) f1 assms(3) b(2)] by simp
qed

lemma time_final:
  assumes "ethereumNode s time latest" "cacheOk time latest f" "\<And>step. \<not> cn_canceled s step"
    and "EthereumGetBlockTime s reference f = (f', Ok u)"
  shows "\<exists>m. u = time m \<and> finalitySafe (cn_config s) time latest reference m"
proof -
  obtain f1 b where b: "safeBlock s reference f = (f1, Ok (Some b))" "u = bnt_time b"
    using assms(4) by (auto simp: EthereumGetBlockTime_def bindF_Ok split: option.splits)
  with safeBlock_final[OF assms(1-3) b(1)] show ?thesis by auto
qed

lemma time_by_number_final:
  assumes "ethereumNode s time latest" "cacheOk time latest f" "\<And>step. \<not> cn_canceled s step"
    and "EthereumGetBlockTimeByNumber s reference n f = (f', Ok u)"
  shows "\<exists>m. u = time m \<and> finalitySafe (cn_config s) time latest reference m \<and> (uint n \<le> latest \<longrightarrow> m = uint n)"
proof -
  obtain b f1 where b: "GetTimestampForBlockNumber (cn_blockTimeGetter s) (int64_of_word n) = Ok (Some b)"
    "verifySafe s (word_of_int (bnt_number b)) reference f = (f1, Ok ())" "u = bnt_time b"
    using assms(4) by (auto simp: EthereumGetBlockTimeByNumber_def bindF_Ok split: result.splits option.splits)
  obtain m where m: "0 \<le> m" "m \<le> latest" "b = \<lparr>bnt_number = m, bnt_time = time m\<rparr>"
      "0 \<le> int64_of_word n \<and> int64_of_word n \<le> latest \<longrightarrow> m = int64_of_word n"
    using assms(1) b(1) unfolding ethereumNode_def by blast
  have "latest < 2 ^ 62" using assms(1) by (simp add: ethereumNode_def honestGetter_def)
  then have "uint n \<le> latest \<Longrightarrow> int64_of_word n = uint n" by (intro int64_of_word_id) linarith
  then show ?thesis
    using verifySafe_final[OF assms(1-3) b(2)] node_number_range[OF assms(1) m(1,2)] m(3,4) b(3) by auto
qed

lemma logs_final:
  assumes "ethereumNode s time latest" "cacheOk time latest f" "\<And>step. \<not> cn_canceled s step"
    and "EthereumGetTransactionLogs s reference address event abi txHash f = (f', Ok (outputs, n, i))"
  shows "finalitySafe (cn_config s) time latest reference (uint n)"
proof -
  obtain f1 where "verifySafe s n reference f = (f1, Ok ())"
    using assms(4) by (auto simp: EthereumGetTransactionLogs_def bindF_Ok)
  from verifySafe_final[OF assms(1-3) this] show ?thesis
    by simp
qed

lemma call_final:
  assumes "ethereumNode s time latest" "cacheOk time latest f" "\<And>step. \<not> cn_canceled s step"
    and "EthereumCallContract s reference n address input f = (f', Ok out)"
  shows "\<exists>m a. finalitySafe (cn_config s) time latest reference m \<and> abi_hexDecode (cn_abi s) address = Ok a \<and>
      conn_CallContract (cn_connection s) a input (Some m) = Ok out"
proof (cases "n = 0")
  case True
  then obtain f1 b a where safe: "safeBlock s reference f = (f1, Ok b)" and "abi_hexDecode (cn_abi s) address = Ok a"
    "conn_CallContract (cn_connection s) a input (if (case b of Some b \<Rightarrow> bnt_number b | None \<Rightarrow> 0) \<noteq> 0
       then Some (case b of Some b \<Rightarrow> bnt_number b | None \<Rightarrow> 0) else None) = Ok out"
    using assms(4) by (auto simp: EthereumCallContract_def bindF_Ok)
  moreover obtain m where "b = Some \<lparr>bnt_number = m, bnt_time = time m\<rparr>" "1 \<le> m" "finalitySafe (cn_config s) time latest reference m"
    using safeBlock_final[OF assms(1-3) safe] by blast
  ultimately show ?thesis
    by auto
next
  case False
  then obtain f1 a where safe: "verifySafe s n reference f = (f1, Ok ())" and call: "abi_hexDecode (cn_abi s) address = Ok a"
    "conn_CallContract (cn_connection s) a input (if int64_of_word n \<noteq> 0 then Some (int64_of_word n) else None) = Ok out"
    using assms(4) by (auto simp: EthereumCallContract_def bindF_Ok)
  have pos: "1 \<le> uint n"
    using False uint_ge_0[of n] by (metis int_one_le_iff_zero_less order_le_less uint_0_iff)
  from verifySafe_final[OF assms(1-3) safe] have final: "finalitySafe (cn_config s) time latest reference (uint n)"
    by blast
  have "latest < 2 ^ 62" using assms(1) by (simp add: ethereumNode_def honestGetter_def)
  then have "int64_of_word n = uint n"
    using finalitySafe_range(2)[OF final] by (intro int64_of_word_id) linarith
  with call final pos show ?thesis
    by auto
qed

text \<open>
  C12. What the connector tells a contract about Ethereum is final. Let the Ethereum node answer from a chain of blocks
  whose times do not go backwards, end before \<open>2^63\<close> nanoseconds (the year 2262) and let the configured time not be
  negative; let the cache hold nothing or an earlier result on that chain, and the search not be canceled. Then every
  block number the connector returns, every block whose time it returns (of the last safe block, or of the number
  asked for), the block of every log it returns and the block at which it calls a contract has the configured number
  of blocks after it, up to a block that is at least the configured time older than the reference time. The time
  returned for a number on the chain is the time of that block.
\<close>

theorem ethereum_answers_final:
  assumes "ethereumNode s time latest" "cacheOk time latest f" "\<And>step. \<not> cn_canceled s step"
  shows "(EthereumGetBlockNumber s reference f = (f', Ok n) \<longrightarrow> finalitySafe (cn_config s) time latest reference (uint n)) \<and>
    (EthereumGetBlockNumberByTime s reference t f = (f', Ok n) \<longrightarrow> finalitySafe (cn_config s) time latest reference (uint n)) \<and>
    (EthereumGetBlockTime s reference f = (f', Ok u) \<longrightarrow> (\<exists>m. u = time m \<and> finalitySafe (cn_config s) time latest reference m)) \<and>
    (EthereumGetBlockTimeByNumber s reference n f = (f', Ok u) \<longrightarrow>
       (\<exists>m. u = time m \<and> finalitySafe (cn_config s) time latest reference m \<and> (uint n \<le> latest \<longrightarrow> m = uint n))) \<and>
    (EthereumGetTransactionLogs s reference address event abi txHash f = (f', Ok (outputs, n, i)) \<longrightarrow>
       finalitySafe (cn_config s) time latest reference (uint n)) \<and>
    (EthereumCallContract s reference n address input f = (f', Ok out) \<longrightarrow>
       (\<exists>m a. finalitySafe (cn_config s) time latest reference m \<and> abi_hexDecode (cn_abi s) address = Ok a \<and>
          conn_CallContract (cn_connection s) a input (Some m) = Ok out))"
proof (intro conjI impI, goal_cases)
  case 1
  then show ?case by (rule number_final[OF assms])
next
  case 2
  then show ?case by (rule number_by_time_final[OF assms])
next
  case 3
  then show ?case by (rule time_final[OF assms])
next
  case 4
  then show ?case by (rule time_by_number_final[OF assms])
next
  case 5
  then show ?case by (rule logs_final[OF assms])
next
  case 6
  then show ?case by (rule call_final[OF assms])
qed

definition demo_connector :: "bytes Connector" where
  "demo_connector =
     \<lparr>cn_config = \<lparr>eth_finalityTimeComponent = 1000000000, eth_finalityBlocksComponent = 1\<rparr>,
      cn_connection = \<lparr>conn_HeaderByNumber = demo_headers, conn_CallContract = (\<lambda>_ _ _. Ok [1]), conn_GetTransactionLogs = (\<lambda>_ _. Ok [])\<rparr>,
      cn_abi = \<lparr>abi_JSON = (\<lambda>_. Ok Map.empty), abi_UnpackValues = (\<lambda>_ _. Ok []), abi_Pack = (\<lambda>_ _. Ok []), abi_hexDecode = Ok\<rparr>,
      cn_guess = (\<lambda>_ _ _. 0), cn_canceled = (\<lambda>_. False)\<rparr>"

theorem ethereum_answers_final_witness:
  "\<exists>f' n. EthereumGetBlockNumber demo_connector 26000000000 NewTimestampFinder = (f', Ok n) \<and>
    finalitySafe (cn_config demo_connector) (\<lambda>n. secondsToNano (10 * word_of_int n)) 3 26000000000 (uint n)"
proof -
  have honest: "honestGetter (cn_blockTimeGetter demo_connector) (\<lambda>n. secondsToNano (10 * word_of_int n)) 3"
    using demo_headers_honest by (simp add: cn_blockTimeGetter_def demo_connector_def)
  have node: "ethereumNode demo_connector (\<lambda>n. secondsToNano (10 * word_of_int n)) 3"
    unfolding ethereumNode_def using honest
    by (auto simp: secondsToNano_def demo_connector_def cn_blockTimeGetter_def NewEthereumBasedBlockTimeGetter_def headerTime_def demo_headers_def
        Let_def split: if_splits)
  have cache: "cacheOk (\<lambda>n. secondsToNano (10 * word_of_int n)) 3 NewTimestampFinder"
    by (simp add: cacheOk_def)
  have "snd (EthereumGetBlockNumber demo_connector 26000000000 NewTimestampFinder) = Ok 1"
    by code_simp
  then have "\<exists>f'. EthereumGetBlockNumber demo_connector 26000000000 NewTimestampFinder = (f', Ok 1)"
    by (cases "EthereumGetBlockNumber demo_connector 26000000000 NewTimestampFinder") simp
  then show ?thesis
    using ethereum_answers_final[OF node cache, of 26000000000 _ 1] by (auto simp: demo_connector_def)
qed

subsection \<open>Logs with indexed arguments\<close>

text \<open>
  The values of a log are packed with those of the indexed arguments first, while the ABI packs by the declared order. An
  event that declares an indexed argument after another one, here as the library would encode it, is returned
  with its values exchanged.
\<close>

lemma repack_order:
  assumes "abi_UnpackValues abi (filter (\<lambda>a. \<not> arg_indexed a) (event_inputs event)) (tl_data log) = Ok plain"
    and "unpackIndexed abi (event_inputs event) (tl_packedTopics log) (if event_anonymous event then 0 else 1) = Ok indexed"
  shows "repackEventABIWithTopics abi event log = abi_Pack abi (event_inputs event) (indexed @ plain)"
  using assms by (simp add: repackEventABIWithTopics_def)

definition demo_abi :: "bytes Abi" where
  "demo_abi = \<lparr>abi_JSON = (\<lambda>_. Ok Map.empty), abi_UnpackValues = (\<lambda>args data. Ok (map (\<lambda>b. [b]) (take (length args) data))),
     abi_Pack = (\<lambda>_ vs. Ok (concat vs)), abi_hexDecode = Ok\<rparr>"

lemma repack_exchanges_values:
  "repackEventABIWithTopics demo_abi
     \<lparr>event_id = [9], event_anonymous = False, event_inputs = [\<lparr>arg_type = [], arg_indexed = False\<rparr>, \<lparr>arg_type = [], arg_indexed = True\<rparr>]\<rparr>
     \<lparr>tl_contractAddress = [], tl_packedTopics = [[9], [2]], tl_data = [1], tl_blockNumber = 1, tl_txIndex = 0\<rparr> = Ok [2, 1]"
  by (simp add: repackEventABIWithTopics_def demo_abi_def)

end
