(* ===== verification/Block_Sync.thy ===== *)
theory Block_Sync
  imports Block_Storage
begin

text \<open>
  Synchronisation of blocks between nodes, \<open>services/blockstorage/internodesync\<close>: the state machine that
  asks the other nodes for blocks, waits for them and commits them. What a goroutine meets while it runs is
  a list of events that its \<open>select\<close> statements consume: a message that is ready in the conduit, its timer,
  the shutdown of the node, nothing being ready, and a block that another goroutine commits meanwhile. A
  state that needs more events than there are is still waiting, which is the value \<open>None\<close>.
\<close>

subsection \<open>Messages, events and the state\<close>

datatype conduitMessage =
    IdleResetMessage
  | BlockAvailabilityResponse NodeAddress BlockSyncRange
  | BlockSyncResponse NodeAddress BlockSyncRange "BlockPairContainer list"

datatype syncEvent = Receive conduitMessage | TimerFired | CtxDone | NothingReady | CommittedElsewhere BlockPairContainer

datatype petition =
    BlockAvailabilityRequest NodeAddress BlockSyncRange
  | BlockSyncRequest NodeAddress NodeAddress BlockSyncRange

datatype syncState =
    IdleState
  | CollectingAvailabilityResponsesState
  | FinishedCARState "(NodeAddress \<times> BlockSyncRange) list"
  | WaitingForChunksState NodeAddress
  | ProcessingBlocksState "(NodeAddress \<times> BlockSyncRange \<times> BlockPairContainer list) option"

record stateMetrics =
  timesReset :: nat
  timesExpired :: nat
  timesSucceededSendingAvailabilityRequest :: nat
  timesFailedSendingAvailabilityRequest :: nat
  finishedWithNoResponsesCount :: nat
  finishedWithSomeResponsesCount :: nat
  timesTimeout :: nat
  timesSuccessful :: nat
  timesByzantine :: nat
  committedBlocks :: nat
  failedCommitBlocks :: nat
  failedValidationBlocks :: nat
  statesTransitioned :: nat

definition newStateMetrics :: stateMetrics where
  "newStateMetrics = \<lparr>timesReset = 0, timesExpired = 0, timesSucceededSendingAvailabilityRequest = 0,
     timesFailedSendingAvailabilityRequest = 0, finishedWithNoResponsesCount = 0, finishedWithSomeResponsesCount = 0,
     timesTimeout = 0, timesSuccessful = 0, timesByzantine = 0, committedBlocks = 0, failedCommitBlocks = 0,
     failedValidationBlocks = 0, statesTransitioned = 0\<rparr>"

text \<open>
  The fixed parts a state is created with: the persistence behind the storage, the handlers that verify
  blocks, the settings, sending (whether a message goes out, given those sent before) and the random number.
\<close>

record 'p stateFactory =
  sf_wire :: Wire
  sf_storage :: "'p BlockPersistence"
  sf_handlers :: "(consensusMode \<Rightarrow> BlockPairContainer option \<Rightarrow> BlockPairContainer option \<Rightarrow> bool) list"
  sf_numBlocksInBatch :: "32 word"
  sf_nodeAddress :: NodeAddress
  sf_gossip :: "petition list \<Rightarrow> petition \<Rightarrow> bool"
  sf_randIntn :: "petition list \<Rightarrow> nat \<Rightarrow> nat"

text \<open>What changes: the storage, whether the context is done, the requests sent, what consensus was told.\<close>

record 'p SyncNode =
  sn_service :: BlockStorage
  sn_blocks :: 'p
  sn_ctxDone :: bool
  sn_sent :: "petition list"
  sn_updates :: "BlockPairContainer option list"
  sn_metrics :: stateMetrics

text \<open>A nil state ends the loop; a panic ends it as well, and the supervisor starts it again.\<close>

datatype syncOutcome = NextState syncState | Stopped | Panicked

abbreviation meter :: "(stateMetrics \<Rightarrow> stateMetrics) \<Rightarrow> 'p SyncNode \<Rightarrow> 'p SyncNode" where
  "meter f n \<equiv> n\<lparr>sn_metrics := f (sn_metrics n)\<rparr>"

subsection \<open>What other goroutines do\<close>

definition commitElsewhere :: "'p stateFactory \<Rightarrow> BlockPairContainer \<Rightarrow> 'p SyncNode \<Rightarrow> 'p SyncNode" where
  "commitElsewhere sf b n =
     (case CommitBlock (sf_wire sf) (sf_storage sf) (sn_service n) (sn_blocks n) b True of
        Ok (s, p) \<Rightarrow> n\<lparr>sn_service := s, sn_blocks := p\<rparr>
      | _ \<Rightarrow> n)"

text \<open>Between two calls of a goroutine others may commit blocks and the shutdown may begin.\<close>

fun meanwhile :: "'p stateFactory \<Rightarrow> syncEvent list \<Rightarrow> 'p SyncNode \<Rightarrow> 'p SyncNode \<times> syncEvent list" where
  "meanwhile sf (CommittedElsewhere b # es) n = meanwhile sf es (commitElsewhere sf b n)"
| "meanwhile sf (CtxDone # es) n = meanwhile sf es (n\<lparr>sn_ctxDone := True\<rparr>)"
| "meanwhile sf es n = (n, es)"

fun drainAndCheckForShutdown ::
  "'p stateFactory \<Rightarrow> syncEvent list \<Rightarrow> 'p SyncNode \<Rightarrow> (bool \<times> 'p SyncNode \<times> syncEvent list) option" where
  "drainAndCheckForShutdown sf [] n = None"
| "drainAndCheckForShutdown sf (Receive m # es) n = drainAndCheckForShutdown sf es n"
| "drainAndCheckForShutdown sf (CtxDone # es) n = Some (False, n\<lparr>sn_ctxDone := True\<rparr>, es)"
| "drainAndCheckForShutdown sf (NothingReady # es) n =
     (if sn_ctxDone n then Some (False, n, es) else Some (True, n, es))"
| "drainAndCheckForShutdown sf (CommittedElsewhere b # es) n = drainAndCheckForShutdown sf es (commitElsewhere sf b n)"
| "drainAndCheckForShutdown sf (TimerFired # es) n = drainAndCheckForShutdown sf es n"

subsection \<open>Requests to the other nodes\<close>

definition UpdateConsensusAlgosAboutLastCommittedBlockInLocalPersistence :: "'p stateFactory \<Rightarrow> 'p SyncNode \<Rightarrow> 'p SyncNode" where
  "UpdateConsensusAlgosAboutLastCommittedBlockInLocalPersistence sf n =
     (case bpp_GetLastBlock (sf_storage sf) (sn_blocks n) of
        Ok lastCommittedBlock \<Rightarrow>
          (case getBlockHeight lastCommittedBlock of
             Ok _ \<Rightarrow> n\<lparr>sn_updates := sn_updates n @ [lastCommittedBlock]\<rparr>
           | _ \<Rightarrow> n)
      | _ \<Rightarrow> n)"

definition sendPetition :: "'p stateFactory \<Rightarrow> petition \<Rightarrow> 'p SyncNode \<Rightarrow> bool \<times> 'p SyncNode" where
  "sendPetition sf m n =
     (if sf_gossip sf (sn_sent n) m then (True, n\<lparr>sn_sent := sn_sent n @ [m]\<rparr>) else (False, n))"

definition nextBatchRange :: "'p stateFactory \<Rightarrow> BlockHeight \<Rightarrow> BlockSyncRange" where
  "nextBatchRange sf lastCommittedBlockHeight =
     \<lparr>bsr_firstBlockHeight = lastCommittedBlockHeight + 1,
      bsr_lastBlockHeight = lastCommittedBlockHeight + ucast (sf_numBlocksInBatch sf),
      bsr_lastCommittedBlockHeight = lastCommittedBlockHeight\<rparr>"

definition petitionerBroadcastBlockAvailabilityRequest :: "'p stateFactory \<Rightarrow> 'p SyncNode \<Rightarrow> (storageErr, bool \<times> 'p SyncNode) result" where
  "petitionerBroadcastBlockAvailabilityRequest sf n =
     (case GetLastCommittedBlockHeight (sf_storage sf) (sn_blocks n) of
        Ok (lastCommittedBlockHeight, _) \<Rightarrow>
          let batch = nextBatchRange sf lastCommittedBlockHeight in
          if bsr_firstBlockHeight batch > bsr_lastBlockHeight batch then Ok (False, n)
          else Ok (sendPetition sf (BlockAvailabilityRequest (sf_nodeAddress sf) batch) n)
      | Err e \<Rightarrow> Ok (False, n)
      | Panic \<Rightarrow> Panic)"

definition petitionerSendBlockSyncRequest ::
  "'p stateFactory \<Rightarrow> NodeAddress \<Rightarrow> 'p SyncNode \<Rightarrow> (storageErr, bool \<times> 'p SyncNode) result" where
  "petitionerSendBlockSyncRequest sf recipientNodeAddress n =
     (case GetLastCommittedBlockHeight (sf_storage sf) (sn_blocks n) of
        Ok (lastCommittedBlockHeight, _) \<Rightarrow>
          Ok (sendPetition sf (BlockSyncRequest recipientNodeAddress (sf_nodeAddress sf) (nextBatchRange sf lastCommittedBlockHeight)) n)
      | Err e \<Rightarrow> Ok (False, n)
      | Panic \<Rightarrow> Panic)"

subsection \<open>The states\<close>

fun idle_processState ::
  "'p stateFactory \<Rightarrow> syncEvent list \<Rightarrow> 'p SyncNode \<Rightarrow> (syncOutcome \<times> 'p SyncNode \<times> syncEvent list) option" where
  "idle_processState sf [] n = None"
| "idle_processState sf (Receive IdleResetMessage # es) n =
     Some (NextState IdleState, meter (\<lambda>m. m\<lparr>timesReset := Suc (timesReset m)\<rparr>) n, es)"
| "idle_processState sf (TimerFired # es) n =
     Some (NextState CollectingAvailabilityResponsesState, meter (\<lambda>m. m\<lparr>timesExpired := Suc (timesExpired m)\<rparr>) n, es)"
| "idle_processState sf (CtxDone # es) n = Some (Stopped, n\<lparr>sn_ctxDone := True\<rparr>, es)"
| "idle_processState sf (CommittedElsewhere b # es) n = idle_processState sf es (commitElsewhere sf b n)"
| "idle_processState sf (e # es) n = idle_processState sf es n"

fun collectResponses ::
  "'p stateFactory \<Rightarrow> syncEvent list \<Rightarrow> (NodeAddress \<times> BlockSyncRange) list \<Rightarrow> 'p SyncNode
     \<Rightarrow> (syncOutcome \<times> 'p SyncNode \<times> syncEvent list) option" where
  "collectResponses sf [] responses n = None"
| "collectResponses sf (TimerFired # es) responses n = Some (NextState (FinishedCARState responses), n, es)"
| "collectResponses sf (Receive (BlockAvailabilityResponse sender batch) # es) responses n =
     collectResponses sf es (responses @ [(sender, batch)]) n"
| "collectResponses sf (CtxDone # es) responses n = Some (Stopped, n\<lparr>sn_ctxDone := True\<rparr>, es)"
| "collectResponses sf (CommittedElsewhere b # es) responses n = collectResponses sf es responses (commitElsewhere sf b n)"
| "collectResponses sf (e # es) responses n = collectResponses sf es responses n"

definition collecting_processState ::
  "'p stateFactory \<Rightarrow> syncEvent list \<Rightarrow> 'p SyncNode \<Rightarrow> (syncOutcome \<times> 'p SyncNode \<times> syncEvent list) option" where
  "collecting_processState sf es n =
     (let n = UpdateConsensusAlgosAboutLastCommittedBlockInLocalPersistence sf n in
      case petitionerBroadcastBlockAvailabilityRequest sf n of
        Ok (True, n) \<Rightarrow>
          collectResponses sf es []
            (meter (\<lambda>m. m\<lparr>timesSucceededSendingAvailabilityRequest := Suc (timesSucceededSendingAvailabilityRequest m)\<rparr>) n)
      | Ok (False, n) \<Rightarrow>
          Some (NextState IdleState,
            meter (\<lambda>m. m\<lparr>timesFailedSendingAvailabilityRequest := Suc (timesFailedSendingAvailabilityRequest m)\<rparr>) n, es)
      | _ \<Rightarrow> Some (Panicked, n, es))"

definition finishedCAR_processState ::
  "'p stateFactory \<Rightarrow> (NodeAddress \<times> BlockSyncRange) list \<Rightarrow> syncEvent list \<Rightarrow> 'p SyncNode
     \<Rightarrow> (syncOutcome \<times> 'p SyncNode \<times> syncEvent list) option" where
  "finishedCAR_processState sf responses es n =
     (let c = length responses in
      if c = 0
      then Some (NextState IdleState, meter (\<lambda>m. m\<lparr>finishedWithNoResponsesCount := Suc (finishedWithNoResponsesCount m)\<rparr>) n, es)
      else
        let n = meter (\<lambda>m. m\<lparr>finishedWithSomeResponsesCount := Suc (finishedWithSomeResponsesCount m)\<rparr>) n;
            randomSourceIdx = sf_randIntn sf (sn_sent n) c
        in if \<not> randomSourceIdx < c then Some (Panicked, n, es)
           else case drainAndCheckForShutdown sf es n of
               None \<Rightarrow> None
             | Some (ok, n, es) \<Rightarrow>
                 Some (if ok then NextState (WaitingForChunksState (fst (responses ! randomSourceIdx))) else Stopped, n, es))"

fun waitForChunks ::
  "'p stateFactory \<Rightarrow> NodeAddress \<Rightarrow> syncEvent list \<Rightarrow> 'p SyncNode \<Rightarrow> (syncOutcome \<times> 'p SyncNode \<times> syncEvent list) option" where
  "waitForChunks sf source [] n = None"
| "waitForChunks sf source (TimerFired # es) n =
     Some (NextState IdleState, meter (\<lambda>m. m\<lparr>timesTimeout := Suc (timesTimeout m)\<rparr>) n, es)"
| "waitForChunks sf source (Receive (BlockSyncResponse sender batch blocks) # es) n =
     (if sender = source
      then Some (NextState (ProcessingBlocksState (Some (sender, batch, blocks))),
             meter (\<lambda>m. m\<lparr>timesSuccessful := Suc (timesSuccessful m)\<rparr>) n, es)
      else waitForChunks sf source es (meter (\<lambda>m. m\<lparr>timesByzantine := Suc (timesByzantine m)\<rparr>) n))"
| "waitForChunks sf source (CtxDone # es) n = Some (Stopped, n\<lparr>sn_ctxDone := True\<rparr>, es)"
| "waitForChunks sf source (CommittedElsewhere b # es) n = waitForChunks sf source es (commitElsewhere sf b n)"
| "waitForChunks sf source (e # es) n = waitForChunks sf source es n"

definition waiting_processState ::
  "'p stateFactory \<Rightarrow> NodeAddress \<Rightarrow> syncEvent list \<Rightarrow> 'p SyncNode \<Rightarrow> (syncOutcome \<times> 'p SyncNode \<times> syncEvent list) option" where
  "waiting_processState sf source es n =
     (case petitionerSendBlockSyncRequest sf source n of
        Ok (True, n) \<Rightarrow> waitForChunks sf source es n
      | Ok (False, n) \<Rightarrow> Some (NextState IdleState, n, es)
      | _ \<Rightarrow> Some (Panicked, n, es))"

text \<open>
  The loop over the blocks of a chunk. It ends with \<open>None\<close> where it goes on after the loop, and with the
  outcome of \<open>processState\<close> where it leaves that function.
\<close>

fun commitChunk ::
  "'p stateFactory \<Rightarrow> BlockPairContainer list \<Rightarrow> syncEvent list \<Rightarrow> 'p SyncNode
     \<Rightarrow> (syncOutcome option \<times> 'p SyncNode \<times> syncEvent list) option" where
  "commitChunk sf [] es n = Some (None, n, es)"
| "commitChunk sf (blockPair # blocks) es n =
     (case drainAndCheckForShutdown sf es n of
        None \<Rightarrow> None
      | Some (False, n, es) \<Rightarrow> Some (Some Stopped, n, es)
      | Some (True, n, es) \<Rightarrow>
          let (n, es) = meanwhile sf es n in
          (case ValidateBlockForCommit (sf_storage sf) (sf_handlers sf) (sn_ctxDone n) (sn_blocks n) blockPair of
             Panic \<Rightarrow> Some (Some Panicked, n, es)
           | Err e \<Rightarrow> Some (None, meter (\<lambda>m. m\<lparr>failedValidationBlocks := Suc (failedValidationBlocks m)\<rparr>) n, es)
           | Ok _ \<Rightarrow>
               let (n, es) = meanwhile sf es n in
               (case NodeSyncCommitBlock (sf_wire sf) (sf_storage sf) (sn_service n) (sn_blocks n) blockPair True of
                  Panic \<Rightarrow> Some (Some Panicked, n, es)
                | Err e \<Rightarrow> Some (None, meter (\<lambda>m. m\<lparr>failedCommitBlocks := Suc (failedCommitBlocks m)\<rparr>) n, es)
                | Ok (s, p) \<Rightarrow>
                    commitChunk sf blocks es
                      (meter (\<lambda>m. m\<lparr>committedBlocks := Suc (committedBlocks m)\<rparr>) (n\<lparr>sn_service := s, sn_blocks := p\<rparr>)))))"

definition processing_processState ::
  "'p stateFactory \<Rightarrow> (NodeAddress \<times> BlockSyncRange \<times> BlockPairContainer list) option \<Rightarrow> syncEvent list \<Rightarrow> 'p SyncNode
     \<Rightarrow> (syncOutcome \<times> 'p SyncNode \<times> syncEvent list) option" where
  "processing_processState sf message es n =
     (case message of
        None \<Rightarrow> Some (NextState IdleState, n, es)
      | Some (sender, batch, blockPairs) \<Rightarrow>
          (case commitChunk sf blockPairs es n of
             None \<Rightarrow> None
           | Some (Some out, n, es) \<Rightarrow> Some (out, n, es)
           | Some (None, n, es) \<Rightarrow>
               (case drainAndCheckForShutdown sf es n of
                  None \<Rightarrow> None
                | Some (ok, n, es) \<Rightarrow> Some (if ok then NextState CollectingAvailabilityResponsesState else Stopped, n, es))))"

fun processState ::
  "'p stateFactory \<Rightarrow> syncState \<Rightarrow> syncEvent list \<Rightarrow> 'p SyncNode \<Rightarrow> (syncOutcome \<times> 'p SyncNode \<times> syncEvent list) option" where
  "processState sf IdleState es n = idle_processState sf es n"
| "processState sf CollectingAvailabilityResponsesState es n = collecting_processState sf es n"
| "processState sf (FinishedCARState responses) es n = finishedCAR_processState sf responses es n"
| "processState sf (WaitingForChunksState source) es n = waiting_processState sf source es n"
| "processState sf (ProcessingBlocksState message) es n = processing_processState sf message es n"

subsection \<open>The loop\<close>

text \<open>
  \<open>syncLoop sf es n st es' n'\<close>: started on the node \<open>n\<close> with the events \<open>es\<close>, the machine comes to enter the
  state \<open>st\<close> with the events \<open>es'\<close> left and the node \<open>n'\<close>. After a panic the supervisor starts it again, unless
  the node is shutting down.
\<close>

inductive syncLoop ::
  "'p stateFactory \<Rightarrow> syncEvent list \<Rightarrow> 'p SyncNode \<Rightarrow> syncState \<Rightarrow> syncEvent list \<Rightarrow> 'p SyncNode \<Rightarrow> bool"
  for sf es n where
  start: "syncLoop sf es n CollectingAvailabilityResponsesState es n"
| next_state: "syncLoop sf es n st es1 n1 \<Longrightarrow> processState sf st es1 n1 = Some (NextState st', n2, es2) \<Longrightarrow>
    syncLoop sf es n st' es2 (meter (\<lambda>m. m\<lparr>statesTransitioned := Suc (statesTransitioned m)\<rparr>) n2)"
| restart: "syncLoop sf es n st es1 n1 \<Longrightarrow> processState sf st es1 n1 = Some (Panicked, n2, es2) \<Longrightarrow> \<not> sn_ctxDone n2 \<Longrightarrow>
    syncLoop sf es n CollectingAvailabilityResponsesState es2 n2"

text \<open>
  What the handlers put into the conduit; when their own context ends first, the message is dropped.
\<close>

definition HandleBlockCommitted :: "bool \<Rightarrow> syncEvent list" where
  "HandleBlockCommitted taken = (if taken then [Receive IdleResetMessage] else [])"

definition HandleBlockAvailabilityResponse :: "bool \<Rightarrow> NodeAddress \<Rightarrow> BlockSyncRange \<Rightarrow> syncEvent list" where
  "HandleBlockAvailabilityResponse taken sender batch = (if taken then [Receive (BlockAvailabilityResponse sender batch)] else [])"

definition HandleBlockSyncResponse :: "bool \<Rightarrow> NodeAddress \<Rightarrow> BlockSyncRange \<Rightarrow> BlockPairContainer list \<Rightarrow> syncEvent list" where
  "HandleBlockSyncResponse taken sender batch blocks = (if taken then [Receive (BlockSyncResponse sender batch blocks)] else [])"

end
