(* ===== verification/Block_Sync_Correct.thy ===== *)
theory Block_Sync_Correct
  imports Block_Sync Block_Storage_Correct
begin

text \<open>
  Correctness of block synchronisation. Whatever messages arrive, in whatever order and from whomever, and
  whatever other goroutines commit meanwhile, the chain only grows at its end, by blocks the consensus
  algorithms accepted after exactly their predecessor or that were committed elsewhere; and a round with a
  node that is ahead brings blocks.
\<close>

subsection \<open>How the chain grows\<close>

definition accepted ::
  "(consensusMode \<Rightarrow> BlockPairContainer option \<Rightarrow> BlockPairContainer option \<Rightarrow> bool) list \<Rightarrow> BlockPairContainer list
     \<Rightarrow> BlockPairContainer \<Rightarrow> bool" where
  "accepted hs bs b \<longleftrightarrow> (\<exists>h \<in> set hs. h VERIFY_AND_UPDATE (if bs = [] then None else Some (last bs)) (Some b))"

fun justified ::
  "(consensusMode \<Rightarrow> BlockPairContainer option \<Rightarrow> BlockPairContainer option \<Rightarrow> bool) list \<Rightarrow> BlockPairContainer set
     \<Rightarrow> BlockPairContainer list \<Rightarrow> BlockPairContainer list \<Rightarrow> bool" where
  "justified hs E bs [] = True"
| "justified hs E bs (b # ext) = ((accepted hs bs b \<or> b \<in> E) \<and> justified hs E (bs @ [b]) ext)"

lemma justified_append:
  "justified hs E bs (xs @ ys) \<longleftrightarrow> justified hs E bs xs \<and> justified hs E (bs @ xs) ys"
  by (induction xs arbitrary: bs) auto

fun weight :: "syncEvent \<Rightarrow> nat" where
  "weight (CommittedElsewhere b) = 1"
| "weight (Receive (BlockSyncResponse sender batch blocks)) = length blocks"
| "weight e = 0"

definition offered :: "syncEvent list \<Rightarrow> nat" where
  "offered es = sum_list (map weight es)"

lemma offered_simps [simp]: "offered [] = 0" "offered (e # es) = weight e + offered es"
  by (simp_all add: offered_def)

fun pendingBlocks :: "syncState \<Rightarrow> nat" where
  "pendingBlocks (ProcessingBlocksState (Some (sender, batch, blocks))) = length blocks"
| "pendingBlocks _ = 0"

fun pendingOutcome :: "syncOutcome \<Rightarrow> nat" where
  "pendingOutcome (NextState st) = pendingBlocks st"
| "pendingOutcome _ = 0"

definition elsewhere :: "syncEvent list \<Rightarrow> BlockPairContainer set" where
  "elsewhere es = {b. CommittedElsewhere b \<in> set es}"

lemma elsewhere_simps [simp]:
  "elsewhere [] = {}" "elsewhere (CommittedElsewhere b # es) = insert b (elsewhere es)"
  "elsewhere (Receive m # es) = elsewhere es" "elsewhere (TimerFired # es) = elsewhere es"
  "elsewhere (CtxDone # es) = elsewhere es" "elsewhere (NothingReady # es) = elsewhere es"
  by (auto simp: elsewhere_def)

definition roundEvents :: "NodeAddress \<Rightarrow> BlockSyncRange \<Rightarrow> BlockSyncRange \<Rightarrow> BlockPairContainer list \<Rightarrow> syncEvent list" where
  "roundEvents source r batch chunk =
     [Receive (BlockAvailabilityResponse source r), TimerFired, NothingReady, Receive (BlockSyncResponse source batch chunk)]
     @ replicate (length chunk) NothingReady @ [NothingReady]"

context block_persistence
begin

lemma commit_any:
  assumes "repr p bs" "fits p b" "block_at b h" "length bs + 1 < 2 ^ 63"
    and "commitBlock w ops s p b notify receiver = Ok (s', p')"
  shows "(h = of_nat (length bs) + 1 \<and> repr p' (bs @ [b])) \<or> (h \<noteq> of_nat (length bs) + 1 \<and> p' = p)"
proof (cases "h = of_nat (length bs) + 1")
  case True
  then have b: "block_at b (of_nat (length bs) + 1)" using assms(3) by simp
  have "validateProtocolVersion_blocks b = Ok ()" using assms(5) by (auto simp: commitBlock_def Let_def)
  then show ?thesis using commit_next [OF assms(1,2) b assms(4), of w s notify receiver] assms(5) True by auto
next
  case False
  have "p' = p" using assms(5) write_other [OF assms(1,3) False]
    by (auto simp: commitBlock_def Let_def split: if_splits)
  then show ?thesis using False by simp
qed

definition grows ::
  "'p stateFactory \<Rightarrow> BlockPairContainer set \<Rightarrow> nat \<Rightarrow> 'p SyncNode \<Rightarrow> 'p SyncNode \<Rightarrow> bool" where
  "grows sf E k n n' \<longleftrightarrow> (sn_ctxDone n \<longrightarrow> sn_ctxDone n') \<and>
     (\<forall>bs. repr (sn_blocks n) bs \<and> length bs + k < 2 ^ 63 \<longrightarrow>
       (\<exists>ext. length ext \<le> k \<and> repr (sn_blocks n') (bs @ ext) \<and> (\<not> sn_ctxDone n' \<longrightarrow> justified (sf_handlers sf) E bs ext)))"

lemma grows_refl: "sn_blocks n' = sn_blocks n \<Longrightarrow> sn_ctxDone n \<longrightarrow> sn_ctxDone n' \<Longrightarrow> grows sf E k n n'"
  by (auto simp: grows_def intro!: exI [of _ "[]"])

lemma growsD:
  assumes "grows sf E k n n'" "repr (sn_blocks n) bs" "length bs + k < 2 ^ 63"
  obtains ext where "length ext \<le> k" "repr (sn_blocks n') (bs @ ext)" "\<not> sn_ctxDone n' \<Longrightarrow> justified (sf_handlers sf) E bs ext"
  using assms unfolding grows_def by blast

lemma grows_done: "grows sf E k n n' \<Longrightarrow> sn_ctxDone n \<Longrightarrow> sn_ctxDone n'"
  by (simp add: grows_def)

lemma growsI:
  assumes "sn_ctxDone n \<Longrightarrow> sn_ctxDone n'"
    and "\<And>bs. repr (sn_blocks n) bs \<Longrightarrow> length bs + k < 2 ^ 63 \<Longrightarrow>
      \<exists>ext. length ext \<le> k \<and> repr (sn_blocks n') (bs @ ext) \<and> (\<not> sn_ctxDone n' \<longrightarrow> justified (sf_handlers sf) E bs ext)"
  shows "grows sf E k n n'"
  using assms unfolding grows_def by blast

lemma grows_trans:
  assumes "grows sf E k n n1" "grows sf E l n1 n2" shows "grows sf E (k + l) n n2"
proof (rule growsI)
  show "sn_ctxDone n2" if "sn_ctxDone n" using assms that by (blast dest: grows_done)
next
  fix bs assume bs: "repr (sn_blocks n) bs" "length bs + (k + l) < 2 ^ 63"
  obtain x where x: "length x \<le> k" "repr (sn_blocks n1) (bs @ x)" "\<not> sn_ctxDone n1 \<Longrightarrow> justified (sf_handlers sf) E bs x"
    using growsD [OF assms(1) bs(1)] bs(2) by (metis add_lessD1 add.assoc)
  obtain y where y: "length y \<le> l" "repr (sn_blocks n2) ((bs @ x) @ y)" "\<not> sn_ctxDone n2 \<Longrightarrow> justified (sf_handlers sf) E (bs @ x) y"
    using growsD [OF assms(2) x(2)] bs(2) x(1) by (metis add_mono_thms_linordered_semiring(1) length_append le_refl order_le_less_trans add.assoc)
  show "\<exists>ext. length ext \<le> k + l \<and> repr (sn_blocks n2) (bs @ ext) \<and> (\<not> sn_ctxDone n2 \<longrightarrow> justified (sf_handlers sf) E bs ext)"
    using x y grows_done [OF assms(2)] by (intro exI [of _ "x @ y"]) (auto simp: justified_append)
qed

lemma grows_mono: "grows sf E k n n' \<Longrightarrow> k \<le> l \<Longrightarrow> grows sf E l n n'"
  unfolding grows_def by (meson add_le_cancel_left le_trans order_le_less_trans)

definition advances ::
  "'p stateFactory \<Rightarrow> BlockPairContainer set \<Rightarrow> nat \<Rightarrow> 'p SyncNode \<Rightarrow> syncEvent list \<Rightarrow> nat \<Rightarrow> 'p SyncNode \<Rightarrow> syncEvent list \<Rightarrow> bool" where
  "advances sf E a n es b n' es' \<longleftrightarrow>
     (\<exists>k. k + b + offered es' \<le> a + offered es \<and> grows sf E k n n') \<and> elsewhere es' \<subseteq> elsewhere es"

lemma advancesI: "grows sf E k n n' \<Longrightarrow> k + b + offered es' \<le> a + offered es \<Longrightarrow> elsewhere es' \<subseteq> elsewhere es \<Longrightarrow> advances sf E a n es b n' es'"
  unfolding advances_def by blast

lemma advances_refl: "sn_blocks n' = sn_blocks n \<Longrightarrow> sn_ctxDone n \<longrightarrow> sn_ctxDone n' \<Longrightarrow> b \<le> a \<Longrightarrow> advances sf E a n es b n' es"
  by (rule advancesI [where k = 0]) (simp_all add: grows_refl)

lemma advances_trans:
  assumes "advances sf E a n es b n1 es1" "advances sf E b n1 es1 c n2 es2" shows "advances sf E a n es c n2 es2"
proof -
  obtain k l where "k + b + offered es1 \<le> a + offered es" "grows sf E k n n1" "l + c + offered es2 \<le> b + offered es1" "grows sf E l n1 n2"
    and "elsewhere es2 \<subseteq> elsewhere es1" "elsewhere es1 \<subseteq> elsewhere es"
    using assms unfolding advances_def by blast
  then show ?thesis using grows_trans [of sf E k n n1 l n2] by (intro advancesI [where k = "k + l"]) auto
qed

lemma elsewhere_Cons: "elsewhere es \<subseteq> elsewhere (e # es)"
  by (auto simp: elsewhere_def)

lemma advances_drop:
  assumes "advances sf E a n es b n' es'" shows "advances sf E a n (e # es) b n' es'"
proof -
  obtain k where "k + b + offered es' \<le> a + offered es" "grows sf E k n n'" "elsewhere es' \<subseteq> elsewhere es"
    using assms unfolding advances_def by blast
  then show ?thesis by (intro advancesI [where k = k]) (use elsewhere_Cons [of es e] in auto)
qed

lemma advances_event:
  "sn_blocks n' = sn_blocks n \<Longrightarrow> sn_ctxDone n \<longrightarrow> sn_ctxDone n' \<Longrightarrow> b \<le> a + weight e \<Longrightarrow> advances sf E a n (e # es) b n' es"
  by (rule advancesI [where k = 0]) (auto simp: grows_refl elsewhere_def)

lemma advances_same:
  "advances sf E a n1 es b n' es' \<Longrightarrow> sn_blocks n1 = sn_blocks n \<Longrightarrow> sn_ctxDone n1 = sn_ctxDone n \<Longrightarrow> advances sf E a n es b n' es'"
  by (rule advances_trans [OF advances_refl]) simp_all

lemma commitElsewhere_grows:
  assumes "sf_storage sf = ops" "\<And>p b. fits p b" "\<forall>b\<in>E. \<exists>h. block_at b h" "b \<in> E"
  shows "grows sf E 1 n (commitElsewhere sf b n)"
proof (cases "CommitBlock (sf_wire sf) ops (sn_service n) (sn_blocks n) b True")
  case (Ok sp)
  obtain s p where sp: "sp = (s, p)" by (cases sp)
  obtain h where h: "block_at b h" using assms(3,4) by blast
  show ?thesis
  proof (rule growsI)
    fix bs assume "repr (sn_blocks n) bs" "length bs + 1 < 2 ^ 63"
    then consider "repr p (bs @ [b])" | "p = sn_blocks n"
      using commit_any [OF _ assms(2) h, of "sn_blocks n" bs "sf_wire sf" "sn_service n" True True s p] Ok sp by (auto simp: CommitBlock_def)
    then show "\<exists>ext. length ext \<le> 1 \<and> repr (sn_blocks (commitElsewhere sf b n)) (bs @ ext) \<and>
        (\<not> sn_ctxDone (commitElsewhere sf b n) \<longrightarrow> justified (sf_handlers sf) E bs ext)"
    proof cases
      case 1
      then show ?thesis using assms(1,4) Ok sp by (intro exI [of _ "[b]"]) (simp add: commitElsewhere_def)
    next
      case 2
      then show ?thesis using \<open>repr (sn_blocks n) bs\<close> assms(1) Ok sp by (intro exI [of _ "[]"]) (simp add: commitElsewhere_def)
    qed
  qed (use assms(1) Ok sp in \<open>simp add: commitElsewhere_def\<close>)
qed (auto simp: commitElsewhere_def assms(1) intro!: grows_refl)

lemma advances_commit:
  assumes "sf_storage sf = ops" "\<And>p b. fits p b" "\<forall>b\<in>E. \<exists>h. block_at b h" "b \<in> E"
    and "advances sf E a (commitElsewhere sf b n) es c n' es'"
  shows "advances sf E a n (CommittedElsewhere b # es) c n' es'"
proof (rule advances_trans [OF _ assms(5)])
  show "advances sf E a n (CommittedElsewhere b # es) a (commitElsewhere sf b n) es"
    by (rule advancesI [OF commitElsewhere_grows [OF assms(1-4)]]) auto
qed

lemmas advances_rules = advances_drop advances_event advances_commit

lemma meanwhile_advances:
  assumes "sf_storage sf = ops" "\<And>p b. fits p b" "\<forall>b\<in>E. \<exists>h. block_at b h"
  shows "meanwhile sf es n = (n', es') \<Longrightarrow> elsewhere es \<subseteq> E \<Longrightarrow> advances sf E a n es a n' es'"
proof (induction es arbitrary: n)
  case (Cons e es)
  note ih = Cons.IH and commit = advances_commit [OF assms]
  show ?case
  proof (cases e)
    case CtxDone
    then have "advances sf E a (n\<lparr>sn_ctxDone := True\<rparr>) es a n' es'" using Cons.prems ih [of "n\<lparr>sn_ctxDone := True\<rparr>"] by simp
    from advances_trans [OF advances_event this] show ?thesis unfolding CtxDone by simp
  qed (use Cons.prems in \<open>auto intro!: advances_refl commit ih\<close>)
qed (auto intro!: advances_refl)

lemma drain_advances:
  assumes "sf_storage sf = ops" "\<And>p b. fits p b" "\<forall>b\<in>E. \<exists>h. block_at b h"
  shows "drainAndCheckForShutdown sf es n = Some (ok, n', es') \<Longrightarrow> elsewhere es \<subseteq> E \<Longrightarrow> advances sf E a n es a n' es'"
proof (induction es arbitrary: n)
  case (Cons e es)
  note commit = advances_commit [OF assms]
  show ?case by (cases e) (use Cons in \<open>auto intro: commit advances_drop advances_event split: if_splits\<close>)
qed simp

lemma idle_advances:
  assumes "sf_storage sf = ops" "\<And>p b. fits p b" "\<forall>b\<in>E. \<exists>h. block_at b h"
  shows "idle_processState sf es n = Some (out, n', es') \<Longrightarrow> elsewhere es \<subseteq> E \<Longrightarrow>
    advances sf E 0 n es (pendingOutcome out) n' es'"
proof (induction es arbitrary: n)
  case (Cons e es)
  note commit = advances_commit [OF assms]
  show ?case
  proof (cases e)
    case (Receive m)
    then show ?thesis using Cons by (cases m) (auto intro: advances_drop advances_event)
  qed (use Cons in \<open>auto intro: commit advances_drop advances_event\<close>)
qed simp

lemma collectResponses_advances:
  assumes "sf_storage sf = ops" "\<And>p b. fits p b" "\<forall>b\<in>E. \<exists>h. block_at b h"
  shows "collectResponses sf es rs n = Some (out, n', es') \<Longrightarrow> elsewhere es \<subseteq> E \<Longrightarrow>
    advances sf E 0 n es (pendingOutcome out) n' es'"
proof (induction es arbitrary: rs n)
  case (Cons e es)
  note commit = advances_commit [OF assms]
  show ?case
  proof (cases e)
    case (Receive m)
    then show ?thesis using Cons by (cases m) (auto intro: advances_drop advances_event)
  qed (use Cons in \<open>auto intro: commit advances_drop advances_event\<close>)
qed simp

lemma waitForChunks_advances:
  assumes "sf_storage sf = ops" "\<And>p b. fits p b" "\<forall>b\<in>E. \<exists>h. block_at b h"
  shows "waitForChunks sf source es n = Some (out, n', es') \<Longrightarrow> elsewhere es \<subseteq> E \<Longrightarrow> advances sf E 0 n es (pendingOutcome out) n' es'"
proof (induction es arbitrary: n)
  case (Cons e es)
  note commit = advances_commit [OF assms]
  show ?case
  proof (cases e)
    case (Receive m)
    show ?thesis
    proof (cases m)
      case (BlockSyncResponse sender batch blocks)
      show ?thesis
      proof (cases "sender = source")
        case True
        then show ?thesis using Cons.prems Receive BlockSyncResponse by (auto intro: advances_event)
      next
        case False
        let ?n = "meter (\<lambda>m. m\<lparr>timesByzantine := Suc (timesByzantine m)\<rparr>) n"
        have "advances sf E 0 ?n es (pendingOutcome out) n' es'" using Cons False Receive BlockSyncResponse by simp
        from advances_drop [OF advances_same [OF this]] show ?thesis by simp
      qed
    qed (use Cons Receive in \<open>auto intro: advances_drop\<close>)
  qed (use Cons in \<open>auto intro: commit advances_drop advances_event\<close>)
qed simp

lemma validate_accepts:
  assumes "repr p bs" "ValidateBlockForCommit ops hs done p b = Ok r"
  shows "block_at b (of_nat (length bs) + 1)" "\<not> done \<Longrightarrow> accepted hs bs b"
proof -
  let ?last = "if bs = [] then None else Some (last bs)"
  have height: "getBlockHeight ?last = Ok (of_nat (length bs))"
    using last_committed [OF assms(1)] get_last [OF assms(1)] by (auto simp: GetLastCommittedBlockHeight_def)
  have "validateConsecutiveBlockHeight b ?last = Ok ()" "notifyConsensusAlgos hs done ?last (Some b) VERIFY_AND_UPDATE = Ok r"
    using assms(2) get_last [OF assms(1)] by (auto simp: ValidateBlockForCommit_def simp del: if_split)
  note val = this
  obtain tb th rb rh where t: "tx_header (bp_transactionsBlock b) = (Ok (tb, th) :: (storageErr, _) result)"
    and r: "rx_header (bp_resultsBlock b) = (Ok (rb, rh) :: (storageErr, _) result)"
    and h: "tbh_blockHeight th = rbh_blockHeight rh" "tbh_blockHeight th = of_nat (length bs) + 1"
    using val(1) height by (auto simp: validateConsecutiveBlockHeight_def simp del: if_split split: if_split_asm)
  show "block_at b (of_nat (length bs) + 1)" using t r h
    by (auto simp: block_at_def tx_header_def rx_header_def split: option.splits)
  assume "\<not> done"
  then have "filter (\<lambda>handler. handler VERIFY_AND_UPDATE ?last (Some b)) hs \<noteq> []"
    using val(2) by (auto simp: notifyConsensusAlgos_def Let_def simp del: if_split split: if_split_asm)
  then show "accepted hs bs b" unfolding accepted_def filter_empty_conv by blast
qed

lemma commit_validated_grows:
  assumes fits: "\<And>p b. fits p b"
    and val: "ValidateBlockForCommit ops (sf_handlers sf) (sn_ctxDone n) (sn_blocks n) b = Ok r" and mid: "grows sf E k n n1"
    and commit: "NodeSyncCommitBlock w ops (sn_service n1) (sn_blocks n1) b True = Ok (s, p)"
    and n2: "sn_blocks n2 = p" "sn_ctxDone n2 = sn_ctxDone n1"
  shows "grows sf E (Suc k) n n2"
proof (rule growsI)
  show "sn_ctxDone n2" if "sn_ctxDone n" using grows_done [OF mid that] n2 by simp
next
  fix bs assume bs: "repr (sn_blocks n) bs" "length bs + Suc k < 2 ^ 63"
  note b = validate_accepts [OF bs(1) val]
  obtain x where x: "length x \<le> k" "repr (sn_blocks n1) (bs @ x)" "\<not> sn_ctxDone n1 \<Longrightarrow> justified (sf_handlers sf) E bs x"
    using growsD [OF mid bs(1)] bs(2) by auto
  have "length (bs @ x) + 1 < 2 ^ 63" using bs(2) x(1) by simp
  note any = commit_any [OF x(2) fits b(1) this commit [unfolded NodeSyncCommitBlock_def]]
  show "\<exists>ext. length ext \<le> Suc k \<and> repr (sn_blocks n2) (bs @ ext) \<and> (\<not> sn_ctxDone n2 \<longrightarrow> justified (sf_handlers sf) E bs ext)"
  proof (cases "x = []")
    case True
    then have "repr p (bs @ [b])" using any by auto
    then show ?thesis using n2 b(2) grows_done [OF mid] by (intro exI [of _ "[b]"]) auto
  next
    case False
    then have "(of_nat (length bs) + 1 :: 64 word) \<noteq> of_nat (length (bs @ x)) + 1"
      using height_eq [of "length bs" "length (bs @ x)"] bs(2) x(1) by simp
    then have "p = sn_blocks n1" using any by auto
    then show ?thesis using n2 x by (intro exI [of _ x]) auto
  qed
qed

lemma commit_validated_advances:
  assumes "\<And>p b. fits p b" "ValidateBlockForCommit ops (sf_handlers sf) (sn_ctxDone n) (sn_blocks n) b = Ok r"
    and "advances sf E a n es a n1 es1" "NodeSyncCommitBlock w ops (sn_service n1) (sn_blocks n1) b True = Ok (s, p)"
    and "sn_blocks n2 = p" "sn_ctxDone n2 = sn_ctxDone n1"
  shows "advances sf E (Suc a) n es a n2 es1"
proof -
  obtain k where k: "k + a + offered es1 \<le> a + offered es" "grows sf E k n n1" "elsewhere es1 \<subseteq> elsewhere es"
    using assms(3) unfolding advances_def by blast
  show ?thesis using k(1,3) by (intro advancesI [OF commit_validated_grows [OF assms(1,2) k(2) assms(4-6)]]) simp_all
qed

lemma advances_elsewhere: "advances sf E a n es b n' es' \<Longrightarrow> elsewhere es \<subseteq> E \<Longrightarrow> elsewhere es' \<subseteq> E"
  unfolding advances_def by blast

lemma advances_less: "advances sf E a n es a n' es' \<Longrightarrow> b \<le> a \<Longrightarrow> advances sf E a n es b n' es'"
  by (erule advances_trans) (simp add: advances_refl)

lemma advances_meter: "advances sf E a n es b n' es' \<Longrightarrow> advances sf E a n es b (meter f n') es'"
  by (erule advances_trans) (simp add: advances_refl)

lemma commitChunk_advances:
  assumes sf: "sf_storage sf = ops" and fits: "\<And>p b. fits p b" and at: "\<forall>b\<in>E. \<exists>h. block_at b h"
  shows "commitChunk sf blocks es n = Some (out, n', es') \<Longrightarrow> elsewhere es \<subseteq> E \<Longrightarrow>
    advances sf E (length blocks) n es 0 n' es' \<and> (\<forall>q. out = Some q \<longrightarrow> pendingOutcome q = 0)"
proof (induction blocks arbitrary: es n)
  case Nil
  then show ?case by (auto intro: advances_refl)
next
  case (Cons b blocks)
  let ?k = "length (b # blocks)"
  obtain ok n1 es1 where d: "drainAndCheckForShutdown sf es n = Some (ok, n1, es1)"
    using Cons.prems(1) by (auto split: option.splits)
  have a1: "advances sf E ?k n es ?k n1 es1" by (rule drain_advances [OF sf fits at d Cons.prems(2)])
  obtain n2 es2 where m: "meanwhile sf es1 n1 = (n2, es2)" by fastforce
  have a2: "advances sf E ?k n es ?k n2 es2"
    using advances_trans [OF a1 meanwhile_advances [OF sf fits at m advances_elsewhere [OF a1 Cons.prems(2)]]] .
  obtain n3 es3 where m3: "meanwhile sf es2 n2 = (n3, es3)" by fastforce
  have a3: "advances sf E (length blocks) n2 es2 (length blocks) n3 es3"
    using meanwhile_advances [OF sf fits at m3 advances_elsewhere [OF a2 Cons.prems(2)]] .
  have a3': "advances sf E ?k n2 es2 ?k n3 es3"
    using meanwhile_advances [OF sf fits at m3 advances_elsewhere [OF a2 Cons.prems(2)]] .
  have z2: "advances sf E (Suc (length blocks)) n es 0 n2 es2" and z3: "advances sf E (Suc (length blocks)) n es 0 n3 es3"
    using advances_less [OF a2, of 0] advances_less [OF advances_trans [OF a2 a3'], of 0] by simp_all
  note simps = d m m3 sf
  show ?case
  proof (cases ok)
    case False
    then show ?thesis using Cons.prems(1) simps advances_less [OF a1, of 0] by auto
  next
    case ok: True
    show ?thesis
    proof (cases "ValidateBlockForCommit ops (sf_handlers sf) (sn_ctxDone n2) (sn_blocks n2) b")
      case (Ok r)
      show ?thesis
      proof (cases "NodeSyncCommitBlock (sf_wire sf) ops (sn_service n3) (sn_blocks n3) b True")
        case commit: (Ok sp)
        obtain s p where sp: "sp = (s, p)" by (cases sp)
        let ?n4 = "meter (\<lambda>m. m\<lparr>committedBlocks := Suc (committedBlocks m)\<rparr>) (n3\<lparr>sn_service := s, sn_blocks := p\<rparr>)"
        have "advances sf E ?k n2 es2 (length blocks) ?n4 es3"
          using commit_validated_advances [OF fits Ok a3 commit [unfolded sp], of ?n4] by simp
        note a4 = advances_trans [OF a2 this]
        have "advances sf E (length blocks) ?n4 es3 0 n' es' \<and> (\<forall>q. out = Some q \<longrightarrow> pendingOutcome q = 0)"
          using Cons.prems(1) simps ok Ok commit sp by (intro Cons.IH advances_elsewhere [OF a4 Cons.prems(2)]) simp
        then show ?thesis using advances_trans [OF a4] by blast
      qed (use Cons.prems(1) simps ok Ok z3 in \<open>auto intro: advances_meter\<close>)
    qed (use Cons.prems(1) simps ok z2 in \<open>auto intro: advances_meter\<close>)
  qed
qed

lemma update_blocks [simp]:
  "sn_blocks (UpdateConsensusAlgosAboutLastCommittedBlockInLocalPersistence sf n) = sn_blocks n"
  "sn_ctxDone (UpdateConsensusAlgosAboutLastCommittedBlockInLocalPersistence sf n) = sn_ctxDone n"
  by (simp_all add: UpdateConsensusAlgosAboutLastCommittedBlockInLocalPersistence_def split: result.split)

lemma petition_blocks:
  "petitionerBroadcastBlockAvailabilityRequest sf n = Ok (sent, n') \<Longrightarrow> sn_blocks n' = sn_blocks n \<and> sn_ctxDone n' = sn_ctxDone n"
  "petitionerSendBlockSyncRequest sf a n = Ok (sent, n') \<Longrightarrow> sn_blocks n' = sn_blocks n \<and> sn_ctxDone n' = sn_ctxDone n"
  by (auto simp: petitionerBroadcastBlockAvailabilityRequest_def petitionerSendBlockSyncRequest_def sendPetition_def Let_def
      split: result.splits prod.splits if_splits)

lemma collecting_advances:
  assumes sf: "sf_storage sf = ops" and fits: "\<And>p b. fits p b" and at: "\<forall>b\<in>E. \<exists>h. block_at b h" and E: "elsewhere es \<subseteq> E"
    and run: "collecting_processState sf es n = Some (out, n', es')"
  shows "advances sf E 0 n es (pendingOutcome out) n' es'"
proof (cases "petitionerBroadcastBlockAvailabilityRequest sf (UpdateConsensusAlgosAboutLastCommittedBlockInLocalPersistence sf n)")
  case (Ok bn)
  obtain sent n1 where bn: "bn = (sent, n1)" by (cases bn)
  have same: "sn_blocks n1 = sn_blocks n" "sn_ctxDone n1 = sn_ctxDone n" using petition_blocks(1) [OF Ok [unfolded bn]] by auto
  let ?n2 = "meter (\<lambda>m. m\<lparr>timesSucceededSendingAvailabilityRequest := Suc (timesSucceededSendingAvailabilityRequest m)\<rparr>) n1"
  show ?thesis
  proof (cases sent)
    case True
    then have "collectResponses sf es [] ?n2 = Some (out, n', es')" using run Ok bn by (simp add: collecting_processState_def)
    from advances_same [OF collectResponses_advances [OF sf fits at this E], of n] show ?thesis using same by simp
  next
    case False
    then show ?thesis using run Ok bn same by (auto simp: collecting_processState_def intro: advances_refl)
  qed
qed (use run in \<open>auto simp: collecting_processState_def Let_def intro!: advances_refl\<close>)

lemma finishedCAR_advances:
  assumes sf: "sf_storage sf = ops" and fits: "\<And>p b. fits p b" and at: "\<forall>b\<in>E. \<exists>h. block_at b h" and E: "elsewhere es \<subseteq> E"
    and run: "finishedCAR_processState sf responses es n = Some (out, n', es')"
  shows "advances sf E 0 n es (pendingOutcome out) n' es'"
proof -
  let ?c = "length responses" and ?i = "sf_randIntn sf (sn_sent n) (length responses)"
  let ?n = "meter (\<lambda>m. m\<lparr>finishedWithSomeResponsesCount := Suc (finishedWithSomeResponsesCount m)\<rparr>) n"
  consider "?c = 0" | "?c \<noteq> 0" "\<not> ?i < ?c" | "?c \<noteq> 0" "?i < ?c" by blast
  then show ?thesis
  proof cases
    case 1
    then show ?thesis using run by (auto simp: finishedCAR_processState_def intro: advances_refl)
  next
    case 2
    then have "out = Panicked" "n' = ?n" "es' = es" using run by (simp_all add: finishedCAR_processState_def)
    then show ?thesis by (simp add: advances_refl)
  next
    case 3
    obtain ok n1 es1 where d: "drainAndCheckForShutdown sf es ?n = Some (ok, n1, es1)"
      using run 3 by (cases "drainAndCheckForShutdown sf es ?n") (auto simp: finishedCAR_processState_def)
    then have "n1 = n'" "es1 = es'" "pendingOutcome out = 0" using run 3 by (auto simp: finishedCAR_processState_def)
    then show ?thesis using advances_same [OF drain_advances [OF sf fits at d E, where a = 0], of n] by simp
  qed
qed

lemma waiting_advances:
  assumes sf: "sf_storage sf = ops" and fits: "\<And>p b. fits p b" and at: "\<forall>b\<in>E. \<exists>h. block_at b h" and E: "elsewhere es \<subseteq> E"
    and run: "waiting_processState sf source es n = Some (out, n', es')"
  shows "advances sf E 0 n es (pendingOutcome out) n' es'"
proof (cases "petitionerSendBlockSyncRequest sf source n")
  case (Ok bn)
  obtain sent n1 where bn: "bn = (sent, n1)" by (cases bn)
  have same: "sn_blocks n1 = sn_blocks n" "sn_ctxDone n1 = sn_ctxDone n" using petition_blocks(2) [OF Ok [unfolded bn]] by auto
  show ?thesis
  proof (cases sent)
    case True
    then have "waitForChunks sf source es n1 = Some (out, n', es')" using run Ok bn by (simp add: waiting_processState_def)
    from advances_same [OF waitForChunks_advances [OF sf fits at this E] same] show ?thesis .
  next
    case False
    then show ?thesis using run Ok bn same by (auto simp: waiting_processState_def intro: advances_refl)
  qed
qed (use run in \<open>auto simp: waiting_processState_def intro!: advances_refl\<close>)

lemma processing_advances:
  assumes sf: "sf_storage sf = ops" and fits: "\<And>p b. fits p b" and at: "\<forall>b\<in>E. \<exists>h. block_at b h" and E: "elsewhere es \<subseteq> E"
    and run: "processing_processState sf (Some (sender, batch, blocks)) es n = Some (out, n', es')"
  shows "advances sf E (length blocks) n es (pendingOutcome out) n' es'"
proof -
  obtain o1 n1 es1 where c: "commitChunk sf blocks es n = Some (o1, n1, es1)"
    using run by (cases "commitChunk sf blocks es n") (auto simp: processing_processState_def)
  note a1 = commitChunk_advances [OF sf fits at c E, THEN conjunct1] and leaves = commitChunk_advances [OF sf fits at c E, THEN conjunct2]
  show ?thesis
  proof (cases o1)
    case None
    then obtain ok n2 es2 where d: "drainAndCheckForShutdown sf es1 n1 = Some (ok, n2, es2)"
      using run c by (cases "drainAndCheckForShutdown sf es1 n1") (auto simp: processing_processState_def)
    then have "n2 = n'" "es2 = es'" "pendingOutcome out = 0" using run c None by (auto simp: processing_processState_def)
    then show ?thesis using advances_trans [OF a1 drain_advances [OF sf fits at d advances_elsewhere [OF a1 E]]] by simp
  next
    case (Some q)
    then have "pendingOutcome q = 0" using leaves by blast
    then show ?thesis using run c Some a1 by (simp add: processing_processState_def)
  qed
qed

lemma processState_advances:
  assumes sf: "sf_storage sf = ops" and fits: "\<And>p b. fits p b" and at: "\<forall>b\<in>E. \<exists>h. block_at b h" and E: "elsewhere es \<subseteq> E"
    and run: "processState sf st es n = Some (out, n', es')"
  shows "advances sf E (pendingBlocks st) n es (pendingOutcome out) n' es'"
proof (cases st)
  case (ProcessingBlocksState message)
  show ?thesis
  proof (cases message)
    case None
    then show ?thesis using run ProcessingBlocksState by (auto simp: processing_processState_def intro: advances_refl)
  next
    case (Some m)
    obtain sender batch blocks where "m = (sender, batch, blocks)" by (cases m)
    then show ?thesis using run ProcessingBlocksState Some processing_advances [OF assms(1-4)] by simp
  qed
next
  case IdleState
  then show ?thesis using run idle_advances [OF sf fits at _ E] by simp
next
  case CollectingAvailabilityResponsesState
  then show ?thesis using run collecting_advances [OF assms(1-4)] by simp
next
  case (FinishedCARState responses)
  then show ?thesis using run finishedCAR_advances [OF assms(1-4)] by simp
next
  case (WaitingForChunksState source)
  then show ?thesis using run waiting_advances [OF assms(1-4)] by simp
qed

lemma syncLoop_advances:
  assumes sf: "sf_storage sf = ops" and fits: "\<And>p b. fits p b" and at: "\<forall>b\<in>elsewhere es. \<exists>h. block_at b h"
  shows "syncLoop sf es n st es' n' \<Longrightarrow> advances sf (elsewhere es) 0 n es (pendingBlocks st) n' es'"
proof (induction rule: syncLoop.induct)
  case start
  then show ?case by (simp add: advances_refl)
next
  case (next_state st es1 n1 st' n2 es2)
  from advances_trans [OF next_state.IH processState_advances [OF sf fits at advances_elsewhere [OF next_state.IH subset_refl] next_state.hyps(2)]]
  show ?case by (simp add: advances_meter)
next
  case (restart st es1 n1 n2 es2)
  from advances_trans [OF restart.IH processState_advances [OF sf fits at advances_elsewhere [OF restart.IH subset_refl] restart.hyps(2)]]
  show ?case by simp
qed

lemma syncLoop_safe:
  assumes "sf_storage sf = ops" "\<And>p b. fits p b" "\<forall>b\<in>elsewhere es. \<exists>h. block_at b h"
    and "repr (sn_blocks n) bs" "length bs + offered es < 2 ^ 63" "syncLoop sf es n st es' n'"
  shows "\<exists>ext. repr (sn_blocks n') (bs @ ext) \<and> (\<not> sn_ctxDone n' \<longrightarrow> justified (sf_handlers sf) (elsewhere es) bs ext)"
proof -
  obtain k where k: "k + pendingBlocks st + offered es' \<le> 0 + offered es" "grows sf (elsewhere es) k n n'"
    using syncLoop_advances [OF assms(1-3,6)] unfolding advances_def by blast
  then have "length bs + k < 2 ^ 63" using assms(5) by simp
  from growsD [OF k(2) assms(4) this] obtain ext where "repr (sn_blocks n') (bs @ ext)"
    "\<not> sn_ctxDone n' \<Longrightarrow> justified (sf_handlers sf) (elsewhere es) bs ext" by blast
  then show ?thesis by (intro exI [of _ ext]) simp
qed

lemma validate_next_unless:
  assumes "repr p bs" "block_at b (of_nat (length bs) + 1)" "validateProtocolVersion_blocks b = Ok ()" "done \<or> accepted hs bs b"
  shows "ValidateBlockForCommit ops hs done p b = Ok ()"
proof -
  let ?last = "if bs = [] then None else Some (last bs)"
  have height: "getBlockHeight ?last = Ok (of_nat (length bs))"
    using last_committed [OF assms(1)] get_last [OF assms(1)] by (auto simp: GetLastCommittedBlockHeight_def)
  have "validateConsecutiveBlockHeight b ?last = Ok ()"
    unfolding validateConsecutiveBlockHeight_def height by (simp add: block_at_simps [OF assms(2)])
  moreover have "done \<or> filter (\<lambda>handler. handler VERIFY_AND_UPDATE ?last (Some b)) hs \<noteq> []"
    using assms(4) unfolding accepted_def filter_empty_conv by blast
  then have "notifyConsensusAlgos hs done ?last (Some b) VERIFY_AND_UPDATE = Ok ()"
    by (auto simp: notifyConsensusAlgos_def Let_def)
  ultimately show ?thesis using get_last [OF assms(1)] assms(3) by (simp add: ValidateBlockForCommit_def del: if_split)
qed

lemma commitChunk_commits:
  assumes sf: "sf_storage sf = ops" and fits: "\<And>p b. fits p b"
  shows "repr (sn_blocks n) bs \<Longrightarrow> \<not> sn_ctxDone n \<Longrightarrow> chain_at (bs @ chunk) \<Longrightarrow> \<forall>b\<in>set chunk. validateProtocolVersion_blocks b = Ok () \<Longrightarrow>
    justified (sf_handlers sf) {} bs chunk \<Longrightarrow>
    \<exists>n'. commitChunk sf chunk (replicate (length chunk) NothingReady @ NothingReady # es) n = Some (None, n', NothingReady # es) \<and>
      repr (sn_blocks n') (bs @ chunk) \<and> \<not> sn_ctxDone n' \<and> sn_sent n' = sn_sent n"
proof (induction chunk arbitrary: n bs)
  case (Cons b chunk)
  have at: "block_at b (of_nat (length bs) + 1)" and len: "length bs + 1 < 2 ^ 63"
    using Cons.prems(3) by (auto simp: chain_at_def nth_append dest: spec [of _ "length bs"])
  have val: "ValidateBlockForCommit ops (sf_handlers sf) False (sn_blocks n) b = Ok ()"
    using validate_next_unless [OF Cons.prems(1) at] Cons.prems(4,5) by simp
  obtain s p where c: "NodeSyncCommitBlock (sf_wire sf) ops (sn_service n) (sn_blocks n) b True = Ok (s, p)" "repr p (bs @ [b])"
    using commit_next [OF Cons.prems(1) fits at len, of "sf_wire sf" "sn_service n" False True] Cons.prems(4) by (auto simp: NodeSyncCommitBlock_def)
  let ?n = "meter (\<lambda>m. m\<lparr>committedBlocks := Suc (committedBlocks m)\<rparr>) (n\<lparr>sn_service := s, sn_blocks := p\<rparr>)"
  have quiet: "meanwhile sf (replicate k NothingReady @ NothingReady # es) n = (n, replicate k NothingReady @ NothingReady # es)" for k
    by (cases k) simp_all
  obtain n' where "commitChunk sf chunk (replicate (length chunk) NothingReady @ NothingReady # es) ?n = Some (None, n', NothingReady # es)"
      "repr (sn_blocks n') ((bs @ [b]) @ chunk)" "\<not> sn_ctxDone n'" "sn_sent n' = sn_sent ?n"
    using Cons.IH [of ?n "bs @ [b]"] c(2) Cons.prems by auto
  then show ?case using val c(1) sf quiet Cons.prems(2) by simp
qed simp

lemma collect_round:
  assumes sf: "sf_storage sf = ops" and n: "repr (sn_blocks n) bs" "length bs < 2 ^ 62"
    and batch: "0 < sf_numBlocksInBatch sf" and gossip: "\<And>ms m. sf_gossip sf ms m"
  shows "\<exists>n'. processState sf CollectingAvailabilityResponsesState (Receive (BlockAvailabilityResponse source r) # TimerFired # es) n =
      Some (NextState (FinishedCARState [(source, r)]), n', es) \<and> sn_blocks n' = sn_blocks n \<and> sn_ctxDone n' = sn_ctxDone n \<and>
      sn_sent n' = sn_sent n @ [BlockAvailabilityRequest (sf_nodeAddress sf) (nextBatchRange sf (of_nat (length bs)))]"
proof -
  let ?n = "UpdateConsensusAlgosAboutLastCommittedBlockInLocalPersistence sf n"
  have sent: "sn_sent ?n = sn_sent n" by (simp add: UpdateConsensusAlgosAboutLastCommittedBlockInLocalPersistence_def split: result.split)
  obtain ts where h: "GetLastCommittedBlockHeight ops (sn_blocks n) = Ok (of_nat (length bs), ts)" using last_committed [OF n(1)] by blast
  have "0 < unat (sf_numBlocksInBatch sf)" "unat (sf_numBlocksInBatch sf) < 2 ^ 32"
    using batch unsigned_less [of "sf_numBlocksInBatch sf"] by (simp_all add: word_less_nat_alt)
  then have "\<not> (of_nat (length bs + unat (sf_numBlocksInBatch sf)) :: 64 word) < of_nat (length bs + 1)"
    using height_less [of "length bs + unat (sf_numBlocksInBatch sf)" "length bs + 1"] n(2) by simp
  then have "\<not> (of_nat (length bs) + ucast (sf_numBlocksInBatch sf) :: 64 word) < of_nat (length bs) + 1" by (simp add: add.commute)
  then have "petitionerBroadcastBlockAvailabilityRequest sf ?n =
      Ok (True, ?n\<lparr>sn_sent := sn_sent n @ [BlockAvailabilityRequest (sf_nodeAddress sf) (nextBatchRange sf (of_nat (length bs)))]\<rparr>)"
    using h sf gossip sent by (simp add: petitionerBroadcastBlockAvailabilityRequest_def sendPetition_def nextBatchRange_def Let_def)
  then show ?thesis
    by (intro exI [of _ "meter (\<lambda>m. m\<lparr>timesSucceededSendingAvailabilityRequest := Suc (timesSucceededSendingAvailabilityRequest m)\<rparr>)
      (?n\<lparr>sn_sent := sn_sent n @ [BlockAvailabilityRequest (sf_nodeAddress sf) (nextBatchRange sf (of_nat (length bs)))]\<rparr>)"])
      (simp add: collecting_processState_def Let_def)
qed

lemma finished_round:
  assumes "\<not> sn_ctxDone n" "\<And>ms. sf_randIntn sf ms 1 < 1"
  shows "processState sf (FinishedCARState [(source, r)]) (NothingReady # es) n =
    Some (NextState (WaitingForChunksState source), meter (\<lambda>m. m\<lparr>finishedWithSomeResponsesCount := Suc (finishedWithSomeResponsesCount m)\<rparr>) n, es)"
  using assms(2) [of "sn_sent n"] assms(1) by (simp add: finishedCAR_processState_def)

lemma waiting_round:
  assumes "sf_storage sf = ops" "repr (sn_blocks n) bs" "\<And>ms m. sf_gossip sf ms m"
  shows "processState sf (WaitingForChunksState source) (Receive (BlockSyncResponse source batch chunk) # es) n =
    Some (NextState (ProcessingBlocksState (Some (source, batch, chunk))),
      meter (\<lambda>m. m\<lparr>timesSuccessful := Suc (timesSuccessful m)\<rparr>)
        (n\<lparr>sn_sent := sn_sent n @ [BlockSyncRequest source (sf_nodeAddress sf) (nextBatchRange sf (of_nat (length bs)))]\<rparr>), es)"
proof -
  obtain ts where "GetLastCommittedBlockHeight ops (sn_blocks n) = Ok (of_nat (length bs), ts)" using last_committed [OF assms(2)] by blast
  then show ?thesis using assms(1,3) by (simp add: waiting_processState_def petitionerSendBlockSyncRequest_def sendPetition_def)
qed

lemma processing_round:
  assumes "sf_storage sf = ops" "\<And>p b. fits p b" "repr (sn_blocks n) bs" "\<not> sn_ctxDone n"
    and "chain_at (bs @ chunk)" "\<forall>b\<in>set chunk. validateProtocolVersion_blocks b = Ok ()" "justified (sf_handlers sf) {} bs chunk"
  shows "\<exists>n'. processState sf (ProcessingBlocksState (Some (source, batch, chunk))) (replicate (length chunk) NothingReady @ NothingReady # es) n =
      Some (NextState CollectingAvailabilityResponsesState, n', es) \<and> repr (sn_blocks n') (bs @ chunk) \<and> \<not> sn_ctxDone n' \<and> sn_sent n' = sn_sent n"
proof -
  obtain n' where "commitChunk sf chunk (replicate (length chunk) NothingReady @ NothingReady # es) n = Some (None, n', NothingReady # es)"
      "repr (sn_blocks n') (bs @ chunk)" "\<not> sn_ctxDone n'" "sn_sent n' = sn_sent n"
    using commitChunk_commits [OF assms(1-7)] by blast
  then show ?thesis by (intro exI [of _ n']) (simp add: processing_processState_def)
qed

lemma sync_round:
  assumes sf: "sf_storage sf = ops" and fits: "\<And>p b. fits p b" and n: "repr (sn_blocks n) bs" "length bs < 2 ^ 62" "\<not> sn_ctxDone n"
    and env: "0 < sf_numBlocksInBatch sf" "\<And>ms m. sf_gossip sf ms m" "\<And>ms. sf_randIntn sf ms 1 < 1"
    and chunk: "chain_at (bs @ chunk)" "\<forall>b\<in>set chunk. validateProtocolVersion_blocks b = Ok ()" "justified (sf_handlers sf) {} bs chunk"
  shows "\<exists>n'. syncLoop sf (roundEvents source r batch chunk @ es) n CollectingAvailabilityResponsesState es n' \<and>
      repr (sn_blocks n') (bs @ chunk) \<and> \<not> sn_ctxDone n' \<and>
      sn_sent n' = sn_sent n @ [BlockAvailabilityRequest (sf_nodeAddress sf) (nextBatchRange sf (of_nat (length bs))),
        BlockSyncRequest source (sf_nodeAddress sf) (nextBatchRange sf (of_nat (length bs)))]"
proof -
  let ?es4 = "replicate (length chunk) NothingReady @ NothingReady # es" and ?all = "roundEvents source r batch chunk @ es"
  let ?es3 = "Receive (BlockSyncResponse source batch chunk) # ?es4" and ?st3 = "ProcessingBlocksState (Some (source, batch, chunk))"
  have all: "?all = Receive (BlockAvailabilityResponse source r) # TimerFired # NothingReady # ?es3" by (simp add: roundEvents_def)
  obtain n1 where n1: "processState sf CollectingAvailabilityResponsesState ?all n =
      Some (NextState (FinishedCARState [(source, r)]), n1, NothingReady # ?es3)" "sn_blocks n1 = sn_blocks n" "sn_ctxDone n1 = sn_ctxDone n"
      "sn_sent n1 = sn_sent n @ [BlockAvailabilityRequest (sf_nodeAddress sf) (nextBatchRange sf (of_nat (length bs)))]"
    using collect_round [OF sf n(1,2) env(1,2), of source r "NothingReady # ?es3"] unfolding all by blast
  note l1 = syncLoop.next_state [OF syncLoop.start n1(1)]
  note l2 = syncLoop.next_state [OF l1 finished_round [OF _ env(3)]]
  note l3 = syncLoop.next_state [OF l2 waiting_round [OF sf _ env(2), where bs = bs]]
  obtain n3 where n3: "syncLoop sf ?all n ?st3 ?es4 n3" "sn_blocks n3 = sn_blocks n" "\<not> sn_ctxDone n3"
      "sn_sent n3 = sn_sent n @ [BlockAvailabilityRequest (sf_nodeAddress sf) (nextBatchRange sf (of_nat (length bs))),
        BlockSyncRequest source (sf_nodeAddress sf) (nextBatchRange sf (of_nat (length bs)))]"
    by (rule that [OF l3]) (use n1 n in simp_all)
  have "repr (sn_blocks n3) bs" using n(1) n3(2) by simp
  from processing_round [OF sf fits this n3(3) chunk, of source batch es] obtain n4
    where n4: "processState sf ?st3 ?es4 n3 = Some (NextState CollectingAvailabilityResponsesState, n4, es)"
      "repr (sn_blocks n4) (bs @ chunk)" "\<not> sn_ctxDone n4" "sn_sent n4 = sn_sent n3" by blast
  from syncLoop.next_state [OF n3(1) n4(1)] show ?thesis using n4(2-4) n3(4)
    by (intro exI [of _ "meter (\<lambda>m. m\<lparr>statesTransitioned := Suc (statesTransitioned m)\<rparr>) n4"]) simp
qed

end

lemma chain_at_append: "chain_at (xs @ ys) \<Longrightarrow> chain_at xs"
  unfolding chain_at_def by (metis add_lessD1 length_append nth_append trans_less_add1)

subsection \<open>What an honest source answers\<close>

lemma sendChunks_progress:
  assumes "\<And>r c. send r c \<noteq> SendFailed" "\<And>r c. length c \<le> 1 \<Longrightarrow> send r c = Sent"
  shows "0 < n \<Longrightarrow> \<exists>r k. sendChunks send first0 committed blocks n = Ok (r, take k blocks) \<and> 0 < k"
proof (induction n rule: less_induct)
  case (less n)
  let ?r = "\<lparr>bsr_firstBlockHeight = first0, bsr_lastBlockHeight = first0 + of_nat n - 1, bsr_lastCommittedBlockHeight = committed\<rparr>"
  show ?case
  proof (cases "send ?r (take n blocks)")
    case Sent
    then show ?thesis using less.prems by (intro exI [of _ ?r] exI [of _ n]) (simp add: sendChunks.simps [of _ _ _ _ n] Let_def)
  next
    case ChunkTooBig
    then have "1 < length (take n blocks)" using assms(2) [of "take n blocks" ?r] by (cases "length (take n blocks) \<le> 1") auto
    then have "n div 2 < n" "0 < n div 2" by auto
    then show ?thesis using less.IH ChunkTooBig less.prems by (simp add: sendChunks.simps [of _ _ _ _ n] Let_def)
  qed (use assms(1) in auto)
qed

lemma honest_source:
  assumes q: "mem_ok q" "imb_blocks q = bs @ rest" "rest \<noteq> []" "length (bs @ rest) < 2 ^ 62"
    and batches: "0 < numBlocksInBatch" "0 < sf_numBlocksInBatch sf"
    and send: "\<And>r c. send r c \<noteq> SendFailed" "\<And>r c. length c \<le> 1 \<Longrightarrow> send r c = Sent"
  shows "\<exists>batch k. sourceHandleBlockSyncRequest numBlocksInBatch send w q (nextBatchRange sf (of_nat (length bs))) = Some (Ok (batch, take k rest)) \<and> 0 < k"
proof -
  let ?i = "length bs" and ?r = "nextBatchRange sf (of_nat (length bs))" and ?m = "unat (sf_numBlocksInBatch sf)"
  have first0: "bsr_firstBlockHeight ?r = of_nat ?i + 1" by (simp add: nextBatchRange_def)
  have len: "?i < length (imb_blocks q)" "length (imb_blocks q) < 2 ^ 62" using q by auto
  have some: "\<exists>batch k'. sendChunks send f c (take k rest) (length (take k rest)) = Ok (batch, take k' rest) \<and> 0 < k'" if k: "0 < k" for f c k
  proof -
    obtain r k' where "sendChunks send f c (take k rest) (length (take k rest)) = Ok (r, take k' (take k rest))" "0 < k'"
      using sendChunks_progress [where send = send and n = "length (take k rest)" and ?first0.0 = f and committed = c and blocks = "take k rest", OF send] k q(3) by auto
    then show ?thesis using k by (intro exI [of _ r] exI [of _ "min k' k"]) (simp add: min.commute)
  qed
  show ?thesis
  proof (cases "?i + 1 < length (imb_blocks q)")
    case True
    obtain batch k where "sendChunks send (of_nat ?i + 1) (of_nat (length (imb_blocks q))) (take (unat numBlocksInBatch) rest)
        (length (take (unat numBlocksInBatch) rest)) = Ok (batch, take k rest)" "0 < k"
      using some [OF batches(1) [unfolded word_less_nat_alt unsigned_0]] by blast
    then have "sourceHandleBlockSyncRequest numBlocksInBatch send w q ?r = Some (Ok (batch, take k rest))" "0 < k"
      unfolding sync_request_below_top [OF q(1) len(2) True batches(1) first0] Let_def by (simp_all add: q(2))
    then show ?thesis by blast
  next
    case False
    then have top: "?i + 1 = length (imb_blocks q)" using len(1) by simp
    have m: "0 < ?m" "?m < 2 ^ 32" using batches(2) unsigned_less [of "sf_numBlocksInBatch sf"] by (simp_all add: word_less_nat_alt)
    have last0: "bsr_lastBlockHeight ?r = of_nat (?i + ?m)" by (simp add: nextBatchRange_def)
    have "GetBlockSlice q (of_nat ?i + 1) (of_nat (?i + ?m)) = Some (Ok (take ?m rest, of_nat ?i + 1, of_nat (min (?i + ?m) (length (imb_blocks q)))))"
      using GetBlockSlice_eq [OF q(1) len(1), of "?i + ?m"] m len q(2) by (simp del: of_nat_add)
    then show ?thesis using sync_request_at_top [OF q(1) top first0, of numBlocksInBatch send w] some [OF m(1)] last0 by (simp del: of_nat_add)
  qed
qed

lemma source_available:
  assumes "mem_ok q" "imb_blocks q = bs @ rest" "rest \<noteq> []" "length (bs @ rest) < 2 ^ 62"
  shows "\<exists>r. sourceHandleBlockAvailabilityRequest (memPersistence w) q (nextBatchRange sf (of_nat (length bs))) = Ok (Some r)"
proof -
  obtain ts where "GetLastCommittedBlockHeight (memPersistence w) q = Ok (of_nat (length (bs @ rest)), ts)"
    using mem.last_committed [OF mem_repr [OF assms(1)]] assms(2) by metis
  moreover have "\<not> (of_nat (length (bs @ rest)) :: 64 word) \<le> of_nat (length bs)"
    using height_less [of "length bs" "length (bs @ rest)"] assms(3,4) by (simp del: of_nat_add add: not_le)
  ultimately show ?thesis by (simp add: sourceHandleBlockAvailabilityRequest_def nextBatchRange_def del: of_nat_add)
qed

subsection \<open>A concrete node\<close>

definition demo_factory :: "bool \<Rightarrow> InMemoryBlockPersistence stateFactory" where
  "demo_factory accepts = \<lparr>sf_wire = demo_wire, sf_storage = memPersistence demo_wire, sf_handlers = [\<lambda>_ _ _. accepts], sf_numBlocksInBatch = 10,
     sf_nodeAddress = [7], sf_gossip = (\<lambda>_ _. True), sf_randIntn = (\<lambda>_ _. 0)\<rparr>"

definition demo_range :: BlockSyncRange where
  "demo_range = \<lparr>bsr_firstBlockHeight = 1, bsr_lastBlockHeight = 1, bsr_lastCommittedBlockHeight = 1\<rparr>"

definition demo_node :: "BlockPairContainer list \<Rightarrow> InMemoryBlockPersistence SyncNode" where
  "demo_node bs = \<lparr>sn_service = \<lparr>bs_blockHeight = 0, bs_lastCommittedTime = 0, bs_notified = 0\<rparr>, sn_blocks = NewBlockPersistence bs,
     sn_ctxDone = False, sn_sent = [], sn_updates = [], sn_metrics = newStateMetrics\<rparr>"

lemma demo_node_ok: "chain_at bs \<Longrightarrow> mem_ok (sn_blocks (demo_node bs))" "imb_blocks (sn_blocks (demo_node bs)) = bs" "\<not> sn_ctxDone (demo_node bs)"
  using mem_ok_new [of bs] by (simp_all add: demo_node_def NewBlockPersistence_def)

subsection \<open>Properties\<close>

text \<open>
  C13. Whatever events the synchronisation meets, that is, messages with any content from anyone in any
  order, timeouts, blocks that other goroutines commit between any two of its calls, panics and restarts: the
  stored chain only grows at its end, by whole blocks of consecutive heights, and as long as the node is not
  shutting down every block added was accepted by a consensus algorithm as the successor of exactly the block
  that precedes it in the chain, or was committed by consensus elsewhere.
\<close>

theorem block_sync_only_extends_chain:
  assumes "sf_storage sf = memPersistence w" "mem_ok (sn_blocks n)" "length (imb_blocks (sn_blocks n)) + offered es < 2 ^ 63"
    and "\<forall>b\<in>elsewhere es. \<exists>h. block_at b h" "syncLoop sf es n st es' n'"
  shows "mem_ok (sn_blocks n') \<and> (\<exists>ext. imb_blocks (sn_blocks n') = imb_blocks (sn_blocks n) @ ext \<and>
    (\<not> sn_ctxDone n' \<longrightarrow> justified (sf_handlers sf) (elsewhere es) (imb_blocks (sn_blocks n)) ext))"
proof -
  obtain ext where "mem_repr (sn_blocks n') (imb_blocks (sn_blocks n) @ ext)"
      "\<not> sn_ctxDone n' \<longrightarrow> justified (sf_handlers sf) (elsewhere es) (imb_blocks (sn_blocks n)) ext"
    using mem.syncLoop_safe [OF assms(1) TrueI assms(4) mem_repr [OF assms(2)] assms(3,5)] by blast
  then show ?thesis by (auto simp: mem_repr_def)
qed

theorem block_sync_only_extends_chain_witness:
  "\<exists>n'. syncLoop (demo_factory True) (roundEvents [9] demo_range demo_range [demo_block 1]) (demo_node [])
      CollectingAvailabilityResponsesState [] n' \<and> mem_ok (sn_blocks n') \<and>
      (\<not> sn_ctxDone n' \<longrightarrow> justified [\<lambda>_ _ _. True] {} [] (imb_blocks (sn_blocks n')))"
proof -
  let ?es = "roundEvents [9] demo_range demo_range [demo_block 1]"
  have e: "chain_at []" "chain_at ([] @ [demo_block 1])" using demo_block_at [of 1] by (simp_all add: chain_at_def)
  have sf: "sf_storage (demo_factory True) = memPersistence demo_wire" "0 < sf_numBlocksInBatch (demo_factory True)"
    "sf_randIntn (demo_factory True) ms 1 < 1" "sf_gossip (demo_factory True) ms m" "sf_handlers (demo_factory True) = [\<lambda>_ _ _. True]"
    "justified (sf_handlers (demo_factory True)) {} [] [demo_block 1]" for ms m
    by (simp_all add: demo_factory_def accepted_def)
  have repr: "mem_repr (sn_blocks (demo_node [])) []" using demo_node_ok(1) [OF e(1)] by (simp add: mem_repr_def demo_node_ok(2))
  have es: "elsewhere ?es = {}" "offered ?es = 1" by (simp_all add: roundEvents_def)
  obtain n' where n': "syncLoop (demo_factory True) (?es @ []) (demo_node []) CollectingAvailabilityResponsesState [] n'"
    using mem.sync_round [OF sf(1) TrueI repr _ demo_node_ok(3) sf(2,4,3) e(2) _ sf(6), of "[9]" demo_range demo_range "[]"] by (auto simp: demo_block_version)
  then show ?thesis
    using block_sync_only_extends_chain [OF sf(1) demo_node_ok(1) [OF e(1)] _ _ n'] es by (intro exI [of _ n']) (simp add: demo_node_ok(2) sf(5))
qed

text \<open>
  C28. A round of synchronisation with a node that is ahead makes progress: the source answers the
  availability request, answers the request for blocks with a non-empty chunk of the blocks that are missing,
  and when these two answers arrive the node commits the whole chunk and starts the next round. The source may
  have to halve the chunk several times until it fits a message.
\<close>

theorem block_sync_round_makes_progress:
  assumes node: "sf_storage sf = memPersistence w" "mem_ok (sn_blocks n)" "\<not> sn_ctxDone n"
    and source: "mem_ok q" "imb_blocks q = imb_blocks (sn_blocks n) @ rest" "rest \<noteq> []" "length (imb_blocks q) < 2 ^ 62"
    and settings: "0 < numBlocksInBatch" "0 < sf_numBlocksInBatch sf" "\<And>ms. sf_randIntn sf ms 1 < 1"
    and sending: "\<And>ms m. sf_gossip sf ms m" "\<And>r c. send r c \<noteq> SendFailed" "\<And>r c. length c \<le> 1 \<Longrightarrow> send r c = Sent"
    and valid: "\<forall>b\<in>set rest. validateProtocolVersion_blocks b = Ok ()" "justified (sf_handlers sf) {} (imb_blocks (sn_blocks n)) rest"
  shows "\<exists>range batch k n'. let request = nextBatchRange sf (of_nat (length (imb_blocks (sn_blocks n)))) in
    sourceHandleBlockAvailabilityRequest (memPersistence w) q request = Ok (Some range) \<and>
    sourceHandleBlockSyncRequest numBlocksInBatch send w q request = Some (Ok (batch, take k rest)) \<and> 0 < k \<and>
    syncLoop sf (roundEvents address range batch (take k rest) @ es) n CollectingAvailabilityResponsesState es n' \<and>
    sn_sent n' = sn_sent n @ [BlockAvailabilityRequest (sf_nodeAddress sf) request, BlockSyncRequest address (sf_nodeAddress sf) request] \<and>
    mem_ok (sn_blocks n') \<and> imb_blocks (sn_blocks n') = imb_blocks (sn_blocks n) @ take k rest"
proof -
  let ?bs = "imb_blocks (sn_blocks n)"
  let ?request = "nextBatchRange sf (of_nat (length ?bs))"
  have len: "length (?bs @ rest) < 2 ^ 62" using source(2,4) by simp
  obtain range where range: "sourceHandleBlockAvailabilityRequest (memPersistence w) q ?request = Ok (Some range)"
    using source_available [OF source(1-3) len] by blast
  obtain batch k where k: "sourceHandleBlockSyncRequest numBlocksInBatch send w q ?request = Some (Ok (batch, take k rest))" "0 < k"
    using honest_source [where send = send, OF source(1-3) len settings(1,2) sending(2,3)] by blast
  have "chain_at ((?bs @ take k rest) @ drop k rest)" using source(1,2) by (simp add: mem_ok_def)
  then have chain: "chain_at (?bs @ take k rest)" by (rule chain_at_append)
  have just: "justified (sf_handlers sf) {} ?bs (take k rest)"
    using valid(2) justified_append [of "sf_handlers sf" "{}" ?bs "take k rest" "drop k rest"] by simp
  have ver: "\<forall>b\<in>set (take k rest). validateProtocolVersion_blocks b = Ok ()" using valid(1) by (auto dest: in_set_takeD)
  have "length ?bs < 2 ^ 62" using len by simp
  from mem.sync_round [where sf = sf and n = n and bs = ?bs, OF node(1) TrueI mem_repr [OF node(2)] this node(3) settings(2) sending(1) settings(3) chain ver just,
      of address range batch es]
  obtain n' where "syncLoop sf (roundEvents address range batch (take k rest) @ es) n CollectingAvailabilityResponsesState es n'"
      "mem_repr (sn_blocks n') (?bs @ take k rest)"
      "sn_sent n' = sn_sent n @ [BlockAvailabilityRequest (sf_nodeAddress sf) ?request, BlockSyncRequest address (sf_nodeAddress sf) ?request]"
    by blast
  then show ?thesis using range k unfolding Let_def mem_repr_def by blast
qed

definition demo_send :: "BlockSyncRange \<Rightarrow> BlockPairContainer list \<Rightarrow> sendResult" where
  "demo_send r c = (if 1 < length c then ChunkTooBig else Sent)"

theorem block_sync_round_makes_progress_witness:
  "\<exists>range batch k n'. syncLoop (demo_factory True) (roundEvents [9] range batch (take k [demo_block 1, demo_block 2])) (demo_node [])
      CollectingAvailabilityResponsesState [] n' \<and> 0 < k \<and> imb_blocks (sn_blocks n') = take k [demo_block 1, demo_block 2]"
proof -
  have e: "chain_at []" by (simp add: chain_at_def)
  have send: "demo_send r c \<noteq> SendFailed" "length c \<le> 1 \<Longrightarrow> demo_send r c = Sent" for r c by (simp_all add: demo_send_def)
  have sf: "sf_storage (demo_factory True) = memPersistence demo_wire" "0 < sf_numBlocksInBatch (demo_factory True)"
    "sf_randIntn (demo_factory True) ms 1 < 1" "sf_gossip (demo_factory True) ms m"
    "justified (sf_handlers (demo_factory True)) {} (imb_blocks (sn_blocks (demo_node []))) [demo_block 1, demo_block 2]" for ms m
    by (simp_all add: demo_factory_def accepted_def)
  have q: "imb_blocks demo_store = imb_blocks (sn_blocks (demo_node [])) @ [demo_block 1, demo_block 2]" "length (imb_blocks demo_store) < 2 ^ 62"
    by (simp_all add: demo_store_ok demo_node_ok(2))
  show ?thesis
    using block_sync_round_makes_progress [where send = demo_send and numBlocksInBatch = 5 and address = "[9]" and es = "[]", OF sf(1) demo_node_ok(1) [OF e] demo_node_ok(3)
        demo_store_ok(1) q(1) _ q(2) _ sf(2,3,4) send _ sf(5)]
    by (simp add: demo_block_version demo_node_ok(2) Let_def) blast
qed

text \<open>
  When the shutdown begins after the check for it and before a block is validated, the refusal of every
  algorithm is not reported, and the block is committed all the same.
\<close>

lemma shutdown_commits_refused_block:
  assumes "sf_storage sf = memPersistence w" "mem_ok (sn_blocks n)" "\<not> sn_ctxDone n" "length (imb_blocks (sn_blocks n)) + 1 < 2 ^ 63"
    and "block_at b (of_nat (length (imb_blocks (sn_blocks n))) + 1)" "validateProtocolVersion_blocks b = Ok ()"
  shows "\<exists>n'. commitChunk sf [b] [NothingReady, CtxDone] n = Some (None, n', []) \<and>
    imb_blocks (sn_blocks n') = imb_blocks (sn_blocks n) @ [b]"
proof -
  let ?n = "n\<lparr>sn_ctxDone := True\<rparr>"
  have val: "ValidateBlockForCommit (memPersistence w) (sf_handlers sf) True (sn_blocks n) b = Ok ()"
    by (rule mem.validate_next_unless [OF mem_repr [OF assms(2)] assms(5,6)]) simp
  obtain s p where c: "NodeSyncCommitBlock (sf_wire sf) (memPersistence w) (sn_service n) (sn_blocks n) b True = Ok (s, p)"
      "mem_repr p (imb_blocks (sn_blocks n) @ [b])"
    using mem.commit_next [OF mem_repr [OF assms(2)] TrueI assms(5,4,6), of "sf_wire sf" w "sn_service n" False True] by (auto simp: NodeSyncCommitBlock_def)
  show ?thesis
    by (intro exI [of _ "meter (\<lambda>m. m\<lparr>committedBlocks := Suc (committedBlocks m)\<rparr>) (?n\<lparr>sn_service := s, sn_blocks := p\<rparr>)"])
      (use assms(1,3) val c in \<open>simp add: mem_repr_def\<close>)
qed

end
