(* ===== verification/Benchmark_Consensus.thy ===== *)
theory Benchmark_Consensus
  imports Consensus_Context Block_Storage_Correct
begin

text \<open>
  Benchmark consensus, \<open>services/consensusalgo/benchmarkconsensus\<close>: a constant leader proposes blocks and
  moves on when a quorum of validators has confirmed the last one. Handlers run in goroutines of their own;
  they read the last committed block under the mutex, work without it, and take the mutex again to update.
  An operation therefore has two states: \<open>s0\<close>, in which it reads, and \<open>s\<close>, in which it updates. A block pair is
  compared by its contents where the code compares pointers. A nil proof is the empty list of bytes.
\<close>

subsection \<open>Messages, configuration and state\<close>

datatype bcError =
    ErrEmptyBlock | ErrTxProofType | ErrRxProofType | ErrPrevTxHash | ErrPrevRxHash
  | ErrNotSigned | ErrNotLeader | ErrProofSignature digestError
  | ErrBlockType
  | ErrVoteHeight | ErrVoteSigner | ErrVoteSignature digestError | ErrInconsistent
  | ErrStorage storageErr | ErrContext ccError | ErrSign | ErrBroadcast
  | ErrHeightsDiffer | ErrFutureHeight | ErrPartialBlock | ErrNoSigner | ErrSendCommitted

text \<open>Building and reading the proofs and messages of the generated code.\<close>

record BCWire =
  bw_txProof :: bytes
  bw_rxProof :: "Sha256 \<Rightarrow> bytes \<Rightarrow> (NodeAddress \<times> bytes) list \<Rightarrow> bytes"
  bw_isBenchmarkTx :: "bytes \<Rightarrow> bool"
  bw_isBenchmarkRx :: "bytes \<Rightarrow> bool"
  bw_nodes :: "bytes \<Rightarrow> (NodeAddress \<times> bytes) list"
  bw_blockRef :: "BlockHeight \<Rightarrow> Sha256 \<Rightarrow> bytes"
  bw_status :: "BlockHeight \<Rightarrow> bytes"

record BCConfig =
  bcc_nodeAddress :: NodeAddress
  bcc_genesisValidatorNodes :: "NodeAddress list"
  bcc_constantLeader :: NodeAddress
  bcc_requiredQuorumPercentage :: "32 word"

record committedMessage =
  cm_recipient :: NodeAddress
  cm_height :: BlockHeight
  cm_sender :: NodeAddress
  cm_signature :: bytes

record 'p BCParams =
  bca_sha :: hasher
  bca_keccak :: hasher
  bca_recover :: "bytes \<Rightarrow> bytes \<Rightarrow> bytes option"
  bca_wire :: Wire
  bca_messages :: BCWire
  bca_config :: BCConfig
  bca_sign :: "bytes \<Rightarrow> bytes option"
  bca_storage :: "'p BlockPersistence"
  bca_requestNewTransactionsBlock :: "NewTransactionsBlockInput \<Rightarrow> (ccError, TransactionsBlockContainer) result"
  bca_requestNewResultsBlock :: "NewResultsBlockInput \<Rightarrow> (ccError, ResultsBlockContainer) result"
  bca_gossip :: "BlockPairContainer \<Rightarrow> bool"
  bca_sendCommitted :: "committedMessage \<Rightarrow> bool"

text \<open>
  Where the leader's loop stands: at its start, before a tick, between saving a proposal and remembering it, before the
  broadcast, waiting for votes or the timeout, or blocked in sending a height to itself. When the genesis block cannot
  be signed the loop panics between \<open>Lock\<close> and \<open>Unlock\<close>, and the mutex stays locked for ever.
\<close>

datatype leaderLoop =
    NotRunning
  | LoopStart
  | TickStart
  | TickUpdate BlockPairContainer "BlockPairContainer option"
  | TickBroadcast "BlockPairContainer option" BlockHeight
  | Waiting
  | BlockedOnOwnChannel BlockHeight
  | PanickedHoldingMutex

text \<open>\<open>bc_voted\<close> are the handlers that wait to hand a height over the channel \<open>successfullyVotedBlocks\<close>.\<close>

record 'p BCService =
  bc_lastCommittedBlock :: "BlockPairContainer option"
  bc_lastSuccessfullyVotedBlock :: BlockHeight
  bc_voters :: "NodeAddress list"
  bc_reachedQuorum :: bool
  bc_voted :: "BlockHeight list"
  bc_loop :: leaderLoop
  bc_service :: BlockStorage
  bc_blocks :: 'p
  bc_broadcasts :: "BlockPairContainer list"
  bc_replies :: "committedMessage list"

definition blockHeightNone :: BlockHeight where
  "blockHeightNone = - 1"

definition isLeader :: "BCConfig \<Rightarrow> bool" where
  "isLeader cfg = (bcc_constantLeader cfg = bcc_nodeAddress cfg)"

text \<open>
  A new service knows no block. The storage tells it the last one, if there is one, by calling the registered handler.
\<close>

definition NewBenchmarkConsensusAlgo :: "bool \<Rightarrow> BCConfig \<Rightarrow> BlockStorage \<Rightarrow> 'p \<Rightarrow> 'p BCService" where
  "NewBenchmarkConsensusAlgo activeAlgo cfg bs p =
     \<lparr>bc_lastCommittedBlock = None, bc_lastSuccessfullyVotedBlock = blockHeightNone, bc_voters = [], bc_reachedQuorum = False,
      bc_voted = [], bc_loop = (if activeAlgo \<and> isLeader cfg then LoopStart else NotRunning), bc_service = bs, bc_blocks = p,
      bc_broadcasts = [], bc_replies = []\<rparr>"

subsection \<open>Common\<close>

definition getLastCommittedBlock :: "'p BCService \<Rightarrow> (bcError, BlockHeight \<times> BlockPairContainer option) result" where
  "getLastCommittedBlock s =
     (case bc_lastCommittedBlock s of
        None \<Rightarrow> Ok (0, None)
      | Some b \<Rightarrow> bind_result (bp_tx b) (\<lambda>(_, th). Ok (tbh_blockHeight th, Some b)))"

definition setLastCommittedBlockIfPreviousBlockMatches ::
  "BlockPairContainer \<Rightarrow> BlockPairContainer option \<Rightarrow> 'p BCService \<Rightarrow> 'p BCService \<times> bool" where
  "setLastCommittedBlockIfPreviousBlockMatches blockPair expectedLastCommittedBlockBefore s =
     (if bc_lastCommittedBlock s \<noteq> expectedLastCommittedBlockBefore then (s, False)
      else (s\<lparr>bc_lastCommittedBlock := Some blockPair, bc_voters := [], bc_reachedQuorum := False\<rparr>, True))"

text \<open>The quotient is computed in floating point; its ceiling is that of the exact quotient while that is below \<open>2^46\<close>.\<close>

definition requiredQuorumSize :: "BCConfig \<Rightarrow> nat" where
  "requiredQuorumSize cfg =
     (let networkSize = length (bcc_genesisValidatorNodes cfg) in (networkSize * unat (bcc_requiredQuorumPercentage cfg) + 99) div 100)"

definition saveToBlockStorage :: "'p BCParams \<Rightarrow> BlockPairContainer \<Rightarrow> 'p BCService \<Rightarrow> (bcError, 'p BCService) result" where
  "saveToBlockStorage P blockPair s =
     bind_result (bp_tx blockPair) (\<lambda>(_, th).
       if tbh_blockHeight th = 0 then Ok s
       else case CommitBlock (bca_wire P) (bca_storage P) (bc_service s) (bc_blocks s) blockPair True of
           Ok (bs, p) \<Rightarrow> Ok (s\<lparr>bc_service := bs, bc_blocks := p\<rparr>)
         | Err e \<Rightarrow> Err (ErrStorage e)
         | Panic \<Rightarrow> Panic)"

definition signedDataForBlockProof :: "'p BCParams \<Rightarrow> BlockPairContainer \<Rightarrow> (bcError, bytes) result" where
  "signedDataForBlockProof P blockPair =
     bind_result (bp_tx blockPair) (\<lambda>(_, th).
       Ok (bw_blockRef (bca_messages P) (tbh_blockHeight th)
             (CalcBlockHash (bca_sha P) (bca_wire P) (bp_transactionsBlock blockPair) (bp_resultsBlock blockPair))))"

definition verify :: "'p BCParams \<Rightarrow> NodeAddress \<Rightarrow> bytes \<Rightarrow> bytes \<Rightarrow> (digestError, unit) result" where
  "verify P = VerifyNodeSignature (bca_sha P) (bca_keccak P) (bca_recover P)"

definition validatePrevHashPtrs ::
  "'p BCParams \<Rightarrow> TransactionsBlockContainer \<Rightarrow> ResultsBlockContainer \<Rightarrow> BlockPairContainer option \<Rightarrow> (bcError, unit) result" where
  "validatePrevHashPtrs P tb rb prevCommittedBlockPair =
     (case prevCommittedBlockPair of
        None \<Rightarrow> Ok ()
      | Some prev \<Rightarrow>
          bind_result (tx_header (Some tb)) (\<lambda>(_, th).
            if tbh_prevBlockHashPtr th \<noteq> CalcTransactionsBlockHash (bca_sha P) (bca_wire P) (bp_transactionsBlock prev)
            then bind_result (bp_tx prev) (\<lambda>_. Err ErrPrevTxHash)
            else bind_result (rx_header (Some rb)) (\<lambda>(_, rh).
              if rbh_prevBlockHashPtr rh \<noteq> CalcResultsBlockHash (bca_sha P) (bca_wire P) (bp_resultsBlock prev)
              then bind_result (bp_rs prev) (\<lambda>_. Err ErrPrevRxHash)
              else Ok ())))"

definition validateBlockConsensus ::
  "'p BCParams \<Rightarrow> BlockPairContainer option \<Rightarrow> BlockPairContainer option \<Rightarrow> (bcError, unit) result" where
  "validateBlockConsensus P block prevCommittedBlockPair =
     (case block of
        None \<Rightarrow> Err ErrEmptyBlock
      | Some blockPair \<Rightarrow>
          (case (bp_transactionsBlock blockPair, bp_resultsBlock blockPair) of
             (Some tb, rb) \<Rightarrow>
               if tbc_blockProof tb = [] then Panic
               else if \<not> bw_isBenchmarkTx (bca_messages P) (tbc_blockProof tb)
               then bind_result (bp_tx blockPair) (\<lambda>_. Err ErrTxProofType)
               else (case rb of
                       None \<Rightarrow> Panic
                     | Some rb \<Rightarrow>
                         if rbc_blockProof rb = [] then Panic
                         else if \<not> bw_isBenchmarkRx (bca_messages P) (rbc_blockProof rb)
                         then bind_result (bp_rs blockPair) (\<lambda>_. Err ErrRxProofType)
                         else bind_result (validatePrevHashPtrs P tb rb prevCommittedBlockPair) (\<lambda>_.
                           case bw_nodes (bca_messages P) (rbc_blockProof rb) of
                             [] \<Rightarrow> Err ErrNotSigned
                           | (signer, sig) # _ \<Rightarrow>
                               if signer \<noteq> bcc_constantLeader (bca_config P) then Err ErrNotLeader
                               else bind_result (signedDataForBlockProof P blockPair) (\<lambda>signedData.
                                 case verify P signer signedData sig of
                                   Ok _ \<Rightarrow> Ok ()
                                 | Err e \<Rightarrow> Err (ErrProofSignature e)
                                 | Panic \<Rightarrow> Panic)))
           | _ \<Rightarrow> Panic))"

definition handleBlockConsensusFromHandler ::
  "'p BCParams \<Rightarrow> 'p BCService \<Rightarrow> consensusMode \<Rightarrow> bool \<Rightarrow> BlockPairContainer option \<Rightarrow> BlockPairContainer option \<Rightarrow> 'p BCService
     \<Rightarrow> 'p BCService \<times> (bcError, unit) result" where
  "handleBlockConsensusFromHandler P s0 mode blockTypeIsBlockPair blockPair prevCommittedBlockPair s =
     (if \<not> blockTypeIsBlockPair then (s, Err ErrBlockType)
      else case (if mode = VERIFY_AND_UPDATE \<or> mode = VERIFY_ONLY then validateBlockConsensus P blockPair prevCommittedBlockPair else Ok ()) of
          Ok _ \<Rightarrow>
            if mode = VERIFY_AND_UPDATE \<or> mode = UPDATE_ONLY
            then (case getLastCommittedBlock s0 of
                    Ok (lastCommittedBlockHeight, lastCommittedBlock) \<Rightarrow>
                      (case blockPair of
                         None \<Rightarrow> (s, Ok ())
                       | Some b \<Rightarrow>
                           (case bp_tx b :: (bcError, _) result of
                              Ok (_, th) \<Rightarrow>
                                if tbh_blockHeight th > lastCommittedBlockHeight
                                then (fst (setLastCommittedBlockIfPreviousBlockMatches b lastCommittedBlock s), Ok ())
                                else (s, Ok ())
                            | Err e \<Rightarrow> (s, Err e)
                            | Panic \<Rightarrow> (s, Panic)))
                  | Err e \<Rightarrow> (s, Err e)
                  | Panic \<Rightarrow> (s, Panic))
            else (s, Ok ())
        | r \<Rightarrow> (s, r))"

subsection \<open>The leader\<close>

definition leaderSignBlockProposal ::
  "'p BCParams \<Rightarrow> TransactionsBlockContainer \<Rightarrow> ResultsBlockContainer \<Rightarrow> (bcError, BlockPairContainer) result" where
  "leaderSignBlockProposal P transactionsBlock resultsBlock =
     bind_result (signedDataForBlockProof P \<lparr>bp_transactionsBlock = Some transactionsBlock, bp_resultsBlock = Some resultsBlock\<rparr>) (\<lambda>signedData.
       case bca_sign P signedData of
         None \<Rightarrow> Err ErrSign
       | Some sig \<Rightarrow>
           let tb = transactionsBlock\<lparr>tbc_blockProof := bw_txProof (bca_messages P)\<rparr>;
               rb = resultsBlock\<lparr>rbc_blockProof := bw_rxProof (bca_messages P) (CalcTransactionsBlockHash (bca_sha P) (bca_wire P) (Some tb))
                      signedData [(bcc_nodeAddress (bca_config P), sig)]\<rparr>
           in Ok \<lparr>bp_transactionsBlock = Some tb, bp_resultsBlock = Some rb\<rparr>)"

definition leaderGenerateGenesisBlock :: "'p BCParams \<Rightarrow> (bcError, BlockPairContainer) result" where
  "leaderGenerateGenesisBlock P =
     (let leader = bcc_constantLeader (bca_config P) in
      case leaderSignBlockProposal P
             \<lparr>tbc_header = Some \<lparr>tbh_protocolVersion = 0, tbh_virtualChainId = 0, tbh_blockHeight = 0, tbh_prevBlockHashPtr = [], tbh_timestamp = 0,
                tbh_transactionsMerkleRootHash = [], tbh_metadataHash = [], tbh_numSignedTransactions = 0, tbh_blockProposerAddress = leader\<rparr>,
              tbc_metadata = [], tbc_signedTransactions = [], tbc_blockProof = []\<rparr>
             \<lparr>rbc_header = Some \<lparr>rbh_protocolVersion = 0, rbh_virtualChainId = 0, rbh_blockHeight = 0, rbh_prevBlockHashPtr = [], rbh_timestamp = 0,
                rbh_receiptsMerkleRootHash = [], rbh_stateDiffHash = [], rbh_transactionsBlockHashPtr = [], rbh_preExecutionStateMerkleRootHash = [],
                rbh_numTransactionReceipts = 0, rbh_numContractStateDiffs = 0, rbh_blockProposerAddress = leader\<rparr>,
              rbc_transactionReceipts = [], rbc_contractStateDiffs = [], rbc_blockProof = []\<rparr> of
        Ok b \<Rightarrow> Ok b
      | _ \<Rightarrow> Panic)"

definition leaderGenerateNewProposedBlock ::
  "'p BCParams \<Rightarrow> BlockHeight \<Rightarrow> BlockPairContainer option \<Rightarrow> (bcError, BlockPairContainer) result" where
  "leaderGenerateNewProposedBlock P lastCommittedBlockHeight lastCommittedBlock =
     (case lastCommittedBlock of
        None \<Rightarrow> Panic
      | Some c \<Rightarrow>
          bind_result (bp_tx c) (\<lambda>(_, cth).
          case bca_requestNewTransactionsBlock P
                 \<lparr>nti_currentBlockHeight = lastCommittedBlockHeight + 1,
                  nti_prevBlockHash = CalcTransactionsBlockHash (bca_sha P) (bca_wire P) (bp_transactionsBlock c),
                  nti_prevBlockTimestamp = tbh_timestamp cth, nti_blockProposerAddress = bcc_constantLeader (bca_config P)\<rparr> of
            Ok tb \<Rightarrow>
              bind_result (bp_rs c) (\<lambda>_.
              case bca_requestNewResultsBlock P
                     \<lparr>nri_currentBlockHeight = lastCommittedBlockHeight + 1,
                      nri_prevBlockHash = CalcResultsBlockHash (bca_sha P) (bca_wire P) (bp_resultsBlock c),
                      nri_transactionsBlock = Some tb, nri_blockProposerAddress = bcc_constantLeader (bca_config P)\<rparr> of
                Ok rb \<Rightarrow> leaderSignBlockProposal P tb rb
              | Err e \<Rightarrow> Err (ErrContext e)
              | Panic \<Rightarrow> Panic)
          | Err e \<Rightarrow> Err (ErrContext e)
          | Panic \<Rightarrow> Panic))"

definition leaderBroadcastCommittedBlock :: "'p BCParams \<Rightarrow> BlockPairContainer option \<Rightarrow> 'p BCService \<Rightarrow> 'p BCService \<times> (bcError, unit) result" where
  "leaderBroadcastCommittedBlock P block s =
     (case block of
        None \<Rightarrow> (s, Panic)
      | Some blockPair \<Rightarrow>
          (case (bp_tx blockPair :: (bcError, _) result) of
             Ok (tb, _) \<Rightarrow>
               if tbc_blockProof tb = [] then (s, Err ErrPartialBlock)
               else (case bp_resultsBlock blockPair of
                       None \<Rightarrow> (s, Panic)
                     | Some rb \<Rightarrow>
                         if rbc_blockProof rb = [] then (s, Err ErrPartialBlock)
                         else if bca_gossip P blockPair then (s\<lparr>bc_broadcasts := bc_broadcasts s @ [blockPair]\<rparr>, Ok ())
                         else (s, Err ErrBroadcast))
           | _ \<Rightarrow> (s, Panic)))"

text \<open>
  The parts of one tick. An error or a panic ends the tick; after an error the loop waits, and the supervisor
  starts it again after a panic.
\<close>

definition endTick :: "'p BCService \<Rightarrow> (bcError, unit) result \<Rightarrow> 'p BCService" where
  "endTick s r = (case r of Panic \<Rightarrow> s\<lparr>bc_loop := LoopStart\<rparr> | _ \<Rightarrow> s\<lparr>bc_loop := Waiting\<rparr>)"

definition tickPropose :: "'p BCParams \<Rightarrow> 'p BCService \<Rightarrow> 'p BCService \<Rightarrow> 'p BCService" where
  "tickPropose P s0 s =
     (case getLastCommittedBlock s0 of
        Ok (lastCommittedBlockHeight, lastCommittedBlock) \<Rightarrow>
          if bc_lastSuccessfullyVotedBlock s = lastCommittedBlockHeight
          then (case leaderGenerateNewProposedBlock P lastCommittedBlockHeight lastCommittedBlock of
                  Ok proposedBlock \<Rightarrow>
                    (case saveToBlockStorage P proposedBlock s of
                       Ok s \<Rightarrow> s\<lparr>bc_loop := TickUpdate proposedBlock lastCommittedBlock\<rparr>
                     | Err e \<Rightarrow> endTick s (Err e)
                     | Panic \<Rightarrow> endTick s Panic)
                | Err e \<Rightarrow> endTick s (Err e)
                | Panic \<Rightarrow> endTick s Panic)
          else s\<lparr>bc_loop := TickBroadcast lastCommittedBlock lastCommittedBlockHeight\<rparr>
      | _ \<Rightarrow> endTick s Panic)"

definition tickUpdate :: "BlockPairContainer \<Rightarrow> BlockPairContainer option \<Rightarrow> 'p BCService \<Rightarrow> 'p BCService" where
  "tickUpdate proposedBlock lastCommittedBlock s =
     (let (s, updated) = setLastCommittedBlockIfPreviousBlockMatches proposedBlock lastCommittedBlock s in
      if \<not> updated then endTick s (Ok ())
      else case (bp_tx proposedBlock :: (bcError, _) result) of
          Ok (_, th) \<Rightarrow> s\<lparr>bc_loop := TickBroadcast (Some proposedBlock) (tbh_blockHeight th)\<rparr>
        | _ \<Rightarrow> endTick s Panic)"

text \<open>In a network of one node the loop sends on the channel from which only the loop itself receives.\<close>

definition tickBroadcast :: "'p BCParams \<Rightarrow> BlockPairContainer option \<Rightarrow> BlockHeight \<Rightarrow> 'p BCService \<Rightarrow> 'p BCService" where
  "tickBroadcast P lastCommittedBlock lastCommittedBlockHeight s =
     (let (s, r) = leaderBroadcastCommittedBlock P lastCommittedBlock s in
      case r of
        Ok _ \<Rightarrow> if length (bcc_genesisValidatorNodes (bca_config P)) = 1 then s\<lparr>bc_loop := BlockedOnOwnChannel lastCommittedBlockHeight\<rparr>
                 else endTick s r
      | _ \<Rightarrow> endTick s r)"

text \<open>The genesis block is set whatever the last block has become since it was found missing.\<close>

definition setGenesisBlock :: "'p BCParams \<Rightarrow> 'p BCService \<Rightarrow> 'p BCService" where
  "setGenesisBlock P s =
     (case leaderGenerateGenesisBlock P of
        Ok b \<Rightarrow> s\<lparr>bc_lastCommittedBlock := Some b, bc_loop := TickStart\<rparr>
      | _ \<Rightarrow> s\<lparr>bc_loop := PanickedHoldingMutex\<rparr>)"

text \<open>One tick that is not interrupted.\<close>

definition leaderConsensusRoundTick :: "'p BCParams \<Rightarrow> 'p BCService \<Rightarrow> 'p BCService" where
  "leaderConsensusRoundTick P s =
     (let s = tickPropose P s s;
          s = (case bc_loop s of TickUpdate b c \<Rightarrow> tickUpdate b c s | _ \<Rightarrow> s)
      in case bc_loop s of TickBroadcast b h \<Rightarrow> tickBroadcast P b h s | _ \<Rightarrow> s)"

definition leaderValidateVote ::
  "'p BCParams \<Rightarrow> NodeAddress \<Rightarrow> bytes \<Rightarrow> BlockHeight \<Rightarrow> BlockHeight \<Rightarrow> (bcError, unit) result" where
  "leaderValidateVote P sender sig statusHeight lastCommittedBlockHeight =
     (if statusHeight \<noteq> lastCommittedBlockHeight then Err ErrVoteHeight
      else if sender \<notin> set (bcc_genesisValidatorNodes (bca_config P)) then Err ErrVoteSigner
      else case verify P sender (bw_status (bca_messages P) statusHeight) sig of
          Ok _ \<Rightarrow> Ok ()
        | Err e \<Rightarrow> Err (ErrVoteSignature e)
        | Panic \<Rightarrow> Panic)"

definition leaderAddVote ::
  "'p BCParams \<Rightarrow> NodeAddress \<Rightarrow> BlockPairContainer option \<Rightarrow> 'p BCService \<Rightarrow> 'p BCService \<times> (bcError, bool) result" where
  "leaderAddVote P sender expectedLastCommittedBlockBefore s =
     (if bc_lastCommittedBlock s \<noteq> expectedLastCommittedBlockBefore then (s, Err ErrInconsistent)
      else
        let s = s\<lparr>bc_voters := List.insert sender (bc_voters s)\<rparr>;
            existingVotes = length (bc_voters s) + 1
        in if existingVotes \<ge> requiredQuorumSize (bca_config P) \<and> \<not> bc_reachedQuorum s
           then (s\<lparr>bc_reachedQuorum := True\<rparr>, Ok True) else (s, Ok False))"

text \<open>With enough votes the handler goes on to send the height on the channel, until the loop takes it.\<close>

definition leaderHandleCommittedVote ::
  "'p BCParams \<Rightarrow> 'p BCService \<Rightarrow> NodeAddress \<Rightarrow> bytes \<Rightarrow> BlockHeight \<Rightarrow> 'p BCService \<Rightarrow> 'p BCService \<times> (bcError, unit) result" where
  "leaderHandleCommittedVote P s0 sender sig statusHeight s =
     (case getLastCommittedBlock s0 of
        Ok (lastCommittedBlockHeight, lastCommittedBlock) \<Rightarrow>
          (case leaderValidateVote P sender sig statusHeight lastCommittedBlockHeight of
             Ok _ \<Rightarrow>
               (case leaderAddVote P sender lastCommittedBlock s of
                  (s, Ok enoughVotesReceived) \<Rightarrow>
                    (if enoughVotesReceived then s\<lparr>bc_voted := bc_voted s @ [lastCommittedBlockHeight]\<rparr> else s, Ok ())
                | (s, Err e) \<Rightarrow> (s, Err e)
                | (s, Panic) \<Rightarrow> (s, Panic))
           | r \<Rightarrow> (s, r))
      | Err e \<Rightarrow> (s, Err e)
      | Panic \<Rightarrow> (s, Panic))"

subsection \<open>The other nodes\<close>

definition nonLeaderValidateBlock ::
  "'p BCParams \<Rightarrow> BlockPairContainer \<Rightarrow> BlockHeight \<Rightarrow> BlockPairContainer option \<Rightarrow> (bcError, unit) result" where
  "nonLeaderValidateBlock P blockPair lastCommittedBlockHeight lastCommittedBlock =
     bind_result (bp_tx blockPair) (\<lambda>(_, th). bind_result (bp_rs blockPair) (\<lambda>(_, rh).
       let blockHeight = tbh_blockHeight th in
       if blockHeight \<noteq> rbh_blockHeight rh then Err ErrHeightsDiffer
       else if blockHeight > lastCommittedBlockHeight + 1 then Err ErrFutureHeight
       else validateBlockConsensus P (Some blockPair)
              (if lastCommittedBlock \<noteq> None \<and> blockHeight = lastCommittedBlockHeight + 1 then lastCommittedBlock else None)))"

definition sendCommitted :: "'p BCParams \<Rightarrow> BlockPairContainer \<Rightarrow> BlockHeight \<Rightarrow> 'p BCService \<Rightarrow> 'p BCService \<times> (bcError, unit) result" where
  "sendCommitted P blockPair lastCommittedBlockHeight s =
     (case bca_sign P (bw_status (bca_messages P) lastCommittedBlockHeight) of
        None \<Rightarrow> (s, Err ErrSign)
      | Some sig \<Rightarrow>
          (case bp_resultsBlock blockPair of
             None \<Rightarrow> (s, Panic)
           | Some rb \<Rightarrow>
               (case bw_nodes (bca_messages P) (rbc_blockProof rb) of
                  [] \<Rightarrow> (s, Err ErrNoSigner)
                | (recipient, _) # _ \<Rightarrow>
                    let message = \<lparr>cm_recipient = recipient, cm_height = lastCommittedBlockHeight,
                          cm_sender = bcc_nodeAddress (bca_config P), cm_signature = sig\<rparr>
                    in if bca_sendCommitted P message then (s\<lparr>bc_replies := bc_replies s @ [message]\<rparr>, Ok ())
                       else (s, Err ErrSendCommitted))))"

definition nonLeaderCommitAndReply ::
  "'p BCParams \<Rightarrow> BlockPairContainer \<Rightarrow> BlockHeight \<Rightarrow> BlockPairContainer option \<Rightarrow> 'p BCService \<Rightarrow> 'p BCService \<times> (bcError, unit) result" where
  "nonLeaderCommitAndReply P blockPair lastCommittedBlockHeight lastCommittedBlock s =
     (case saveToBlockStorage P blockPair s of
        Ok s \<Rightarrow>
          (case (bp_tx blockPair :: (bcError, _) result) of
             Ok (_, th) \<Rightarrow>
               if tbh_blockHeight th = lastCommittedBlockHeight + 1
               then let (s, updated) = setLastCommittedBlockIfPreviousBlockMatches blockPair lastCommittedBlock s
                    in if \<not> updated then (s, Ok ()) else sendCommitted P blockPair (tbh_blockHeight th) s
               else sendCommitted P blockPair lastCommittedBlockHeight s
           | _ \<Rightarrow> (s, Panic))
      | Err e \<Rightarrow> (s, Err e)
      | Panic \<Rightarrow> (s, Panic))"

definition nonLeaderHandleCommit ::
  "'p BCParams \<Rightarrow> 'p BCService \<Rightarrow> BlockPairContainer \<Rightarrow> 'p BCService \<Rightarrow> 'p BCService \<times> (bcError, unit) result" where
  "nonLeaderHandleCommit P s0 blockPair s =
     (case getLastCommittedBlock s0 of
        Ok (lastCommittedBlockHeight, lastCommittedBlock) \<Rightarrow>
          (case nonLeaderValidateBlock P blockPair lastCommittedBlockHeight lastCommittedBlock of
             Ok _ \<Rightarrow> nonLeaderCommitAndReply P blockPair lastCommittedBlockHeight lastCommittedBlock s
           | r \<Rightarrow> (s, r))
      | Err e \<Rightarrow> (s, Err e)
      | Panic \<Rightarrow> (s, Panic))"

subsection \<open>The handlers and the run of a node\<close>

definition HandleBlockConsensus where
  "HandleBlockConsensus P s0 mode blockTypeIsBlockPair blockPair prevCommittedBlockPair s =
     handleBlockConsensusFromHandler P s0 mode blockTypeIsBlockPair blockPair prevCommittedBlockPair s"

definition HandleBenchmarkConsensusCommit ::
  "'p BCParams \<Rightarrow> 'p BCService \<Rightarrow> BlockPairContainer \<Rightarrow> 'p BCService \<Rightarrow> 'p BCService \<times> (bcError, unit) result" where
  "HandleBenchmarkConsensusCommit P s0 blockPair s =
     (if \<not> isLeader (bca_config P) then nonLeaderHandleCommit P s0 blockPair s else (s, Ok ()))"

definition HandleBenchmarkConsensusCommitted ::
  "'p BCParams \<Rightarrow> 'p BCService \<Rightarrow> NodeAddress \<Rightarrow> bytes \<Rightarrow> BlockHeight \<Rightarrow> 'p BCService \<Rightarrow> 'p BCService \<times> (bcError, unit) result" where
  "HandleBenchmarkConsensusCommitted P s0 sender sig statusHeight s =
     (if isLeader (bca_config P) then leaderHandleCommittedVote P s0 sender sig statusHeight s else (s, Ok ()))"

text \<open>
  The steps of the leader's loop, \<open>leaderConsensusRoundRunLoop\<close>: it starts with a genesis block if there is no
  block, ticks, and wakes up when a height is handed over or after the timeout.
\<close>

inductive leaderConsensusRoundRunLoop :: "'p BCParams \<Rightarrow> 'p BCService \<Rightarrow> 'p BCService \<Rightarrow> 'p BCService \<Rightarrow> bool" for P s0 s where
  genesis: "bc_loop s = LoopStart \<Longrightarrow> bc_lastCommittedBlock s0 = None \<Longrightarrow> leaderConsensusRoundRunLoop P s0 s (setGenesisBlock P s)"
| no_genesis: "bc_loop s = LoopStart \<Longrightarrow> bc_lastCommittedBlock s0 \<noteq> None \<Longrightarrow>
    leaderConsensusRoundRunLoop P s0 s (s\<lparr>bc_loop := TickStart\<rparr>)"
| propose: "bc_loop s = TickStart \<Longrightarrow> leaderConsensusRoundRunLoop P s0 s (tickPropose P s0 s)"
| update: "bc_loop s = TickUpdate b c \<Longrightarrow> leaderConsensusRoundRunLoop P s0 s (tickUpdate b c s)"
| broadcast: "bc_loop s = TickBroadcast b h \<Longrightarrow> leaderConsensusRoundRunLoop P s0 s (tickBroadcast P b h s)"
| voted: "bc_loop s = Waiting \<Longrightarrow> h \<in> set (bc_voted s) \<Longrightarrow>
    leaderConsensusRoundRunLoop P s0 s (s\<lparr>bc_lastSuccessfullyVotedBlock := h, bc_voted := remove1 h (bc_voted s), bc_loop := TickStart\<rparr>)"
| retry: "bc_loop s = Waiting \<Longrightarrow> leaderConsensusRoundRunLoop P s0 s (s\<lparr>bc_loop := TickStart\<rparr>)"

text \<open>
  A run of a node: the list of its states, and the committed messages it has handled, as sender, signature and height.
  Every operation updates the last state and may have read any earlier one, so that all interleavings of the
  goroutines are runs. Nothing that takes the mutex goes on once it stays locked.
\<close>

inductive bcRun :: "'p BCParams \<Rightarrow> 'p BCService \<Rightarrow> 'p BCService list \<Rightarrow> (NodeAddress \<times> bytes \<times> BlockHeight) list \<Rightarrow> bool" for P init where
  start: "bcRun P init [init] []"
| loop: "bcRun P init tr ms \<Longrightarrow> s0 \<in> set tr \<Longrightarrow> leaderConsensusRoundRunLoop P s0 (last tr) s' \<Longrightarrow> bcRun P init (tr @ [s']) ms"
| vote: "bcRun P init tr ms \<Longrightarrow> s0 \<in> set tr \<Longrightarrow> bc_loop (last tr) \<noteq> PanickedHoldingMutex \<Longrightarrow>
    bcRun P init (tr @ [fst (HandleBenchmarkConsensusCommitted P s0 sender sig statusHeight (last tr))]) (ms @ [(sender, sig, statusHeight)])"
| vote_canceled: "bcRun P init tr ms \<Longrightarrow> bcRun P init (tr @ [(last tr)\<lparr>bc_voted := remove1 h (bc_voted (last tr))\<rparr>]) ms"
| commit: "bcRun P init tr ms \<Longrightarrow> s0 \<in> set tr \<Longrightarrow> bc_loop (last tr) \<noteq> PanickedHoldingMutex \<Longrightarrow>
    bcRun P init (tr @ [fst (HandleBenchmarkConsensusCommit P s0 b (last tr))]) ms"
| handler: "bcRun P init tr ms \<Longrightarrow> s0 \<in> set tr \<Longrightarrow> bc_loop (last tr) \<noteq> PanickedHoldingMutex \<Longrightarrow>
    bcRun P init (tr @ [fst (HandleBlockConsensus P s0 mode isPair b prev (last tr))]) ms"

end
