(* ===== verification/Benchmark_Consensus_Correct.thy ===== *)
theory Benchmark_Consensus_Correct
  imports Benchmark_Consensus
begin

text \<open>
  Correctness of benchmark consensus: in every interleaving the leader moves past a height only when it has
  received votes for it, with signatures that verify, from a quorum of validators, and a block the leader proposes is committed by the other nodes, whose
  votes the leader counts.
\<close>

subsection \<open>Votes and quorums\<close>

text \<open>A message by which the validator \<open>v\<close> says, with a signature that verifies, that its last committed height is \<open>h\<close>.\<close>

definition validVote :: "'p BCParams \<Rightarrow> (NodeAddress \<times> bytes \<times> BlockHeight) list \<Rightarrow> BlockHeight \<Rightarrow> NodeAddress \<Rightarrow> bool" where
  "validVote P ms h v \<longleftrightarrow> v \<in> set (bcc_genesisValidatorNodes (bca_config P)) \<and>
     (\<exists>sig. (v, sig, h) \<in> set ms \<and> verify P v (bw_status (bca_messages P) h) sig = Ok ())"

text \<open>Enough validators have sent such a message; the leader counts itself in addition.\<close>

definition quorumSigned :: "'p BCParams \<Rightarrow> (NodeAddress \<times> bytes \<times> BlockHeight) list \<Rightarrow> BlockHeight \<Rightarrow> bool" where
  "quorumSigned P ms h \<longleftrightarrow> (\<exists>V. distinct V \<and> requiredQuorumSize (bca_config P) \<le> length V + 1 \<and> (\<forall>v \<in> set V. validVote P ms h v))"

definition confirmed :: "'p BCParams \<Rightarrow> (NodeAddress \<times> bytes \<times> BlockHeight) list \<Rightarrow> BlockHeight \<Rightarrow> bool" where
  "confirmed P ms h \<longleftrightarrow> h = blockHeightNone \<or> quorumSigned P ms h"

definition votes_ok :: "'p BCParams \<Rightarrow> (NodeAddress \<times> bytes \<times> BlockHeight) list \<Rightarrow> 'p BCService \<Rightarrow> bool" where
  "votes_ok P ms s \<longleftrightarrow> distinct (bc_voters s) \<and>
     (\<forall>h b. getLastCommittedBlock s = Ok (h, b) \<longrightarrow> (\<forall>v \<in> set (bc_voters s). validVote P ms h v))"

definition loop_ok :: "'p BCParams \<Rightarrow> (NodeAddress \<times> bytes \<times> BlockHeight) list \<Rightarrow> leaderLoop \<Rightarrow> bool" where
  "loop_ok P ms pc \<longleftrightarrow> (\<forall>b c. pc = TickUpdate b c \<longrightarrow>
     (\<exists>c' tb th. c = Some c' \<and> bp_tx c' = (Ok (tb, th) :: (bcError, _) result) \<and> confirmed P ms (tbh_blockHeight th)))"

definition bc_ok :: "'p BCParams \<Rightarrow> (NodeAddress \<times> bytes \<times> BlockHeight) list \<Rightarrow> 'p BCService \<Rightarrow> bool" where
  "bc_ok P ms s \<longleftrightarrow> votes_ok P ms s \<and> (\<forall>h \<in> set (bc_voted s). quorumSigned P ms h) \<and>
     confirmed P ms (bc_lastSuccessfullyVotedBlock s) \<and> loop_ok P ms (bc_loop s)"

lemma validVote_more: "validVote P ms h v \<Longrightarrow> validVote P (ms @ ms') h v"
  by (auto simp: validVote_def)

lemma confirmed_more: "confirmed P ms h \<Longrightarrow> confirmed P (ms @ ms') h" "quorumSigned P ms h \<Longrightarrow> quorumSigned P (ms @ ms') h"
  unfolding confirmed_def quorumSigned_def using validVote_more by metis+

lemma bc_ok_more: "bc_ok P ms s \<Longrightarrow> bc_ok P (ms @ ms') s"
  unfolding bc_ok_def votes_ok_def loop_ok_def using validVote_more confirmed_more by metis

lemma getLast_cong: "bc_lastCommittedBlock s = bc_lastCommittedBlock s0 \<Longrightarrow> getLastCommittedBlock s = getLastCommittedBlock s0"
  by (simp add: getLastCommittedBlock_def)

lemma getLast_Ok: "getLastCommittedBlock s = Ok (h, b) \<Longrightarrow> b = bc_lastCommittedBlock s"
  by (auto simp: getLastCommittedBlock_def split: option.splits)

lemma bc_ok_cong:
  assumes "bc_ok P ms s" "bc_lastCommittedBlock s' = bc_lastCommittedBlock s" "bc_voters s' = bc_voters s" "bc_voted s' = bc_voted s"
    and "bc_lastSuccessfullyVotedBlock s' = bc_lastSuccessfullyVotedBlock s" "loop_ok P ms (bc_loop s')"
  shows "bc_ok P ms s'"
  using assms getLast_cong [of s' s] by (simp add: bc_ok_def votes_ok_def)

lemma loop_ok_simps [simp]:
  "loop_ok P ms NotRunning" "loop_ok P ms LoopStart" "loop_ok P ms TickStart" "loop_ok P ms (TickBroadcast b h)" "loop_ok P ms Waiting" "loop_ok P ms (BlockedOnOwnChannel h)" "loop_ok P ms PanickedHoldingMutex"
  by (simp_all add: loop_ok_def)

lemma set_ok:
  assumes "bc_ok P ms s" shows "bc_ok P ms (fst (setLastCommittedBlockIfPreviousBlockMatches b c s))"
  using assms by (simp add: setLastCommittedBlockIfPreviousBlockMatches_def bc_ok_def votes_ok_def)

lemma endTick_ok: "bc_ok P ms s \<Longrightarrow> bc_ok P ms (endTick s r)"
  by (erule bc_ok_cong) (simp_all add: endTick_def split: result.split)

lemma save_keeps:
  assumes "saveToBlockStorage P b s = Ok s'"
  shows "bc_lastCommittedBlock s' = bc_lastCommittedBlock s" "bc_voters s' = bc_voters s" "bc_voted s' = bc_voted s"
    "bc_lastSuccessfullyVotedBlock s' = bc_lastSuccessfullyVotedBlock s" "bc_loop s' = bc_loop s"
  using assms by (auto simp: saveToBlockStorage_def split: if_splits result.splits)

lemma save_ok: "saveToBlockStorage P b s = Ok s' \<Longrightarrow> bc_ok P ms s \<Longrightarrow> loop_ok P ms pc \<Longrightarrow> bc_ok P ms (s'\<lparr>bc_loop := pc\<rparr>)"
  by (rule bc_ok_cong, assumption) (simp_all add: save_keeps)

subsection \<open>Every operation keeps the votes honest\<close>

lemma tickPropose_ok:
  assumes "bc_ok P ms s" shows "bc_ok P ms (tickPropose P s0 s)"
proof (cases "getLastCommittedBlock s0")
  case (Ok hc)
  obtain h c where hc: "hc = (h, c)" by (cases hc)
  show ?thesis
  proof (cases "bc_lastSuccessfullyVotedBlock s = h")
    case True
    show ?thesis
    proof (cases c)
      case None
      then show ?thesis using True Ok hc endTick_ok [OF assms] by (simp add: tickPropose_def leaderGenerateNewProposedBlock_def)
    next
      case (Some c')
      then obtain tb th where "bp_tx c' = (Ok (tb, th) :: (bcError, _) result)" "tbh_blockHeight th = h"
        using Ok hc by (auto simp: getLastCommittedBlock_def split: option.splits)
      then have pc: "loop_ok P ms (TickUpdate b c)" for b using Some True assms by (simp add: loop_ok_def bc_ok_def)
      show ?thesis using True Ok hc assms endTick_ok save_ok [OF _ assms pc] by (auto simp: tickPropose_def split: result.split)
    qed
  next
    case False
    then show ?thesis using Ok hc bc_ok_cong [OF assms, of "s\<lparr>bc_loop := TickBroadcast c h\<rparr>"] by (simp add: tickPropose_def)
  qed
qed (use endTick_ok [OF assms] in \<open>simp_all add: tickPropose_def\<close>)

lemma tickUpdate_ok:
  assumes "bc_ok P ms s" shows "bc_ok P ms (tickUpdate b c s)"
proof -
  obtain s' u where s': "setLastCommittedBlockIfPreviousBlockMatches b c s = (s', u)" by fastforce
  then have ok: "bc_ok P ms s'" using set_ok [OF assms, of b c] by simp
  have "bc_ok P ms (s'\<lparr>bc_loop := TickBroadcast x y\<rparr>)" for x y by (rule bc_ok_cong [OF ok]) simp_all
  then show ?thesis using s' endTick_ok [OF ok] by (auto simp: tickUpdate_def split: result.split)
qed

lemma broadcast_keeps:
  "bc_ok P ms s \<Longrightarrow> loop_ok P ms pc \<Longrightarrow> bc_ok P ms ((fst (leaderBroadcastCommittedBlock P b s))\<lparr>bc_loop := pc\<rparr>)"
  by (rule bc_ok_cong, assumption) (simp_all add: leaderBroadcastCommittedBlock_def split: option.split result.split)

lemma tickBroadcast_ok:
  assumes "bc_ok P ms s" shows "bc_ok P ms (tickBroadcast P b h s)"
proof -
  obtain s' r where s': "leaderBroadcastCommittedBlock P b s = (s', r)" by fastforce
  then have "loop_ok P ms pc \<Longrightarrow> bc_ok P ms (s'\<lparr>bc_loop := pc\<rparr>)" for pc using broadcast_keeps [OF assms, of pc b] by simp
  then show ?thesis using s' by (auto simp: tickBroadcast_def endTick_def split: result.split)
qed

lemma vote_ok:
  assumes "bc_ok P ms s" shows "bc_ok P (ms @ [(sender, sig, statusHeight)]) (fst (leaderHandleCommittedVote P s0 sender sig statusHeight s))"
proof (cases "getLastCommittedBlock s0")
  case (Ok hc)
  obtain h c where hc: "hc = (h, c)" by (cases hc)
  let ?ms = "ms @ [(sender, sig, statusHeight)]"
  note ok0 = bc_ok_more [OF assms, of "[(sender, sig, statusHeight)]"]
  show ?thesis
  proof (cases "leaderValidateVote P sender sig statusHeight h = Ok () \<and> bc_lastCommittedBlock s = c")
    case True
    then have last: "getLastCommittedBlock s = Ok (h, c)" using Ok hc getLast_Ok [of s0 h c] getLast_cong [of s s0] by simp
    have valid: "validVote P ?ms h sender" using True
      by (auto simp: leaderValidateVote_def validVote_def split: if_splits result.splits)
    let ?s = "s\<lparr>bc_voters := List.insert sender (bc_voters s)\<rparr>"
    have votes: "distinct (bc_voters ?s)" "\<forall>v \<in> set (bc_voters ?s). validVote P ?ms h v"
      using ok0 valid last by (auto simp: bc_ok_def votes_ok_def distinct_insert)
    have ok: "bc_ok P ?ms ?s" using ok0 votes last by (auto simp: bc_ok_def votes_ok_def getLastCommittedBlock_def)
    show ?thesis
    proof (cases "requiredQuorumSize (bca_config P) \<le> length (bc_voters ?s) + 1 \<and> \<not> bc_reachedQuorum s")
      case enough: True
      then have "quorumSigned P ?ms h" using votes unfolding quorumSigned_def by blast
      then have "bc_ok P ?ms (?s\<lparr>bc_reachedQuorum := True, bc_voted := bc_voted s @ [h]\<rparr>)"
        using ok by (auto simp: bc_ok_def votes_ok_def getLastCommittedBlock_def)
      then show ?thesis using True enough Ok hc by (simp add: leaderHandleCommittedVote_def leaderAddVote_def Let_def)
    next
      case False
      then show ?thesis using True ok Ok hc by (auto simp: leaderHandleCommittedVote_def leaderAddVote_def Let_def)
    qed
  next
    case False
    then show ?thesis using Ok hc ok0 by (auto simp: leaderHandleCommittedVote_def leaderAddVote_def split: result.split)
  qed
qed (use bc_ok_more [OF assms] in \<open>simp_all add: leaderHandleCommittedVote_def\<close>)

lemma handler_ok:
  assumes "bc_ok P ms s" shows "bc_ok P ms (fst (handleBlockConsensusFromHandler P s0 mode isPair b prev s))"
  using assms set_ok [OF assms]
  by (auto simp: handleBlockConsensusFromHandler_def split: result.split option.split)

lemma sendCommitted_ok: "bc_ok P ms s \<Longrightarrow> bc_ok P ms (fst (sendCommitted P b h s))"
  by (rule bc_ok_cong, assumption) (auto simp: sendCommitted_def bc_ok_def Let_def split: option.split list.split)

lemma commit_ok:
  assumes "bc_ok P ms s" shows "bc_ok P ms (fst (nonLeaderHandleCommit P s0 b s))"
proof -
  have "bc_ok P ms (fst (nonLeaderCommitAndReply P b h c s))" for h c
  proof (cases "saveToBlockStorage P b s")
    case (Ok s1)
    have "loop_ok P ms (bc_loop s1)" using save_keeps(5) [OF Ok] assms by (simp add: bc_ok_def)
    then have ok: "bc_ok P ms s1" using bc_ok_cong [OF assms] save_keeps [OF Ok] by simp
    obtain s2 u where s2: "setLastCommittedBlockIfPreviousBlockMatches b c s1 = (s2, u)" by fastforce
    then have "bc_ok P ms s2" using set_ok [OF ok, of b c] by simp
    then show ?thesis using ok s2 Ok sendCommitted_ok by (auto simp: nonLeaderCommitAndReply_def split: result.split)
  qed (use assms in \<open>simp_all add: nonLeaderCommitAndReply_def\<close>)
  then show ?thesis using assms by (auto simp: nonLeaderHandleCommit_def split: result.split)
qed

subsection \<open>The genesis block\<close>

lemma genesis_height:
  assumes "leaderGenerateGenesisBlock P = Ok b"
  shows "\<exists>tb th. bp_tx b = (Ok (tb, th) :: (bcError, _) result) \<and> tbh_blockHeight th = 0"
  using assms by (auto simp: leaderGenerateGenesisBlock_def leaderSignBlockProposal_def Let_def tx_header_def split: result.splits option.splits)

text \<open>The step from \<open>s\<close> to \<open>s'\<close> does not put the genesis block over another block.\<close>

definition genesisKept :: "'p BCService \<Rightarrow> 'p BCService \<Rightarrow> bool" where
  "genesisKept s s' \<longleftrightarrow> (bc_loop s = LoopStart \<and> bc_loop s' = TickStart \<and> bc_lastCommittedBlock s \<noteq> None \<longrightarrow>
     bc_lastCommittedBlock s' = bc_lastCommittedBlock s)"

text \<open>Votes that came in while there was no block were for height 0, which is the height of the genesis block.\<close>

lemma setGenesisBlock_ok:
  assumes "bc_ok P ms s" "bc_loop s = LoopStart" "genesisKept s (setGenesisBlock P s)"
  shows "bc_ok P ms (setGenesisBlock P s)"
proof (cases "leaderGenerateGenesisBlock P")
  case (Ok b)
  then have s': "setGenesisBlock P s = s\<lparr>bc_lastCommittedBlock := Some b, bc_loop := TickStart\<rparr>" by (simp add: setGenesisBlock_def)
  show ?thesis
  proof (cases "bc_lastCommittedBlock s")
    case None
    then have "getLastCommittedBlock s = Ok (0, None)" by (simp add: getLastCommittedBlock_def)
    then have v: "distinct (bc_voters s)" "\<forall>v \<in> set (bc_voters s). validVote P ms 0 v" using assms(1) by (auto simp: bc_ok_def votes_ok_def)
    obtain tb th where "bp_tx b = (Ok (tb, th) :: (bcError, _) result)" "tbh_blockHeight th = 0" using genesis_height [OF Ok] by blast
    then have "getLastCommittedBlock (setGenesisBlock P s) = Ok (0, Some b)" by (simp add: s' getLastCommittedBlock_def)
    then show ?thesis using assms(1) v by (simp add: bc_ok_def votes_ok_def s')
  next
    case (Some c)
    then have "bc_lastCommittedBlock (setGenesisBlock P s) = bc_lastCommittedBlock s" using assms(2,3) s' by (simp add: genesisKept_def)
    then show ?thesis by (intro bc_ok_cong [OF assms(1)]) (simp_all add: s')
  qed
qed (use bc_ok_cong [OF assms(1), of "s\<lparr>bc_loop := PanickedHoldingMutex\<rparr>"] in \<open>simp_all add: setGenesisBlock_def\<close>)

lemma loop_step_ok:
  assumes "leaderConsensusRoundRunLoop P s0 s s'" "bc_ok P ms s" "genesisKept s s'" shows "bc_ok P ms s'"
  using assms(1)
proof cases
  case genesis
  then show ?thesis using setGenesisBlock_ok assms(2,3) by simp
next
  case no_genesis
  then show ?thesis using bc_ok_cong [OF assms(2), of s'] by simp
next
  case propose
  then show ?thesis using tickPropose_ok [OF assms(2)] by simp
next
  case (update b c)
  then show ?thesis using tickUpdate_ok [OF assms(2)] by simp
next
  case (broadcast b h)
  then show ?thesis using tickBroadcast_ok [OF assms(2)] by simp
next
  case (voted h)
  then show ?thesis using assms(2) by (auto simp: bc_ok_def votes_ok_def getLastCommittedBlock_def confirmed_def dest: notin_set_remove1)
next
  case retry
  then show ?thesis using bc_ok_cong [OF assms(2), of s'] by simp
qed

lemma bcRun_nonempty: "bcRun P init tr ms \<Longrightarrow> tr \<noteq> []"
  by (induction rule: bcRun.induct) simp_all

lemma kept_snoc: "tr \<noteq> [] \<Longrightarrow> successively genesisKept (tr @ [s]) \<longleftrightarrow> successively genesisKept tr \<and> genesisKept (last tr) s"
  by (simp add: successively_append_iff)

lemma bcRun_ok:
  assumes "bcRun P init tr ms" "bc_ok P [] init" "successively genesisKept tr"
  shows "bc_ok P ms (last tr)"
  using assms(1,3)
proof induction
  case start
  then show ?case using assms(2) by simp
next
  case (loop tr ms s0 s')
  then show ?case using loop_step_ok [of P s0 "last tr" s' ms] kept_snoc [OF bcRun_nonempty [OF loop.hyps(1)]] by simp
next
  case (vote tr ms s0 sender sig statusHeight)
  then have "bc_ok P ms (last tr)" using kept_snoc [OF bcRun_nonempty [OF vote.hyps(1)]] by blast
  then show ?case using vote_ok [of P ms "last tr"] bc_ok_more [of P ms "last tr"] by (simp add: HandleBenchmarkConsensusCommitted_def)
next
  case (vote_canceled tr ms h)
  then have "bc_ok P ms (last tr)" using kept_snoc [OF bcRun_nonempty [OF vote_canceled.hyps(1)]] by blast
  then show ?case by (auto simp: bc_ok_def votes_ok_def getLastCommittedBlock_def dest: notin_set_remove1)
next
  case (commit tr ms s0 b)
  then have "bc_ok P ms (last tr)" using kept_snoc [OF bcRun_nonempty [OF commit.hyps(1)]] by blast
  then show ?case using commit_ok [of P ms "last tr"] by (simp add: HandleBenchmarkConsensusCommit_def)
next
  case (handler tr ms s0 mode isPair b prev)
  then have "bc_ok P ms (last tr)" using kept_snoc [OF bcRun_nonempty [OF handler.hyps(1)]] by blast
  then show ?case using handler_ok [of P ms "last tr"] by (simp add: HandleBlockConsensus_def)
qed

lemma init_ok: "bc_ok P [] (NewBenchmarkConsensusAlgo active cfg bs p)"
  by (simp add: NewBenchmarkConsensusAlgo_def bc_ok_def votes_ok_def confirmed_def)

subsection \<open>A proposal is accepted\<close>

definition messages_ok :: "BCWire \<Rightarrow> bool" where
  "messages_ok m \<longleftrightarrow> bw_txProof m \<noteq> [] \<and> bw_isBenchmarkTx m (bw_txProof m) \<and>
     (\<forall>h d a sig. bw_rxProof m h d [(a, sig)] \<noteq> [] \<and> bw_isBenchmarkRx m (bw_rxProof m h d [(a, sig)]) \<and>
       (length a = NODE_ADDRESS_SIZE_BYTES \<longrightarrow> bw_nodes m (bw_rxProof m h d [(a, sig)]) = [(a, sig)]))"

definition honest_signer :: "'p BCParams \<Rightarrow> bool" where
  "honest_signer P \<longleftrightarrow> (\<forall>d. \<exists>sig. bca_sign P d = Some sig \<and> verify P (bcc_nodeAddress (bca_config P)) d sig = Ok ())"

definition same_network :: "'p BCParams \<Rightarrow> 'q BCParams \<Rightarrow> bool" where
  "same_network P Q \<longleftrightarrow> bca_sha P = bca_sha Q \<and> bca_keccak P = bca_keccak Q \<and> bca_recover P = bca_recover Q \<and> bca_wire P = bca_wire Q \<and>
     bca_messages P = bca_messages Q \<and> bcc_constantLeader (bca_config P) = bcc_constantLeader (bca_config Q) \<and>
     bcc_genesisValidatorNodes (bca_config P) = bcc_genesisValidatorNodes (bca_config Q)"

lemma verify_same: "same_network P Q \<Longrightarrow> verify Q = verify P"
  by (simp add: same_network_def verify_def)

lemma verify_length: "verify P a d sig = Ok () \<Longrightarrow> length a = NODE_ADDRESS_SIZE_BYTES"
  by (simp add: verify_def VerifyNodeSignature_def split: if_splits)

text \<open>The blocks of the consensus context, as \<open>Consensus_Context\<close> models it.\<close>

definition uses_context ::
  "'p BCParams \<Rightarrow> bytes \<Rightarrow> bytes \<Rightarrow> ConsensusContextConfig \<Rightarrow> (OrderingInput \<Rightarrow> (SignedTransaction list \<times> TimestampNano) option)
     \<Rightarrow> ProcessTransactionSet \<Rightarrow> (BlockHeight \<Rightarrow> Sha256 option) \<Rightarrow> bool" where
  "uses_context P emptyMetadata emptyProof ccfg fetch process getStateHash \<longleftrightarrow>
     bca_requestNewTransactionsBlock P = createTransactionsBlock (bca_sha P) (bca_wire P) emptyMetadata emptyProof ccfg fetch \<and>
     bca_requestNewResultsBlock P = createResultsBlock (bca_sha P) (bca_wire P) emptyProof ccfg process getStateHash \<and>
     cc_protocolVersion ccfg = ProtocolVersion_blocks"

lemma created_tx_header:
  assumes "createTransactionsBlock sha w em ep ccfg fetch input = Ok tb"
  obtains th where "tbc_header tb = Some th" "tbh_blockHeight th = nti_currentBlockHeight input" "tbh_prevBlockHashPtr th = nti_prevBlockHash input"
    "tbh_protocolVersion th = cc_protocolVersion ccfg"
  using assms by (auto simp: createTransactionsBlock_def Let_def split: option.splits if_splits)

lemma created_rx_header:
  assumes "createResultsBlock sha w ep ccfg process getStateHash input = Ok rb"
  obtains rh where "rbc_header rb = Some rh" "rbh_blockHeight rh = nri_currentBlockHeight input" "rbh_prevBlockHashPtr rh = nri_prevBlockHash input"
    "rbh_protocolVersion rh = cc_protocolVersion ccfg"
proof -
  obtain txBlock header where t: "tx_header (nri_transactionsBlock input) = (Ok (txBlock, header) :: (ccError, _) result)"
    using assms by (auto simp: createResultsBlock_def)
  obtain receipts diffs where "process (tbc_signedTransactions txBlock) (nri_currentBlockHeight input) (tbh_timestamp header) (nri_blockProposerAddress input) =
      Some (receipts, diffs)"
    using assms t by (cases "process (tbc_signedTransactions txBlock) (nri_currentBlockHeight input) (tbh_timestamp header) (nri_blockProposerAddress input)")
      (auto simp: createResultsBlock_def)
  then show ?thesis using that assms t by (auto simp: createResultsBlock_def split: option.splits if_splits)
qed

lemma signed_proposal:
  assumes "leaderSignBlockProposal P tb rb = Ok b" "tbc_header tb = Some th" "honest_signer P"
  obtains sig data where "signedDataForBlockProof P b = Ok data" "verify P (bcc_nodeAddress (bca_config P)) data sig = Ok ()"
    "bp_transactionsBlock b = Some (tb\<lparr>tbc_blockProof := bw_txProof (bca_messages P)\<rparr>)"
    "bp_resultsBlock b = Some (rb\<lparr>rbc_blockProof := bw_rxProof (bca_messages P) (CalcTransactionsBlockHash (bca_sha P) (bca_wire P) (Some tb)) data [(bcc_nodeAddress (bca_config P), sig)]\<rparr>)"
proof -
  let ?b = "\<lparr>bp_transactionsBlock = Some tb, bp_resultsBlock = Some rb\<rparr>"
  obtain data where data: "signedDataForBlockProof P ?b = Ok data" using assms(2) by (simp add: signedDataForBlockProof_def tx_header_def)
  obtain sig where sig: "bca_sign P data = Some sig" "verify P (bcc_nodeAddress (bca_config P)) data sig = Ok ()"
    using assms(3) unfolding honest_signer_def by blast
  have b: "b = \<lparr>bp_transactionsBlock = Some (tb\<lparr>tbc_blockProof := bw_txProof (bca_messages P)\<rparr>),
      bp_resultsBlock = Some (rb\<lparr>rbc_blockProof := bw_rxProof (bca_messages P) (CalcTransactionsBlockHash (bca_sha P) (bca_wire P) (Some tb)) data
        [(bcc_nodeAddress (bca_config P), sig)]\<rparr>)\<rparr>"
    using assms(1) data sig(1) by (simp add: leaderSignBlockProposal_def CalcTransactionsBlockHash_def Let_def)
  moreover have "signedDataForBlockProof P b = Ok data"
    using data assms(2) unfolding b by (simp add: signedDataForBlockProof_def tx_header_def CalcBlockHash_def CalcTransactionsBlockHash_def CalcResultsBlockHash_def)
  ultimately show ?thesis using that sig(2) by simp
qed

lemma generate_requests:
  assumes "leaderGenerateNewProposedBlock P h (Some c) = Ok b"
  obtains i j tb rb where "bca_requestNewTransactionsBlock P i = Ok tb" "nti_currentBlockHeight i = h + 1"
    "nti_prevBlockHash i = CalcTransactionsBlockHash (bca_sha P) (bca_wire P) (bp_transactionsBlock c)"
    "bca_requestNewResultsBlock P j = Ok rb" "nri_currentBlockHeight j = h + 1"
    "nri_prevBlockHash j = CalcResultsBlockHash (bca_sha P) (bca_wire P) (bp_resultsBlock c)" "leaderSignBlockProposal P tb rb = Ok b"
proof -
  obtain ct cth where ct: "bp_tx c = (Ok (ct, cth) :: (bcError, _) result)" using assms by (auto simp: leaderGenerateNewProposedBlock_def)
  let ?i = "\<lparr>nti_currentBlockHeight = h + 1, nti_prevBlockHash = CalcTransactionsBlockHash (bca_sha P) (bca_wire P) (bp_transactionsBlock c),
    nti_prevBlockTimestamp = tbh_timestamp cth, nti_blockProposerAddress = bcc_constantLeader (bca_config P)\<rparr>"
  obtain tb where tb: "bca_requestNewTransactionsBlock P ?i = Ok tb"
    using assms ct by (cases "bca_requestNewTransactionsBlock P ?i") (simp_all add: leaderGenerateNewProposedBlock_def)
  let ?j = "\<lparr>nri_currentBlockHeight = h + 1, nri_prevBlockHash = CalcResultsBlockHash (bca_sha P) (bca_wire P) (bp_resultsBlock c),
    nri_transactionsBlock = Some tb, nri_blockProposerAddress = bcc_constantLeader (bca_config P)\<rparr>"
  obtain cr crh where cr: "bp_rs c = (Ok (cr, crh) :: (bcError, _) result)" using assms ct tb by (auto simp: leaderGenerateNewProposedBlock_def)
  obtain rb where rb: "bca_requestNewResultsBlock P ?j = Ok rb"
    using assms ct tb cr by (cases "bca_requestNewResultsBlock P ?j") (simp_all add: leaderGenerateNewProposedBlock_def)
  have "leaderSignBlockProposal P tb rb = Ok b" using assms ct tb cr rb by (simp add: leaderGenerateNewProposedBlock_def)
  from that [OF tb _ _ rb _ _ this] show ?thesis by simp
qed

lemma proposal_validates:
  assumes net: "same_network P Q" "messages_ok (bca_messages P)" "honest_signer P" "isLeader (bca_config P)"
    and ctx: "uses_context P em ep ccfg fetch process getStateHash"
    and b: "leaderGenerateNewProposedBlock P h (Some c) = Ok b"
  shows "validateBlockConsensus Q (Some b) (Some c) = Ok ()" "block_at b (h + 1)" "validateProtocolVersion_blocks b = Ok ()"
    "\<exists>rb sig. bp_resultsBlock b = Some rb \<and> bw_nodes (bca_messages Q) (rbc_blockProof rb) = [(bcc_constantLeader (bca_config P), sig)]"
proof -
  obtain i j tb rb where req: "createTransactionsBlock (bca_sha P) (bca_wire P) em ep ccfg fetch i = Ok tb" "nti_currentBlockHeight i = h + 1"
    "nti_prevBlockHash i = CalcTransactionsBlockHash (bca_sha P) (bca_wire P) (bp_transactionsBlock c)"
    "createResultsBlock (bca_sha P) (bca_wire P) ep ccfg process getStateHash j = Ok rb" "nri_currentBlockHeight j = h + 1"
    "nri_prevBlockHash j = CalcResultsBlockHash (bca_sha P) (bca_wire P) (bp_resultsBlock c)" and sign: "leaderSignBlockProposal P tb rb = Ok b"
    using generate_requests [OF b] ctx by (metis uses_context_def)
  obtain th where th: "tbc_header tb = Some th" "tbh_blockHeight th = h + 1" "tbh_prevBlockHashPtr th = CalcTransactionsBlockHash (bca_sha P) (bca_wire P) (bp_transactionsBlock c)"
    "tbh_protocolVersion th = ProtocolVersion_blocks" using created_tx_header [OF req(1)] req(2,3) ctx by (auto simp: uses_context_def)
  obtain rh where rh: "rbc_header rb = Some rh" "rbh_blockHeight rh = h + 1" "rbh_prevBlockHashPtr rh = CalcResultsBlockHash (bca_sha P) (bca_wire P) (bp_resultsBlock c)"
    "rbh_protocolVersion rh = ProtocolVersion_blocks" using created_rx_header [OF req(4)] req(5,6) ctx by (auto simp: uses_context_def)
  obtain sig data where sig: "signedDataForBlockProof P b = Ok data" "verify P (bcc_nodeAddress (bca_config P)) data sig = Ok ()"
    "bp_transactionsBlock b = Some (tb\<lparr>tbc_blockProof := bw_txProof (bca_messages P)\<rparr>)"
    "bp_resultsBlock b = Some (rb\<lparr>rbc_blockProof := bw_rxProof (bca_messages P) (CalcTransactionsBlockHash (bca_sha P) (bca_wire P) (Some tb)) data [(bcc_nodeAddress (bca_config P), sig)]\<rparr>)"
    by (rule signed_proposal [OF sign th(1) net(3)])
  have leader: "bcc_constantLeader (bca_config P) = bcc_nodeAddress (bca_config P)" using net(4) by (simp add: isLeader_def)
  have nodes: "bw_nodes (bca_messages P) (bw_rxProof (bca_messages P) x data [(bcc_nodeAddress (bca_config P), sig)]) = [(bcc_nodeAddress (bca_config P), sig)]" for x
    using net(2) verify_length [OF sig(2)] by (simp add: messages_ok_def)
  show "block_at b (h + 1)" using sig(3,4) th(1,2) rh(1,2) by (simp add: block_at_def)
  show "validateProtocolVersion_blocks b = Ok ()" using sig(3,4) th rh by (simp add: validateProtocolVersion_blocks_def tx_header_def rx_header_def)
  have data: "signedDataForBlockProof Q b = Ok data" using sig(1) net(1) by (simp add: signedDataForBlockProof_def same_network_def)
  have prev: "validatePrevHashPtrs Q (tb\<lparr>tbc_blockProof := x\<rparr>) (rb\<lparr>rbc_blockProof := y\<rparr>) (Some c) = Ok ()" for x y
    using th rh net(1) by (simp add: validatePrevHashPtrs_def tx_header_def rx_header_def same_network_def)
  show "validateBlockConsensus Q (Some b) (Some c) = Ok ()"
    unfolding validateBlockConsensus_def using sig(2-4) data prev nodes leader net(1,2) verify_same [OF net(1)] by (simp add: messages_ok_def same_network_def)
  show "\<exists>rb sig. bp_resultsBlock b = Some rb \<and> bw_nodes (bca_messages Q) (rbc_blockProof rb) = [(bcc_constantLeader (bca_config P), sig)]"
    using sig(4) nodes leader net(1) by (simp add: same_network_def)
qed

lemma nonLeader_commits:
  assumes val: "validateBlockConsensus Q (Some b) (Some c) = Ok ()" "block_at b (h + 1)" "validateProtocolVersion_blocks b = Ok ()"
    and rb: "bp_resultsBlock b = Some rb" "bw_nodes (bca_messages Q) (rbc_blockProof rb) = [(leader, bsig)]"
    and sign: "bca_sign Q (bw_status (bca_messages Q) (h + 1)) = Some sig"
    and node: "bca_storage Q = memPersistence w" "bc_lastCommittedBlock s = Some c" "block_at c h" "mem_ok (bc_blocks s)"
      "h = of_nat (length (imb_blocks (bc_blocks s)))" "length (imb_blocks (bc_blocks s)) + 1 < 2 ^ 63"
    and m: "m = \<lparr>cm_recipient = leader, cm_height = h + 1, cm_sender = bcc_nodeAddress (bca_config Q), cm_signature = sig\<rparr>"
  shows "\<exists>s'. nonLeaderHandleCommit Q s b s = (s', if bca_sendCommitted Q m then Ok () else Err ErrSendCommitted) \<and>
    bc_lastCommittedBlock s' = Some b \<and> mem_ok (bc_blocks s') \<and> imb_blocks (bc_blocks s') = imb_blocks (bc_blocks s) @ [b] \<and>
    bc_replies s' = bc_replies s @ (if bca_sendCommitted Q m then [m] else [])"
proof -
  note bs = block_at_simps(1-4) [OF val(2)] and cs = block_at_simps(1-4) [OF node(3)]
  have last: "getLastCommittedBlock s = Ok (h, Some c)" using node(2) by (simp add: getLastCommittedBlock_def cs)
  have valid: "nonLeaderValidateBlock Q b h (Some c) = Ok ()" using val(1) by (simp add: nonLeaderValidateBlock_def bs)
  have nz: "h + 1 \<noteq> 0" using node(5,6) height_eq [of "length (imb_blocks (bc_blocks s)) + 1" 0] by (simp add: add.commute)
  obtain bs' p where commit: "CommitBlock (bca_wire Q) (memPersistence w) (bc_service s) (bc_blocks s) b True = Ok (bs', p)"
      "mem_repr p (imb_blocks (bc_blocks s) @ [b])"
    using mem.commit_next [OF mem_repr [OF node(4)] TrueI val(2) [unfolded node(5)] node(6) val(3), of "bca_wire Q" w "bc_service s" True True]
    by (auto simp: CommitBlock_def)
  let ?s1 = "s\<lparr>bc_service := bs', bc_blocks := p\<rparr>"
  let ?s2 = "?s1\<lparr>bc_lastCommittedBlock := Some b, bc_voters := [], bc_reachedQuorum := False\<rparr>"
  let ?s3 = "?s2\<lparr>bc_replies := bc_replies s @ (if bca_sendCommitted Q m then [m] else [])\<rparr>"
  let ?r = "if bca_sendCommitted Q m then Ok () else Err ErrSendCommitted"
  have "saveToBlockStorage Q b s = Ok ?s1" using commit(1) node(1) nz by (simp add: saveToBlockStorage_def bs)
  moreover have "setLastCommittedBlockIfPreviousBlockMatches b (Some c) ?s1 = (?s2, True)"
    using node(2) by (simp add: setLastCommittedBlockIfPreviousBlockMatches_def)
  moreover have "sendCommitted Q b (h + 1) ?s2 = (?s3, ?r)" using sign rb m by (simp add: sendCommitted_def Let_def)
  ultimately have "nonLeaderCommitAndReply Q b h (Some c) s = (?s3, ?r)"
    by (simp add: nonLeaderCommitAndReply_def bs)
  then have "nonLeaderHandleCommit Q s b s = (?s3, ?r)" using last valid by (simp add: nonLeaderHandleCommit_def)
  then show ?thesis using commit(2) by (intro exI [of _ ?s3]) (simp add: mem_repr_def)
qed

lemma vote_is_counted:
  assumes "bc_lastCommittedBlock l = Some b" "block_at b h" "sender \<in> set (bcc_genesisValidatorNodes (bca_config P))"
    and "verify P sender (bw_status (bca_messages P) h) sig = Ok ()"
  shows "snd (leaderHandleCommittedVote P l sender sig h l) = Ok () \<and>
    bc_voters (fst (leaderHandleCommittedVote P l sender sig h l)) = List.insert sender (bc_voters l) \<and>
    (requiredQuorumSize (bca_config P) \<le> length (List.insert sender (bc_voters l)) + 1 \<and> \<not> bc_reachedQuorum l \<longrightarrow>
      h \<in> set (bc_voted (fst (leaderHandleCommittedVote P l sender sig h l))))"
proof -
  have "getLastCommittedBlock l = Ok (h, Some b)" using assms(1) by (simp add: getLastCommittedBlock_def block_at_simps [OF assms(2)])
  moreover have "leaderValidateVote P sender sig h h = Ok ()" using assms(3,4) by (simp add: leaderValidateVote_def)
  ultimately show ?thesis using assms(1) by (auto simp: leaderHandleCommittedVote_def leaderAddVote_def Let_def)
qed

subsection \<open>A concrete network of two nodes\<close>

definition demo_address :: "8 word \<Rightarrow> NodeAddress" where
  "demo_address k = copy_bytes (replicate 20 0) [k]"

definition demo_messages :: BCWire where
  "demo_messages = \<lparr>bw_txProof = [1], bw_rxProof = (\<lambda>h d ns. 2 # concat (map (\<lambda>(a, sig). a @ sig) ns)), bw_isBenchmarkTx = (\<lambda>p. p = [1]),
     bw_isBenchmarkRx = (\<lambda>p. hd p = 2), bw_nodes = (\<lambda>p. [(take 20 (tl p), drop 20 (tl p))]), bw_blockRef = (\<lambda>h d. d), bw_status = (\<lambda>h. [3])\<rparr>"

definition demo_bc :: "8 word \<Rightarrow> InMemoryBlockPersistence BCParams" where
  "demo_bc k = \<lparr>bca_sha = demo_sha, bca_keccak = (\<lambda>b. replicate 12 0 @ copy_bytes (replicate 20 0) b), bca_recover = (\<lambda>_ sig. Some sig),
     bca_wire = demo_wire, bca_messages = demo_messages,
     bca_config = \<lparr>bcc_nodeAddress = demo_address k, bcc_genesisValidatorNodes = [demo_address 1, demo_address 2],
       bcc_constantLeader = demo_address 1, bcc_requiredQuorumPercentage = 66\<rparr>,
     bca_sign = (\<lambda>_. Some [k]), bca_storage = memPersistence demo_wire,
     bca_requestNewTransactionsBlock = createTransactionsBlock demo_sha demo_wire [] [] demo_cc demo_fetch,
     bca_requestNewResultsBlock = createResultsBlock demo_sha demo_wire [] demo_cc demo_process (\<lambda>_. Some [5]), bca_gossip = (\<lambda>_. True),
     bca_sendCommitted = (\<lambda>_. True)\<rparr>"

lemma demo_address_ok: "length (demo_address k) = NODE_ADDRESS_SIZE_BYTES" "demo_address 1 \<noteq> demo_address 2"
  by (simp_all add: demo_address_def NODE_ADDRESS_SIZE_BYTES_def copy_bytes_def)

lemma demo_verify: "verify (demo_bc j) (demo_address k) d [k] = Ok ()"
  using demo_address_ok(1) [of k]
  by (simp add: verify_def demo_bc_def VerifyNodeSignature_def CalcNodeAddressFromPublicKey_def CalcKeccak256_def hashBytes_def demo_address_def)

lemma demo_simps:
  "bca_messages (demo_bc k) = demo_messages" "bca_sign (demo_bc k) d = Some [k]" "bcc_nodeAddress (bca_config (demo_bc k)) = demo_address k"
  "bca_config (demo_bc 1) = bca_config (demo_bc k)\<lparr>bcc_nodeAddress := demo_address 1\<rparr>"
  "bcc_genesisValidatorNodes (bca_config (demo_bc k)) = [demo_address 1, demo_address 2]" "bcc_constantLeader (bca_config (demo_bc k)) = demo_address 1"
  "bcc_requiredQuorumPercentage (bca_config (demo_bc k)) = 66" "bca_storage (demo_bc k) = memPersistence demo_wire"
  "bca_sendCommitted (demo_bc k) m" "bca_gossip (demo_bc k) b"
  by (simp_all add: demo_bc_def)

lemma demo_network:
  "same_network (demo_bc 1) (demo_bc 2)" "messages_ok (bca_messages (demo_bc k))" "honest_signer (demo_bc k)" "isLeader (bca_config (demo_bc 1))"
  "\<not> isLeader (bca_config (demo_bc 2))" "uses_context (demo_bc k) [] [] demo_cc demo_fetch demo_process (\<lambda>_. Some [5])"
proof -
  show "honest_signer (demo_bc k)" by (simp add: honest_signer_def demo_simps(2,3) demo_verify)
  show "messages_ok (bca_messages (demo_bc k))" by (simp add: demo_simps(1) messages_ok_def demo_messages_def NODE_ADDRESS_SIZE_BYTES_def)
  show "uses_context (demo_bc k) [] [] demo_cc demo_fetch demo_process (\<lambda>_. Some [5])"
    by (simp add: uses_context_def demo_bc_def demo_cc_def ProtocolVersion_blocks_def)
qed (simp_all add: same_network_def demo_bc_def isLeader_def demo_address_ok(2) demo_address_ok(2) [symmetric])

definition demo_genesis :: BlockPairContainer where
  "demo_genesis = (case leaderGenerateGenesisBlock (demo_bc 1) of Ok b \<Rightarrow> b)"

lemma demo_genesis: "leaderGenerateGenesisBlock (demo_bc 1) = Ok demo_genesis" "block_at demo_genesis 0"
  "snd (leaderBroadcastCommittedBlock (demo_bc 1) (Some demo_genesis) s) = Ok ()"
  by (simp_all add: demo_genesis_def leaderGenerateGenesisBlock_def leaderSignBlockProposal_def signedDataForBlockProof_def demo_bc_def demo_messages_def
      tx_header_def block_at_def leaderBroadcastCommittedBlock_def Let_def)

lemma demo_proposal: "\<exists>b. leaderGenerateNewProposedBlock (demo_bc 1) 0 (Some (demo_block 0)) = Ok b"
  "\<exists>b. leaderGenerateNewProposedBlock (demo_bc 1) 0 (Some demo_genesis) = Ok b"
  using demo_genesis(2) by (auto simp: block_at_def leaderGenerateNewProposedBlock_def demo_bc_def demo_block_def tx_header_def rx_header_def createTransactionsBlock_def createResultsBlock_def
      fetchTransactions_def demo_fetch_def demo_process_def leaderSignBlockProposal_def signedDataForBlockProof_def Let_def)

definition demo_bc_state :: "8 word \<Rightarrow> InMemoryBlockPersistence BCService" where
  "demo_bc_state k = NewBenchmarkConsensusAlgo True (bca_config (demo_bc k))
     \<lparr>bs_blockHeight = 0, bs_lastCommittedTime = 0, bs_notified = 0\<rparr> (NewBlockPersistence [])"

lemma demo_bc_state:
  "bc_lastCommittedBlock (demo_bc_state k) = None" "bc_blocks (demo_bc_state k) = NewBlockPersistence []"
  "imb_blocks (NewBlockPersistence []) = []" "mem_ok (NewBlockPersistence [])" "bc_voters (demo_bc_state k) = []" "bc_voted (demo_bc_state k) = []"
  "bc_lastSuccessfullyVotedBlock (demo_bc_state k) = blockHeightNone" "bc_loop (demo_bc_state 1) = LoopStart" "\<not> bc_reachedQuorum (demo_bc_state k)"
  using mem_ok_new [of "[]"] demo_network(4)
  by (simp_all add: demo_bc_state_def NewBenchmarkConsensusAlgo_def NewBlockPersistence_def chain_at_def)

subsection \<open>Properties\<close>

text \<open>
  C37. The leader starts without a block. However its loop, the handlers of votes and the handlers of blocks from
  elsewhere interleave, as long as the genesis block is not put over a block that a handler has set since the loop
  found none: when the leader has proposed and saved a block to follow the block \<open>c\<close>, then it has received
  committed messages, with signatures that verify, by which so many different validators say that their last
  committed height is the height of \<open>c\<close> that they are, with the leader, the required quorum. (The height
  \<open>2^64 - 1\<close> stands for no height and is excepted.)
\<close>

theorem leader_proposes_after_quorum:
  assumes "bcRun P (NewBenchmarkConsensusAlgo active (bca_config P) bs p) tr ms" "successively genesisKept tr"
    and "bc_loop (last tr) = TickUpdate b c"
  shows "\<exists>c' tb th. c = Some c' \<and> bp_tx c' = (Ok (tb, th) :: (bcError, _) result) \<and> (tbh_blockHeight th = blockHeightNone \<or>
    (\<exists>V. distinct V \<and> set V \<subseteq> set (bcc_genesisValidatorNodes (bca_config P)) \<and> requiredQuorumSize (bca_config P) \<le> length V + 1 \<and>
      (\<forall>v \<in> set V. \<exists>sig. (v, sig, tbh_blockHeight th) \<in> set ms \<and> verify P v (bw_status (bca_messages P) (tbh_blockHeight th)) sig = Ok ())))"
proof -
  have "bc_ok P ms (last tr)" by (rule bcRun_ok [OF assms(1) init_ok assms(2)])
  then obtain c' tb th where c: "c = Some c'" "bp_tx c' = (Ok (tb, th) :: (bcError, _) result)" "confirmed P ms (tbh_blockHeight th)"
    using assms(3) by (auto simp: bc_ok_def loop_ok_def)
  have "tbh_blockHeight th = blockHeightNone \<or> (\<exists>V. distinct V \<and> set V \<subseteq> set (bcc_genesisValidatorNodes (bca_config P)) \<and>
      requiredQuorumSize (bca_config P) \<le> length V + 1 \<and>
      (\<forall>v \<in> set V. \<exists>sig. (v, sig, tbh_blockHeight th) \<in> set ms \<and> verify P v (bw_status (bca_messages P) (tbh_blockHeight th)) sig = Ok ()))"
    using c(3) unfolding confirmed_def quorumSigned_def validVote_def by blast
  then show ?thesis using c(1,2) by blast
qed

lemma demo_saves:
  assumes "leaderGenerateNewProposedBlock (demo_bc 1) 0 (Some c) = Ok b" "bc_blocks s = NewBlockPersistence []"
  shows "\<exists>s'. saveToBlockStorage (demo_bc 1) b s = Ok s'"
proof -
  note val = proposal_validates [OF demo_network(1,2,3,4,6) assms(1)]
  have at: "block_at b (of_nat (length (imb_blocks (bc_blocks s))) + 1)" using val(2) assms(2) demo_bc_state(3) by simp
  obtain bs' p where "CommitBlock (bca_wire (demo_bc 1)) (memPersistence demo_wire) (bc_service s) (bc_blocks s) b True = Ok (bs', p)"
    using mem.commit_next [OF mem_repr TrueI at _ val(3), of "bca_wire (demo_bc 1)" demo_wire "bc_service s" True True] assms(2) demo_bc_state(3,4)
    by (auto simp: CommitBlock_def)
  then show ?thesis by (simp add: saveToBlockStorage_def demo_simps(8) block_at_simps [OF val(2)])
qed

text \<open>The first round of a leader: genesis, broadcast, one vote, proposal.\<close>

lemma demo_run:
  "\<exists>tr b. bcRun (demo_bc 1) (demo_bc_state 1) tr [(demo_address 2, [2], 0)] \<and> successively genesisKept tr \<and>
    bc_loop (last tr) = TickUpdate b (Some demo_genesis)"
proof -
  let ?P = "demo_bc 1" and ?s1 = "demo_bc_state 1"
  let ?s2 = "?s1\<lparr>bc_lastCommittedBlock := Some demo_genesis, bc_loop := TickStart\<rparr>"
  let ?s3 = "?s2\<lparr>bc_loop := TickBroadcast (Some demo_genesis) 0\<rparr>"
  define s4 where "s4 = tickBroadcast ?P (Some demo_genesis) 0 ?s3"
  have s4: "bc_lastCommittedBlock s4 = Some demo_genesis" "bc_loop s4 = Waiting" "bc_voters s4 = []" "bc_voted s4 = []" "\<not> bc_reachedQuorum s4"
      "bc_blocks s4 = NewBlockPersistence []"
    using demo_genesis(3) [of ?s3] demo_bc_state
    by (auto simp: s4_def tickBroadcast_def leaderBroadcastCommittedBlock_def endTick_def demo_simps(5) split: result.splits option.splits if_splits)
  let ?s5 = "s4\<lparr>bc_voters := [demo_address 2], bc_reachedQuorum := True, bc_voted := [0]\<rparr>"
  let ?s6 = "?s5\<lparr>bc_lastSuccessfullyVotedBlock := 0, bc_voted := [], bc_loop := TickStart\<rparr>"
  let ?ms = "[(demo_address 2, [2], 0 :: BlockHeight)]"
  have last: "getLastCommittedBlock s = Ok (0, Some demo_genesis)" if "bc_lastCommittedBlock s = Some demo_genesis" for s :: "InMemoryBlockPersistence BCService"
    using that by (simp add: getLastCommittedBlock_def block_at_simps [OF demo_genesis(2)])
  have r1: "bcRun ?P ?s1 [?s1] []" by (rule bcRun.start)
  have "setGenesisBlock ?P ?s1 = ?s2" by (simp add: setGenesisBlock_def demo_genesis(1))
  then have r2: "bcRun ?P ?s1 ([?s1] @ [?s2]) []"
    using bcRun.loop [OF r1, of ?s1 ?s2] leaderConsensusRoundRunLoop.genesis [of "last [?s1]" ?s1 ?P] by (simp add: demo_bc_state)
  have "tickPropose ?P ?s2 ?s2 = ?s3" by (simp add: tickPropose_def last demo_bc_state blockHeightNone_def)
  then have r3: "bcRun ?P ?s1 ([?s1, ?s2] @ [?s3]) []"
    using bcRun.loop [OF r2, of ?s2 ?s3] leaderConsensusRoundRunLoop.propose [of "last ([?s1] @ [?s2])" ?P ?s2] by simp
  have r4: "bcRun ?P ?s1 ([?s1, ?s2, ?s3] @ [s4]) []"
    using bcRun.loop [OF r3, of ?s1 s4] leaderConsensusRoundRunLoop.broadcast [of "last ([?s1, ?s2] @ [?s3])" "Some demo_genesis" 0 ?P ?s1]
    by (simp add: s4_def)
  have "fst (HandleBenchmarkConsensusCommitted ?P s4 (demo_address 2) [2] 0 s4) = ?s5"
    using demo_network(4) demo_verify [of 1 2 "bw_status demo_messages 0"] s4
    by (simp add: HandleBenchmarkConsensusCommitted_def leaderHandleCommittedVote_def last leaderValidateVote_def leaderAddVote_def
        demo_simps(1,5,7) requiredQuorumSize_def Let_def)
  then have r5: "bcRun ?P ?s1 ([?s1, ?s2, ?s3, s4] @ [?s5]) ?ms" using bcRun.vote [OF r4, of s4 "demo_address 2" "[2]" 0] s4(2) by simp
  have r6: "bcRun ?P ?s1 ([?s1, ?s2, ?s3, s4, ?s5] @ [?s6]) ?ms"
    using bcRun.loop [OF r5, of ?s1 ?s6] leaderConsensusRoundRunLoop.voted [of "last ([?s1, ?s2, ?s3, s4] @ [?s5])" 0 ?P ?s1] s4(2) by simp
  obtain b where b0: "leaderGenerateNewProposedBlock ?P 0 (Some demo_genesis) = Ok b" using demo_proposal(2) by blast
  obtain s7 where "saveToBlockStorage ?P b ?s6 = Ok s7" using demo_saves [OF b0, of ?s6] s4(6) by auto
  note b = b0 this
  let ?s7 = "s7\<lparr>bc_loop := TickUpdate b (Some demo_genesis)\<rparr>"
  have "tickPropose ?P s4 ?s6 = ?s7" using b s4(1) by (simp add: tickPropose_def last)
  then have r7: "bcRun ?P ?s1 ([?s1, ?s2, ?s3, s4, ?s5, ?s6] @ [?s7]) ?ms"
    using bcRun.loop [OF r6, of s4 ?s7] leaderConsensusRoundRunLoop.propose [of "last ([?s1, ?s2, ?s3, s4, ?s5] @ [?s6])" ?P s4] by simp
  have "successively genesisKept ([?s1, ?s2, ?s3, s4, ?s5, ?s6] @ [?s7])"
    using s4(1,2) demo_bc_state(1) by (simp add: genesisKept_def)
  then show ?thesis using r7 by (intro exI [of _ "[?s1, ?s2, ?s3, s4, ?s5, ?s6] @ [?s7]"] exI [of _ b]) simp
qed

theorem leader_proposes_after_quorum_witness:
  "\<exists>tr b. bcRun (demo_bc 1) (demo_bc_state 1) tr [(demo_address 2, [2], 0)] \<and> bc_loop (last tr) = TickUpdate b (Some demo_genesis) \<and>
    (\<exists>V. distinct V \<and> requiredQuorumSize (bca_config (demo_bc 1)) \<le> length V + 1 \<and>
      (\<forall>v \<in> set V. \<exists>sig. (v, sig, 0) \<in> {(demo_address 2, [2], 0 :: BlockHeight)}))"
proof -
  obtain tr b where run: "bcRun (demo_bc 1) (demo_bc_state 1) tr [(demo_address 2, [2], 0)]" "successively genesisKept tr"
    "bc_loop (last tr) = TickUpdate b (Some demo_genesis)" using demo_run by blast
  from leader_proposes_after_quorum [OF run(1) [unfolded demo_bc_state_def] run(2,3)]
  have "\<exists>V. distinct V \<and> requiredQuorumSize (bca_config (demo_bc 1)) \<le> length V + 1 \<and>
      (\<forall>v \<in> set V. \<exists>sig. (v, sig, 0) \<in> {(demo_address 2, [2], 0 :: BlockHeight)})"
    by (auto simp: block_at_simps [OF demo_genesis(2)] blockHeightNone_def)
  then show ?thesis using run by blast
qed

text \<open>
  C31. One round of the protocol goes through: a block the leader makes, from the block it committed last and
  what the consensus context creates, is accepted by every node that is at the same block, extends the chain
  that node stores and becomes its last committed block; and the reply it sends, when the network takes it, is a vote
  that the leader counts, and with enough votes the height is handed to the leader's loop.
\<close>

theorem proposed_block_committed_and_counted:
  assumes net: "same_network P Q" "messages_ok (bca_messages P)" "honest_signer P" "isLeader (bca_config P)"
    and node: "honest_signer Q" "\<not> isLeader (bca_config Q)" "bcc_nodeAddress (bca_config Q) \<in> set (bcc_genesisValidatorNodes (bca_config Q))"
    and ctx: "uses_context P em ep ccfg fetch process getStateHash" "leaderGenerateNewProposedBlock P h (Some c) = Ok b"
    and chain: "bca_storage Q = memPersistence w" "bc_lastCommittedBlock s = Some c" "block_at c h" "mem_ok (bc_blocks s)"
      "h = of_nat (length (imb_blocks (bc_blocks s)))" "length (imb_blocks (bc_blocks s)) + 1 < 2 ^ 63"
    and leader: "bc_lastCommittedBlock l = Some b"
  shows "\<exists>s' sig m. m = \<lparr>cm_recipient = bcc_constantLeader (bca_config P), cm_height = h + 1,
      cm_sender = bcc_nodeAddress (bca_config Q), cm_signature = sig\<rparr> \<and>
    HandleBenchmarkConsensusCommit Q s b s = (s', if bca_sendCommitted Q m then Ok () else Err ErrSendCommitted) \<and>
    bc_lastCommittedBlock s' = Some b \<and> mem_ok (bc_blocks s') \<and> imb_blocks (bc_blocks s') = imb_blocks (bc_blocks s) @ [b] \<and>
    bc_replies s' = bc_replies s @ (if bca_sendCommitted Q m then [m] else []) \<and>
    (let (l', r) = HandleBenchmarkConsensusCommitted P l (bcc_nodeAddress (bca_config Q)) sig (h + 1) l
     in r = Ok () \<and> bcc_nodeAddress (bca_config Q) \<in> set (bc_voters l') \<and>
        (requiredQuorumSize (bca_config P) \<le> length (bc_voters l') + 1 \<and> \<not> bc_reachedQuorum l \<longrightarrow> h + 1 \<in> set (bc_voted l')))"
proof -
  note val = proposal_validates [OF net ctx]
  obtain rb bsig where rb: "bp_resultsBlock b = Some rb" "bw_nodes (bca_messages Q) (rbc_blockProof rb) = [(bcc_constantLeader (bca_config P), bsig)]"
    using val(4) by blast
  obtain sig where sig: "bca_sign Q (bw_status (bca_messages Q) (h + 1)) = Some sig" "verify Q (bcc_nodeAddress (bca_config Q)) (bw_status (bca_messages Q) (h + 1)) sig = Ok ()"
    using node(1) unfolding honest_signer_def by blast
  have vote: "bcc_nodeAddress (bca_config Q) \<in> set (bcc_genesisValidatorNodes (bca_config P))"
    "verify P (bcc_nodeAddress (bca_config Q)) (bw_status (bca_messages P) (h + 1)) sig = Ok ()"
    using node(3) sig(2) net(1) verify_same [OF net(1)] by (simp_all add: same_network_def)
  obtain l' r where l': "leaderHandleCommittedVote P l (bcc_nodeAddress (bca_config Q)) sig (h + 1) l = (l', r)" by fastforce
  note counted = vote_is_counted [OF leader val(2) vote, unfolded l' fst_conv snd_conv]
  have h1: "HandleBenchmarkConsensusCommitted P l (bcc_nodeAddress (bca_config Q)) sig (h + 1) l = (l', r)"
    using l' net(4) by (simp add: HandleBenchmarkConsensusCommitted_def)
  have h2: "HandleBenchmarkConsensusCommit Q s b s = nonLeaderHandleCommit Q s b s" using node(2) by (simp add: HandleBenchmarkConsensusCommit_def)
  define m where "m = \<lparr>cm_recipient = bcc_constantLeader (bca_config P), cm_height = h + 1, cm_sender = bcc_nodeAddress (bca_config Q), cm_signature = sig\<rparr>"
  obtain s' where s': "nonLeaderHandleCommit Q s b s = (s', if bca_sendCommitted Q m then Ok () else Err ErrSendCommitted)"
    "bc_lastCommittedBlock s' = Some b" "mem_ok (bc_blocks s')" "imb_blocks (bc_blocks s') = imb_blocks (bc_blocks s) @ [b]"
    "bc_replies s' = bc_replies s @ (if bca_sendCommitted Q m then [m] else [])"
    using nonLeader_commits [OF val(1-3) rb sig(1) chain m_def] by blast
  show ?thesis by (intro exI [of _ s'] exI [of _ sig] exI [of _ m]) (use s' counted m_def in \<open>simp add: h1 h2 Let_def\<close>)
qed

theorem proposed_block_committed_and_counted_witness:
  "\<exists>b s'. leaderGenerateNewProposedBlock (demo_bc 1) 0 (Some (demo_block 0)) = Ok b \<and>
    HandleBenchmarkConsensusCommit (demo_bc 2) ((demo_bc_state 2)\<lparr>bc_lastCommittedBlock := Some (demo_block 0)\<rparr>) b
      ((demo_bc_state 2)\<lparr>bc_lastCommittedBlock := Some (demo_block 0)\<rparr>) = (s', Ok ()) \<and> imb_blocks (bc_blocks s') = [b]"
proof -
  let ?s = "(demo_bc_state 2)\<lparr>bc_lastCommittedBlock := Some (demo_block 0)\<rparr>"
  obtain b where b: "leaderGenerateNewProposedBlock (demo_bc 1) 0 (Some (demo_block 0)) = Ok b" using demo_proposal(1) by blast
  show ?thesis
    using proposed_block_committed_and_counted [OF demo_network(1,2,3,4,3,5) _ demo_network(6) b demo_simps(8) _ demo_block_at, of ?s "(demo_bc_state 1)\<lparr>bc_lastCommittedBlock := Some b\<rparr>"]
      b demo_simps(3,5,9) demo_bc_state(2,3,4) by auto
qed

text \<open>In a network of one node the loop never gets past the first broadcast.\<close>

lemma single_node_blocks:
  assumes "length (bcc_genesisValidatorNodes (bca_config P)) = 1" "snd (leaderBroadcastCommittedBlock P b s) = Ok ()"
  shows "bc_loop (tickBroadcast P b h s) = BlockedOnOwnChannel h" "\<not> leaderConsensusRoundRunLoop P s0 (tickBroadcast P b h s) s'"
proof -
  show pc: "bc_loop (tickBroadcast P b h s) = BlockedOnOwnChannel h"
    using assms by (cases "leaderBroadcastCommittedBlock P b s") (simp add: tickBroadcast_def)
  show "\<not> leaderConsensusRoundRunLoop P s0 (tickBroadcast P b h s) s'"
    using pc by (auto elim: leaderConsensusRoundRunLoop.cases)
qed

end
