(* ===== verification/Spec2Isabelle.thy ===== *)
theory Spec2Isabelle
  imports Slices_Update Forest_Proofs Ordered_Tree State_Storage_Correct Bloom_Filter Hex_Encoding Consensus_Context
    Service_Sync File_Persistence_Correct Virtual_Machine_Correct Ethereum_Connector Block_Sync_Correct
    Benchmark_Consensus_Correct
begin

text \<open>
  A verification library for \<open>orbs-network-go\<close>, the node of a permissioned blockchain. Paths below are relative to
  \<open>src/\<close>.

  \<^bold>\<open>The program.\<close> Clients send transactions to the transaction pool (\<open>services/transactionpool\<close>), which keeps them
  until they are ordered. A consensus algorithm (\<open>services/consensusalgo\<close>) asks the consensus context
  (\<open>services/consensuscontext\<close>) to make the next block, or to validate one that another node made. For that the
  context takes transactions from the pool and has the virtual machine (\<open>services/virtualmachine\<close>) execute them on the
  state storage (\<open>services/statestorage\<close>), whose root hash is that of a Merkle trie (\<open>crypto/merkle\<close>). Decided blocks
  go to block storage (\<open>services/blockstorage\<close>), in memory or in a file; from there service sync brings them to
  the state storage and the pool, and block sync brings them to other nodes. Contracts read Ethereum through the
  connector (\<open>services/crosschainconnector/ethereum\<close>).

  \<^bold>\<open>Conventions.\<close> \<open>Prelude\<close> holds the shared types and list facts. A byte slice is a list of 8-bit words, a \<open>uint64\<close>
  or \<open>uint32\<close> a word of that width with its wrap-around, and a function that returns an error or panics
  returns a \<open>result\<close>: \<open>Ok\<close>, \<open>Err\<close> or \<open>Panic\<close>. A service is a record with the fields of its struct, an operation a
  function from the state to the new state and the answer. A mutex that guards a whole operation makes it one step;
  where the code gives it up in between, the operation takes the two states, or the events, that it sees. Go maps are
  partial maps, or association lists where a loop ranges over them. \<open>Protocol\<close> has the messages of the \<open>orbs-spec\<close>
  package as records. Their encodings (\<open>Wire\<close>), SHA256 and keccak, signatures, clocks, the processors and the
  connection to Ethereum are not part of the repository and are parameters; what is assumed of them is a hypothesis of
  the theorem that needs it, and the theorem's witness instantiates it.

  \<^bold>\<open>Merkle trie forest\<close> (\<open>merkle_algo.go\<close>, \<open>merkle_trie_forest.go\<close>). \<open>Merkle_Algo\<close> has \<open>insert\<close>, \<open>collapseAndHash\<close> and
  their helpers, \<open>Merkle_Forest\<close> the forest with \<open>Update\<close>, \<open>GetProof\<close>, \<open>Verify\<close> and \<open>Forget\<close>, both with the paths of
  nodes as values. \<open>Merkle_Trie\<close> shows what insertion and collapsing do to the stored map, \<open>Merkle_Canonical\<close> that
  collapsed tries are determined by it (locale \<open>node_hasher\<close>, interpreted for both kinds of trees), \<open>Forest_Correct\<close>
  that the order of diffs is irrelevant, and \<open>Forest_Proofs\<close> that generated proofs verify and that \<open>Verify\<close> also
  accepts a false exclusion proof. In the code a path is a slice, and \<open>collapseOnlyChild\<close> appends to it in place when
  its array has room. \<open>Merkle_Slices\<close> therefore has the algorithm and \<open>Update\<close> a second time, over an explicit store
  of backing arrays with Go's \<open>append\<close>, the growth of arrays being a parameter. \<open>Slices_Correct\<close> and
  \<open>Slices_Collapse\<close> show that the nodes of one tree own their arrays in such a way that the writes change no path of
  the new tree; \<open>Slices_Update\<close> concludes that the new root stores the updated map, and that a history of updates
  ends with a hash determined by the map. The same does not hold of older roots: \<open>older_revision_overwritten\<close> is a
  run in which one of them is changed. So what is proved on values, in \<open>Forest_Correct\<close>, \<open>Forest_Proofs\<close> and for the
  state storage, which updates its newest root only and never reads an older tree, applies to the code for the newest
  root of each line of updates.

  \<^bold>\<open>Other cryptographic code.\<close> \<open>Ordered_Tree\<close> (\<open>merkle_ordered_tree.go\<close>): the root by collapsing an array equals the
  root of the tree by insertion, and proofs verify. \<open>Digest\<close> (\<open>crypto/digest\<close>, \<open>crypto/validators\<close>), \<open>Byte_Words\<close>
  (\<open>crypto/logic/xor.go\<close>, word-wise equal to byte-wise), \<open>Hex_Encoding\<close> (\<open>crypto/encoding/hex.go\<close>), \<open>Bloom_Filter\<close>
  (\<open>crypto/bloom/timestamp.go\<close>, no false negatives).

  \<^bold>\<open>State storage.\<close> \<open>Block_Tracker\<close> (\<open>synchronization/block_tracker.go\<close>): no wake-up is lost. \<open>State_Storage\<close>: the
  service, the rolling revisions and the in-memory persistence. \<open>Rolling_Revisions\<close> has the contracts of the two
  interfaces as locales, \<open>State_Storage_Correct\<close> interprets them and shows that commits extend a history of diffs,
  that reads give the state of that history, and that equal states have equal hashes.

  \<^bold>\<open>Transaction pool.\<close> \<open>Pending_Pool\<close> (\<open>pending_pool.go\<close>): the invariant of the pool in every reachable state, maximal
  batches, and that clearing removes one transaction only. \<open>Transaction_Pool\<close>: the committed pool, validation,
  forwarding and the operations of the service. \<open>Transaction_Pool_Correct\<close>: proposals validate, commits move
  transactions, forgotten transactions have expired.

  \<^bold>\<open>Consensus context.\<close> \<open>Consensus_Context\<close>: exactly when a transactions block that a node makes is accepted by another,
  that results blocks are, and that an accepted results block is the one the node would have made.

  \<^bold>\<open>Block storage.\<close> \<open>Block_Storage\<close> has the in-memory persistence, commits, queries, proofs and the answers to other
  nodes, over a record of operations for the interface \<open>BlockPersistence\<close>; \<open>Block_Storage_Correct\<close> has its contract
  as the locale \<open>block_persistence\<close>. \<open>Block_Codec\<close>, \<open>Checksum\<close> and \<open>File_Persistence\<close> are the file format, CRC-32 and
  the store in a file; \<open>Block_Codec_Correct\<close> shows the round trip and that a corrupted byte is noticed,
  \<open>File_Persistence_Correct\<close> interprets the same locale and shows recovery after a crash. \<open>Service_Sync\<close> brings both
  services to the top of the chain, through the locale \<open>block_committer\<close>. \<open>Block_Sync\<close> is the state machine of
  \<open>internodesync\<close> over lists of events; \<open>Block_Sync_Correct\<close> shows that the chain only grows by accepted blocks and
  that a round makes progress.

  \<^bold>\<open>Virtual machine.\<close> \<open>Virtual_Machine\<close>: execution, SDK calls, deployments, pre-order checks. \<open>Virtual_Machine_Correct\<close>:
  the layered transient state implements one plain state with rollback (locale \<open>context_simulation\<close>), and committing
  the diffs of a block makes the storage read the final state.

  \<^bold>\<open>Ethereum.\<close> \<open>Timestamp_Finder\<close> (\<open>timestampfinder\<close>, \<open>finality.go\<close>): the search ends and finds the block.
  \<open>Ethereum_Connector\<close>: every block that an answer refers to is final.

  \<^bold>\<open>Benchmark consensus.\<close> \<open>Benchmark_Consensus\<close>: the leader, the other nodes and the handlers, each operation with the
  state it reads and the state it updates; \<open>bcRun\<close> is every interleaving of them from the constructor on, with the
  votes received. \<open>Benchmark_Consensus_Correct\<close>: the leader moves on after a quorum only, as long as the genesis block
  is not put over another one, and a round commits the block. Where the code compares pointers to block pairs the
  model compares contents: two pairs with the same contents but different pointers are taken to be the same, so
  that an update may go through in the model that the code skips. The quorum is computed on integers, which agrees with
  the floating-point quotient of the code as long as that is below $2^{46}$.

  \<^bold>\<open>Bounds.\<close> Loops over data are recursive functions with termination proofs. \<open>scanLoop\<close>, \<open>fs_scanLoop\<close> and
  \<open>bucketLoop\<close> are partial functions: with page size 0 a scan does not end; the properties that use them state that
  they return. The virtual machine takes the allowed depth of nested contract calls, and its properties hold for
  every depth and say when it is exceeded. The finder has the step limit of the code, which is proved to suffice for
  block numbers below $2^{62}$. Block sync consumes a list of events; where it would wait for more, it returns \<open>None\<close>.

  \<^bold>\<open>Not modelled.\<close> Lean Helix consensus, whose protocol is a library; gossip, its codecs and transports; the public
  API, the HTTP server, configuration, bootstrap, metrics, logging and tracing; the native and JavaScript processors
  with the system contracts that run in them (a parameter of the virtual machine); signing; the committee requests of
  the consensus context; file locking; the polling of topology and management data; code of tests.
\<close>

end
